(* ===== verification/Prelude.thy ===== *)
theory Prelude
  imports Main "HOL-Library.Word" "HOL-Library.Monad_Syntax"
begin

text \<open>
  Shared vocabulary of the development: the machine integers of the sources, pointers,
  the error codes of \<^verbatim>\<open>include/tinyos.h\<close>, and the generic facts on words, on linked
  lists threaded through a \<open>next\<close> field and on option-valued computations that the
  component theories use.

  A C function that may dereference NULL or loop forever is an option-valued function
  here: \<open>None\<close> stands for "does not complete", \<open>Some r\<close> for a normal return with \<open>r\<close>.
\<close>

unbundle bit_operations_syntax

section \<open>Machine integers and pointers\<close>

type_synonym u8 = "8 word"
type_synonym u16 = "16 word"
type_synonym u32 = "32 word"
type_synonym u64 = "64 word"

type_synonym addr = nat
type_synonym ptr = "addr option"

text \<open>The code sets \<open>None\<close> where the sources write NULL.\<close>

datatype os_error =
    OS_OK
  | OS_ERROR
  | OS_ERROR_NO_MEMORY
  | OS_ERROR_INVALID_PARAM
  | OS_ERROR_TIMEOUT
  | OS_ERROR_PERMISSION_DENIED
  | OS_ERROR_NOT_IMPLEMENTED
  | OS_ERROR_NO_RESOURCE
  | OS_ERROR_NOT_INITIALIZED

named_theorems frame_simps \<open>what an operation leaves unchanged\<close>
named_theorems refine_intros \<open>refinement steps of the linked structures\<close>

section \<open>Linked lists through a next field\<close>

text \<open>
  \<open>chain nx p as\<close>: following \<open>nx\<close> from \<open>p\<close> visits exactly the addresses \<open>as\<close> and ends
  in NULL.
\<close>

fun chain :: "(addr \<Rightarrow> ptr) \<Rightarrow> ptr \<Rightarrow> addr list \<Rightarrow> bool" where
  "chain nx p [] \<longleftrightarrow> p = None"
| "chain nx p (a # as) \<longleftrightarrow> p = Some a \<and> chain nx (nx a) as"

lemma chain_None [simp]: "chain nx None as \<longleftrightarrow> as = []"
  by (cases as) auto

lemma chain_Some: "chain nx (Some a) as \<longleftrightarrow> (\<exists>bs. as = a # bs \<and> chain nx (nx a) bs)"
  by (cases as) auto

lemma chain_unique: "chain nx p as \<Longrightarrow> chain nx p bs \<Longrightarrow> as = bs"
  by (induction as arbitrary: p bs) (auto simp: chain_Some)

lemma chain_cong: "(\<And>a. a \<in> set as \<Longrightarrow> nx a = ny a) \<Longrightarrow> chain nx p as = chain ny p as"
  by (induction as arbitrary: p) auto

lemma chain_upd [simp]: "a \<notin> set as \<Longrightarrow> chain (nx(a := q)) p as = chain nx p as"
  by (rule chain_cong) auto

fun path :: "(addr \<Rightarrow> ptr) \<Rightarrow> ptr \<Rightarrow> addr list \<Rightarrow> ptr \<Rightarrow> bool" where
  "path nx p [] q \<longleftrightarrow> p = q"
| "path nx p (a # as) q \<longleftrightarrow> p = Some a \<and> path nx (nx a) as q"

lemma chain_append: "chain nx p (as @ bs) \<longleftrightarrow> (\<exists>q. path nx p as q \<and> chain nx q bs)"
  by (induction as arbitrary: p) auto

lemma chain_distinct: "chain nx p as \<Longrightarrow> distinct as"
proof (induction as arbitrary: p)
  case (Cons a as)
  have "a \<notin> set as"
  proof
    assume "a \<in> set as"
    then obtain us vs where as: "as = us @ a # vs"
      by (auto simp: in_set_conv_decomp)
    from Cons.prems have "chain nx (nx a) (us @ a # vs)"
      by (simp add: as)
    then have "chain nx (nx a) vs"
      by (auto simp: chain_append)
    with \<open>chain nx (nx a) (us @ a # vs)\<close> have "us @ a # vs = vs"
      by (rule chain_unique)
    then have "length (us @ a # vs) = length vs"
      by (rule arg_cong)
    then show False by simp
  qed
  with Cons show ?case by auto
qed simp

lemma path_cong: "(\<And>a. a \<in> set as \<Longrightarrow> nx a = ny a) \<Longrightarrow> path nx p as q = path ny p as q"
  by (induction as arbitrary: p) auto

lemma path_upd [simp]: "a \<notin> set as \<Longrightarrow> path (nx(a := r)) p as q = path nx p as q"
  by (rule path_cong) auto

lemma path_append [simp]: "path nx p (as @ bs) r \<longleftrightarrow> (\<exists>q. path nx p as q \<and> path nx q bs r)"
  by (induction as arbitrary: p) auto

text \<open>Linking a fresh address behind the last one, and unlinking one behind its predecessor.\<close>

lemma chain_snoc:
  assumes "chain nx p as" and "as \<noteq> []" and "a \<notin> set as"
  shows "chain (nx(last as := Some a, a := None)) p (as @ [a])"
proof -
  define bs where "bs = butlast as"
  define z where "z = last as"
  have as: "as = bs @ [z]" using assms(2) by (simp add: bs_def z_def)
  have z: "z \<notin> set bs" using chain_distinct [OF assms(1)] by (simp add: as)
  have "path nx p bs (Some z)" using assms(1) by (simp add: as chain_append)
  then have "path (nx(z := Some a, a := None)) p bs (Some z)"
    using z assms(3) by (simp add: as)
  then show ?thesis using assms(3) by (auto simp: as chain_append)
qed

lemma chain_unlink:
  assumes "chain nx p (us @ a # vs)" and "us \<noteq> []"
  shows "chain (nx(last us := nx a, a := None)) p (us @ vs)"
proof -
  define bs where "bs = butlast us"
  define z where "z = last us"
  have us: "us = bs @ [z]" using assms(2) by (simp add: bs_def z_def)
  have d: "distinct (bs @ z # a # vs)" using chain_distinct [OF assms(1)] by (simp add: us)
  have "path nx p bs (Some z)" and "chain nx (nx a) vs"
    using assms(1) by (auto simp: us chain_append)
  then have "path (nx(z := nx a, a := None)) p bs (Some z)"
    and "chain (nx(z := nx a, a := None)) (nx a) vs"
    using d by auto
  then show ?thesis using d by (auto simp: us chain_append)
qed

lemma chain_unlink_head:
  assumes "chain nx p (a # vs)"
  shows "chain (nx(a := None)) (nx a) vs"
  using assms chain_distinct [OF assms] by auto

lemma chain_truncate:
  assumes "chain nx p (us @ a # vs)"
  shows "chain (nx(a := None)) p (us @ [a])"
  using assms chain_distinct [OF assms] by (auto simp: chain_append)

lemma chain_link_after:
  assumes "chain nx p (us @ vs)" and "us \<noteq> []" and "a \<notin> set (us @ vs)"
  shows "chain (nx(a := nx (last us), last us := Some a)) p (us @ a # vs)"
proof -
  define bs where "bs = butlast us"
  define z where "z = last us"
  have us: "us = bs @ [z]" using assms(2) by (simp add: bs_def z_def)
  have d: "distinct (us @ vs)" using assms(1) by (rule chain_distinct)
  have ch: "chain nx p (bs @ z # vs)" using assms(1) by (simp add: us)
  then show ?thesis
    unfolding z_def [symmetric] using assms(3) d by (auto simp: us chain_append)
qed

section \<open>Single bits of a word\<close>

lemma bit_set_bit_word:
  fixes x :: "'a::len word"
  assumes "n < LENGTH('a)"
  shows "bit (x OR push_bit n 1) m \<longleftrightarrow> bit x m \<or> m = n"
  using assms by (auto simp: bit_or_iff bit_exp_iff)

lemma bit_clear_bit_word:
  fixes x :: "'a::len word"
  shows "bit (x AND NOT (push_bit n 1)) m \<longleftrightarrow> bit x m \<and> m \<noteq> n"
  by (auto simp: bit_and_iff bit_not_iff bit_exp_iff dest: bit_imp_le_length)

lemma unat_u8_less [simp]: "unat (x :: u8) < 256"
  using unsigned_less [of x, where ?'a = nat] by simp

lemma unat_u32_less [simp]: "unat (x :: u32) < 4294967296"
  using unsigned_less [of x, where ?'a = nat] by simp

lemma unat_le_1_cases: "unat (x :: u32) \<le> 1 \<longleftrightarrow> x = 0 \<or> x = 1"
  by (auto simp: le_Suc_eq word_unat_eq_iff)

lemma word_eq_0_iff_no_bit:
  fixes x :: "'a::len word"
  shows "x = 0 \<longleftrightarrow> (\<forall>n < LENGTH('a). \<not> bit x n)"
  by (auto intro: bit_word_eqI)

section \<open>Signed readings of 32-bit words\<close>

lemma sint_u32: "sint (w :: u32) = (if unat w < 2147483648 then int (unat w) else int (unat w) - 4294967296)"
proof -
  define n where "n = unat w"
  have u: "uint w = int n" by (simp add: n_def)
  have lt: "n < 4294967296" by (simp add: n_def)
  have "n div 2147483648 = 0 \<or> n div 2147483648 = 1" using lt by linarith
  moreover have "2147483648 \<le> n \<longleftrightarrow> n div 2147483648 = 1" using lt by linarith
  moreover have "bit (int n) 31 \<longleftrightarrow> odd (n div 2147483648)"
    unfolding bit_of_nat_iff_bit by (simp add: bit_iff_odd)
  ultimately have b: "bit (int n) 31 \<longleftrightarrow> 2147483648 \<le> n" by auto
  have "sint w = take_bit 32 (int n) - 4294967296 * of_bool (bit (int n) 31)"
    unfolding sint_uint signed_take_bit_eq_take_bit_minus u by simp
  also have "take_bit 32 (int n) = int n"
    using lt by (simp add: take_bit_int_eq_self_iff)
  finally show ?thesis using b unfolding n_def [symmetric] by auto
qed
lemma sint_pos_u32: "0 < sint (w :: u32) \<longleftrightarrow> 0 < unat w \<and> unat w < 2147483648"
proof (cases "unat w < 2147483648")
  case True
  then have "sint w = int (unat w)" by (simp only: sint_u32 if_True)
  with True show ?thesis by linarith
next
  case False
  then have "sint w = int (unat w) - 4294967296" by (simp only: sint_u32 if_False)
  with False unat_u32_less [of w] show ?thesis by linarith
qed

text \<open>Differences of 32-bit counters that are less than half the range apart.\<close>

lemma unat_diff_u32:
  fixes x e :: u32
  shows "unat e \<le> unat x \<Longrightarrow> unat (x - e) = unat x - unat e"
    and "unat x < unat e \<Longrightarrow> unat (x - e) = 4294967296 - (unat e - unat x)"
  using unat_u32_less [of e] by (simp_all add: unat_sub_if')

lemma unat_ucast_u64 [simp]: "unat (ucast (x :: u32) :: u64) = unat x"
proof -
  have "unat x < 18446744073709551616" using unat_u32_less [of x] by linarith
  then show ?thesis by (simp add: unsigned_ucast_eq take_bit_eq_mod)
qed

text \<open>Sums and products that fit into 32 bits.\<close>

lemma unat_u16_less [simp]: "unat (x :: u16) < 65536"
  using unsigned_less [of x, where ?'a = nat] by simp

lemma unat_ucast_u16 [simp]: "unat (ucast (x :: u16) :: u32) = unat x" "unat (ucast (y :: u8) :: u16) = unat y"
    "unat (ucast (y :: u8) :: u32) = unat y"
proof -
  have "unat x < 2 ^ LENGTH(32)" "unat y < 2 ^ LENGTH(16)" "unat y < 2 ^ LENGTH(32)"
    using unat_u16_less [of x] unat_u8_less [of y] by (simp_all del: unat_u16_less unat_u8_less)
  then show "unat (ucast x :: u32) = unat x" "unat (ucast y :: u16) = unat y" "unat (ucast y :: u32) = unat y"
    by (simp_all add: unsigned_ucast_eq take_bit_nat_eq_self)
qed

lemma unat_of_nat_u16: "n < 65536 \<Longrightarrow> unat (of_nat n :: u16) = n"
  by (simp add: unsigned_of_nat take_bit_nat_eq_self)

lemma unat_add_u16: "unat a + unat b < 65536 \<Longrightarrow> unat (a + b :: u16) = unat a + unat b"
  by (simp add: unat_word_ariths)

lemma unat_add_u32: "unat a + unat b < 4294967296 \<Longrightarrow> unat (a + b :: u32) = unat a + unat b"
  by (subst unat_add_lem [THEN iffD1]) simp_all

lemma unat_mult_u32: "unat a * unat b < 4294967296 \<Longrightarrow> unat (a * b :: u32) = unat a * unat b"
  by (subst unat_mult_lem [THEN iffD1]) simp_all

lemma unat_Suc_u32:
  fixes k m :: u32
  assumes "unat k < unat m"
  shows "unat (k + 1) = unat k + 1"
proof -
  have "unat k < 4294967295" using assms unat_u32_less [of m] by linarith
  then show ?thesis using unat_add_u32 [of k 1] by simp
qed

lemma sint_dec_u32:
  assumes "0 < sint (w :: u32)"
  shows "sint (w - 1) = sint w - 1"
proof -
  have w: "0 < unat w" "unat w < 2147483648" using assms by (simp_all only: sint_pos_u32)
  then have "unat (w - 1) = unat w - 1" using unat_diff_u32(1) [of 1 w] by simp
  moreover from this have "unat (w - 1) < 2147483648" using w(2) by linarith
  ultimately have "sint (w - 1) = int (unat w - 1)" "sint w = int (unat w)"
    using w(2) by (simp_all only: sint_u32 if_True)
  then show ?thesis using w(1) by linarith
qed

end
