(* ===== verification/Kernel.thy ===== *)
theory Kernel
  imports Prelude
begin

text \<open>
  The kernel of \<^verbatim>\<open>src/kernel.c\<close>: the task control blocks, the priority-indexed ready
  queues with their bitmap, the tick-driven scheduler and the task operations.

  Task control blocks live in a heap \<open>k_heap\<close> indexed by address, linked through
  \<open>t_next\<close> exactly as the C structures are; the addresses \<open>0 .. 7\<close> are the entries of
  \<^verbatim>\<open>kernel.task_pool\<close>, address \<open>0\<close> being the idle task. The ready queues are heads of
  such chains, one per priority. A function that dereferences NULL or loops forever
  does not complete and has the value \<open>None\<close>.

  \<^verbatim>\<open>context_switch\<close> is assembly code outside the repository. It is the parameter \<open>cs\<close>:
  \<open>cs old new s\<close> is the kernel state when the call returns to \<open>old\<close>, that is after
  everything that ran until \<open>old\<close> was resumed. With \<open>cs_now\<close> the value of an operation is
  the state at the moment control passes to the new task.
\<close>

section \<open>Data\<close>

datatype task_state =
    TASK_STATE_READY
  | TASK_STATE_RUNNING
  | TASK_STATE_BLOCKED
  | TASK_STATE_SUSPENDED
  | TASK_STATE_TERMINATED

record tcb =
  t_stack_ptr :: nat
  t_stack :: "nat \<Rightarrow> u32"
  t_state :: task_state
  t_priority :: u8
  t_base_priority :: u8
  t_time_slice :: u32
  t_name :: string
  t_entry_point :: u32
  t_param :: u32
  t_run_time :: u32
  t_context_switches :: u32
  t_stack_high_water_mark :: u32
  t_next :: ptr

record kernel =
  k_current_task :: ptr
  k_ready_queue :: "u8 \<Rightarrow> ptr"
  k_ready_bitmap :: "nat \<Rightarrow> u32"
  k_heap :: "addr \<Rightarrow> tcb"
  k_task_count :: u8
  k_tick_count :: u32
  k_context_switch_count :: u32
  k_scheduler_running :: bool
  k_primask :: u32

type_synonym 'a cswitch = "addr \<Rightarrow> addr \<Rightarrow> 'a kernel_scheme \<Rightarrow> 'a kernel_scheme"

definition cs_now :: "'a cswitch" where
  "cs_now old new s = s"

definition MAX_TASKS :: nat where "MAX_TASKS = 8"
definition STACK_SIZE :: nat where "STACK_SIZE = 256"
definition TICK_RATE_HZ :: u32 where "TICK_RATE_HZ = 1000"
definition TIME_SLICE_MS :: u32 where "TIME_SLICE_MS = 10"
definition PRIORITY_CRITICAL :: u8 where "PRIORITY_CRITICAL = 0"
definition PRIORITY_HIGH :: u8 where "PRIORITY_HIGH = 64"
definition PRIORITY_NORMAL :: u8 where "PRIORITY_NORMAL = 128"
definition PRIORITY_LOW :: u8 where "PRIORITY_LOW = 192"
definition PRIORITY_IDLE :: u8 where "PRIORITY_IDLE = 255"

lemmas kernel_consts = MAX_TASKS_def STACK_SIZE_def TICK_RATE_HZ_def TIME_SLICE_MS_def
  PRIORITY_CRITICAL_def PRIORITY_HIGH_def PRIORITY_NORMAL_def PRIORITY_LOW_def PRIORITY_IDLE_def

text \<open>The first entry of the task pool: \<^verbatim>\<open>&kernel.task_pool[0]\<close>.\<close>

definition idle_tcb :: addr where "idle_tcb = 0"

text \<open>A store through a \<^verbatim>\<open>tcb_t *\<close>, and the \<open>next\<close> pointers of the heap.\<close>

definition upd_task :: "addr \<Rightarrow> (tcb \<Rightarrow> tcb) \<Rightarrow> 'a kernel_scheme \<Rightarrow> 'a kernel_scheme" where
  "upd_task a f s = s\<lparr>k_heap := (k_heap s)(a := f (k_heap s a))\<rparr>"

definition nexts :: "'a kernel_scheme \<Rightarrow> addr \<Rightarrow> ptr" where
  "nexts s a = t_next (k_heap s a)"

text \<open>\<^verbatim>\<open>__builtin_ctz\<close>: the number of zero bits below the lowest set bit.\<close>

definition ctz :: "u32 \<Rightarrow> nat" where
  "ctz x = length (takeWhile (\<lambda>n. \<not> bit x n) [0..<32])"

section \<open>Critical sections\<close>

text \<open>PRIMASK is read, then interrupts are masked; on exit the saved value is restored.\<close>

definition os_enter_critical :: "'a kernel_scheme \<Rightarrow> u32 \<times> 'a kernel_scheme" where
  "os_enter_critical s = (k_primask s, s\<lparr>k_primask := 1\<rparr>)"

definition os_exit_critical :: "u32 \<Rightarrow> 'a kernel_scheme \<Rightarrow> 'a kernel_scheme" where
  "os_exit_critical st s = s\<lparr>k_primask := st\<rparr>"

section \<open>Ready queues\<close>

text \<open>Marking and clearing the bit of a priority in \<^verbatim>\<open>ready_bitmap[p / 32]\<close>.\<close>

definition bitmap_mark :: "u8 \<Rightarrow> (nat \<Rightarrow> u32) \<Rightarrow> nat \<Rightarrow> u32" where
  "bitmap_mark p bm = (let w = unat p div 32 in bm(w := bm w OR push_bit (unat p mod 32) 1))"

definition bitmap_unmark :: "u8 \<Rightarrow> (nat \<Rightarrow> u32) \<Rightarrow> nat \<Rightarrow> u32" where
  "bitmap_unmark p bm = (let w = unat p div 32 in bm(w := bm w AND NOT (push_bit (unat p mod 32) 1)))"

text \<open>
  Taking the first task of the queue of the lowest set bit of bitmap word \<open>w\<close>; a set bit
  over an empty queue dereferences NULL.
\<close>

definition pop_ready :: "nat \<Rightarrow> 'a kernel_scheme \<Rightarrow> (addr \<times> 'a kernel_scheme) option" where
  "pop_ready w s =
    (let b = ctz (k_ready_bitmap s w); i = word_of_nat (w * 32 + b) in
     case k_ready_queue s i of
       None \<Rightarrow> None
     | Some task \<Rightarrow>
        (let s = s\<lparr>k_ready_queue := (k_ready_queue s)(i := t_next (k_heap s task))\<rparr>;
             s = upd_task task (\<lambda>t. t\<lparr>t_next := None\<rparr>) s;
             s = (if k_ready_queue s i = None
                  then s\<lparr>k_ready_bitmap := (k_ready_bitmap s)
                           (w := k_ready_bitmap s w AND NOT (push_bit b 1))\<rparr>
                  else s)
         in Some (task, s)))"

text \<open>The loop over the bitmap words; with no bit set the idle task is returned.\<close>

fun get_next_from :: "nat list \<Rightarrow> 'a kernel_scheme \<Rightarrow> (addr \<times> 'a kernel_scheme) option" where
  "get_next_from [] s = Some (idle_tcb, s)"
| "get_next_from (w # ws) s =
    (if k_ready_bitmap s w \<noteq> 0 then pop_ready w s else get_next_from ws s)"

definition scheduler_get_next_task :: "'a kernel_scheme \<Rightarrow> (addr \<times> 'a kernel_scheme) option" where
  "scheduler_get_next_task s = get_next_from [0..<8] s"

text \<open>\<^verbatim>\<open>while (current->next != NULL) current = current->next;\<close>\<close>

partial_function (option) list_tail :: "(addr \<Rightarrow> ptr) \<Rightarrow> addr \<Rightarrow> addr option" where
  "list_tail nx a = (case nx a of None \<Rightarrow> Some a | Some b \<Rightarrow> list_tail nx b)"

definition scheduler_add_ready_task :: "addr \<Rightarrow> 'a kernel_scheme \<Rightarrow> 'a kernel_scheme option" where
  "scheduler_add_ready_task task s = do {
     let s = (if t_state (k_heap s task) \<noteq> TASK_STATE_READY
              then upd_task task (\<lambda>t. t\<lparr>t_state := TASK_STATE_READY\<rparr>) s else s);
     let p = t_priority (k_heap s task);
     s \<leftarrow> (case k_ready_queue s p of
             None \<Rightarrow> Some (s\<lparr>k_ready_queue := (k_ready_queue s)(p := Some task)\<rparr>)
           | Some h \<Rightarrow> do {
               current \<leftarrow> list_tail (nexts s) h;
               Some (upd_task current (\<lambda>t. t\<lparr>t_next := Some task\<rparr>) s) });
     let s = upd_task task (\<lambda>t. t\<lparr>t_next := None\<rparr>) s;
     Some (s\<lparr>k_ready_bitmap := bitmap_mark p (k_ready_bitmap s)\<rparr>)
   }"

text \<open>
  The search loop of \<^verbatim>\<open>scheduler_remove_task\<close>: whether the task is found, and the local
  variable \<^verbatim>\<open>prev\<close> at that moment (NULL when it is at the head).
\<close>

partial_function (option) find_prev ::
    "(addr \<Rightarrow> ptr) \<Rightarrow> addr \<Rightarrow> ptr \<Rightarrow> ptr \<Rightarrow> (bool \<times> ptr) option" where
  "find_prev nx task prev current =
     (if current = None then Some (False, prev)
      else if current = Some task then Some (True, prev)
      else find_prev nx task current (nx (the current)))"

definition scheduler_remove_task :: "addr \<Rightarrow> 'a kernel_scheme \<Rightarrow> 'a kernel_scheme option" where
  "scheduler_remove_task task s = do {
     let p = t_priority (k_heap s task);
     (found, prev) \<leftarrow> find_prev (nexts s) task None (k_ready_queue s p);
     (if \<not> found then Some s
      else do {
        let nxt = t_next (k_heap s task);
        let s = (case prev of
                   None \<Rightarrow> s\<lparr>k_ready_queue := (k_ready_queue s)(p := nxt)\<rparr>
                 | Some q \<Rightarrow> upd_task q (\<lambda>t. t\<lparr>t_next := nxt\<rparr>) s);
        let s = upd_task task (\<lambda>t. t\<lparr>t_next := None\<rparr>) s;
        Some (if k_ready_queue s p = None
              then s\<lparr>k_ready_bitmap := bitmap_unmark p (k_ready_bitmap s)\<rparr>
              else s) })
   }"

section \<open>Scheduler\<close>

text \<open>Charging a tick to the current task: its run time and its remaining time slice.\<close>

definition charge_tick :: "addr \<Rightarrow> 'a kernel_scheme \<Rightarrow> 'a kernel_scheme" where
  "charge_tick cur s =
    (let s = upd_task cur (\<lambda>t. t\<lparr>t_run_time := t_run_time t + 1\<rparr>) s
     in if t_time_slice (k_heap s cur) > 0
        then upd_task cur (\<lambda>t. t\<lparr>t_time_slice := t_time_slice t - 1\<rparr>) s
        else s)"

text \<open>Installing the next task, which may be the current one.\<close>

definition dispatch :: "'a cswitch \<Rightarrow> addr \<Rightarrow> addr \<Rightarrow> 'a kernel_scheme \<Rightarrow> 'a kernel_scheme" where
  "dispatch cs cur next_task s =
    (if next_task \<noteq> cur then
       (let s = s\<lparr>k_context_switch_count := k_context_switch_count s + 1\<rparr>;
            s = upd_task next_task (\<lambda>t. t\<lparr>t_context_switches := t_context_switches t + 1\<rparr>) s;
            s = s\<lparr>k_current_task := Some next_task\<rparr>;
            s = upd_task next_task
                  (\<lambda>t. t\<lparr>t_state := TASK_STATE_RUNNING, t_time_slice := TIME_SLICE_MS\<rparr>) s
        in cs cur next_task s)
     else upd_task next_task (\<lambda>t. t\<lparr>t_time_slice := TIME_SLICE_MS\<rparr>) s)"

text \<open>The end of a time slice.\<close>

definition preempt :: "'a cswitch \<Rightarrow> addr \<Rightarrow> 'a kernel_scheme \<Rightarrow> 'a kernel_scheme option" where
  "preempt cs cur s = do {
     s \<leftarrow> (if t_state (k_heap s cur) = TASK_STATE_RUNNING
            then scheduler_add_ready_task cur s else Some s);
     (next_task, s) \<leftarrow> scheduler_get_next_task s;
     Some (dispatch cs cur next_task s) }"

definition os_scheduler :: "'a cswitch \<Rightarrow> 'a kernel_scheme \<Rightarrow> 'a kernel_scheme option" where
  "os_scheduler cs s =
    (if \<not> k_scheduler_running s then Some s
     else
       (let s = s\<lparr>k_tick_count := k_tick_count s + 1\<rparr> in
        case k_current_task s of
          None \<Rightarrow> Some s
        | Some cur \<Rightarrow>
           (let s = charge_tick cur s
            in if t_time_slice (k_heap s cur) = 0 then preempt cs cur s else Some s)))"

definition os_task_yield :: "'a cswitch \<Rightarrow> 'a kernel_scheme \<Rightarrow> 'a kernel_scheme option" where
  "os_task_yield cs s =
    (case k_current_task s of
       None \<Rightarrow> Some s
     | Some cur \<Rightarrow> os_scheduler cs (upd_task cur (\<lambda>t. t\<lparr>t_time_slice := 0\<rparr>) s))"

text \<open>The state in which the first task is entered.\<close>

definition os_start :: "'a kernel_scheme \<Rightarrow> 'a kernel_scheme option" where
  "os_start s = do {
     let s = s\<lparr>k_scheduler_running := True\<rparr>;
     (t, s) \<leftarrow> scheduler_get_next_task s;
     let s = s\<lparr>k_current_task := Some t\<rparr>;
     Some (upd_task t (\<lambda>t. t\<lparr>t_state := TASK_STATE_RUNNING\<rparr>) s)
   }"

section \<open>Lists, bits and stores\<close>

lemma list_tail_chain: "chain nx (Some a) as \<Longrightarrow> list_tail nx a = Some (last as)"
proof (induction as arbitrary: a)
  case (Cons b bs)
  then show ?case
    by (cases bs) (auto simp: list_tail.simps [of nx b])
qed simp

lemma find_prev_notin:
  "chain nx p as \<Longrightarrow> t \<notin> set as \<Longrightarrow> \<exists>q. find_prev nx t prev p = Some (False, q)"
  by (induction as arbitrary: p prev) (auto simp: find_prev.simps [of nx t])

lemma find_prev_in:
  "chain nx p (us @ t # vs) \<Longrightarrow> t \<notin> set us \<Longrightarrow>
   find_prev nx t prev p = Some (True, if us = [] then prev else Some (last us))"
  by (induction us arbitrary: p prev) (auto simp: find_prev.simps [of nx t])

lemma ctz_props:
  assumes "x \<noteq> 0"
  shows "ctz x < 32" and "bit x (ctz x)" and "n < ctz x \<Longrightarrow> \<not> bit x n"
proof -
  let ?P = "\<lambda>n. \<not> bit x n"
  from assms obtain m where m: "m < 32" "bit x m"
    by (auto simp: word_eq_0_iff_no_bit)
  have "takeWhile ?P [0..<32] \<noteq> [0..<32]"
    using m by (auto simp: takeWhile_eq_all_conv)
  then have lt: "length (takeWhile ?P [0..<32]) < length [0..<32]"
    by (metis length_takeWhile_le nat_less_le takeWhile_eq_take take_all_iff)
  then show "ctz x < 32" by (simp add: ctz_def)
  from lt have "\<not> ?P ([0..<32] ! length (takeWhile ?P [0..<32]))"
    by (rule nth_length_takeWhile)
  then show "bit x (ctz x)" using lt by (simp add: ctz_def)
  show "\<not> bit x n" if "n < ctz x"
  proof -
    have "takeWhile ?P [0..<32] ! n = [0..<32] ! n"
      using that by (intro takeWhile_nth) (simp add: ctz_def)
    moreover have "takeWhile ?P [0..<32] ! n \<in> set (takeWhile ?P [0..<32])"
      using that by (intro nth_mem) (simp add: ctz_def)
    ultimately show ?thesis
      using that lt by (auto dest: set_takeWhileD simp: ctz_def)
  qed
qed

lemma upd_task_frame [simp]:
  "k_current_task (upd_task a f s) = k_current_task s"
  "k_ready_queue (upd_task a f s) = k_ready_queue s"
  "k_ready_bitmap (upd_task a f s) = k_ready_bitmap s"
  "k_task_count (upd_task a f s) = k_task_count s"
  "k_tick_count (upd_task a f s) = k_tick_count s"
  "k_context_switch_count (upd_task a f s) = k_context_switch_count s"
  "k_scheduler_running (upd_task a f s) = k_scheduler_running s"
  "k_primask (upd_task a f s) = k_primask s"
  "kernel.more (upd_task a f s) = kernel.more s"
  "k_heap (upd_task a f s) = (k_heap s)(a := f (k_heap s a))"
  by (simp_all add: upd_task_def)

lemma nexts_upd_task [simp]:
  "nexts (upd_task a f s) = (nexts s)(a := t_next (f (k_heap s a)))"
  by (auto simp: nexts_def)

lemma nexts_updates [simp]:
  "nexts (s\<lparr>k_ready_queue := q\<rparr>) = nexts s"
  "nexts (s\<lparr>k_ready_bitmap := b\<rparr>) = nexts s"
  "nexts (s\<lparr>k_current_task := c\<rparr>) = nexts s"
  "nexts (s\<lparr>k_tick_count := n\<rparr>) = nexts s"
  "nexts (s\<lparr>k_context_switch_count := n\<rparr>) = nexts s"
  "nexts (s\<lparr>k_scheduler_running := r\<rparr>) = nexts s"
  "nexts (s\<lparr>k_task_count := tc\<rparr>) = nexts s"
  "nexts (s\<lparr>k_primask := pm\<rparr>) = nexts s"
  by (auto simp: nexts_def)

lemma charge_tick_frame [simp]:
  "k_current_task (charge_tick c s) = k_current_task s"
  "k_ready_queue (charge_tick c s) = k_ready_queue s"
  "k_ready_bitmap (charge_tick c s) = k_ready_bitmap s"
  "k_task_count (charge_tick c s) = k_task_count s"
  "k_tick_count (charge_tick c s) = k_tick_count s"
  "k_context_switch_count (charge_tick c s) = k_context_switch_count s"
  "k_scheduler_running (charge_tick c s) = k_scheduler_running s"
  "k_primask (charge_tick c s) = k_primask s"
  "kernel.more (charge_tick c s) = kernel.more s"
  "nexts (charge_tick c s) = nexts s"
  "t_state (k_heap (charge_tick c s) x) = t_state (k_heap s x)"
  "t_priority (k_heap (charge_tick c s) x) = t_priority (k_heap s x)"
  "t_base_priority (k_heap (charge_tick c s) x) = t_base_priority (k_heap s x)"
  "t_time_slice (k_heap (charge_tick c s) x) =
     (if x = c \<and> t_time_slice (k_heap s c) > 0 then t_time_slice (k_heap s c) - 1
      else t_time_slice (k_heap s x))"
  "t_run_time (k_heap (charge_tick c s) x) =
     (if x = c then t_run_time (k_heap s c) + 1 else t_run_time (k_heap s x))"
  by (auto simp: charge_tick_def Let_def nexts_def)

lemma unat_priority_split:
  fixes p q :: u8
  shows "unat p div 32 = unat q div 32 \<and> unat p mod 32 = unat q mod 32 \<longleftrightarrow> p = q"
  by (metis div_mult_mod_eq word_unat_eq_iff)

section \<open>The ready queues as lists\<close>

text \<open>
  \<open>sched_rel s Q\<close>: the queue of priority \<open>p\<close> is the chain of the tasks \<open>Q p\<close>; a queued
  task is READY and has the priority of its queue; the bitmap marks the non-empty queues.
\<close>

definition sched_rel :: "'a kernel_scheme \<Rightarrow> (u8 \<Rightarrow> addr list) \<Rightarrow> bool" where
  "sched_rel s Q \<longleftrightarrow>
     (\<forall>p. chain (nexts s) (k_ready_queue s p) (Q p)) \<and>
     (\<forall>p. \<forall>a \<in> set (Q p). t_priority (k_heap s a) = p \<and> t_state (k_heap s a) = TASK_STATE_READY) \<and>
     (\<forall>p. bit (k_ready_bitmap s (unat p div 32)) (unat p mod 32) \<longleftrightarrow> Q p \<noteq> [])"

text \<open>What the queue operations may touch, and what a task keeps besides its link.\<close>

definition sched_frame :: "'a kernel_scheme \<Rightarrow> 'a kernel_scheme \<Rightarrow> bool" where
  "sched_frame s s' \<longleftrightarrow>
     k_current_task s' = k_current_task s \<and> k_task_count s' = k_task_count s \<and>
     k_tick_count s' = k_tick_count s \<and> k_context_switch_count s' = k_context_switch_count s \<and>
     k_scheduler_running s' = k_scheduler_running s \<and> k_primask s' = k_primask s \<and>
     kernel.more s' = kernel.more s"

definition core :: "tcb \<Rightarrow> tcb" where
  "core t = t\<lparr>t_next := None\<rparr>"

lemma sched_relD:
  assumes "sched_rel s Q"
  shows "chain (nexts s) (k_ready_queue s p) (Q p)"
    and "a \<in> set (Q p) \<Longrightarrow> t_priority (k_heap s a) = p"
    and "a \<in> set (Q p) \<Longrightarrow> t_state (k_heap s a) = TASK_STATE_READY"
    and "bit (k_ready_bitmap s (unat p div 32)) (unat p mod 32) \<longleftrightarrow> Q p \<noteq> []"
  using assms by (auto simp: sched_rel_def)

lemma sched_rel_unique: "sched_rel s Q \<Longrightarrow> sched_rel s Q' \<Longrightarrow> Q = Q'"
  by (rule ext) (blast intro: chain_unique sched_relD(1))

lemma sched_rel_disjoint:
  "sched_rel s Q \<Longrightarrow> a \<in> set (Q p) \<Longrightarrow> a \<in> set (Q q) \<Longrightarrow> p = q"
  by (metis sched_relD(2))

lemma sched_rel_upd_task_notin [simp]:
  assumes "\<And>p. a \<notin> set (Q p)"
  shows "sched_rel (upd_task a f s) Q \<longleftrightarrow> sched_rel s Q"
  using assms by (force simp: sched_rel_def)

lemma sched_rel_updates [simp]:
  "sched_rel (s\<lparr>k_current_task := c\<rparr>) Q \<longleftrightarrow> sched_rel s Q"
  "sched_rel (s\<lparr>k_tick_count := n\<rparr>) Q \<longleftrightarrow> sched_rel s Q"
  "sched_rel (s\<lparr>k_context_switch_count := n\<rparr>) Q \<longleftrightarrow> sched_rel s Q"
  "sched_rel (s\<lparr>k_scheduler_running := r\<rparr>) Q \<longleftrightarrow> sched_rel s Q"
  "sched_rel (s\<lparr>k_task_count := tc\<rparr>) Q \<longleftrightarrow> sched_rel s Q"
  "sched_rel (s\<lparr>k_primask := pm\<rparr>) Q \<longleftrightarrow> sched_rel s Q"
  by (simp_all add: sched_rel_def)

lemma sched_rel_charge_tick [simp]: "sched_rel (charge_tick c s) Q \<longleftrightarrow> sched_rel s Q"
  by (simp add: sched_rel_def)

text \<open>The bitmap after marking or clearing one priority, read at every priority.\<close>

lemma bit_bitmap_mark [simp]:
  "bit (bitmap_mark p bm (unat q div 32)) (unat q mod 32) \<longleftrightarrow>
   bit (bm (unat q div 32)) (unat q mod 32) \<or> q = p"
  using unat_priority_split [of q p]
  by (cases "unat q div 32 = unat p div 32")
    (auto simp: bitmap_mark_def Let_def bit_set_bit_word simp del: push_bit_of_1)

lemma bit_bitmap_unmark [simp]:
  "bit (bitmap_unmark p bm (unat q div 32)) (unat q mod 32) \<longleftrightarrow>
   bit (bm (unat q div 32)) (unat q mod 32) \<and> q \<noteq> p"
  using unat_priority_split [of q p]
  by (cases "unat q div 32 = unat p div 32")
    (auto simp: bitmap_unmark_def Let_def bit_clear_bit_word simp del: push_bit_of_1)

lemma unat_word_index:
  assumes "w < 8" and "b < 32"
  shows "unat (word_of_nat (w * 32 + b) :: u8) = w * 32 + b"
  using assms by (simp only: unat_of_nat) simp

lemma bitmap_unmark_index:
  assumes "w < 8" and "b < 32"
  shows "bm(w := bm w AND NOT (push_bit b 1)) = bitmap_unmark (word_of_nat (w * 32 + b)) bm"
  unfolding bitmap_unmark_def unat_word_index [OF assms] using assms by (simp add: Let_def)

text \<open>An operation that rebuilds one queue and leaves the others alone.\<close>

lemma sched_rel_change:
  assumes rel: "sched_rel s Q"
    and new: "chain (nexts s') (k_ready_queue s' p) ts"
    and heads: "\<And>q. q \<noteq> p \<Longrightarrow> k_ready_queue s' q = k_ready_queue s q"
    and links: "\<And>q a. q \<noteq> p \<Longrightarrow> a \<in> set (Q q) \<Longrightarrow> k_heap s' a = k_heap s a"
    and member: "\<And>a. a \<in> set ts \<Longrightarrow>
      t_priority (k_heap s' a) = p \<and> t_state (k_heap s' a) = TASK_STATE_READY"
    and bits: "\<And>q. bit (k_ready_bitmap s' (unat q div 32)) (unat q mod 32) \<longleftrightarrow>
      (if q = p then ts \<noteq> [] else bit (k_ready_bitmap s (unat q div 32)) (unat q mod 32))"
  shows "sched_rel s' (Q(p := ts))"
proof -
  note D = sched_relD [OF rel]
  have "chain (nexts s') (k_ready_queue s' q) (Q q)" if "q \<noteq> p" for q
  proof -
    have "chain (nexts s') (k_ready_queue s' q) (Q q) = chain (nexts s) (k_ready_queue s' q) (Q q)"
      by (rule chain_cong) (simp add: nexts_def links [OF that])
    with D(1) show ?thesis by (simp add: heads [OF that])
  qed
  then show ?thesis
    using new member links bits D by (auto simp: sched_rel_def)
qed

lemma scheduler_add_ready_task_rel:
  assumes rel: "sched_rel s Q" and fresh: "\<And>p. task \<notin> set (Q p)"
    and p: "p = t_priority (k_heap s task)"
  obtains s' where "scheduler_add_ready_task task s = Some s'"
    and "sched_rel s' (Q(p := Q p @ [task]))"
    and "sched_frame s s'"
    and "\<And>x. core (k_heap s' x) =
           core (if x = task then (k_heap s x)\<lparr>t_state := TASK_STATE_READY\<rparr> else k_heap s x)"
proof -
  define s1 where "s1 = (if t_state (k_heap s task) \<noteq> TASK_STATE_READY
              then upd_task task (\<lambda>t. t\<lparr>t_state := TASK_STATE_READY\<rparr>) s else s)"
  have rel1: "sched_rel s1 Q" using rel fresh by (simp add: s1_def)
  have p1: "t_priority (k_heap s1 task) = p" by (simp add: s1_def p)
  have st1: "t_state (k_heap s1 task) = TASK_STATE_READY" by (simp add: s1_def)
  have core1: "core (k_heap s1 x) =
      core (if x = task then (k_heap s x)\<lparr>t_state := TASK_STATE_READY\<rparr> else k_heap s x)" for x
    by (simp add: s1_def core_def)
  have frame1: "sched_frame s s1" by (simp add: s1_def sched_frame_def upd_task_def)
  note D = sched_relD [OF rel1]
  define fin where "fin s2 = (let s3 = upd_task task (\<lambda>t. t\<lparr>t_next := None\<rparr>) s2
     in s3\<lparr>k_ready_bitmap := bitmap_mark p (k_ready_bitmap s3)\<rparr>)" for s2 :: "'a kernel_scheme"
  show ?thesis
  proof (cases "Q p")
    case Nil
    then have q: "k_ready_queue s1 p = None" using D(1) [of p] by simp
    define s2 where "s2 = s1\<lparr>k_ready_queue := (k_ready_queue s1)(p := Some task)\<rparr>"
    have "scheduler_add_ready_task task s = Some (fin s2)"
      using q by (simp add: scheduler_add_ready_task_def s1_def [symmetric] p1 s2_def fin_def Let_def)
    moreover have "sched_rel (fin s2) (Q(p := Q p @ [task]))"
      by (rule sched_rel_change [OF rel1])
        (use D fresh Nil st1 p1 in
          \<open>auto simp: fin_def s2_def Let_def\<close>)
    ultimately show ?thesis using that core1 frame1
      by (auto simp: fin_def s2_def Let_def sched_frame_def core_def split: if_splits)
  next
    case (Cons h ts)
    then have q: "k_ready_queue s1 p = Some h" and ch: "chain (nexts s1) (Some h) (Q p)"
      using D(1) [of p] by auto
    define z where "z = last (Q p)"
    have z: "z \<in> set (Q p)" unfolding z_def by (rule last_in_set) (simp add: Cons)
    have zt: "z \<noteq> task" using z fresh by blast
    define s2 where "s2 = upd_task z (\<lambda>t. t\<lparr>t_next := Some task\<rparr>) s1"
    have "scheduler_add_ready_task task s = Some (fin s2)"
      using q list_tail_chain [OF ch]
      by (simp add: scheduler_add_ready_task_def s1_def [symmetric] p1 s2_def z_def fin_def Let_def)
    moreover have "sched_rel (fin s2) (Q(p := Q p @ [task]))"
    proof (rule sched_rel_change [OF rel1])
      have "chain ((nexts s1)(z := Some task, task := None)) (Some h) (Q p @ [task])"
        unfolding z_def by (rule chain_snoc [OF ch _ fresh]) (simp add: Cons)
      then show "chain (nexts (fin s2)) (k_ready_queue (fin s2) p) (Q p @ [task])"
        using q by (simp add: fin_def s2_def Let_def)
    next
      fix q a assume "q \<noteq> p" "a \<in> set (Q q)"
      then have "a \<noteq> z" "a \<noteq> task" using sched_rel_disjoint [OF rel1 z, of q] fresh [of q] by auto
      then show "k_heap (fin s2) a = k_heap s1 a" by (simp add: fin_def s2_def Let_def)
    next
      fix a assume "a \<in> set (Q p @ [task])"
      then have "t_priority (k_heap s1 a) = p \<and> t_state (k_heap s1 a) = TASK_STATE_READY"
        using D(2,3) p1 st1 by auto
      then show "t_priority (k_heap (fin s2) a) = p \<and> t_state (k_heap (fin s2) a) = TASK_STATE_READY"
        by (auto simp: fin_def s2_def Let_def)
    qed (simp_all add: fin_def s2_def Let_def)
    ultimately show ?thesis using that core1 frame1
      by (auto simp: fin_def s2_def Let_def sched_frame_def core_def split: if_splits)
  qed
qed

lemma scheduler_remove_task_notin:
  assumes rel: "sched_rel s Q" and "task \<notin> set (Q (t_priority (k_heap s task)))"
  shows "scheduler_remove_task task s = Some s"
  using find_prev_notin [OF sched_relD(1) [OF rel] assms(2), of None]
  by (auto simp: scheduler_remove_task_def Let_def)

lemma scheduler_remove_task_rel:
  assumes rel: "sched_rel s Q" and p: "p = t_priority (k_heap s task)"
  obtains s' where "scheduler_remove_task task s = Some s'"
    and "sched_rel s' (Q(p := remove1 task (Q p)))"
    and "sched_frame s s'"
    and "\<And>x. core (k_heap s' x) = core (k_heap s x)"
proof (cases "task \<in> set (Q p)")
  case False
  then show ?thesis
    using that [of s] scheduler_remove_task_notin [OF rel] rel
    by (simp add: p remove1_idem sched_frame_def)
next
  case True
  note D = sched_relD [OF rel]
  from True obtain us vs where Q: "Q p = us @ task # vs" and us: "task \<notin> set us"
    by (auto dest: split_list_first)
  have ch: "chain (nexts s) (k_ready_queue s p) (us @ task # vs)"
    using D(1) [of p] by (simp add: Q)
  have d: "distinct (us @ task # vs)" using chain_distinct [OF ch] .
  have rm: "remove1 task (Q p) = us @ vs" using us by (simp add: Q remove1_append)
  define s1 where "s1 = (if us = [] then s\<lparr>k_ready_queue := (k_ready_queue s)(p := nexts s task)\<rparr>
     else upd_task (last us) (\<lambda>t. t\<lparr>t_next := nexts s task\<rparr>) s)"
  define s2 where "s2 = upd_task task (\<lambda>t. t\<lparr>t_next := None\<rparr>) s1"
  define s3 where "s3 = (if k_ready_queue s2 p = None
     then s2\<lparr>k_ready_bitmap := bitmap_unmark p (k_ready_bitmap s2)\<rparr> else s2)"
  have eq: "scheduler_remove_task task s = Some s3"
    using find_prev_in [OF ch us, of None] p
    by (simp add: scheduler_remove_task_def s3_def s2_def s1_def nexts_def Let_def)
  have ch3: "chain (nexts s3) (k_ready_queue s3 p) (us @ vs)"
  proof (cases "us = []")
    case True
    then show ?thesis
      using ch chain_unlink_head [of "nexts s" "k_ready_queue s p" task vs]
      by (auto simp: s3_def s2_def s1_def)
  next
    case False
    then have "k_ready_queue s p \<noteq> None" using ch by (cases us) auto
    then show ?thesis
      using chain_unlink [OF ch False] us False by (auto simp: s3_def s2_def s1_def nexts_def)
  qed
  have mem: "x \<in> set (us @ vs) \<Longrightarrow> x \<in> set (Q p)" for x by (auto simp: Q)
  have lu: "us \<noteq> [] \<Longrightarrow> last us \<in> set (Q p)" by (simp add: Q)
  have heap3: "k_heap s3 x = k_heap s x" if "q \<noteq> p" "x \<in> set (Q q)" for q x
    using that lu True sched_rel_disjoint [OF rel that(2), of p]
    by (auto simp: s3_def s2_def s1_def)
  have pr3: "t_priority (k_heap s3 x) = t_priority (k_heap s x) \<and> t_state (k_heap s3 x) = t_state (k_heap s x)" for x
    by (simp add: s3_def s2_def s1_def)
  have empty: "k_ready_queue s2 p = None \<longleftrightarrow> us @ vs = []"
    using ch3 by (cases "us @ vs") (auto simp: s3_def split: if_splits)
  have m3: "t_priority (k_heap s3 x) = p \<and> t_state (k_heap s3 x) = TASK_STATE_READY"
    if "x \<in> set (us @ vs)" for x
    using D(2,3) [OF mem [OF that]] pr3 by simp
  have bits3: "bit (k_ready_bitmap s3 (unat q div 32)) (unat q mod 32) \<longleftrightarrow>
      (if q = p then us @ vs \<noteq> [] else bit (k_ready_bitmap s (unat q div 32)) (unat q mod 32))" for q
  proof -
    have "bit (k_ready_bitmap s3 (unat q div 32)) (unat q mod 32) \<longleftrightarrow>
        bit (k_ready_bitmap s (unat q div 32)) (unat q mod 32) \<and> \<not> (q = p \<and> us @ vs = [])"
      using empty by (auto simp: s3_def s2_def s1_def)
    moreover have "bit (k_ready_bitmap s (unat p div 32)) (unat p mod 32)"
      using D(4) [of p] True by auto
    ultimately show ?thesis by auto
  qed
  have "sched_rel s3 (Q(p := us @ vs))"
    by (rule sched_rel_change [OF rel ch3 _ heap3 m3 bits3]) (simp_all add: s3_def s2_def s1_def)
  then show ?thesis
    using that [OF eq] by (simp add: rm s3_def s2_def s1_def sched_frame_def core_def)
qed

text \<open>
  Taking the next task: the head of the queue of the least (that is, most urgent)
  priority with a ready task, and the idle task when there is none.
\<close>

definition top_ready :: "(u8 \<Rightarrow> addr list) \<Rightarrow> u8 \<Rightarrow> bool" where
  "top_ready Q p \<longleftrightarrow> Q p \<noteq> [] \<and> (\<forall>q < p. Q q = [])"

lemma top_ready_exists:
  assumes "Q p \<noteq> []"
  obtains q where "top_ready Q q"
proof -
  let ?n = "LEAST n. \<exists>q. n = unat (q :: u8) \<and> Q q \<noteq> []"
  have "\<exists>q. ?n = unat (q :: u8) \<and> Q q \<noteq> []"
    by (rule LeastI_ex) (use assms in blast)
  then obtain q :: u8 where q: "?n = unat q" "Q q \<noteq> []" by blast
  have "Q r = []" if "r < q" for r
  proof (rule ccontr)
    assume "Q r \<noteq> []"
    have "?n \<le> unat r" by (rule Least_le) (use \<open>Q r \<noteq> []\<close> in blast)
    with q(1) that show False by (simp add: word_less_nat_alt)
  qed
  with q(2) show ?thesis by (intro that [of q]) (simp add: top_ready_def)
qed

lemma top_ready_unique: "top_ready Q p \<Longrightarrow> top_ready Q q \<Longrightarrow> p = q"
  by (metis top_ready_def linorder_neqE)

lemma get_next_from_skip:
  "(\<forall>w \<in> set ws. k_ready_bitmap s w = 0) \<Longrightarrow> get_next_from (ws @ vs) s = get_next_from vs s"
  by (induction ws) auto

lemma bitmap_word_zero:
  assumes rel: "sched_rel s Q" and "w < 8"
    and empty: "\<And>b. b < 32 \<Longrightarrow> Q (word_of_nat (w * 32 + b)) = []"
  shows "k_ready_bitmap s w = 0"
proof -
  have "\<not> bit (k_ready_bitmap s w) b" if "b < 32" for b
    using sched_relD(4) [OF rel, of "word_of_nat (w * 32 + b)"] empty [OF that] that
      unat_word_index [OF assms(2) that] by simp
  then show ?thesis by (simp add: word_eq_0_iff_no_bit)
qed

lemma scheduler_get_next_task_idle:
  assumes rel: "sched_rel s Q" and "\<And>p. Q p = []"
  shows "scheduler_get_next_task s = Some (idle_tcb, s)"
  using get_next_from_skip [of "[0..<8]" s "[]"] bitmap_word_zero [OF rel] assms(2)
  by (simp add: scheduler_get_next_task_def)

lemma ctz_top_ready:
  assumes rel: "sched_rel s Q" and top: "top_ready Q p"
  shows "k_ready_bitmap s (unat p div 32) \<noteq> 0" and "ctz (k_ready_bitmap s (unat p div 32)) = unat p mod 32"
proof -
  let ?w = "unat p div 32" and ?b = "ctz (k_ready_bitmap s (unat p div 32))"
  have w: "?w < 8" using unat_u8_less [of p] by linarith
  have bit: "bit (k_ready_bitmap s ?w) (unat p mod 32)"
    using sched_relD(4) [OF rel, of p] top by (simp add: top_ready_def)
  then show nz: "k_ready_bitmap s ?w \<noteq> 0" by auto
  have le: "?b \<le> unat p mod 32" using ctz_props(3) [OF nz] bit by (meson not_less)
  have idx: "unat (word_of_nat (?w * 32 + ?b) :: u8) = ?w * 32 + ?b"
    by (rule unat_word_index [OF w ctz_props(1) [OF nz]])
  have "Q (word_of_nat (?w * 32 + ?b)) \<noteq> []"
    using sched_relD(4) [OF rel, of "word_of_nat (?w * 32 + ?b)"] ctz_props(1,2) [OF nz]
    unfolding idx by simp
  then have "\<not> (word_of_nat (?w * 32 + ?b) :: u8) < p" using top by (auto simp: top_ready_def)
  then have "unat p \<le> ?w * 32 + ?b" unfolding word_less_nat_alt idx by simp
  with le show "?b = unat p mod 32" using div_mult_mod_eq [of "unat p" 32] by linarith
qed

lemma get_next_from_top:
  assumes rel: "sched_rel s Q" and top: "top_ready Q p"
  shows "scheduler_get_next_task s = pop_ready (unat p div 32) s"
proof -
  let ?w = "unat p div 32"
  have w: "?w < 8" using unat_u8_less [of p] by linarith
  have "k_ready_bitmap s v = 0" if "v < ?w" for v
  proof (rule bitmap_word_zero [OF rel])
    fix b :: nat assume "b < 32"
    then have "unat (word_of_nat (v * 32 + b) :: u8) = v * 32 + b"
      using that w by (intro unat_word_index) auto
    moreover have "v * 32 + b < unat p" using that \<open>b < 32\<close> by linarith
    ultimately show "Q (word_of_nat (v * 32 + b)) = []"
      using top unfolding top_ready_def word_less_nat_alt by metis
  qed (use that w in simp)
  then have "get_next_from ([0..<?w] @ [?w..<8]) s = get_next_from [?w..<8] s"
    by (intro get_next_from_skip) auto
  moreover have "[0..<?w] @ [?w..<8] = [0..<8]"
    using w upt_add_eq_append [of 0 ?w "8 - ?w"] by simp
  moreover have "[?w..<8] = ?w # [Suc ?w..<8]" using w by (rule upt_conv_Cons)
  ultimately show ?thesis
    using ctz_top_ready(1) [OF rel top] by (simp add: scheduler_get_next_task_def)
qed

lemma scheduler_get_next_task_rel:
  assumes rel: "sched_rel s Q" and top: "top_ready Q p"
  obtains s' where "scheduler_get_next_task s = Some (hd (Q p), s')"
    and "sched_rel s' (Q(p := tl (Q p)))"
    and "sched_frame s s'"
    and "\<And>x. core (k_heap s' x) = core (k_heap s x)"
proof -
  note D = sched_relD [OF rel]
  obtain h ts where Q: "Q p = h # ts" using top by (cases "Q p") (auto simp: top_ready_def)
  have ch: "chain (nexts s) (k_ready_queue s p) (h # ts)" using D(1) [of p] by (simp add: Q)
  then have head: "k_ready_queue s p = Some h" by simp
  have pw: "word_of_nat (unat p div 32 * 32 + unat p mod 32) = p"
    by (simp only: div_mult_mod_eq) simp
  define s1 where "s1 = upd_task h (\<lambda>t. t\<lparr>t_next := None\<rparr>)
     (s\<lparr>k_ready_queue := (k_ready_queue s)(p := nexts s h)\<rparr>)"
  define s2 where "s2 = (if k_ready_queue s1 p = None
     then s1\<lparr>k_ready_bitmap := bitmap_unmark p (k_ready_bitmap s1)\<rparr> else s1)"
  have w: "unat p div 32 < 8" and b: "unat p mod 32 < 32" using unat_u8_less [of p] by (linarith, simp)
  have "scheduler_get_next_task s = Some (h, s2)"
    unfolding get_next_from_top [OF rel top] pop_ready_def ctz_top_ready(2) [OF rel top] pw Let_def
      bitmap_unmark_index [OF w b] head
    by (simp add: s1_def s2_def nexts_def)
  moreover have "sched_rel s2 (Q(p := ts))"
  proof (rule sched_rel_change [OF rel])
    show "chain (nexts s2) (k_ready_queue s2 p) ts"
      using chain_unlink_head [OF ch] by (auto simp: s2_def s1_def)
  next
    fix q a assume "q \<noteq> p" "a \<in> set (Q q)"
    then have "a \<noteq> h" using sched_rel_disjoint [OF rel, of a q p] by (auto simp: Q)
    then show "k_heap s2 a = k_heap s a" by (simp add: s2_def s1_def)
  next
    fix a assume "a \<in> set ts"
    then have "a \<in> set (Q p)" by (simp add: Q)
    then show "t_priority (k_heap s2 a) = p \<and> t_state (k_heap s2 a) = TASK_STATE_READY"
      using D(2,3) [of a p] by (auto simp: s2_def s1_def)
  next
    fix q
    have "nexts s h = None \<longleftrightarrow> ts = []" using ch by (cases ts) auto
    then show "bit (k_ready_bitmap s2 (unat q div 32)) (unat q mod 32) \<longleftrightarrow>
      (if q = p then ts \<noteq> [] else bit (k_ready_bitmap s (unat q div 32)) (unat q mod 32))"
      using D(4) [of p] by (auto simp: s2_def s1_def Q)
  qed (simp add: s2_def s1_def)
  ultimately show ?thesis
    using that by (simp add: Q s2_def s1_def sched_frame_def core_def)
qed

text \<open>The dispatch decision on the abstract queues.\<close>

definition picks :: "(u8 \<Rightarrow> addr list) \<Rightarrow> addr \<Rightarrow> (u8 \<Rightarrow> addr list) \<Rightarrow> bool" where
  "picks Q n Q' \<longleftrightarrow>
     (\<exists>p. top_ready Q p \<and> n = hd (Q p) \<and> Q' = Q(p := tl (Q p))) \<or>
     (\<forall>p. Q p = []) \<and> n = idle_tcb \<and> Q' = Q"

lemma picks_notin:
  assumes "sched_rel s Q" and "picks Q n Q'"
  shows "n \<notin> set (Q' p)"
proof -
  have tl: "n \<notin> set (tl (Q q))" and hd: "n \<in> set (Q q)" if "top_ready Q q" "n = hd (Q q)" for q
    using that chain_distinct [OF sched_relD(1) [OF assms(1)], of q]
    by (cases "Q q"; simp add: top_ready_def)+
  consider (top) q where "top_ready Q q" "n = hd (Q q)" "Q' = Q(q := tl (Q q))" | (idle) "\<And>q. Q' q = []"
    using assms(2) unfolding picks_def by blast
  then show ?thesis
  proof cases
    case top
    have "n \<notin> set (Q p)" if "p \<noteq> q"
      using sched_rel_disjoint [OF assms(1) hd [OF top(1,2)]] that by metis
    then show ?thesis
      unfolding top(3) using tl [OF top(1,2)] by simp
  qed simp
qed

lemma scheduler_get_next_task_spec:
  assumes rel: "sched_rel s Q"
  obtains n s' Q' where "scheduler_get_next_task s = Some (n, s')" and "picks Q n Q'"
    and "sched_rel s' Q'" and "sched_frame s s'"
    and "\<And>x. core (k_heap s' x) = core (k_heap s x)"
proof (cases "\<forall>p. Q p = []")
  case True
  then have "picks Q idle_tcb Q" by (simp add: picks_def)
  then show ?thesis
    using that [of idle_tcb s Q] scheduler_get_next_task_idle [OF rel] True rel
    by (simp add: sched_frame_def)
next
  case False
  then obtain p where top: "top_ready Q p" using top_ready_exists by metis
  then have "picks Q (hd (Q p)) (Q(p := tl (Q p)))" unfolding picks_def by blast
  note picked = this
  show ?thesis
    by (rule scheduler_get_next_task_rel [OF rel top], rule that [OF _ picked])
qed

lemma picks_unique:
  assumes "picks Q n Q'" and "picks Q m Q''"
  shows "n = m \<and> Q' = Q''"
proof (cases "\<forall>p. Q p = []")
  case True
  then show ?thesis using assms by (auto simp: picks_def top_ready_def)
next
  case False
  then obtain p q where "top_ready Q p" "n = hd (Q p)" "Q' = Q(p := tl (Q p))"
    and "top_ready Q q" "m = hd (Q q)" "Q'' = Q(q := tl (Q q))"
    using assms unfolding picks_def by blast
  then show ?thesis using top_ready_unique [of Q p q] by simp
qed

end
