(* ===== verification/Tasks.thy ===== *)
theory Tasks
  imports Kernel
begin

text \<open>
  The task operations of \<^verbatim>\<open>src/kernel.c\<close>: creation, deletion, suspension, priorities,
  delays and statistics, and the invariant that every kernel entry keeps: the ready
  queues are well-formed chains and only the current task is RUNNING.
\<close>

section \<open>Initialisation and task creation\<close>

text \<open>\<^verbatim>\<open>memset(task, 0, sizeof(tcb_t))\<close>.\<close>

definition zero_tcb :: tcb where
  "zero_tcb = \<lparr>t_stack_ptr = 0, t_stack = (\<lambda>_. 0), t_state = TASK_STATE_READY, t_priority = 0,
     t_base_priority = 0, t_time_slice = 0, t_name = [], t_entry_point = 0, t_param = 0,
     t_run_time = 0, t_context_switches = 0, t_stack_high_water_mark = 0, t_next = None\<rparr>"

text \<open>
  The initial stack frame, pushed downwards from \<^verbatim>\<open>stack[STACK_SIZE - 1]\<close>: xPSR, PC, LR,
  R12, R3, R2, R1 and R0. A name is a C string, of which 15 characters are kept.
\<close>

definition push :: "u32 \<Rightarrow> nat \<times> (nat \<Rightarrow> u32) \<Rightarrow> nat \<times> (nat \<Rightarrow> u32)" where
  "push v st = (case st of (sp, mem) \<Rightarrow> (sp - 1, mem(sp - 1 := v)))"

definition initial_frame :: "u32 \<Rightarrow> u32 \<Rightarrow> nat \<times> (nat \<Rightarrow> u32)" where
  "initial_frame entry param =
     (push param \<circ> push 0 \<circ> push 0 \<circ> push 0 \<circ> push 0 \<circ> push 0 \<circ> push entry \<circ> push 0x01000000)
       (STACK_SIZE - 1, \<lambda>_. 0)"

definition new_tcb :: "string option \<Rightarrow> u32 \<Rightarrow> u32 \<Rightarrow> u8 \<Rightarrow> tcb" where
  "new_tcb name entry param prio =
     (let (sp, mem) = initial_frame entry param in
      zero_tcb\<lparr>t_name := take 15 (case name of None \<Rightarrow> [] | Some n \<Rightarrow> n),
        t_entry_point := entry, t_param := param, t_priority := prio, t_base_priority := prio,
        t_state := TASK_STATE_READY, t_time_slice := TIME_SLICE_MS, t_stack := mem,
        t_stack_ptr := sp\<rparr>)"

definition os_task_create ::
    "ptr \<Rightarrow> string option \<Rightarrow> u32 \<Rightarrow> u32 \<Rightarrow> u8 \<Rightarrow> 'a kernel_scheme \<Rightarrow> (os_error \<times> 'a kernel_scheme) option" where
  "os_task_create task name entry param prio s =
    (case task of
       None \<Rightarrow> Some (OS_ERROR_INVALID_PARAM, s)
     | Some a \<Rightarrow>
        if entry = 0 then Some (OS_ERROR_INVALID_PARAM, s)
        else if unat (k_task_count s) \<ge> MAX_TASKS then Some (OS_ERROR_NO_MEMORY, s)
        else do {
          let s = upd_task a (\<lambda>_. new_tcb name entry param prio) s;
          s \<leftarrow> scheduler_add_ready_task a s;
          Some (OS_OK, s\<lparr>k_task_count := k_task_count s + 1\<rparr>) })"

text \<open>
  \<^verbatim>\<open>os_init\<close> zeroes the kernel structure, the task pool at addresses \<open>0 .. 7\<close> included, and
  creates the idle task; \<open>idle_entry\<close> is the address of \<^verbatim>\<open>idle_task\<close>.
\<close>

definition zero_kernel :: "'a kernel_scheme \<Rightarrow> 'a kernel_scheme" where
  "zero_kernel s = s\<lparr>k_current_task := None, k_ready_queue := (\<lambda>_. None), k_ready_bitmap := (\<lambda>_. 0),
     k_heap := (\<lambda>a. if a < MAX_TASKS then zero_tcb else k_heap s a), k_task_count := 0,
     k_tick_count := 0, k_context_switch_count := 0, k_scheduler_running := False\<rparr>"

definition os_init :: "u32 \<Rightarrow> 'a kernel_scheme \<Rightarrow> 'a kernel_scheme option" where
  "os_init idle_entry s = do {
     (_, s) \<leftarrow> os_task_create (Some idle_tcb) (Some ''idle'') idle_entry 0 PRIORITY_IDLE (zero_kernel s);
     Some s }"

section \<open>Deleting, suspending, resuming\<close>

definition os_task_delete ::
    "'a cswitch \<Rightarrow> ptr \<Rightarrow> 'a kernel_scheme \<Rightarrow> (os_error \<times> 'a kernel_scheme) option" where
  "os_task_delete cs task s =
    (case task of
       None \<Rightarrow> Some (OS_ERROR_INVALID_PARAM, s)
     | Some a \<Rightarrow>
        if a = idle_tcb then Some (OS_ERROR_INVALID_PARAM, s)
        else do {
          let (st, s) = os_enter_critical s;
          s \<leftarrow> scheduler_remove_task a s;
          let s = upd_task a (\<lambda>t. t\<lparr>t_state := TASK_STATE_TERMINATED\<rparr>) s;
          let s = s\<lparr>k_task_count := k_task_count s - 1\<rparr>;
          (if Some a = k_current_task s then do {
             s \<leftarrow> os_task_yield cs (os_exit_critical st s);
             Some (OS_OK, s) }
           else Some (OS_OK, os_exit_critical st s)) })"

definition os_task_suspend ::
    "'a cswitch \<Rightarrow> ptr \<Rightarrow> 'a kernel_scheme \<Rightarrow> (os_error \<times> 'a kernel_scheme) option" where
  "os_task_suspend cs task s =
    (case task of
       None \<Rightarrow> Some (OS_ERROR_INVALID_PARAM, s)
     | Some a \<Rightarrow> do {
          let (st, s) = os_enter_critical s;
          s \<leftarrow> scheduler_remove_task a s;
          let s = upd_task a (\<lambda>t. t\<lparr>t_state := TASK_STATE_SUSPENDED\<rparr>) s;
          let is_current = (Some a = k_current_task s);
          let s = os_exit_critical st s;
          s \<leftarrow> (if is_current then os_task_yield cs s else Some s);
          Some (OS_OK, s) })"

definition os_task_resume :: "ptr \<Rightarrow> 'a kernel_scheme \<Rightarrow> (os_error \<times> 'a kernel_scheme) option" where
  "os_task_resume task s =
    (case task of
       None \<Rightarrow> Some (OS_ERROR_INVALID_PARAM, s)
     | Some a \<Rightarrow> do {
          let (st, s) = os_enter_critical s;
          s \<leftarrow> (if t_state (k_heap s a) = TASK_STATE_SUSPENDED
                 then scheduler_add_ready_task a s else Some s);
          Some (OS_OK, os_exit_critical st s) })"

section \<open>Delays and time\<close>

text \<open>\<^verbatim>\<open>(int32_t)(target - tick_count) > 0\<close> is decided on the signed 32-bit difference.\<close>

partial_function (option) delay_loop :: "'a cswitch \<Rightarrow> u32 \<Rightarrow> 'a kernel_scheme \<Rightarrow> 'a kernel_scheme option" where
  "delay_loop cs target s =
    (if sint (target - k_tick_count s) > 0
     then do { s \<leftarrow> os_task_yield cs s; delay_loop cs target s }
     else Some s)"

definition os_task_delay :: "'a cswitch \<Rightarrow> u32 \<Rightarrow> 'a kernel_scheme \<Rightarrow> 'a kernel_scheme option" where
  "os_task_delay cs ticks s = delay_loop cs (k_tick_count s + ticks) s"

definition ms_to_ticks :: "u32 \<Rightarrow> u32" where
  "ms_to_ticks ms = (ms * TICK_RATE_HZ + 999) div 1000"

definition os_task_delay_ms :: "'a cswitch \<Rightarrow> u32 \<Rightarrow> 'a kernel_scheme \<Rightarrow> 'a kernel_scheme option" where
  "os_task_delay_ms cs ms s = os_task_delay cs (ms_to_ticks ms) s"

definition os_task_get_current :: "'a kernel_scheme \<Rightarrow> ptr" where
  "os_task_get_current s = k_current_task s"

definition os_get_tick_count :: "'a kernel_scheme \<Rightarrow> u32" where
  "os_get_tick_count s = k_tick_count s"

definition os_get_uptime_ms :: "'a kernel_scheme \<Rightarrow> u32" where
  "os_get_uptime_ms s = ucast ((ucast (k_tick_count s) * 1000 :: u64) div ucast TICK_RATE_HZ)"

definition os_is_running :: "'a kernel_scheme \<Rightarrow> bool" where
  "os_is_running s = k_scheduler_running s"

section \<open>Priorities\<close>

definition os_task_get_priority :: "ptr \<Rightarrow> 'a kernel_scheme \<Rightarrow> u8" where
  "os_task_get_priority task s =
    (case task of None \<Rightarrow> PRIORITY_IDLE | Some a \<Rightarrow> t_priority (k_heap s a))"

text \<open>The requeueing shared by the three priority changes: leave the old queue if READY,
  change the priority fields, enter the new queue if READY.\<close>

definition requeue :: "addr \<Rightarrow> (tcb \<Rightarrow> tcb) \<Rightarrow> 'a kernel_scheme \<Rightarrow> 'a kernel_scheme option" where
  "requeue a f s = do {
     s \<leftarrow> (if t_state (k_heap s a) = TASK_STATE_READY then scheduler_remove_task a s else Some s);
     let s = upd_task a f s;
     (if t_state (k_heap s a) = TASK_STATE_READY then scheduler_add_ready_task a s else Some s) }"

text \<open>\<^verbatim>\<open>kernel.current_task != NULL && new_priority < kernel.current_task->priority\<close>\<close>

definition outranks_current :: "u8 \<Rightarrow> 'a kernel_scheme \<Rightarrow> bool" where
  "outranks_current new_priority s =
    (case k_current_task s of None \<Rightarrow> False | Some c \<Rightarrow> new_priority < t_priority (k_heap s c))"

definition os_task_set_priority ::
    "'a cswitch \<Rightarrow> ptr \<Rightarrow> u8 \<Rightarrow> 'a kernel_scheme \<Rightarrow> (os_error \<times> 'a kernel_scheme) option" where
  "os_task_set_priority cs task new_priority s =
    (case task of
       None \<Rightarrow> Some (OS_ERROR_INVALID_PARAM, s)
     | Some a \<Rightarrow> do {
          let (st, s) = os_enter_critical s;
          let old_priority = t_priority (k_heap s a);
          (if new_priority = old_priority then Some (OS_OK, os_exit_critical st s)
           else do {
             s \<leftarrow> requeue a (\<lambda>t. t\<lparr>t_priority := new_priority, t_base_priority := new_priority\<rparr>) s;
             (if Some a = k_current_task s \<and> new_priority > old_priority
              then do { s \<leftarrow> os_task_yield cs (os_exit_critical st s); Some (OS_OK, s) }
              else if outranks_current new_priority s
              then do { s \<leftarrow> os_task_yield cs (os_exit_critical st s); Some (OS_OK, s) }
              else Some (OS_OK, os_exit_critical st s)) }) })"

definition os_task_raise_priority ::
    "'a cswitch \<Rightarrow> ptr \<Rightarrow> u8 \<Rightarrow> 'a kernel_scheme \<Rightarrow> (os_error \<times> 'a kernel_scheme) option" where
  "os_task_raise_priority cs task new_priority s =
    (case task of
       None \<Rightarrow> Some (OS_ERROR_INVALID_PARAM, s)
     | Some a \<Rightarrow>
        if new_priority \<ge> t_priority (k_heap s a) then Some (OS_OK, s)
        else do {
          let (st, s) = os_enter_critical s;
          s \<leftarrow> requeue a (\<lambda>t. t\<lparr>t_priority := new_priority\<rparr>) s;
          (if outranks_current new_priority s
           then do { s \<leftarrow> os_task_yield cs (os_exit_critical st s); Some (OS_OK, s) }
           else Some (OS_OK, os_exit_critical st s)) })"

definition os_task_reset_priority ::
    "'a cswitch \<Rightarrow> ptr \<Rightarrow> 'a kernel_scheme \<Rightarrow> (os_error \<times> 'a kernel_scheme) option" where
  "os_task_reset_priority cs task s =
    (case task of
       None \<Rightarrow> Some (OS_ERROR_INVALID_PARAM, s)
     | Some a \<Rightarrow> do {
          let (st, s) = os_enter_critical s;
          let old_priority = t_priority (k_heap s a);
          s \<leftarrow> requeue a (\<lambda>t. t\<lparr>t_priority := t_base_priority t\<rparr>) s;
          (if Some a = k_current_task s \<and> t_priority (k_heap s a) > old_priority
           then do { s \<leftarrow> os_task_yield cs (os_exit_critical st s); Some (OS_OK, s) }
           else Some (OS_OK, os_exit_critical st s)) })"

section \<open>The kernel invariant\<close>

text \<open>
  The ready queues are well-formed, and only the current task is RUNNING. \<open>cs_ok\<close> asks of
  the context switch that whatever runs until the caller is resumed keeps the invariant.
\<close>

definition sched_inv :: "'a kernel_scheme \<Rightarrow> bool" where
  "sched_inv s \<longleftrightarrow> (\<exists>Q. sched_rel s Q) \<and>
     (\<forall>a. t_state (k_heap s a) = TASK_STATE_RUNNING \<longrightarrow> k_current_task s = Some a)"

definition cs_ok :: "'a cswitch \<Rightarrow> bool" where
  "cs_ok cs \<longleftrightarrow> (\<forall>old new s. sched_inv s \<longrightarrow> sched_inv (cs old new s))"

lemma cs_now_ok [simp]: "cs_ok cs_now"
  by (simp add: cs_ok_def cs_now_def)

lemma core_eqD:
  assumes "core t = core u"
  shows "t_state t = t_state u" "t_priority t = t_priority u" "t_base_priority t = t_base_priority u"
    "t_time_slice t = t_time_slice u" "t_run_time t = t_run_time u"
    "t_context_switches t = t_context_switches u" "t_name t = t_name u" "t_stack t = t_stack u"
    "t_stack_ptr t = t_stack_ptr u" "t_entry_point t = t_entry_point u" "t_param t = t_param u"
    "t_stack_high_water_mark t = t_stack_high_water_mark u"
  using assms by (cases t; cases u; simp add: core_def)+

lemma sched_inv_updates [simp]:
  "sched_inv (s\<lparr>k_tick_count := n\<rparr>) \<longleftrightarrow> sched_inv s"
  "sched_inv (s\<lparr>k_context_switch_count := n\<rparr>) \<longleftrightarrow> sched_inv s"
  "sched_inv (s\<lparr>k_scheduler_running := r\<rparr>) \<longleftrightarrow> sched_inv s"
  "sched_inv (s\<lparr>k_task_count := tc\<rparr>) \<longleftrightarrow> sched_inv s"
  "sched_inv (s\<lparr>k_primask := pm\<rparr>) \<longleftrightarrow> sched_inv s"
  by (simp_all add: sched_inv_def)

lemma running_not_queued:
  assumes "sched_rel s Q" and "t_state (k_heap s a) \<noteq> TASK_STATE_READY"
  shows "a \<notin> set (Q p)"
  using sched_relD(3) [OF assms(1)] assms(2) by blast

text \<open>A store that keeps link, priority and state of a task is invisible to the queues.\<close>

lemma sched_rel_upd_task_same:
  assumes "t_next (f (k_heap s a)) = t_next (k_heap s a)"
    and "t_priority (f (k_heap s a)) = t_priority (k_heap s a)"
    and "t_state (f (k_heap s a)) = t_state (k_heap s a)"
  shows "sched_rel (upd_task a f s) Q \<longleftrightarrow> sched_rel s Q"
proof -
  have "nexts (upd_task a f s) = nexts s" using assms by (auto simp: nexts_def)
  then show ?thesis using assms by (auto simp: sched_rel_def simp del: nexts_upd_task)
qed

section \<open>What the scheduler does\<close>

text \<open>
  The dispatch at the end of a time slice, on the abstract queues: a RUNNING task goes to
  the end of the queue of its priority, then the next task is picked.
\<close>

definition requeued :: "'a kernel_scheme \<Rightarrow> addr \<Rightarrow> (u8 \<Rightarrow> addr list) \<Rightarrow> u8 \<Rightarrow> addr list" where
  "requeued s c Q =
    (if t_state (k_heap s c) = TASK_STATE_RUNNING
     then Q(t_priority (k_heap s c) := Q (t_priority (k_heap s c)) @ [c]) else Q)"

lemma requeue_current:
  assumes rel: "sched_rel s Q"
  obtains s' where
    "(if t_state (k_heap s c) = TASK_STATE_RUNNING then scheduler_add_ready_task c s else Some s) = Some s'"
    and "sched_rel s' (requeued s c Q)" and "sched_frame s s'"
    and "\<And>x. core (k_heap s' x) =
       core (if x = c \<and> t_state (k_heap s c) = TASK_STATE_RUNNING
             then (k_heap s x)\<lparr>t_state := TASK_STATE_READY\<rparr> else k_heap s x)"
proof (cases "t_state (k_heap s c) = TASK_STATE_RUNNING")
  case True
  then have "c \<notin> set (Q p)" for p by (intro running_not_queued [OF rel]) simp
  then obtain s' where "scheduler_add_ready_task c s = Some s'"
    "sched_rel s' (Q(t_priority (k_heap s c) := Q (t_priority (k_heap s c)) @ [c]))" "sched_frame s s'"
    "\<And>x. core (k_heap s' x) =
       core (if x = c then (k_heap s x)\<lparr>t_state := TASK_STATE_READY\<rparr> else k_heap s x)"
    using scheduler_add_ready_task_rel [OF rel _ refl] by metis
  with True that show ?thesis by (simp add: requeued_def)
next
  case False
  with that rel show ?thesis by (simp add: requeued_def sched_frame_def)
qed

text \<open>
  The outcome of a dispatch from state \<open>s\<close> with current task \<open>c\<close> and queues \<open>Q\<close>: task \<open>n\<close> is
  picked, \<open>Q'\<close> are the remaining queues and \<open>s'\<close> is the state in which \<open>n\<close> continues.
\<close>

definition dispatched ::
    "'a kernel_scheme \<Rightarrow> addr \<Rightarrow> (u8 \<Rightarrow> addr list) \<Rightarrow> addr \<Rightarrow> (u8 \<Rightarrow> addr list) \<Rightarrow> 'a kernel_scheme \<Rightarrow> bool" where
  "dispatched s c Q n Q' s' \<longleftrightarrow>
     picks (requeued s c Q) n Q' \<and> sched_rel s' Q' \<and>
     k_current_task s' = Some n \<and> k_tick_count s' = k_tick_count s + 1 \<and>
     k_scheduler_running s' \<and> k_primask s' = k_primask s \<and>
     k_task_count s' = k_task_count s \<and> kernel.more s' = kernel.more s \<and>
     (\<forall>x. t_state (k_heap s' x) =
       (if x = n \<and> n \<noteq> c then TASK_STATE_RUNNING
        else if x = c \<and> t_state (k_heap s c) = TASK_STATE_RUNNING then TASK_STATE_READY
        else t_state (k_heap s x))) \<and>
     (\<forall>x. t_priority (k_heap s' x) = t_priority (k_heap s x)) \<and>
     (\<forall>x. t_base_priority (k_heap s' x) = t_base_priority (k_heap s x)) \<and>
     (\<forall>x. t_time_slice (k_heap s' x) =
       (if x = n then TIME_SLICE_MS else if x = c then 0 else t_time_slice (k_heap s x)))"

lemma dispatchedD:
  assumes "dispatched s c Q n Q' s'"
  shows "picks (requeued s c Q) n Q'" and "sched_rel s' Q'"
    and "k_current_task s' = Some n" and "k_tick_count s' = k_tick_count s + 1"
    and "k_scheduler_running s'" and "k_primask s' = k_primask s"
    and "k_task_count s' = k_task_count s" and "kernel.more s' = kernel.more s"
    and "\<And>x. t_state (k_heap s' x) =
       (if x = n \<and> n \<noteq> c then TASK_STATE_RUNNING
        else if x = c \<and> t_state (k_heap s c) = TASK_STATE_RUNNING then TASK_STATE_READY
        else t_state (k_heap s x))"
    and "\<And>x. t_priority (k_heap s' x) = t_priority (k_heap s x)"
    and "\<And>x. t_base_priority (k_heap s' x) = t_base_priority (k_heap s x)"
    and "\<And>x. t_time_slice (k_heap s' x) =
       (if x = n then TIME_SLICE_MS else if x = c then 0 else t_time_slice (k_heap s x))"
  using assms by (simp_all add: dispatched_def)

lemma os_scheduler_expire:
  assumes rel: "sched_rel s Q" and run: "k_scheduler_running s" and cur: "k_current_task s = Some c"
    and slice: "unat (t_time_slice (k_heap s c)) \<le> 1"
  shows "\<exists>n Q' s'. dispatched s c Q n Q' s' \<and>
     os_scheduler cs s = Some (if n \<noteq> c then cs c n s' else s')"
proof -
  define s2 where "s2 = charge_tick c (s\<lparr>k_tick_count := k_tick_count s + 1\<rparr>)"
  have rel2: "sched_rel s2 Q"
    using rel by (simp add: s2_def)
  have zero: "t_time_slice (k_heap s2 c) = 0"
    using slice unfolding unat_le_1_cases by (auto simp: s2_def)
  have heap2: "t_state (k_heap s2 x) = t_state (k_heap s x)"
      "t_priority (k_heap s2 x) = t_priority (k_heap s x)"
      "t_base_priority (k_heap s2 x) = t_base_priority (k_heap s x)"
      "x \<noteq> c \<Longrightarrow> t_time_slice (k_heap s2 x) = t_time_slice (k_heap s x)" for x
    by (auto simp: s2_def)
  have req: "requeued s2 c Q = requeued s c Q" by (simp add: requeued_def heap2)
  obtain s3 where s3: "(if t_state (k_heap s2 c) = TASK_STATE_RUNNING
       then scheduler_add_ready_task c s2 else Some s2) = Some s3"
    "sched_rel s3 (requeued s c Q)" "sched_frame s2 s3"
    "\<And>x. core (k_heap s3 x) = core (if x = c \<and> t_state (k_heap s2 c) = TASK_STATE_RUNNING
             then (k_heap s2 x)\<lparr>t_state := TASK_STATE_READY\<rparr> else k_heap s2 x)"
    using requeue_current [OF rel2, of c] unfolding req by blast
  obtain n s4 Q' where s4: "scheduler_get_next_task s3 = Some (n, s4)" "picks (requeued s c Q) n Q'"
    "sched_rel s4 Q'" "sched_frame s3 s4" "\<And>x. core (k_heap s4 x) = core (k_heap s3 x)"
    using scheduler_get_next_task_spec [OF s3(2)] by blast
  have nQ: "n \<notin> set (Q' p)" for p by (rule picks_notin [OF s3(2) s4(2)])
  define s5 where "s5 = (if n \<noteq> c
    then upd_task n (\<lambda>t. t\<lparr>t_state := TASK_STATE_RUNNING, t_time_slice := TIME_SLICE_MS\<rparr>)
           (upd_task n (\<lambda>t. t\<lparr>t_context_switches := t_context_switches t + 1\<rparr>)
             (s4\<lparr>k_context_switch_count := k_context_switch_count s4 + 1\<rparr>)\<lparr>k_current_task := Some n\<rparr>)
    else upd_task n (\<lambda>t. t\<lparr>t_time_slice := TIME_SLICE_MS\<rparr>) s4)"
  have frame: "k_current_task s4 = Some c" "k_tick_count s4 = k_tick_count s + 1" "k_scheduler_running s4"
      "k_primask s4 = k_primask s" "k_task_count s4 = k_task_count s" "kernel.more s4 = kernel.more s"
    using s3(3) s4(4) run cur by (auto simp: sched_frame_def s2_def)
  have heap4: "t_state (k_heap s4 x) = (if x = c \<and> t_state (k_heap s c) = TASK_STATE_RUNNING
        then TASK_STATE_READY else t_state (k_heap s x))"
      "t_priority (k_heap s4 x) = t_priority (k_heap s x)"
      "t_base_priority (k_heap s4 x) = t_base_priority (k_heap s x)"
      "t_time_slice (k_heap s4 x) = (if x = c then 0 else t_time_slice (k_heap s x))" for x
    using core_eqD [OF trans [OF s4(5) s3(4)], of x] zero heap2 [of x] heap2(1) [of c] by auto
  have "dispatched s c Q n Q' s5"
    using s4(2,3) nQ frame heap4 by (auto simp: dispatched_def s5_def)
  moreover have "os_scheduler cs s = Some (if n \<noteq> c then cs c n s5 else s5)"
    using run cur zero s3(1) s4(1) unfolding os_scheduler_def
    by (simp add: s2_def [symmetric] preempt_def dispatch_def s5_def Let_def)
  ultimately show ?thesis by blast
qed

section \<open>Every kernel entry completes and keeps the invariant\<close>

lemma sched_inv_upd_slice [simp]:
  "sched_inv (upd_task a (\<lambda>t. t\<lparr>t_time_slice := n\<rparr>) s) \<longleftrightarrow> sched_inv s"
  by (auto simp: sched_inv_def sched_rel_upd_task_same)

lemma os_scheduler_inv:
  assumes inv: "sched_inv s" and cs: "cs_ok cs"
  obtains s' where "os_scheduler cs s = Some s'" and "sched_inv s'"
proof -
  obtain Q where rel: "sched_rel s Q" using inv by (auto simp: sched_inv_def)
  consider (off) "\<not> k_scheduler_running s \<or> k_current_task s = None"
    | (tick) c where "k_scheduler_running s" "k_current_task s = Some c" "\<not> unat (t_time_slice (k_heap s c)) \<le> 1"
    | (expire) c where "k_scheduler_running s" "k_current_task s = Some c" "unat (t_time_slice (k_heap s c)) \<le> 1"
    by (cases "k_current_task s") auto
  then show ?thesis
  proof cases
    case off
    then have "os_scheduler cs s = Some (if k_scheduler_running s
        then s\<lparr>k_tick_count := k_tick_count s + 1\<rparr> else s)"
      by (auto simp: os_scheduler_def Let_def)
    then show ?thesis by (rule that) (simp add: inv)
  next
    case (tick c)
    then have slice: "t_time_slice (k_heap s c) > 0" "t_time_slice (k_heap s c) \<noteq> 1"
      unfolding unat_le_1_cases by (auto simp: word_gt_0)
    define s' where "s' = charge_tick c (s\<lparr>k_tick_count := k_tick_count s + 1\<rparr>)"
    have "os_scheduler cs s = Some s'"
      using tick slice by (simp add: os_scheduler_def s'_def)
    moreover have "sched_inv s'"
      using inv by (simp add: s'_def sched_inv_def)
    ultimately show ?thesis by (rule that)
  next
    case (expire c)
    obtain n Q' s' where d: "dispatched s c Q n Q' s'"
      and eq: "os_scheduler cs s = Some (if n \<noteq> c then cs c n s' else s')"
      using os_scheduler_expire [OF rel expire, of cs] by blast
    have "sched_inv s'"
      using dispatchedD(2,3,9) [OF d] inv expire(2) by (auto simp: sched_inv_def split: if_splits)
    with eq that cs show ?thesis by (auto simp: cs_ok_def)
  qed
qed

lemma os_task_yield_inv:
  assumes "sched_inv s" and "cs_ok cs"
  obtains s' where "os_task_yield cs s = Some s'" and "sched_inv s'"
proof (cases "k_current_task s")
  case None
  then show ?thesis using that assms(1) by (simp add: os_task_yield_def)
next
  case (Some c)
  then show ?thesis
    using that os_scheduler_inv [of "upd_task c (\<lambda>t. t\<lparr>t_time_slice := 0\<rparr>) s" cs] assms
    by (auto simp: os_task_yield_def)
qed

text \<open>Whether a task is in some ready queue.\<close>

definition queued :: "'a kernel_scheme \<Rightarrow> addr \<Rightarrow> bool" where
  "queued s a \<longleftrightarrow> (\<exists>Q p. sched_rel s Q \<and> a \<in> set (Q p))"

lemma not_queuedD: "\<not> queued s a \<Longrightarrow> sched_rel s Q \<Longrightarrow> a \<notin> set (Q p)"
  by (auto simp: queued_def)

lemma add_ready_inv:
  assumes inv: "sched_inv s" and "\<not> queued s a"
  obtains s' where "scheduler_add_ready_task a s = Some s'" and "sched_inv s'" and "sched_frame s s'"
    and "queued s' a" and "t_state (k_heap s' a) = TASK_STATE_READY"
proof -
  obtain Q where rel: "sched_rel s Q" using inv by (auto simp: sched_inv_def)
  obtain s' where 1: "scheduler_add_ready_task a s = Some s'"
      "sched_rel s' (Q(t_priority (k_heap s a) := Q (t_priority (k_heap s a)) @ [a]))" "sched_frame s s'"
      "\<And>x. core (k_heap s' x) = core (if x = a then (k_heap s x)\<lparr>t_state := TASK_STATE_READY\<rparr> else k_heap s x)"
    using scheduler_add_ready_task_rel [OF rel not_queuedD [OF assms(2) rel] refl] by blast
  have st: "t_state (k_heap s' x) = (if x = a then TASK_STATE_READY else t_state (k_heap s x))" for x
    using core_eqD(1) [OF 1(4) [of x]] by simp
  have "sched_inv s'"
    using 1(2,3) inv st by (auto simp: sched_inv_def sched_frame_def)
  moreover have "queued s' a" using 1(2) by (fastforce simp: queued_def)
  ultimately show ?thesis using that 1(1,3) st by simp
qed

lemma remove_inv:
  assumes inv: "sched_inv s"
  obtains s' where "scheduler_remove_task a s = Some s'" and "sched_inv s'" and "sched_frame s s'"
    and "\<not> queued s' a" and "\<And>x. core (k_heap s' x) = core (k_heap s x)"
proof -
  obtain Q where rel: "sched_rel s Q" using inv by (auto simp: sched_inv_def)
  let ?p = "t_priority (k_heap s a)"
  obtain s' where 1: "scheduler_remove_task a s = Some s'"
      "sched_rel s' (Q(?p := remove1 a (Q ?p)))" "sched_frame s s'"
      "\<And>x. core (k_heap s' x) = core (k_heap s x)"
    using scheduler_remove_task_rel [OF rel refl] by blast
  have "a \<notin> set (remove1 a (Q ?p))"
    using chain_distinct [OF sched_relD(1) [OF rel], of ?p] by simp
  moreover have "a \<notin> set (Q p)" if "p \<noteq> ?p" for p
    using sched_relD(2) [OF rel] that by blast
  ultimately have "a \<notin> set ((Q(?p := remove1 a (Q ?p))) p)" for p by simp
  then have "\<not> queued s' a"
    unfolding queued_def using sched_rel_unique [OF 1(2)] by metis
  moreover have "sched_inv s'"
    using 1(2,3) inv core_eqD(1) [OF 1(4)] by (auto simp: sched_inv_def sched_frame_def)
  ultimately show ?thesis using that 1 by blast
qed

lemma not_queued_upd_task:
  assumes inv: "\<exists>Q. sched_rel s Q" and "\<not> queued s a"
  shows "\<not> queued (upd_task a f s) a"
proof -
  obtain Q where rel: "sched_rel s Q" using inv by blast
  note notin = not_queuedD [OF assms(2) rel]
  have "sched_rel (upd_task a f s) Q" using rel notin by simp
  then show ?thesis using notin unfolding queued_def by (metis sched_rel_unique)
qed

lemma sched_inv_upd_not_queued:
  assumes "sched_inv s" and "\<not> queued s a"
    and "t_state (f (k_heap s a)) = TASK_STATE_RUNNING \<Longrightarrow> t_state (k_heap s a) = TASK_STATE_RUNNING"
  shows "sched_inv (upd_task a f s)"
proof -
  obtain Q where rel: "sched_rel s Q" using assms(1) by (auto simp: sched_inv_def)
  then have "sched_rel (upd_task a f s) Q" using not_queuedD [OF assms(2) rel] by simp
  then show ?thesis using assms(1,3) by (auto simp: sched_inv_def)
qed

lemma not_ready_not_queued:
  "t_state (k_heap s a) \<noteq> TASK_STATE_READY \<Longrightarrow> \<not> queued s a"
  by (auto simp: queued_def dest: sched_relD(3))

lemma requeue_inv:
  assumes inv: "sched_inv s"
    and keep: "\<And>t. t_state (f t) = t_state t" "\<And>t. core (f t) = f (core t)"
  obtains s' where "requeue a f s = Some s'" and "sched_inv s'" and "sched_frame s s'"
    and "\<And>x. core (k_heap s' x) = core (if x = a then f (k_heap s x) else k_heap s x)"
proof (cases "t_state (k_heap s a) = TASK_STATE_READY")
  case True
  obtain s1 where s1: "scheduler_remove_task a s = Some s1" "sched_inv s1" "sched_frame s s1"
      "\<not> queued s1 a" "\<And>x. core (k_heap s1 x) = core (k_heap s x)"
    using remove_inv [OF inv] by blast
  have ready: "t_state (k_heap s1 a) = TASK_STATE_READY" using core_eqD(1) [OF s1(5)] True by simp
  have inv1: "sched_inv (upd_task a f s1)"
    by (rule sched_inv_upd_not_queued [OF s1(2,4)]) (simp add: keep)
  obtain Q where rel1: "sched_rel (upd_task a f s1) Q" using inv1 by (auto simp: sched_inv_def)
  have nq: "\<not> queued (upd_task a f s1) a"
    using not_queued_upd_task s1(2,4) by (auto simp: sched_inv_def)
  obtain s2 where s2: "scheduler_add_ready_task a (upd_task a f s1) = Some s2" "sched_frame (upd_task a f s1) s2"
      "\<And>x. core (k_heap s2 x) = core (if x = a then (k_heap (upd_task a f s1) x)\<lparr>t_state := TASK_STATE_READY\<rparr>
                                        else k_heap (upd_task a f s1) x)"
    using scheduler_add_ready_task_rel [OF rel1 not_queuedD [OF nq rel1] refl] by blast
  have inv2: "sched_inv s2"
    using add_ready_inv [OF inv1 nq] s2(1) by (metis option.inject)
  have "(f (k_heap s1 a))\<lparr>t_state := TASK_STATE_READY\<rparr> = f (k_heap s1 a)"
    using ready keep(1) [of "k_heap s1 a"] by (cases "f (k_heap s1 a)") simp
  then have "core (k_heap s2 x) = core (if x = a then f (k_heap s x) else k_heap s x)" for x
    using s2(3) [of x] s1(5) [of x] keep(2) by (cases "x = a") auto
  moreover have "requeue a f s = Some s2"
    using True s1(1) s2(1) ready by (simp add: requeue_def keep)
  moreover have "sched_frame s s2" using s1(3) s2(2) by (simp add: sched_frame_def)
  ultimately show ?thesis using that inv2 by blast
next
  case False
  have "requeue a f s = Some (upd_task a f s)" using False by (simp add: requeue_def keep)
  moreover have "sched_inv (upd_task a f s)"
    by (rule sched_inv_upd_not_queued [OF inv not_ready_not_queued [OF False]]) (simp add: keep)
  ultimately show ?thesis by (rule that) (auto simp: sched_frame_def)
qed

lemmas critical_defs = os_enter_critical_def os_exit_critical_def Let_def

lemma yield_completes:
  assumes "sched_inv s" and "cs_ok cs"
  shows "\<exists>s'. do { s \<leftarrow> os_task_yield cs s; Some (OS_OK, s) } = Some (OS_OK, s') \<and> sched_inv s'"
  using os_task_yield_inv [OF assms] by force

lemma os_task_create_inv:
  assumes inv: "sched_inv s" and "\<And>a. task = Some a \<Longrightarrow> \<not> queued s a"
  shows "\<exists>r s'. os_task_create task name entry param prio s = Some (r, s') \<and> sched_inv s'"
proof (cases task)
  case (Some a)
  let ?s1 = "upd_task a (\<lambda>_. new_tcb name entry param prio) s"
  have nq: "\<not> queued s a" using assms(2) Some by simp
  have "sched_inv ?s1"
    by (rule sched_inv_upd_not_queued [OF inv nq])
      (simp add: new_tcb_def zero_tcb_def split: prod.splits)
  moreover have "\<not> queued ?s1 a"
    using not_queued_upd_task [OF _ nq] inv by (auto simp: sched_inv_def)
  ultimately obtain s' where "scheduler_add_ready_task a ?s1 = Some s'" "sched_inv s'"
    using add_ready_inv by metis
  then show ?thesis using inv Some by (simp add: os_task_create_def)
qed (simp add: os_task_create_def inv)

lemma os_task_delete_inv:
  assumes inv: "sched_inv s" and cs: "cs_ok cs"
  shows "\<exists>r s'. os_task_delete cs task s = Some (r, s') \<and> sched_inv s'"
proof (cases "task = None \<or> task = Some idle_tcb")
  case True
  then show ?thesis using inv by (auto simp: os_task_delete_def)
next
  case False
  then obtain a where a: "task = Some a" "a \<noteq> idle_tcb" by auto
  obtain s1 where s1: "scheduler_remove_task a (s\<lparr>k_primask := 1\<rparr>) = Some s1" "sched_inv s1" "\<not> queued s1 a"
    using remove_inv [of "s\<lparr>k_primask := 1\<rparr>" a] inv by auto
  let ?s2 = "(upd_task a (\<lambda>t. t\<lparr>t_state := TASK_STATE_TERMINATED\<rparr>) s1)
    \<lparr>k_task_count := k_task_count s1 - 1, k_primask := k_primask s\<rparr>"
  have "sched_inv ?s2"
    by simp (rule sched_inv_upd_not_queued [OF s1(2,3)], simp)
  then show ?thesis
    using a s1(1) yield_completes [OF _ cs, of ?s2] by (auto simp: os_task_delete_def critical_defs)
qed

lemma os_task_suspend_inv:
  assumes inv: "sched_inv s" and cs: "cs_ok cs"
  shows "\<exists>r s'. os_task_suspend cs task s = Some (r, s') \<and> sched_inv s'"
proof (cases task)
  case (Some a)
  obtain s1 where s1: "scheduler_remove_task a (s\<lparr>k_primask := 1\<rparr>) = Some s1" "sched_inv s1" "\<not> queued s1 a"
    using remove_inv [of "s\<lparr>k_primask := 1\<rparr>" a] inv by auto
  let ?s2 = "(upd_task a (\<lambda>t. t\<lparr>t_state := TASK_STATE_SUSPENDED\<rparr>) s1)\<lparr>k_primask := k_primask s\<rparr>"
  have "sched_inv ?s2"
    by simp (rule sched_inv_upd_not_queued [OF s1(2,3)], simp)
  then show ?thesis
    using Some s1(1) yield_completes [OF _ cs, of ?s2] by (auto simp: os_task_suspend_def critical_defs)
qed (simp add: os_task_suspend_def inv)

lemma os_task_resume_inv:
  assumes inv: "sched_inv s"
  shows "\<exists>r s'. os_task_resume task s = Some (r, s') \<and> sched_inv s'"
proof (cases task)
  case (Some a)
  show ?thesis
  proof (cases "t_state (k_heap s a) = TASK_STATE_SUSPENDED")
    case True
    then have "\<not> queued (s\<lparr>k_primask := 1\<rparr>) a" by (intro not_ready_not_queued) simp
    then obtain s' where "scheduler_add_ready_task a (s\<lparr>k_primask := 1\<rparr>) = Some s'" "sched_inv s'"
      using add_ready_inv [of "s\<lparr>k_primask := 1\<rparr>" a] inv by auto
    then show ?thesis using Some True by (simp add: os_task_resume_def critical_defs)
  qed (simp add: os_task_resume_def Some inv critical_defs)
qed (simp add: os_task_resume_def inv)

lemma requeue_critical:
  assumes inv: "sched_inv s"
    and "\<And>t. t_state (f t) = t_state t" "\<And>t. core (f t) = f (core t)"
  shows "\<exists>s'. requeue a f (s\<lparr>k_primask := 1\<rparr>) = Some s' \<and> sched_inv s'"
  by (rule requeue_inv [of "s\<lparr>k_primask := 1\<rparr>" f a]) (use assms in auto)

lemma os_task_set_priority_inv:
  assumes inv: "sched_inv s" and cs: "cs_ok cs"
  shows "\<exists>r s'. os_task_set_priority cs task np s = Some (r, s') \<and> sched_inv s'"
proof (cases task)
  case (Some a)
  obtain s1 where "requeue a (\<lambda>t. t\<lparr>t_priority := np, t_base_priority := np\<rparr>) (s\<lparr>k_primask := 1\<rparr>) = Some s1"
      and "sched_inv s1"
    using requeue_critical [OF inv, of "\<lambda>t. t\<lparr>t_priority := np, t_base_priority := np\<rparr>" a] by (auto simp: core_def)
  then show ?thesis
    using Some inv yield_completes [OF _ cs, of "s1\<lparr>k_primask := k_primask s\<rparr>"]
    by (auto simp: os_task_set_priority_def critical_defs)
qed (simp add: os_task_set_priority_def inv)

lemma os_task_raise_priority_inv:
  assumes inv: "sched_inv s" and cs: "cs_ok cs"
  shows "\<exists>r s'. os_task_raise_priority cs task np s = Some (r, s') \<and> sched_inv s'"
proof (cases task)
  case (Some a)
  obtain s1 where "requeue a (\<lambda>t. t\<lparr>t_priority := np\<rparr>) (s\<lparr>k_primask := 1\<rparr>) = Some s1" and "sched_inv s1"
    using requeue_critical [OF inv, of "\<lambda>t. t\<lparr>t_priority := np\<rparr>" a] by (auto simp: core_def)
  then show ?thesis
    using Some inv yield_completes [OF _ cs, of "s1\<lparr>k_primask := k_primask s\<rparr>"]
    by (auto simp: os_task_raise_priority_def critical_defs)
qed (simp add: os_task_raise_priority_def inv)

lemma os_task_reset_priority_inv:
  assumes inv: "sched_inv s" and cs: "cs_ok cs"
  shows "\<exists>r s'. os_task_reset_priority cs task s = Some (r, s') \<and> sched_inv s'"
proof (cases task)
  case (Some a)
  obtain s1 where "requeue a (\<lambda>t. t\<lparr>t_priority := t_base_priority t\<rparr>) (s\<lparr>k_primask := 1\<rparr>) = Some s1"
      and "sched_inv s1"
    using requeue_critical [OF inv, of "\<lambda>t. t\<lparr>t_priority := t_base_priority t\<rparr>" a] by (auto simp: core_def)
  then show ?thesis
    using Some inv yield_completes [OF _ cs, of "s1\<lparr>k_primask := k_primask s\<rparr>"]
    by (auto simp: os_task_reset_priority_def critical_defs)
qed (simp add: os_task_reset_priority_def inv)

end
