(* ===== verification/Scheduling.thy ===== *)
theory Scheduling
  imports Tasks
begin

text \<open>
  The contract of the ready queues as an interface, its consequences for every
  implementation, and the properties of the kernel's scheduler: which task runs next,
  round robin among equals, the invariant in every reachable state, delays.
\<close>

section \<open>The ready-queue interface\<close>

text \<open>
  \<open>rel s Q\<close> relates a scheduler state to the lists of ready tasks per priority. The laws
  are what the scheduler relies on: entering at the end of the queue of one's priority,
  leaving it, and taking the head of the most urgent queue.
\<close>

locale ready_queues =
  fixes rel :: "'s \<Rightarrow> (u8 \<Rightarrow> addr list) \<Rightarrow> bool"
    and prio :: "'s \<Rightarrow> addr \<Rightarrow> u8"
    and add :: "addr \<Rightarrow> 's \<Rightarrow> 's option"
    and remove :: "addr \<Rightarrow> 's \<Rightarrow> 's option"
    and pick :: "'s \<Rightarrow> (addr \<times> 's) option"
  assumes add_law: "rel s Q \<Longrightarrow> (\<And>p. a \<notin> set (Q p)) \<Longrightarrow>
      \<exists>s'. add a s = Some s' \<and> rel s' (Q(prio s a := Q (prio s a) @ [a])) \<and> prio s' = prio s"
    and remove_law: "rel s Q \<Longrightarrow>
      \<exists>s'. remove a s = Some s' \<and> rel s' (Q(prio s a := remove1 a (Q (prio s a)))) \<and> prio s' = prio s"
    and pick_law: "rel s Q \<Longrightarrow> top_ready Q p \<Longrightarrow>
      \<exists>s'. pick s = Some (hd (Q p), s') \<and> rel s' (Q(p := tl (Q p))) \<and> prio s' = prio s"
    and member_law: "rel s Q \<Longrightarrow> a \<in> set (Q p) \<Longrightarrow> prio s a = p"
    and distinct_law: "rel s Q \<Longrightarrow> distinct (Q p)"

text \<open>Taking tasks until \<open>k\<close> have been taken, and the order the contract prescribes.\<close>

fun drain :: "('s \<Rightarrow> (addr \<times> 's) option) \<Rightarrow> nat \<Rightarrow> 's \<Rightarrow> (addr list \<times> 's) option" where
  "drain pick 0 s = Some ([], s)"
| "drain pick (Suc k) s = do {
     (n, s) \<leftarrow> pick s;
     (ns, s) \<leftarrow> drain pick k s;
     Some (n # ns, s) }"

definition ready_order :: "(u8 \<Rightarrow> addr list) \<Rightarrow> addr list" where
  "ready_order Q = concat (map (\<lambda>i. Q (word_of_nat i)) [0..<256])"

lemma ready_order_top:
  assumes "top_ready Q p"
  shows "ready_order Q = hd (Q p) # ready_order (Q(p := tl (Q p)))"
proof -
  let ?n = "unat p"
  have split: "[0..<256] = [0..<?n] @ ?n # [Suc ?n..<256]"
    using upt_add_eq_append [of 0 ?n "256 - ?n"] upt_conv_Cons [of ?n 256] unat_u8_less [of p] by simp
  have low: "Q (word_of_nat i) = []" "(Q(p := tl (Q p))) (word_of_nat i) = []" if "i < ?n" for i
  proof -
    have "i < 256" using that unat_u8_less [of p] by linarith
    then have "unat (word_of_nat i :: u8) = i" by (simp add: unat_of_nat)
    then have "(word_of_nat i :: u8) < p" using that by (simp add: word_less_nat_alt)
    then show "Q (word_of_nat i) = []" "(Q(p := tl (Q p))) (word_of_nat i) = []"
      using assms by (auto simp: top_ready_def)
  qed
  have high: "(Q(p := tl (Q p))) (word_of_nat i) = Q (word_of_nat i)" if "i \<in> set [Suc ?n..<256]" for i
  proof -
    have "unat (word_of_nat i :: u8) = i" using that by (simp add: unat_of_nat)
    then have "word_of_nat i \<noteq> p" using that by auto
    then show ?thesis by simp
  qed
  have low_nil: "concat (map (\<lambda>i. R (word_of_nat i)) [0..<?n]) = ([] :: addr list)"
    if "\<And>i. i < ?n \<Longrightarrow> R (word_of_nat i) = []" for R :: "u8 \<Rightarrow> addr list"
    using that by simp
  have order: "ready_order R = R p @ concat (map (\<lambda>i. R (word_of_nat i)) [Suc ?n..<256])"
    if "\<And>i. i < ?n \<Longrightarrow> R (word_of_nat i) = []" for R
    unfolding ready_order_def split using low_nil [of R] that by simp
  have "map (\<lambda>i. (Q(p := tl (Q p))) (word_of_nat i)) [Suc ?n..<256] =
      map (\<lambda>i. Q (word_of_nat i)) [Suc ?n..<256]"
    by (rule map_cong [OF refl high])
  then have "ready_order (Q(p := tl (Q p))) = tl (Q p) @ concat (map (\<lambda>i. Q (word_of_nat i)) [Suc ?n..<256])"
    using order [of "Q(p := tl (Q p))", OF low(2)] by (simp only: fun_upd_same)
  moreover have "Q p = hd (Q p) # tl (Q p)" using assms by (simp add: top_ready_def)
  ultimately show ?thesis using order [of Q, OF low(1)] by (metis append_Cons)
qed

context ready_queues
begin

text \<open>Taking tasks one after the other yields them by priority, first in first out.\<close>

lemma drain_order:
  "rel s Q \<Longrightarrow> k \<le> length (ready_order Q) \<Longrightarrow>
   \<exists>s' Q'. drain pick k s = Some (take k (ready_order Q), s') \<and> rel s' Q' \<and>
           ready_order Q' = drop k (ready_order Q)"
proof (induction k arbitrary: s Q)
  case 0
  then show ?case by auto
next
  case (Suc k)
  then have "ready_order Q \<noteq> []" by auto
  then obtain i where "Q (word_of_nat i) \<noteq> []" by (auto simp: ready_order_def)
  then obtain p where top: "top_ready Q p" by (rule top_ready_exists)
  note order = ready_order_top [OF top]
  from pick_law [OF Suc.prems(1) top] obtain s1 where
    s1: "pick s = Some (hd (Q p), s1)" "rel s1 (Q(p := tl (Q p)))" by blast
  have "k \<le> length (ready_order (Q(p := tl (Q p))))" using Suc.prems(2) order by simp
  from Suc.IH [OF s1(2) this] obtain s' Q' where
    "drain pick k s1 = Some (take k (ready_order (Q(p := tl (Q p)))), s')" "rel s' Q'"
    "ready_order Q' = drop k (ready_order (Q(p := tl (Q p))))" by blast
  with s1(1) order show ?case by auto
qed

text \<open>Entering and leaving again changes nothing.\<close>

lemma add_remove:
  assumes "rel s Q" and "\<And>p. a \<notin> set (Q p)"
  shows "\<exists>s' s''. add a s = Some s' \<and> remove a s' = Some s'' \<and> rel s'' Q"
proof -
  from add_law [OF assms] obtain s' where
    s': "add a s = Some s'" "rel s' (Q(prio s a := Q (prio s a) @ [a]))" "prio s' = prio s" by blast
  from remove_law [OF s'(2), of a] obtain s'' where
    "remove a s' = Some s''"
    "rel s'' ((Q(prio s a := Q (prio s a) @ [a]))(prio s a := remove1 a (Q (prio s a) @ [a])))"
    using s'(3) by auto
  moreover have "remove1 a (Q (prio s a) @ [a]) = Q (prio s a)"
    using assms(2) by (simp add: remove1_append)
  ultimately show ?thesis using s'(1) by auto
qed

end

text \<open>The kernel's queues satisfy the contract.\<close>

definition prio_of :: "'a kernel_scheme \<Rightarrow> addr \<Rightarrow> u8" where
  "prio_of s a = t_priority (k_heap s a)"

interpretation rq: ready_queues sched_rel prio_of scheduler_add_ready_task scheduler_remove_task
  scheduler_get_next_task
proof unfold_locales
  fix s :: "'a kernel_scheme" and Q a
  assume rel: "sched_rel s Q"
  show "distinct (Q p)" for p using chain_distinct sched_relD(1) [OF rel] by blast
  show "prio_of s b = p" if "b \<in> set (Q p)" for b p
    using sched_relD(2) [OF rel that] by (simp add: prio_of_def)
  show "\<exists>s'. scheduler_add_ready_task a s = Some s' \<and>
      sched_rel s' (Q(prio_of s a := Q (prio_of s a) @ [a])) \<and> prio_of s' = prio_of s"
    if "\<And>p. a \<notin> set (Q p)"
  proof (rule scheduler_add_ready_task_rel [OF rel that refl])
    fix s' :: "'a kernel_scheme" assume "\<And>x. core (k_heap s' x) =
      core (if x = a then (k_heap s x)\<lparr>t_state := TASK_STATE_READY\<rparr> else k_heap s x)"
    from core_eqD(2) [OF this] have "prio_of s' = prio_of s" by (auto simp: prio_of_def)
    then show ?thesis if "scheduler_add_ready_task a s = Some s'"
        "sched_rel s' (Q(t_priority (k_heap s a) := Q (t_priority (k_heap s a)) @ [a]))"
      using that by (simp add: prio_of_def)
  qed
  show "\<exists>s'. scheduler_remove_task a s = Some s' \<and>
      sched_rel s' (Q(prio_of s a := remove1 a (Q (prio_of s a)))) \<and> prio_of s' = prio_of s"
  proof (rule scheduler_remove_task_rel [OF rel refl])
    fix s' :: "'a kernel_scheme" assume "\<And>x. core (k_heap s' x) = core (k_heap s x)"
    from core_eqD(2) [OF this] have "prio_of s' = prio_of s" by (auto simp: prio_of_def)
    then show ?thesis if "scheduler_remove_task a s = Some s'"
        "sched_rel s' (Q(t_priority (k_heap s a) := remove1 a (Q (t_priority (k_heap s a)))))"
      using that by (simp add: prio_of_def)
  qed
  show "\<exists>s'. scheduler_get_next_task s = Some (hd (Q p), s') \<and> sched_rel s' (Q(p := tl (Q p))) \<and>
      prio_of s' = prio_of s" if "top_ready Q p" for p
  proof (rule scheduler_get_next_task_rel [OF rel that])
    fix s' :: "'a kernel_scheme" assume "\<And>x. core (k_heap s' x) = core (k_heap s x)"
    from core_eqD(2) [OF this] have "prio_of s' = prio_of s" by (auto simp: prio_of_def)
    then show ?thesis if "scheduler_get_next_task s = Some (hd (Q p), s')" "sched_rel s' (Q(p := tl (Q p)))"
      using that by simp
  qed
qed

section \<open>Reachable kernel states\<close>

text \<open>
  The entries into the kernel: the timer interrupt and the calls of the running task. A
  task control block handed to \<^verbatim>\<open>os_task_create\<close> must not be in a ready queue; the code
  does not check this, the other operations need no such condition.
\<close>

datatype kop =
    Create ptr "string option" u32 u32 u8
  | Delete ptr
  | Suspend ptr
  | Resume ptr
  | Yield
  | Tick
  | SetPriority ptr u8
  | RaisePriority ptr u8
  | ResetPriority ptr

fun kexec :: "kop \<Rightarrow> kernel \<Rightarrow> (os_error \<times> kernel) option" where
  "kexec (Create t name entry param prio) s = os_task_create t name entry param prio s"
| "kexec (Delete t) s = os_task_delete cs_now t s"
| "kexec (Suspend t) s = os_task_suspend cs_now t s"
| "kexec (Resume t) s = os_task_resume t s"
| "kexec Yield s = map_option (Pair OS_OK) (os_task_yield cs_now s)"
| "kexec Tick s = map_option (Pair OS_OK) (os_scheduler cs_now s)"
| "kexec (SetPriority t p) s = os_task_set_priority cs_now t p s"
| "kexec (RaisePriority t p) s = os_task_raise_priority cs_now t p s"
| "kexec (ResetPriority t) s = os_task_reset_priority cs_now t s"

definition kguard :: "kop \<Rightarrow> kernel \<Rightarrow> bool" where
  "kguard op s \<longleftrightarrow> (\<forall>a name entry param prio. op = Create (Some a) name entry param prio \<longrightarrow> \<not> queued s a)"

text \<open>
  Booting: \<^verbatim>\<open>os_init\<close>, tasks created before the start, then \<^verbatim>\<open>os_start\<close>. Memory that holds no
  task yet is not marked RUNNING (static task control blocks are zero).
\<close>

inductive kreach :: "kernel \<Rightarrow> bool" where
  boot: "os_init entry s0 = Some s \<Longrightarrow> (\<And>a. t_state (k_heap s0 a) \<noteq> TASK_STATE_RUNNING) \<Longrightarrow> kreach s"
| start: "kreach s \<Longrightarrow> \<not> k_scheduler_running s \<Longrightarrow> k_current_task s = None \<Longrightarrow> os_start s = Some s' \<Longrightarrow> kreach s'"
| entry: "kreach s \<Longrightarrow> kguard op s \<Longrightarrow> kexec op s = Some (r, s') \<Longrightarrow> kreach s'"

lemma kexec_inv:
  assumes "sched_inv s" and "kguard op s"
  shows "\<exists>r s'. kexec op s = Some (r, s') \<and> sched_inv s'"
proof (cases op)
  case (Create t name entry param prio)
  then show ?thesis
    using assms(2) by (auto simp: kguard_def intro!: os_task_create_inv assms(1))
next
  case Yield
  then show ?thesis using os_task_yield_inv [OF assms(1) cs_now_ok] by force
next
  case Tick
  then show ?thesis using os_scheduler_inv [OF assms(1) cs_now_ok] by force
qed (simp_all add: assms(1) os_task_delete_inv os_task_suspend_inv os_task_resume_inv
      os_task_set_priority_inv os_task_raise_priority_inv os_task_reset_priority_inv)

lemma sched_rel_zero_kernel: "sched_rel (zero_kernel s) (\<lambda>_. [])"
  by (simp add: sched_rel_def zero_kernel_def)

lemma os_init_inv:
  assumes "\<And>a. t_state (k_heap s0 a) \<noteq> TASK_STATE_RUNNING"
  shows "\<exists>s. os_init entry s0 = Some s \<and> sched_inv s"
proof -
  have "sched_inv (zero_kernel s0)"
    using assms sched_rel_zero_kernel [of s0]
    by (auto simp: sched_inv_def zero_kernel_def zero_tcb_def)
  moreover have "\<not> queued (zero_kernel s0) a" for a
    unfolding queued_def using sched_rel_unique [OF sched_rel_zero_kernel [of s0]] by (metis list.set_intros(1) list.set(1) empty_iff)
  ultimately obtain r s where
    "os_task_create (Some idle_tcb) (Some ''idle'') entry 0 PRIORITY_IDLE (zero_kernel s0) = Some (r, s)"
    "sched_inv s"
    using os_task_create_inv by metis
  then show ?thesis by (simp add: os_init_def)
qed

lemma os_start_inv:
  assumes inv: "sched_inv s" and "k_current_task s = None"
  shows "\<exists>s'. os_start s = Some s' \<and> sched_inv s'"
proof -
  obtain Q where rel: "sched_rel (s\<lparr>k_scheduler_running := True\<rparr>) Q"
    using inv by (auto simp: sched_inv_def)
  obtain n s1 Q' where s1: "scheduler_get_next_task (s\<lparr>k_scheduler_running := True\<rparr>) = Some (n, s1)"
      "picks Q n Q'" "sched_rel s1 Q'"
      "\<And>x. core (k_heap s1 x) = core (k_heap (s\<lparr>k_scheduler_running := True\<rparr>) x)"
    by (rule scheduler_get_next_task_spec [OF rel]) (rule that, assumption+)
  have rel': "sched_rel (upd_task n (\<lambda>t. t\<lparr>t_state := TASK_STATE_RUNNING\<rparr>) (s1\<lparr>k_current_task := Some n\<rparr>)) Q'"
    using s1(3) picks_notin [OF rel s1(2)] by simp
  have "t_state (k_heap s1 x) \<noteq> TASK_STATE_RUNNING" for x
    using core_eqD(1) [OF s1(4) [of x]] inv assms(2) by (auto simp: sched_inv_def)
  with rel' have "sched_inv (upd_task n (\<lambda>t. t\<lparr>t_state := TASK_STATE_RUNNING\<rparr>) (s1\<lparr>k_current_task := Some n\<rparr>))"
    by (auto simp: sched_inv_def split: if_splits)
  with s1(1) show ?thesis by (simp add: os_start_def Let_def)
qed

lemma kreach_inv: "kreach s \<Longrightarrow> sched_inv s"
proof (induction rule: kreach.induct)
  case (boot entry s0 s)
  then show ?case using os_init_inv [of s0 entry] by auto
next
  case (start s s')
  then show ?case using os_start_inv [of s] by auto
next
  case (entry s op r s')
  then show ?case using kexec_inv [of s op] by auto
qed

section \<open>Yielding\<close>

lemma os_task_yield_spec:
  assumes rel: "sched_rel s Q" and run: "k_scheduler_running s" and cur: "k_current_task s = Some c"
  obtains n Q' s' where "dispatched s c Q n Q' s'"
    and "os_task_yield cs s = Some (if n \<noteq> c then cs c n s' else s')"
proof -
  let ?s = "upd_task c (\<lambda>t. t\<lparr>t_time_slice := 0\<rparr>) s"
  have rel': "sched_rel ?s Q" using rel by (simp add: sched_rel_upd_task_same)
  have yield: "os_task_yield cs s = os_scheduler cs ?s" using cur by (simp add: os_task_yield_def)
  obtain n Q' s' where d: "dispatched ?s c Q n Q' s'"
      and eq: "os_scheduler cs ?s = Some (if n \<noteq> c then cs c n s' else s')"
    using os_scheduler_expire [OF rel', of c cs] run cur by auto
  have req: "requeued ?s c Q = requeued s c Q" by (simp add: requeued_def)
  have "dispatched s c Q n Q' s'"
    unfolding dispatched_def using dispatchedD [OF d] by (simp add: req) auto
  with eq yield show ?thesis using that by simp
qed

fun yields :: "nat \<Rightarrow> 'a kernel_scheme \<Rightarrow> 'a kernel_scheme option" where
  "yields 0 s = Some s"
| "yields (Suc n) s = do { s \<leftarrow> yields n s; os_task_yield cs_now s }"

text \<open>The running task and the ready tasks of its priority form a ring that each yield turns.\<close>

lemma yield_rotates:
  assumes rel: "sched_rel s (Q(p := tl R))" and run: "k_scheduler_running s"
    and cur: "k_current_task s = Some (hd R)" and st: "t_state (k_heap s (hd R)) = TASK_STATE_RUNNING"
    and pr: "t_priority (k_heap s (hd R)) = p" and len: "2 \<le> length R" and d: "distinct R"
    and low: "\<And>q. q < p \<Longrightarrow> Q q = []"
  shows "\<exists>s'. os_task_yield cs_now s = Some s' \<and> sched_rel s' (Q(p := tl (rotate1 R))) \<and>
     k_scheduler_running s' \<and> k_current_task s' = Some (hd (rotate1 R)) \<and>
     t_state (k_heap s' (hd (rotate1 R))) = TASK_STATE_RUNNING \<and>
     (\<forall>x. t_priority (k_heap s' x) = t_priority (k_heap s x))"
proof -
  obtain c n ts where R: "R = c # n # ts" using len by (cases R; cases "tl R") auto
  have req: "requeued s c (Q(p := n # ts)) = Q(p := n # ts @ [c])"
    using st pr by (simp add: requeued_def R)
  have "top_ready (Q(p := n # ts @ [c])) p" using low by (auto simp: top_ready_def)
  then have pk: "picks (Q(p := n # ts @ [c])) n (Q(p := ts @ [c]))"
    unfolding picks_def by (intro disjI1 exI [of _ p]) simp
  have rel': "sched_rel s (Q(p := n # ts))" and cur': "k_current_task s = Some c"
    using rel cur by (simp_all add: R)
  have nc: "n \<noteq> c" using d by (auto simp: R)
  obtain m Q' s' where y: "dispatched s c (Q(p := n # ts)) m Q' s'"
      "os_task_yield cs_now s = Some (if m \<noteq> c then cs_now c m s' else s')"
    by (rule os_task_yield_spec [OF rel' run cur'])
  note D = dispatchedD [OF y(1)]
  have m: "m = n" "Q' = Q(p := ts @ [c])" using picks_unique [OF D(1) [unfolded req] pk] by auto
  show ?thesis
    by (rule exI [of _ s']) (use y(2) D(2,3,5,9,10) nc in \<open>simp add: m R cs_now_def\<close>)
qed

lemma yields_rotate:
  assumes rel: "sched_rel s Q" and run: "k_scheduler_running s"
    and cur: "k_current_task s = Some c" and st: "t_state (k_heap s c) = TASK_STATE_RUNNING"
    and p: "p = t_priority (k_heap s c)" and ne: "Q p \<noteq> []" and low: "\<And>q. q < p \<Longrightarrow> Q q = []"
  shows "\<exists>s'. yields n s = Some s' \<and> sched_rel s' (Q(p := tl (rotate n (c # Q p)))) \<and>
      k_scheduler_running s' \<and> k_current_task s' = Some (hd (rotate n (c # Q p))) \<and>
      t_state (k_heap s' (hd (rotate n (c # Q p)))) = TASK_STATE_RUNNING \<and>
      (\<forall>x. t_priority (k_heap s' x) = t_priority (k_heap s x))"
proof (induction n)
  case 0
  then show ?case using assms by simp
next
  case (Suc n)
  let ?R = "rotate n (c # Q p)"
  obtain s1 where s1: "yields n s = Some s1" "sched_rel s1 (Q(p := tl ?R))" "k_scheduler_running s1"
      "k_current_task s1 = Some (hd ?R)" "t_state (k_heap s1 (hd ?R)) = TASK_STATE_RUNNING"
      "\<And>x. t_priority (k_heap s1 x) = t_priority (k_heap s x)"
    using Suc.IH by blast
  have "c \<notin> set (Q p)" by (rule running_not_queued [OF rel]) (simp add: st)
  then have d: "distinct ?R"
    using chain_distinct [OF sched_relD(1) [OF rel], of p] by simp
  have len: "2 \<le> length ?R" using ne by (cases "Q p") auto
  have "hd ?R \<in> set (c # Q p)" by (metis hd_in_set list.distinct(1) rotate_is_Nil_conv set_rotate)
  then have pr: "t_priority (k_heap s1 (hd ?R)) = p"
    using p sched_relD(2) [OF rel] s1(6) by auto
  show ?case
    unfolding rotate_Suc using yield_rotates [OF s1(2,3,4,5) pr len d low]
    by (simp add: s1(1,6) del: fun_upd_apply)
qed

section \<open>A task that is alone at its priority\<close>

text \<open>
  A task is lost when it is READY but neither current nor in a ready queue; the timer
  interrupt alone never brings it back.
\<close>

definition lost :: "'a kernel_scheme \<Rightarrow> addr \<Rightarrow> bool" where
  "lost s c \<longleftrightarrow> (\<exists>Q. sched_rel s Q \<and> (\<forall>p. c \<notin> set (Q p))) \<and> t_state (k_heap s c) = TASK_STATE_READY \<and>
     k_current_task s \<noteq> Some c \<and> k_current_task s \<noteq> None \<and> c \<noteq> idle_tcb"

fun ticks :: "nat \<Rightarrow> 'a kernel_scheme \<Rightarrow> 'a kernel_scheme option" where
  "ticks 0 s = Some s"
| "ticks (Suc n) s = do { s \<leftarrow> ticks n s; os_scheduler cs_now s }"

lemma picks_member:
  assumes "picks Q n Q'"
  shows "n = idle_tcb \<or> (\<exists>p. n \<in> set (Q p))" and "set (Q' p) \<subseteq> set (Q p)"
proof -
  consider q where "Q q \<noteq> []" "n = hd (Q q)" "Q' = Q(q := tl (Q q))" | "n = idle_tcb" "Q' = Q"
    using assms unfolding picks_def top_ready_def by blast
  note cases = this
  from cases show "n = idle_tcb \<or> (\<exists>p. n \<in> set (Q p))"
    by cases (use hd_in_set in blast, simp)
  from cases show "set (Q' p) \<subseteq> set (Q p)"
    by cases (auto dest: list.set_sel(2))
qed

lemma requeued_member: "x \<in> set (requeued s c Q p) \<Longrightarrow> x \<in> set (Q p) \<or> x = c"
  by (auto simp: requeued_def split: if_splits)

lemma lost_tick:
  assumes "lost s c"
  shows "\<exists>s'. os_scheduler cs_now s = Some s' \<and> lost s' c"
proof -
  obtain Q d where rel: "sched_rel s Q" and notin: "\<And>p. c \<notin> set (Q p)"
      and d: "k_current_task s = Some d" "d \<noteq> c" and st: "t_state (k_heap s c) = TASK_STATE_READY"
      and idle: "c \<noteq> idle_tcb"
    using assms by (auto simp: lost_def)
  consider (off) "\<not> k_scheduler_running s"
    | (tick) "k_scheduler_running s" "\<not> unat (t_time_slice (k_heap s d)) \<le> 1"
    | (expire) "k_scheduler_running s" "unat (t_time_slice (k_heap s d)) \<le> 1" by blast
  then show ?thesis
  proof cases
    case off
    then show ?thesis using assms by (simp add: os_scheduler_def)
  next
    case tick
    then have "t_time_slice (k_heap s d) > 0" "t_time_slice (k_heap s d) \<noteq> 1"
      unfolding unat_le_1_cases by (auto simp: word_gt_0)
    then have "os_scheduler cs_now s = Some (charge_tick d (s\<lparr>k_tick_count := k_tick_count s + 1\<rparr>))"
      using tick(1) d by (simp add: os_scheduler_def)
    moreover have "lost (charge_tick d (s\<lparr>k_tick_count := k_tick_count s + 1\<rparr>)) c"
      using rel notin d st idle by (auto simp: lost_def)
    ultimately show ?thesis by blast
  next
    case expire
    obtain n Q' s' where dis: "dispatched s d Q n Q' s'"
        and eq: "os_scheduler cs_now s = Some (if n \<noteq> d then cs_now d n s' else s')"
      using os_scheduler_expire [OF rel expire(1) d(1) expire(2), of cs_now] by blast
    note D = dispatchedD [OF dis]
    have nc: "n \<noteq> c" and cQ: "c \<notin> set (Q' p)" for p
      using picks_member [OF D(1)] requeued_member notin d(2) idle by blast+
    have "lost s' c"
      using D(2,3) D(9) [of c] nc cQ d(2) st idle by (auto simp: lost_def)
    then show ?thesis using eq by (simp add: cs_now_def)
  qed
qed

lemma lost_ticks: "lost s c \<Longrightarrow> \<exists>s'. ticks n s = Some s' \<and> lost s' c"
proof (induction n)
  case (Suc n)
  then obtain s1 where "ticks n s = Some s1" "lost s1 c" by blast
  with lost_tick [of s1 c] show ?case by auto
qed simp

lemma lone_task_first_yield:
  assumes rel: "sched_rel s Q" and run: "k_scheduler_running s" and cur: "k_current_task s = Some c"
    and st: "t_state (k_heap s c) = TASK_STATE_RUNNING"
    and low: "\<And>q. q \<le> t_priority (k_heap s c) \<Longrightarrow> Q q = []"
  shows "\<exists>s'. os_task_yield cs_now s = Some s' \<and> sched_rel s' Q \<and> k_scheduler_running s' \<and>
     k_current_task s' = Some c \<and> t_state (k_heap s' c) = TASK_STATE_READY"
proof -
  let ?p = "t_priority (k_heap s c)"
  obtain n Q' s' where d: "dispatched s c Q n Q' s'"
      and eq: "os_task_yield cs_now s = Some (if n \<noteq> c then cs_now c n s' else s')"
    using os_task_yield_spec [OF rel run cur] by blast
  note D = dispatchedD [OF d]
  have Qp: "Q ?p = []" using low by simp
  have "top_ready (Q(?p := [c])) ?p" using low by (auto simp: top_ready_def)
  then have "picks (Q(?p := [c])) c ((Q(?p := [c]))(?p := []))"
    unfolding picks_def by (intro disjI1 exI [of _ ?p]) simp
  moreover have "requeued s c Q = Q(?p := [c])" using st Qp by (simp add: requeued_def)
  moreover have "(Q(?p := [c]))(?p := []) = Q" using Qp by auto
  ultimately have "n = c" "Q' = Q" using picks_unique [of "Q(?p := [c])" n Q'] D(1) by auto
  then show ?thesis using eq D(2,3,5) D(9) [of c] st by simp
qed

lemma ready_task_yields_away:
  assumes rel: "sched_rel s Q" and run: "k_scheduler_running s" and cur: "k_current_task s = Some c"
    and st: "t_state (k_heap s c) = TASK_STATE_READY" and notin: "\<And>p. c \<notin> set (Q p)"
    and other: "Q r \<noteq> []" and idle: "c \<noteq> idle_tcb"
  shows "\<exists>s'. os_task_yield cs_now s = Some s' \<and> lost s' c"
proof -
  obtain n Q' s' where d: "dispatched s c Q n Q' s'"
      and eq: "os_task_yield cs_now s = Some (if n \<noteq> c then cs_now c n s' else s')"
    using os_task_yield_spec [OF rel run cur] by blast
  note D = dispatchedD [OF d]
  have "requeued s c Q = Q" using st by (simp add: requeued_def)
  then have nc: "n \<noteq> c" and cQ: "c \<notin> set (Q' p)" for p
    using picks_member [OF D(1)] notin idle by auto
  then have "lost s' c"
    using D(2,3) D(9) [of c] st idle by (auto simp: lost_def)
  then show ?thesis using eq nc by (simp add: cs_now_def)
qed

section \<open>Delays\<close>

text \<open>
  What a context switch must do for the caller to make progress: it comes back with the
  caller as current task, the kernel invariant intact and the tick counter advanced by
  less than a quarter of its range.
\<close>

definition resumes :: "'a cswitch \<Rightarrow> bool" where
  "resumes cs \<longleftrightarrow> (\<forall>old new s. sched_inv s \<longrightarrow> k_scheduler_running s \<longrightarrow>
     sched_inv (cs old new s) \<and> k_scheduler_running (cs old new s) \<and>
     k_current_task (cs old new s) = Some old \<and>
     unat (k_tick_count (cs old new s) - k_tick_count s) < 2 ^ 30)"

lemma unat_step_u32:
  fixes a b :: u32
  assumes "unat (b - (a + 1)) < 2 ^ 30"
  shows "1 \<le> unat (b - a)" and "unat (b - a) \<le> 2 ^ 30"
proof -
  have "b - a = (b - (a + 1)) + 1" by simp
  moreover have "unat ((b - (a + 1)) + 1) = unat (b - (a + 1)) + 1"
    using assms by (subst unat_add_lem [THEN iffD1]) simp_all
  ultimately show "1 \<le> unat (b - a)" and "unat (b - a) \<le> 2 ^ 30" using assms by simp_all
qed

lemma yield_advances:
  assumes inv: "sched_inv s" and run: "k_scheduler_running s" and cur: "k_current_task s = Some c"
    and cs: "resumes cs"
  obtains s' where "os_task_yield cs s = Some s'" and "sched_inv s'" and "k_scheduler_running s'"
    and "k_current_task s' = Some c"
    and "1 \<le> unat (k_tick_count s' - k_tick_count s)" and "unat (k_tick_count s' - k_tick_count s) \<le> 2 ^ 30"
    and "kernel.more s' = kernel.more s \<or> (\<exists>n s1. kernel.more s1 = kernel.more s \<and> s' = cs c n s1)"
proof -
  obtain Q where rel: "sched_rel s Q" using inv by (auto simp: sched_inv_def)
  obtain n Q' s1 where d: "dispatched s c Q n Q' s1"
      and eq: "os_task_yield cs s = Some (if n \<noteq> c then cs c n s1 else s1)"
    using os_task_yield_spec [OF rel run cur] by blast
  note D = dispatchedD [OF d]
  have inv1: "sched_inv s1"
    using D(2,3,9) inv cur by (auto simp: sched_inv_def split: if_splits)
  show ?thesis
  proof (cases "n = c")
    case True
    then show ?thesis using that [of s1] eq inv1 D(3,4,5,8) by simp
  next
    case False
    let ?s2 = "cs c n s1"
    have 2: "sched_inv ?s2 \<and> k_scheduler_running ?s2 \<and> k_current_task ?s2 = Some c \<and>
        unat (k_tick_count ?s2 - k_tick_count s1) < 2 ^ 30"
      using cs inv1 D(5) unfolding resumes_def by blast
    then have "unat (k_tick_count ?s2 - (k_tick_count s + 1)) < 2 ^ 30" using D(4) by simp
    from unat_step_u32 [OF this] show ?thesis using that [of ?s2] eq 2 False D(8) by auto
  qed
qed

lemma delay_loop_completes:
  assumes cs: "resumes cs"
  shows "sched_inv s \<Longrightarrow> k_scheduler_running s \<Longrightarrow> k_current_task s = Some c \<Longrightarrow>
     unat (target - k_tick_count s) < 2 ^ 30 \<Longrightarrow>
     \<exists>s'. delay_loop cs target s = Some s' \<and> sched_inv s' \<and> k_current_task s' = Some c \<and>
          unat (k_tick_count s' - target) \<le> 2 ^ 30"
proof (induction "unat (target - k_tick_count s)" arbitrary: s rule: less_induct)
  case less
  let ?d = "target - k_tick_count s"
  show ?case
  proof (cases "unat ?d = 0")
    case True
    then have "target = k_tick_count s" by (simp add: unat_eq_0)
    with less.prems show ?thesis by (simp add: delay_loop.simps)
  next
    case False
    then have pos: "sint ?d > 0" using less.prems(4) by (simp add: sint_pos_u32)
    obtain s1 where s1: "os_task_yield cs s = Some s1" "sched_inv s1" "k_scheduler_running s1"
        "k_current_task s1 = Some c" "1 \<le> unat (k_tick_count s1 - k_tick_count s)"
        "unat (k_tick_count s1 - k_tick_count s) \<le> 2 ^ 30"
      using yield_advances [OF less.prems(1,2,3) cs] by blast
    let ?e = "k_tick_count s1 - k_tick_count s"
    have loop: "delay_loop cs target s = delay_loop cs target s1"
      using pos s1(1) by (subst delay_loop.simps) simp
    have diff: "target - k_tick_count s1 = ?d - ?e" by simp
    show ?thesis
    proof (cases "unat ?e \<le> unat ?d")
      case True
      then have "unat (target - k_tick_count s1) = unat ?d - unat ?e"
        unfolding diff by (rule unat_diff_u32(1))
      with less.hyps [of s1] less.prems(4) s1 True False show ?thesis by (simp add: loop)
    next
      case False
      then have lt: "unat ?d < unat ?e" by simp
      have "unat (target - k_tick_count s1) = 4294967296 - (unat ?e - unat ?d)"
        unfolding diff by (rule unat_diff_u32(2) [OF lt])
      then have stop: "\<not> sint (target - k_tick_count s1) > 0"
        using s1(6) lt by (simp add: sint_pos_u32)
      have "k_tick_count s1 - target = ?e - ?d" by simp
      moreover have "unat (?e - ?d) = unat ?e - unat ?d" using lt by (intro unat_diff_u32(1)) simp
      ultimately have "unat (k_tick_count s1 - target) \<le> 2 ^ 30" using s1(6) by simp
      moreover have "delay_loop cs target s1 = Some s1" using stop by (subst delay_loop.simps) simp
      ultimately show ?thesis using s1(2,4) by (simp add: loop)
    qed
  qed
qed

end
