(* ===== verification/Kernel_Spec.thy ===== *)
theory Kernel_Spec
  imports Scheduling
begin

text \<open>
  The properties of the kernel of \<^verbatim>\<open>src/kernel.c\<close>, with the concrete kernels they are
  applied to: \<open>demo_one\<close> runs a task that is alone at its priority, \<open>demo_two\<close> has a second
  task of the same priority waiting; the idle task is queued in both.
\<close>

section \<open>Concrete kernels\<close>

definition demo_task :: "u8 \<Rightarrow> task_state \<Rightarrow> ptr \<Rightarrow> tcb" where
  "demo_task p st nx = zero_tcb\<lparr>t_priority := p, t_base_priority := p, t_state := st,
     t_next := nx, t_time_slice := 1\<rparr>"

definition demo_kernel :: "(u8 \<Rightarrow> ptr) \<Rightarrow> (nat \<Rightarrow> u32) \<Rightarrow> (addr \<Rightarrow> tcb) \<Rightarrow> kernel" where
  "demo_kernel rq bm h = \<lparr>k_current_task = Some 3, k_ready_queue = rq, k_ready_bitmap = bm,
     k_heap = h, k_task_count = 3, k_tick_count = 0, k_context_switch_count = 0,
     k_scheduler_running = True, k_primask = 0\<rparr>"

definition demo_heap :: "addr \<Rightarrow> tcb" where
  "demo_heap = (\<lambda>_. zero_tcb)
     (0 := demo_task PRIORITY_IDLE TASK_STATE_READY None,
      3 := demo_task PRIORITY_NORMAL TASK_STATE_RUNNING None,
      2 := demo_task PRIORITY_NORMAL TASK_STATE_READY None)"

definition demo_one :: kernel where
  "demo_one = demo_kernel ((\<lambda>_. None)(PRIORITY_IDLE := Some 0))
     (bitmap_mark PRIORITY_IDLE (\<lambda>_. 0)) demo_heap"

definition demo_two :: kernel where
  "demo_two = demo_kernel ((\<lambda>_. None)(PRIORITY_IDLE := Some 0, PRIORITY_NORMAL := Some 2))
     (bitmap_mark PRIORITY_NORMAL (bitmap_mark PRIORITY_IDLE (\<lambda>_. 0))) demo_heap"

definition demo_queues :: "u8 \<Rightarrow> addr list" where
  "demo_queues = (\<lambda>_. [])(PRIORITY_IDLE := [0])"

definition boot_memory :: kernel where
  "boot_memory = demo_kernel (\<lambda>_. None) (\<lambda>_. 0) (\<lambda>_. zero_tcb)"

lemmas demo_defs = demo_task_def demo_kernel_def demo_heap_def demo_one_def demo_two_def
  demo_queues_def zero_tcb_def PRIORITY_IDLE_def PRIORITY_NORMAL_def

lemma demo_one_rel: "sched_rel demo_one demo_queues"
  by (auto simp: sched_rel_def demo_defs bit_bitmap_mark nexts_def)

lemma demo_two_rel: "sched_rel demo_two (demo_queues(PRIORITY_NORMAL := [2]))"
  by (auto simp: sched_rel_def demo_defs bit_bitmap_mark nexts_def)

lemma demo_inv: "sched_inv demo_one" "sched_inv demo_two"
  using demo_one_rel demo_two_rel by (auto simp: sched_inv_def demo_defs split: if_splits)

lemma demo_fields [simp]:
  "k_scheduler_running demo_one" "k_current_task demo_one = Some 3" "prio_of demo_one 3 = 128"
  "t_state (k_heap demo_one 3) = TASK_STATE_RUNNING"
  "k_scheduler_running demo_two" "k_current_task demo_two = Some 3" "prio_of demo_two 3 = 128"
  "t_state (k_heap demo_two 3) = TASK_STATE_RUNNING" "t_time_slice (k_heap demo_two 3) = 1"
  "prio_of demo_two 2 = 128" "k_tick_count demo_two = 0" "unat (k_task_count demo_two) = 3"
  by (simp_all add: demo_defs prio_of_def)

lemma demo_queues_low [simp]: "q \<le> 128 \<Longrightarrow> demo_queues q = []"
  by (auto simp: demo_defs)

lemma demo_queues_idle [simp]: "demo_queues 255 = [0]"
  by (simp add: demo_defs)

lemma not_queuedI: "sched_rel s Q \<Longrightarrow> (\<And>p. a \<notin> set (Q p)) \<Longrightarrow> \<not> queued s a"
  unfolding queued_def using sched_rel_unique by blast

section \<open>Functional behaviour on the abstract queues\<close>

lemma os_task_create_rel:
  assumes rel: "sched_rel s Q" and fresh: "\<And>p. a \<notin> set (Q p)" and "entry \<noteq> 0"
    and "unat (k_task_count s) < MAX_TASKS"
  shows "\<exists>s'. os_task_create (Some a) name entry param prio s = Some (OS_OK, s') \<and>
     sched_rel s' (Q(prio := Q prio @ [a])) \<and> k_task_count s' = k_task_count s + 1 \<and>
     (\<forall>x. core (k_heap s' x) = core (if x = a then new_tcb name entry param prio else k_heap s x))"
proof -
  let ?s1 = "upd_task a (\<lambda>_. new_tcb name entry param prio) s"
  have rel1: "sched_rel ?s1 Q" using rel fresh by simp
  have p: "prio = t_priority (k_heap ?s1 a)"
    and st: "(new_tcb name entry param prio)\<lparr>t_state := TASK_STATE_READY\<rparr> = new_tcb name entry param prio"
    by (simp_all add: new_tcb_def zero_tcb_def split: prod.splits)
  show ?thesis
  proof (rule scheduler_add_ready_task_rel [OF rel1 fresh p])
    fix s' assume "scheduler_add_ready_task a ?s1 = Some s'" "sched_rel s' (Q(prio := Q prio @ [a]))"
      "sched_frame ?s1 s'" "\<And>x. core (k_heap s' x) =
         core (if x = a then (k_heap ?s1 x)\<lparr>t_state := TASK_STATE_READY\<rparr> else k_heap ?s1 x)"
    then show ?thesis using assms(3,4) st
      by (auto simp: os_task_create_def Let_def sched_frame_def)
  qed
qed

lemma requeue_rel:
  assumes rel: "sched_rel s Q" and a: "a \<in> set (Q p)"
    and f: "\<And>t. t_state (f t) = t_state t" "\<And>t. core (f t) = f (core t)"
    and p': "\<And>t. t_priority (f t) = p'"
  shows "\<exists>s'. requeue a f s = Some s' \<and> sched_frame s s' \<and>
     sched_rel s' ((Q(p := remove1 a (Q p)))(p' := (Q(p := remove1 a (Q p))) p' @ [a])) \<and>
     (\<forall>x. core (k_heap s' x) = core (if x = a then f (k_heap s x) else k_heap s x))"
proof -
  let ?Q1 = "Q(p := remove1 a (Q p))"
  have ready: "t_state (k_heap s a) = TASK_STATE_READY" and pr: "p = t_priority (k_heap s a)"
    using sched_relD(2,3) [OF rel a] by simp_all
  obtain s1 where s1: "scheduler_remove_task a s = Some s1" "sched_rel s1 ?Q1" "sched_frame s s1"
      "\<And>x. core (k_heap s1 x) = core (k_heap s x)"
    using scheduler_remove_task_rel [OF rel pr] by blast
  have notin: "a \<notin> set (?Q1 q)" for q
    using chain_distinct [OF sched_relD(1) [OF rel], of p] sched_rel_disjoint [OF rel a, of q]
    by (auto simp: set_remove1_eq)
  have ready1: "t_state (k_heap s1 a) = TASK_STATE_READY" using core_eqD(1) [OF s1(4)] ready by simp
  have same: "(f (k_heap s1 a))\<lparr>t_state := TASK_STATE_READY\<rparr> = f (k_heap s1 a)"
    using ready1 f(1) [of "k_heap s1 a"] by (cases "f (k_heap s1 a)") simp
  have rel1: "sched_rel (upd_task a f s1) ?Q1" using s1(2) notin by simp
  have pf: "p' = t_priority (k_heap (upd_task a f s1) a)" by (simp add: p')
  obtain s2 where s2: "scheduler_add_ready_task a (upd_task a f s1) = Some s2"
      "sched_rel s2 (?Q1(p' := ?Q1 p' @ [a]))" "sched_frame (upd_task a f s1) s2"
      "\<And>x. core (k_heap s2 x) = core (if x = a then (k_heap (upd_task a f s1) x)\<lparr>t_state := TASK_STATE_READY\<rparr>
                                        else k_heap (upd_task a f s1) x)"
    using scheduler_add_ready_task_rel [OF rel1 notin pf] by blast
  have "core (k_heap s2 x) = core (if x = a then f (k_heap s x) else k_heap s x)" for x
    using s2(4) [of x] s1(4) [of x] f(2) same by (cases "x = a") auto
  moreover have "requeue a f s = Some s2"
    using ready ready1 s1(1) s2(1) by (simp add: requeue_def f(1))
  moreover have "sched_frame s s2" using s1(3) s2(3) by (simp add: sched_frame_def)
  ultimately show ?thesis using s2(2) by blast
qed

text \<open>Suspending another task takes it out of its queue; resuming puts it at the end.\<close>

lemma os_task_suspend_rel:
  assumes rel: "sched_rel s Q" and "k_current_task s \<noteq> Some a" and p: "p = t_priority (k_heap s a)"
  shows "\<exists>s'. os_task_suspend cs (Some a) s = Some (OS_OK, s') \<and>
     sched_rel s' (Q(p := remove1 a (Q p))) \<and> t_state (k_heap s' a) = TASK_STATE_SUSPENDED \<and>
     t_priority (k_heap s' a) = p \<and> k_current_task s' = k_current_task s \<and> k_primask s' = k_primask s"
proof -
  let ?s0 = "s\<lparr>k_primask := 1\<rparr>"
  have rel0: "sched_rel ?s0 Q" and p0: "p = t_priority (k_heap ?s0 a)" using rel p by simp_all
  obtain s1 where s1: "scheduler_remove_task a ?s0 = Some s1" "sched_rel s1 (Q(p := remove1 a (Q p)))"
      "sched_frame ?s0 s1" "\<And>x. core (k_heap s1 x) = core (k_heap ?s0 x)"
    using scheduler_remove_task_rel [OF rel0 p0] by blast
  have "a \<notin> set ((Q(p := remove1 a (Q p))) q)" for q
    using chain_distinct [OF sched_relD(1) [OF rel], of p] sched_relD(2) [OF rel, of a q] p
    by (auto simp: set_remove1_eq)
  then show ?thesis
    using s1(1,2,3) assms(2) core_eqD(2) [OF s1(4) [of a]] p
    by (simp add: os_task_suspend_def critical_defs sched_frame_def del: fun_upd_apply) simp
qed

lemma os_task_resume_rel:
  assumes rel: "sched_rel s Q" and st: "t_state (k_heap s a) = TASK_STATE_SUSPENDED"
    and p: "p = t_priority (k_heap s a)"
  shows "\<exists>s'. os_task_resume (Some a) s = Some (OS_OK, s') \<and> sched_rel s' (Q(p := Q p @ [a])) \<and>
     k_current_task s' = k_current_task s \<and> k_primask s' = k_primask s"
proof -
  let ?s0 = "s\<lparr>k_primask := 1\<rparr>"
  have rel0: "sched_rel ?s0 Q" and p0: "p = t_priority (k_heap ?s0 a)" using rel p by simp_all
  have "a \<notin> set (Q q)" for q by (rule running_not_queued [OF rel]) (simp add: st)
  from scheduler_add_ready_task_rel [OF rel0 this p0] obtain s1 where
    "scheduler_add_ready_task a ?s0 = Some s1" "sched_rel s1 (Q(p := Q p @ [a]))" "sched_frame ?s0 s1"
    by blast
  then show ?thesis using st by (simp add: os_task_resume_def critical_defs sched_frame_def del: fun_upd_apply)
qed

text \<open>A priority change that makes a ready task the most urgent one hands over to it.\<close>

lemma set_priority_preempts:
  assumes rel: "sched_rel s Q" and run: "k_scheduler_running s" and cur: "k_current_task s = Some c"
    and c: "t_state (k_heap s c) = TASK_STATE_RUNNING" and a: "a \<in> set (Q p)"
    and outranks: "np < t_priority (k_heap s c)" and top: "\<And>q. q \<le> np \<Longrightarrow> Q q = []"
  shows "\<exists>s'. os_task_set_priority cs_now (Some a) np s = Some (OS_OK, s') \<and>
     k_current_task s' = Some a \<and> t_state (k_heap s' a) = TASK_STATE_RUNNING \<and>
     t_priority (k_heap s' a) = np \<and> t_base_priority (k_heap s' a) = np \<and>
     t_state (k_heap s' c) = TASK_STATE_READY \<and> k_primask s' = k_primask s"
proof -
  let ?f = "\<lambda>t. t\<lparr>t_priority := np, t_base_priority := np\<rparr>"
  let ?s0 = "s\<lparr>k_primask := 1\<rparr>" and ?Q1 = "Q(p := remove1 a (Q p))"
  have ca: "c \<noteq> a" using sched_relD(3) [OF rel a] c by auto
  have np: "\<not> p \<le> np" using top a by fastforce
  have npp: "np \<noteq> p" using np by auto
  have pa: "t_priority (k_heap s a) = p" using sched_relD(2) [OF rel a] .
  have rel0: "sched_rel ?s0 Q" using rel by simp
  obtain s1 where s1: "requeue a ?f ?s0 = Some s1" "sched_frame ?s0 s1"
      "sched_rel s1 (?Q1(np := ?Q1 np @ [a]))"
      "\<And>x. core (k_heap s1 x) = core (if x = a then ?f (k_heap ?s0 x) else k_heap ?s0 x)"
    using requeue_rel [OF rel0 a, of ?f np] by (auto simp: core_def)
  note h = core_eqD [OF s1(4)]
  have hc: "t_state (k_heap s1 c) = TASK_STATE_RUNNING" "t_priority (k_heap s1 c) = t_priority (k_heap s c)"
    using h(1,2) [of c] ca c by simp_all
  have ha: "t_priority (k_heap s1 a) = np" "t_base_priority (k_heap s1 a) = np" using h(2,3) [of a] by simp_all
  let ?s2 = "s1\<lparr>k_primask := k_primask s\<rparr>" and ?Q2 = "?Q1(np := [a])"
  have fr: "k_current_task s1 = Some c" "k_scheduler_running s1"
    using s1(2) cur run by (simp_all add: sched_frame_def)
  have Q2: "?Q1(np := ?Q1 np @ [a]) = ?Q2" using top [of np] npp by auto
  have rel2: "sched_rel ?s2 ?Q2" using s1(3) Q2 by simp
  obtain n Q' s' where d: "dispatched ?s2 c ?Q2 n Q' s'"
      and eq: "os_task_yield cs_now ?s2 = Some (if n \<noteq> c then cs_now c n s' else s')"
    using os_task_yield_spec [OF rel2, of c cs_now] fr by auto
  note D = dispatchedD [OF d]
  have req: "requeued ?s2 c ?Q2 = ?Q2(t_priority (k_heap s c) := ?Q2 (t_priority (k_heap s c)) @ [c])"
    using hc by (simp add: requeued_def)
  have "top_ready (requeued ?s2 c ?Q2) np"
    unfolding req top_ready_def using outranks top np by (auto dest: less_imp_le)
  then have "picks (requeued ?s2 c ?Q2) a ((requeued ?s2 c ?Q2)(np := tl (requeued ?s2 c ?Q2 np)))"
    unfolding picks_def by (intro disjI1 exI [of _ np]) (use outranks req in auto)
  then have n: "n = a" using picks_unique [OF D(1)] by blast
  have "os_task_set_priority cs_now (Some a) np s = Some (OS_OK, s')"
    using s1(1) fr hc(2) outranks eq n ca pa npp
    by (simp add: os_task_set_priority_def critical_defs outranks_current_def cs_now_def)
  then show ?thesis using D(3,6) D(9,10,11) ha hc n ca by auto
qed

lemma ucast_back_u64: "(ucast (ucast (x :: u32) :: u64) :: u32) = x"
  by (rule bit_word_eqI) (simp add: bit_simps)

text \<open>A switch whose other tasks all stop at once: the caller is current again.\<close>

definition cs_back :: "'a cswitch" where
  "cs_back old new s = s\<lparr>k_current_task := Some old, k_heap := (\<lambda>a.
     if t_state (k_heap s a) = TASK_STATE_RUNNING then (k_heap s a)\<lparr>t_state := TASK_STATE_READY\<rparr>
     else k_heap s a)\<rparr>"

lemma cs_back_resumes: "resumes cs_back"
  unfolding resumes_def
proof (intro allI impI conjI)
  fix old new and s :: "'a kernel_scheme"
  assume inv: "sched_inv s" and run: "k_scheduler_running s"
  obtain Q where rel: "sched_rel s Q" using inv by (auto simp: sched_inv_def)
  have "nexts (cs_back old new s) = nexts s" by (auto simp: nexts_def cs_back_def)
  then have "sched_rel (cs_back old new s) Q"
    using rel by (auto simp: sched_rel_def cs_back_def)
  then show "sched_inv (cs_back old new s)" by (auto simp: sched_inv_def cs_back_def)
  show "k_scheduler_running (cs_back old new s)" using run by (simp add: cs_back_def)
qed (simp_all add: cs_back_def)

section \<open>Properties\<close>

text \<open>C1. In every state the kernel can reach from boot, through any sequence of task
  operations and timer interrupts that does not create a task in a control block which is in a
  ready queue (\<^verbatim>\<open>os_task_create\<close> does not check this), the ready queues are well-formed
  (acyclic, disjoint, every queued task READY and in the queue of its priority, the bitmap exact) and only the
  current task is RUNNING; and every such operation completes there, without a NULL
  dereference and without looping, in a state that has the invariant again.\<close>

theorem kernel_invariant:
  assumes "kreach s"
  shows "sched_inv s \<and> (\<forall>op. kguard op s \<longrightarrow> (\<exists>r s'. kexec op s = Some (r, s') \<and> sched_inv s'))"
  using kreach_inv [OF assms] kexec_inv by blast

theorem kernel_invariant_witness:
  "\<exists>s. os_init 64 boot_memory = Some s \<and> kreach s \<and> sched_inv s \<and>
     (\<exists>r s'. kexec (Create (Some 1) (Some ''app'') 128 0 PRIORITY_NORMAL) s = Some (r, s') \<and> sched_inv s')"
proof -
  have mem: "t_state (k_heap boot_memory a) \<noteq> TASK_STATE_RUNNING" for a
    by (simp add: boot_memory_def demo_defs)
  have "sched_rel (zero_kernel boot_memory) (\<lambda>_. [])" by (rule sched_rel_zero_kernel)
  from os_task_create_rel [OF this, of 0 64 "Some ''idle''" 0 255] obtain s where
    s: "os_init 64 boot_memory = Some s" "sched_rel s ((\<lambda>_. [])(255 := [0]))"
    by (auto simp: os_init_def idle_tcb_def PRIORITY_IDLE_def zero_kernel_def MAX_TASKS_def)
  have "kreach s" using kreach.boot [OF s(1) mem] .
  moreover have "\<not> queued s 1" by (rule not_queuedI [OF s(2)]) simp
  ultimately have "kguard (Create (Some 1) (Some ''app'') 128 0 PRIORITY_NORMAL) s"
    by (simp add: kguard_def)
  then show ?thesis using kernel_invariant [OF \<open>kreach s\<close>] s(1) \<open>kreach s\<close> by blast
qed

text \<open>C5. Refinement of the ready queues: with the abstract queues \<open>Q\<close>, taking tasks with
  \<^verbatim>\<open>scheduler_get_next_task\<close> yields exactly the tasks of \<open>Q\<close> in the order of their
  priorities, and within one priority first in, first out.\<close>

theorem scheduler_order:
  assumes "sched_rel s Q" and "k \<le> length (ready_order Q)"
  shows "\<exists>s' Q'. drain scheduler_get_next_task k s = Some (take k (ready_order Q), s') \<and>
     sched_rel s' Q' \<and> ready_order Q' = drop k (ready_order Q)"
  using assms by (rule rq.drain_order)

lemma demo_two_order: "ready_order (demo_queues(PRIORITY_NORMAL := [2])) = [2, 0]"
proof -
  let ?Q = "demo_queues(PRIORITY_NORMAL := [2])"
  have top: "top_ready ?Q 128" by (auto simp: top_ready_def demo_defs)
  have top2: "top_ready demo_queues 255" by (auto simp: top_ready_def demo_defs)
  have Q1: "?Q(128 := tl (?Q 128)) = demo_queues" by (auto simp: demo_defs)
  have Q2: "demo_queues(255 := tl (demo_queues 255)) = (\<lambda>_. [])" by (auto simp: demo_defs)
  have "ready_order demo_queues = hd (demo_queues 255) # ready_order (\<lambda>_. [])"
    using ready_order_top [OF top2] unfolding Q2 .
  moreover have "ready_order (\<lambda>_. []) = []" by (simp add: ready_order_def)
  ultimately have "ready_order demo_queues = [0]" by (simp add: demo_defs)
  with ready_order_top [OF top] show ?thesis unfolding Q1 by (simp add: demo_defs)
qed

theorem scheduler_order_witness:
  "\<exists>s'. drain scheduler_get_next_task 2 demo_two = Some ([2, 0], s')"
  using scheduler_order [OF demo_two_rel, of 2] demo_two_order by auto

text \<open>C9. Preemption: when the time slice of the running task ends, the task that continues is
  at least as urgent as the task that ran and as every ready task (a smaller number is more
  urgent); it is one of them, it gets a full time slice, and if it is another task it is
  marked RUNNING before \<^verbatim>\<open>context_switch\<close> is called.\<close>

theorem scheduler_most_urgent:
  assumes "sched_rel s Q" and "k_scheduler_running s" and "k_current_task s = Some c"
    and "t_state (k_heap s c) = TASK_STATE_RUNNING" and "unat (t_time_slice (k_heap s c)) \<le> 1"
  shows "\<exists>n s'. os_scheduler cs s = Some (if n \<noteq> c then cs c n s' else s') \<and>
     k_current_task s' = Some n \<and> (n = c \<or> n \<in> set (Q (prio_of s n))) \<and>
     prio_of s n \<le> prio_of s c \<and> (\<forall>p x. x \<in> set (Q p) \<longrightarrow> prio_of s n \<le> p) \<and>
     t_time_slice (k_heap s' n) = TIME_SLICE_MS \<and>
     (n \<noteq> c \<longrightarrow> t_state (k_heap s' n) = TASK_STATE_RUNNING \<and> t_state (k_heap s' c) = TASK_STATE_READY)"
proof -
  obtain n Q' s' where d: "dispatched s c Q n Q' s'"
      and eq: "os_scheduler cs s = Some (if n \<noteq> c then cs c n s' else s')"
    using os_scheduler_expire [OF assms(1,2,3,5)] by blast
  note D = dispatchedD [OF d]
  let ?R = "requeued s c Q"
  have R: "?R = Q(prio_of s c := Q (prio_of s c) @ [c])" using assms(4) by (simp add: requeued_def prio_of_def)
  obtain p where top: "top_ready ?R p" and n: "n = hd (?R p)"
    using D(1) R unfolding picks_def by (metis fun_upd_same snoc_eq_iff_butlast)
  have mem: "n \<in> set (?R p)" using top n by (simp add: top_ready_def)
  have np: "prio_of s n = p" using mem R sched_relD(2) [OF assms(1)] by (auto simp: prio_of_def split: if_splits)
  have le: "prio_of s n \<le> q" if "?R q \<noteq> []" for q
    using top that np unfolding top_ready_def by (meson not_less)
  have "n = c \<or> n \<in> set (Q (prio_of s n))" using mem R np by (auto split: if_splits)
  moreover have "prio_of s n \<le> prio_of s c" by (rule le) (simp add: R)
  moreover have "prio_of s n \<le> q" if "x \<in> set (Q q)" for q x by (rule le) (use that R in auto)
  ultimately show ?thesis using eq D(3,9,12) assms(4) by (intro exI [of _ n] exI [of _ s']) auto
qed

theorem scheduler_most_urgent_witness:
  "\<exists>n s'. os_scheduler cs_now demo_two = Some s' \<and> k_current_task s' = Some n \<and>
     prio_of demo_two n \<le> PRIORITY_NORMAL"
  using scheduler_most_urgent [OF demo_two_rel, of 3 cs_now]
  by (auto simp: cs_now_def PRIORITY_NORMAL_def)

text \<open>C14. Round robin: while the running task and the ready tasks of its priority are the most
  urgent ones, yielding \<open>n\<close> times makes the task at position \<open>n\<close> of their ring current, so
  every one of them runs once in each round and none is starved.\<close>

theorem round_robin:
  assumes "sched_rel s Q" and "k_scheduler_running s" and "k_current_task s = Some c"
    and "t_state (k_heap s c) = TASK_STATE_RUNNING" and "Q (prio_of s c) \<noteq> []"
    and "\<And>q. q < prio_of s c \<Longrightarrow> Q q = []"
  shows "\<exists>s'. yields n s = Some s' \<and> (let ring = c # Q (prio_of s c) in
     k_current_task s' = Some (ring ! (n mod length ring)))"
proof -
  let ?ring = "c # Q (t_priority (k_heap s c))"
  have "hd (rotate n ?ring) = ?ring ! (n mod length ?ring)"
    by (simp only: hd_rotate_conv_nth list.distinct not_False_eq_True)
  with yields_rotate [OF assms(1-4) refl, of n] assms(5,6) show ?thesis
    by (auto simp: prio_of_def Let_def)
qed

theorem round_robin_witness:
  "\<exists>s'. yields 7 demo_two = Some s' \<and> k_current_task s' = Some 2"
proof -
  have "(demo_queues(PRIORITY_NORMAL := [2])) q = []" if "q < prio_of demo_two 3" for q
    using that by (auto simp: PRIORITY_NORMAL_def)
  moreover have "[3, 2] ! (7 mod Suc (Suc 0)) = (2 :: addr)" by (simp flip: numeral_2_eq_2)
  ultimately show ?thesis
    using round_robin [OF demo_two_rel, of 3 7] by (auto simp: PRIORITY_NORMAL_def Let_def)
qed

text \<open>C27. A task that is alone at the most urgent priority is lost: its first yield leaves it
  current but READY instead of RUNNING, so its second yield does not put it back into its
  queue, a less urgent task takes over, and however many timer interrupts follow, the task
  is READY, in no queue, and never becomes current again.\<close>

theorem lone_task_is_lost:
  assumes "sched_rel s Q" and "k_scheduler_running s" and "k_current_task s = Some c"
    and "t_state (k_heap s c) = TASK_STATE_RUNNING" and "c \<noteq> idle_tcb"
    and "\<And>q. q \<le> prio_of s c \<Longrightarrow> Q q = []" and "Q r \<noteq> []"
  shows "\<exists>s2. yields 2 s = Some s2 \<and> (\<forall>n. \<exists>s'. ticks n s2 = Some s' \<and>
     k_current_task s' \<noteq> Some c \<and> t_state (k_heap s' c) = TASK_STATE_READY \<and>
     (\<exists>Q'. sched_rel s' Q' \<and> (\<forall>p. c \<notin> set (Q' p))))"
proof -
  obtain s1 where s1: "os_task_yield cs_now s = Some s1" "sched_rel s1 Q" "k_scheduler_running s1"
      "k_current_task s1 = Some c" "t_state (k_heap s1 c) = TASK_STATE_READY"
    using lone_task_first_yield [OF assms(1-4)] assms(6) by (auto simp: prio_of_def)
  have "c \<notin> set (Q p)" for p by (rule running_not_queued [OF assms(1)]) (simp add: assms(4))
  from ready_task_yields_away [OF s1(2-5) this assms(7,5)] obtain s2 where
    s2: "os_task_yield cs_now s1 = Some s2" "lost s2 c" by blast
  have "yields 2 s = Some s2" using s1(1) s2(1) by (simp add: numeral_2_eq_2)
  with lost_ticks [OF s2(2)] show ?thesis unfolding lost_def by meson
qed

theorem lone_task_is_lost_witness:
  "\<exists>s2. yields 2 demo_one = Some s2 \<and>
     (\<forall>n. \<exists>s'. ticks n s2 = Some s' \<and> k_current_task s' \<noteq> Some 3)"
proof -
  have "demo_queues 255 \<noteq> []" by simp
  from lone_task_is_lost [OF demo_one_rel _ _ _ _ _ this, of 3] show ?thesis
    by (simp add: idle_tcb_def) meson
qed

text \<open>C25. Delay: if every context switch eventually comes back to its caller, with the kernel
  invariant and less than a quarter of the counter range later, then \<^verbatim>\<open>os_task_delay\<close> with
  fewer than \<open>2\<^sup>3\<^sup>0\<close> ticks returns, at least the requested number of ticks later, also when
  the tick counter wraps around.\<close>

theorem delay_elapses:
  assumes "sched_inv s" and "k_scheduler_running s" and "k_current_task s = Some c"
    and "resumes cs" and "unat n < 2 ^ 30"
  shows "\<exists>s'. os_task_delay cs n s = Some s' \<and> sched_inv s' \<and> k_current_task s' = Some c \<and>
     unat n \<le> unat (k_tick_count s' - k_tick_count s)"
proof -
  let ?target = "k_tick_count s + n"
  have "unat (?target - k_tick_count s) < 2 ^ 30" using assms(5) by simp
  from delay_loop_completes [OF assms(4,1,2,3) this] obtain s' where
    s': "delay_loop cs ?target s = Some s'" "sched_inv s'" "k_current_task s' = Some c"
      "unat (k_tick_count s' - ?target) \<le> 2 ^ 30" by blast
  have "k_tick_count s' - k_tick_count s = (k_tick_count s' - ?target) + n" by simp
  then have "unat (k_tick_count s' - k_tick_count s) = unat (k_tick_count s' - ?target) + unat n"
    using unat_add_u32 [of "k_tick_count s' - ?target" n] s'(4) assms(5) by simp
  with s'(1-3) show ?thesis by (auto simp: os_task_delay_def)
qed

theorem delay_elapses_witness:
  "\<exists>s'. os_task_delay cs_back 5 demo_two = Some s' \<and> 5 \<le> unat (k_tick_count s')"
  using delay_elapses [OF demo_inv(2), of 3 cs_back 5] cs_back_resumes by auto

text \<open>A longer delay is seen as already over: \<^verbatim>\<open>os_task_delay\<close> returns at once.\<close>

lemma delay_too_long:
  assumes "2 ^ 31 \<le> unat n"
  shows "os_task_delay cs n s = Some s"
  using assms by (simp add: os_task_delay_def delay_loop.simps sint_pos_u32)

text \<open>Milliseconds and ticks: at 1000 ticks per second the conversion of \<^verbatim>\<open>os_task_delay_ms\<close>
  is exact up to 4294966 ms, its 32-bit product wraps for every larger argument, and the
  uptime in milliseconds is the tick count at every value of the counter.\<close>

theorem ms_conversion:
  "unat (ms_to_ticks ms) = (unat ms * 1000 + 999) mod 2 ^ 32 div 1000 \<and>
   (unat ms \<le> 4294966 \<longleftrightarrow> ms_to_ticks ms = ms) \<and> os_get_uptime_ms s = k_tick_count s"
proof (intro conjI)
  have u: "unat (ms * 1000 + 999) = (unat ms * 1000 + 999) mod 2 ^ 32"
    by (simp add: unat_word_ariths mod_simps)
  show e: "unat (ms_to_ticks ms) = (unat ms * 1000 + 999) mod 2 ^ 32 div 1000"
    unfolding ms_to_ticks_def TICK_RATE_HZ_def by (simp only: unat_div u) simp
  have "(unat ms * 1000 + 999) mod 2 ^ 32 div 1000 \<le> 4294967" by simp
  moreover have "(unat ms * 1000 + 999) mod 2 ^ 32 div 1000 = 0" if "unat ms = 4294967" using that by simp
  ultimately show "unat ms \<le> 4294966 \<longleftrightarrow> ms_to_ticks ms = ms"
    unfolding word_unat_eq_iff e by (cases "unat ms \<le> 4294966"; cases "unat ms = 4294967") auto
  have "125 * unat (k_tick_count s) < 2305843009213693952"
    using unat_u32_less [of "k_tick_count s"] by linarith
  then have "unat (ucast (k_tick_count s) * 1000 :: u64) = unat (k_tick_count s) * 1000"
    by (subst unat_mult_lem [THEN iffD1]) simp_all
  then have "unat ((ucast (k_tick_count s) * 1000 :: u64) div 1000) = unat (ucast (k_tick_count s) :: u64)"
    by (simp add: unat_div)
  then have "(ucast (k_tick_count s) * 1000 :: u64) div 1000 = ucast (k_tick_count s)"
    by (simp only: word_unat_eq_iff)
  then show "os_get_uptime_ms s = k_tick_count s"
    unfolding os_get_uptime_ms_def TICK_RATE_HZ_def by (simp add: ucast_back_u64)
qed

text \<open>Creating a task: with a free slot and a TCB that is in no queue, \<^verbatim>\<open>os_task_create\<close>
  appends the task to the ready queue of its priority, leaves every other task as it is,
  and lays out the exception frame from which the first dispatch pops R0 to R3, R12, LR, PC
  and xPSR: the argument in R0, the entry point as PC, the Thumb bit in xPSR. Without an
  entry point or a free slot nothing changes and an error is returned.\<close>

theorem task_create_spec:
  assumes "sched_rel s Q" and "\<And>p. a \<notin> set (Q p)"
  shows "(entry = 0 \<longrightarrow> os_task_create (Some a) name entry param prio s = Some (OS_ERROR_INVALID_PARAM, s)) \<and>
   (entry \<noteq> 0 \<and> 8 \<le> unat (k_task_count s) \<longrightarrow>
      os_task_create (Some a) name entry param prio s = Some (OS_ERROR_NO_MEMORY, s)) \<and>
   (entry \<noteq> 0 \<and> unat (k_task_count s) < 8 \<longrightarrow>
     (\<exists>s'. os_task_create (Some a) name entry param prio s = Some (OS_OK, s') \<and>
        sched_rel s' (Q(prio := Q prio @ [a])) \<and> k_task_count s' = k_task_count s + 1 \<and>
        (\<forall>x. x \<noteq> a \<longrightarrow> core (k_heap s' x) = core (k_heap s x)) \<and>
        (let t = k_heap s' a in t_priority t = prio \<and> t_base_priority t = prio \<and> t_time_slice t = 10 \<and>
          t_stack_ptr t + 8 \<le> STACK_SIZE \<and>
          map (t_stack t) [t_stack_ptr t..<t_stack_ptr t + 8] = [param, 0, 0, 0, 0, 0, entry, 0x01000000])))"
proof (intro conjI impI)
  assume *: "entry \<noteq> 0 \<and> unat (k_task_count s) < 8"
  let ?n = "new_tcb name entry param prio"
  obtain s' where s': "os_task_create (Some a) name entry param prio s = Some (OS_OK, s')"
      "sched_rel s' (Q(prio := Q prio @ [a]))" "k_task_count s' = k_task_count s + 1"
      "\<And>x. core (k_heap s' x) = core (if x = a then ?n else k_heap s x)"
    using os_task_create_rel [OF assms, of entry name param prio] * unfolding MAX_TASKS_def by blast
  have "core (k_heap s' a) = core ?n" using s'(4) [of a] by simp
  note t = core_eqD [OF this]
  have "t_stack_ptr ?n = 247 \<and> t_priority ?n = prio \<and> t_base_priority ?n = prio \<and> t_time_slice ?n = 10 \<and>
      map (t_stack ?n) [247..<255] = [param, 0, 0, 0, 0, 0, entry, 0x01000000]"
    by (simp add: new_tcb_def initial_frame_def push_def zero_tcb_def STACK_SIZE_def TIME_SLICE_MS_def
        upt_rec_numeral)
  then have "let t = k_heap s' a in t_priority t = prio \<and> t_base_priority t = prio \<and> t_time_slice t = 10 \<and>
      t_stack_ptr t + 8 \<le> STACK_SIZE \<and>
      map (t_stack t) [t_stack_ptr t..<t_stack_ptr t + 8] = [param, 0, 0, 0, 0, 0, entry, 0x01000000]"
    using t by (simp add: STACK_SIZE_def)
  then show "\<exists>s'. os_task_create (Some a) name entry param prio s = Some (OS_OK, s') \<and>
      sched_rel s' (Q(prio := Q prio @ [a])) \<and> k_task_count s' = k_task_count s + 1 \<and>
      (\<forall>x. x \<noteq> a \<longrightarrow> core (k_heap s' x) = core (k_heap s x)) \<and>
      (let t = k_heap s' a in t_priority t = prio \<and> t_base_priority t = prio \<and> t_time_slice t = 10 \<and>
        t_stack_ptr t + 8 \<le> STACK_SIZE \<and>
        map (t_stack t) [t_stack_ptr t..<t_stack_ptr t + 8] = [param, 0, 0, 0, 0, 0, entry, 0x01000000])"
    using s' by (intro exI [of _ s']) auto
qed (auto simp: os_task_create_def MAX_TASKS_def)

theorem task_create_spec_witness:
  "\<exists>s'. os_task_create (Some 5) (Some ''app'') 128 7 PRIORITY_HIGH demo_two = Some (OS_OK, s') \<and>
     sched_rel s' (demo_queues(PRIORITY_NORMAL := [2], PRIORITY_HIGH := [5]))"
proof -
  have "5 \<notin> set ((demo_queues(PRIORITY_NORMAL := [2])) p)" for p by (simp add: demo_defs)
  moreover have "(demo_queues(PRIORITY_NORMAL := [2])) PRIORITY_HIGH = []"
    by (simp add: demo_defs PRIORITY_HIGH_def)
  ultimately show ?thesis
    using task_create_spec [OF demo_two_rel, of 5 128 "Some ''app''" 7 PRIORITY_HIGH]
    by (auto simp del: fun_upd_apply)
qed

text \<open>Suspend and resume: suspending a task that is not running takes it, and nothing
  else, out of the ready queues, so the scheduler cannot pick it; resuming it puts it at
  the end of the queue of its priority. Interrupts are masked again exactly as before.\<close>

theorem suspend_resume:
  assumes "sched_rel s Q" and "k_current_task s \<noteq> Some a"
  shows "let p = prio_of s a in \<exists>s1 s2.
     os_task_suspend cs (Some a) s = Some (OS_OK, s1) \<and> t_state (k_heap s1 a) = TASK_STATE_SUSPENDED \<and>
     sched_rel s1 (Q(p := remove1 a (Q p))) \<and>
     os_task_resume (Some a) s1 = Some (OS_OK, s2) \<and>
     sched_rel s2 (Q(p := remove1 a (Q p) @ [a])) \<and> k_current_task s2 = k_current_task s \<and>
     k_primask s2 = k_primask s"
proof -
  let ?p = "t_priority (k_heap s a)"
  obtain s1 where s1: "os_task_suspend cs (Some a) s = Some (OS_OK, s1)"
      "sched_rel s1 (Q(?p := remove1 a (Q ?p)))" "t_state (k_heap s1 a) = TASK_STATE_SUSPENDED"
      "t_priority (k_heap s1 a) = ?p" "k_current_task s1 = k_current_task s" "k_primask s1 = k_primask s"
    using os_task_suspend_rel [OF assms refl] by blast
  show ?thesis
    using os_task_resume_rel [OF s1(2,3) refl] s1 by (simp add: prio_of_def)
qed

theorem suspend_resume_witness:
  "\<exists>s1. os_task_suspend cs_now (Some 2) demo_two = Some (OS_OK, s1) \<and> sched_rel s1 demo_queues"
proof -
  have "(demo_queues(PRIORITY_NORMAL := [2]))(128 := remove1 2 [2]) = demo_queues"
    by (auto simp: PRIORITY_NORMAL_def)
  then show ?thesis
    using suspend_resume [OF demo_two_rel, of 2 cs_now] by (auto simp: PRIORITY_NORMAL_def)
qed

text \<open>Changing a priority preempts: when the running task gives a ready task a priority
  above its own and above every ready task, the call switches to that task at once, with
  both its priority fields set, and the caller stays READY.\<close>

theorem set_priority_switches:
  assumes "sched_rel s Q" and "k_scheduler_running s" and "k_current_task s = Some c"
    and "t_state (k_heap s c) = TASK_STATE_RUNNING" and "a \<in> set (Q p)"
    and "np < prio_of s c" and "\<And>q. q \<le> np \<Longrightarrow> Q q = []"
  shows "\<exists>s'. os_task_set_priority cs_now (Some a) np s = Some (OS_OK, s') \<and>
     k_current_task s' = Some a \<and> t_state (k_heap s' a) = TASK_STATE_RUNNING \<and>
     prio_of s' a = np \<and> t_base_priority (k_heap s' a) = np \<and>
     t_state (k_heap s' c) = TASK_STATE_READY \<and> k_primask s' = k_primask s"
  using set_priority_preempts [OF assms(1-5) _ assms(7)] assms(6) by (simp add: prio_of_def)

theorem set_priority_switches_witness:
  "\<exists>s'. os_task_set_priority cs_now (Some 0) PRIORITY_HIGH demo_two = Some (OS_OK, s') \<and>
     k_current_task s' = Some 0"
proof -
  have "(demo_queues(PRIORITY_NORMAL := [2])) q = []" if "q \<le> PRIORITY_HIGH" for q
    using that by (auto simp: demo_defs PRIORITY_HIGH_def)
  from set_priority_switches [OF demo_two_rel _ _ _ _ _ this, of 3 0 255 PRIORITY_HIGH]
  show ?thesis by (auto simp: demo_queues_def PRIORITY_IDLE_def PRIORITY_NORMAL_def PRIORITY_HIGH_def)
qed

end
