(* ===== verification/Sync.thy ===== *)
theory Sync
  imports Scheduling
begin

text \<open>
  The synchronisation primitives of \<^verbatim>\<open>src/sync.c\<close>: mutexes with priority inheritance,
  counting semaphores, message queues, event groups and condition variables.

  The state extends the kernel state by the objects, each kind indexed by address, and by
  the byte memory that holds message buffers. A mutex is a variable of its own or the
  \<^verbatim>\<open>lock\<close> field of a message queue. The primitives wait by polling: check, leave the critical
  section, yield, check again; the loops are \<open>partial_function\<close>s, so \<open>None\<close> is also the value
  of a wait that never ends.
\<close>

section \<open>Data\<close>

record mutex =
  m_locked :: bool
  m_owner :: ptr
  m_ceiling_priority :: u8

record semaphore =
  sem_count :: "32 word"
  sem_wait_queue :: ptr

record msg_queue =
  q_buffer :: addr
  q_item_size :: u32
  q_max_items :: u32
  q_head :: u32
  q_tail :: u32
  q_count :: u32
  q_lock :: mutex

record event_group =
  ev_events :: u32
  ev_wait_queue :: ptr

record cond_var =
  c_wait_queue :: ptr
  c_waiting_count :: u32

record sync = kernel +
  sy_mutex :: "addr \<Rightarrow> mutex"
  sy_sem :: "addr \<Rightarrow> semaphore"
  sy_queue :: "addr \<Rightarrow> msg_queue"
  sy_event :: "addr \<Rightarrow> event_group"
  sy_cond :: "addr \<Rightarrow> cond_var"
  sy_mem :: "addr \<Rightarrow> u8"

datatype mutex_loc = MutexVar addr | QueueLock addr

fun mutex_at :: "mutex_loc \<Rightarrow> 'a sync_scheme \<Rightarrow> mutex" where
  "mutex_at (MutexVar a) s = sy_mutex s a"
| "mutex_at (QueueLock q) s = q_lock (sy_queue s q)"

fun upd_mutex :: "mutex_loc \<Rightarrow> (mutex \<Rightarrow> mutex) \<Rightarrow> 'a sync_scheme \<Rightarrow> 'a sync_scheme" where
  "upd_mutex (MutexVar a) f s = s\<lparr>sy_mutex := (sy_mutex s)(a := f (sy_mutex s a))\<rparr>"
| "upd_mutex (QueueLock q) f s =
     s\<lparr>sy_queue := (sy_queue s)(q := (sy_queue s q)\<lparr>q_lock := f (q_lock (sy_queue s q))\<rparr>)\<rparr>"

type_synonym 'a sswitch = "'a sync_ext cswitch"

text \<open>\<^verbatim>\<open>timeout != 0 && (os_get_tick_count() - start_tick) >= timeout\<close>\<close>

definition timed_out :: "u32 \<Rightarrow> u32 \<Rightarrow> 'a kernel_scheme \<Rightarrow> bool" where
  "timed_out timeout start s \<longleftrightarrow> timeout \<noteq> 0 \<and> os_get_tick_count s - start \<ge> timeout"

text \<open>
  The polling loop of mutexes, semaphores, event groups and condition variables: \<open>attempt\<close> is
  the critical section at the head of the loop, which may obtain a result; if it does not,
  the timeout is checked and the task yields. The value \<open>None\<close> of the result is a timeout.
\<close>

partial_function (option) poll ::
    "'a sswitch \<Rightarrow> ('a sync_scheme \<Rightarrow> ('r option \<times> 'a sync_scheme) option) \<Rightarrow> u32 \<Rightarrow> u32 \<Rightarrow>
     'a sync_scheme \<Rightarrow> ('r option \<times> 'a sync_scheme) option" where
  "poll cs attempt timeout start s = do {
     (r, s) \<leftarrow> attempt s;
     (if r \<noteq> None then Some (r, s)
      else if timed_out timeout start s then Some (None, s)
      else do {
        s \<leftarrow> os_task_yield cs s;
        poll cs attempt timeout start s }) }"

definition wait_result :: "'r option \<Rightarrow> os_error" where
  "wait_result r = (if r = None then OS_ERROR_TIMEOUT else OS_OK)"

section \<open>Mutexes\<close>

definition os_mutex_init :: "mutex_loc option \<Rightarrow> 'a sync_scheme \<Rightarrow> 'a sync_scheme" where
  "os_mutex_init mutex s =
    (case mutex of None \<Rightarrow> s
     | Some m \<Rightarrow> upd_mutex m
         (\<lambda>_. \<lparr>m_locked = False, m_owner = None, m_ceiling_priority = PRIORITY_IDLE\<rparr>) s)"

text \<open>Taking a free mutex, with the update of its ceiling.\<close>

definition mutex_acquire :: "mutex_loc \<Rightarrow> addr \<Rightarrow> 'a sync_scheme \<Rightarrow> 'a sync_scheme" where
  "mutex_acquire m c s =
    (let s = upd_mutex m (\<lambda>x. x\<lparr>m_locked := True, m_owner := Some c\<rparr>) s
     in if t_priority (k_heap s c) > m_ceiling_priority (mutex_at m s)
        then upd_mutex m (\<lambda>x. x\<lparr>m_ceiling_priority := t_priority (k_heap s c)\<rparr>) s
        else s)"

text \<open>Priority inheritance: a less urgent owner is raised to the priority of the waiter.\<close>

definition mutex_boost :: "'a sswitch \<Rightarrow> mutex_loc \<Rightarrow> addr \<Rightarrow> 'a sync_scheme \<Rightarrow> 'a sync_scheme option" where
  "mutex_boost cs m c s =
    (case m_owner (mutex_at m s) of
       None \<Rightarrow> Some s
     | Some w \<Rightarrow>
        if t_priority (k_heap s c) < t_priority (k_heap s w)
        then map_option snd (os_task_raise_priority cs (Some w) (t_priority (k_heap s c)) s)
        else Some s)"

text \<open>
  \<open>cur\<close> is the local variable \<^verbatim>\<open>current_task\<close>; with no current task the code dereferences
  NULL as soon as it takes the mutex or looks at its owner.
\<close>

definition mutex_try ::
    "'a sswitch \<Rightarrow> mutex_loc \<Rightarrow> ptr \<Rightarrow> 'a sync_scheme \<Rightarrow> (unit option \<times> 'a sync_scheme) option" where
  "mutex_try cs m cur s = do {
     let (st, s) = os_enter_critical s;
     (if \<not> m_locked (mutex_at m s)
      then do {
        c \<leftarrow> cur;
        Some (Some (), os_exit_critical st (mutex_acquire m c s)) }
      else do {
        s \<leftarrow> (if m_owner (mutex_at m s) = None then Some s
              else do { c \<leftarrow> cur; mutex_boost cs m c s });
        Some (None, os_exit_critical st s) }) }"

definition os_mutex_lock ::
    "'a sswitch \<Rightarrow> mutex_loc option \<Rightarrow> u32 \<Rightarrow> 'a sync_scheme \<Rightarrow> (os_error \<times> 'a sync_scheme) option" where
  "os_mutex_lock cs mutex timeout s =
    (case mutex of
       None \<Rightarrow> Some (OS_ERROR_INVALID_PARAM, s)
     | Some m \<Rightarrow> do {
         (r, s) \<leftarrow> poll cs (mutex_try cs m (os_task_get_current s)) timeout (os_get_tick_count s) s;
         Some (wait_result r, s) })"

definition os_mutex_unlock ::
    "'a sswitch \<Rightarrow> mutex_loc option \<Rightarrow> 'a sync_scheme \<Rightarrow> (os_error \<times> 'a sync_scheme) option" where
  "os_mutex_unlock cs mutex s =
    (case mutex of
       None \<Rightarrow> Some (OS_ERROR_INVALID_PARAM, s)
     | Some m \<Rightarrow> do {
         let cur = os_task_get_current s;
         let (st, s) = os_enter_critical s;
         (if m_owner (mutex_at m s) \<noteq> cur
          then Some (OS_ERROR_PERMISSION_DENIED, os_exit_critical st s)
          else do {
            (_, s) \<leftarrow> os_task_reset_priority cs cur s;
            let s = upd_mutex m (\<lambda>x. x\<lparr>m_locked := False, m_owner := None\<rparr>) s;
            s \<leftarrow> os_task_yield cs (os_exit_critical st s);
            Some (OS_OK, s) }) })"

section \<open>Semaphores\<close>

definition upd_sem :: "addr \<Rightarrow> (semaphore \<Rightarrow> semaphore) \<Rightarrow> 'a sync_scheme \<Rightarrow> 'a sync_scheme" where
  "upd_sem a f s = s\<lparr>sy_sem := (sy_sem s)(a := f (sy_sem s a))\<rparr>"

definition os_semaphore_init :: "addr option \<Rightarrow> 32 word \<Rightarrow> 'a sync_scheme \<Rightarrow> 'a sync_scheme" where
  "os_semaphore_init sem initial_count s =
    (case sem of None \<Rightarrow> s
     | Some a \<Rightarrow> upd_sem a (\<lambda>_. \<lparr>sem_count = initial_count, sem_wait_queue = None\<rparr>) s)"

definition sem_try :: "addr \<Rightarrow> 'a sync_scheme \<Rightarrow> (unit option \<times> 'a sync_scheme) option" where
  "sem_try a s =
    (let (st, s) = os_enter_critical s in
     if sint (sem_count (sy_sem s a)) > 0
     then Some (Some (), os_exit_critical st (upd_sem a (\<lambda>x. x\<lparr>sem_count := sem_count x - 1\<rparr>) s))
     else Some (None, os_exit_critical st s))"

definition os_semaphore_wait ::
    "'a sswitch \<Rightarrow> addr option \<Rightarrow> u32 \<Rightarrow> 'a sync_scheme \<Rightarrow> (os_error \<times> 'a sync_scheme) option" where
  "os_semaphore_wait cs sem timeout s =
    (case sem of
       None \<Rightarrow> Some (OS_ERROR_INVALID_PARAM, s)
     | Some a \<Rightarrow> do {
         (r, s) \<leftarrow> poll cs (sem_try a) timeout (os_get_tick_count s) s;
         Some (wait_result r, s) })"

definition os_semaphore_get_count :: "addr option \<Rightarrow> 'a sync_scheme \<Rightarrow> 32 word \<times> 'a sync_scheme" where
  "os_semaphore_get_count sem s =
    (case sem of
       None \<Rightarrow> (0, s)
     | Some a \<Rightarrow>
        (let (st, s) = os_enter_critical s in (sem_count (sy_sem s a), os_exit_critical st s)))"

definition os_semaphore_post ::
    "'a sswitch \<Rightarrow> addr option \<Rightarrow> 'a sync_scheme \<Rightarrow> (os_error \<times> 'a sync_scheme) option" where
  "os_semaphore_post cs sem s =
    (case sem of
       None \<Rightarrow> Some (OS_ERROR_INVALID_PARAM, s)
     | Some a \<Rightarrow> do {
         let (st, s) = os_enter_critical s;
         let s = upd_sem a (\<lambda>x. x\<lparr>sem_count := sem_count x + 1\<rparr>) s;
         s \<leftarrow> os_task_yield cs (os_exit_critical st s);
         Some (OS_OK, s) })"

section \<open>Message queues\<close>

definition upd_queue :: "addr \<Rightarrow> (msg_queue \<Rightarrow> msg_queue) \<Rightarrow> 'a sync_scheme \<Rightarrow> 'a sync_scheme" where
  "upd_queue q f s = s\<lparr>sy_queue := (sy_queue s)(q := f (sy_queue s q))\<rparr>"

text \<open>\<^verbatim>\<open>memcpy(dest, src, n)\<close>\<close>

definition mem_copy :: "addr \<Rightarrow> addr \<Rightarrow> nat \<Rightarrow> (addr \<Rightarrow> u8) \<Rightarrow> addr \<Rightarrow> u8" where
  "mem_copy dest src n mem a = (if dest \<le> a \<and> a < dest + n then mem (src + (a - dest)) else mem a)"

definition os_queue_init ::
    "addr option \<Rightarrow> addr option \<Rightarrow> u32 \<Rightarrow> u32 \<Rightarrow> 'a sync_scheme \<Rightarrow> os_error \<times> 'a sync_scheme" where
  "os_queue_init queue buffer item_size max_items s =
    (case (queue, buffer) of
       (Some q, Some b) \<Rightarrow>
         if item_size = 0 \<or> max_items = 0 then (OS_ERROR_INVALID_PARAM, s)
         else (OS_OK, os_mutex_init (Some (QueueLock q))
                (upd_queue q (\<lambda>x. x\<lparr>q_buffer := b, q_item_size := item_size, q_max_items := max_items,
                   q_head := 0, q_tail := 0, q_count := 0\<rparr>) s))
     | _ \<Rightarrow> (OS_ERROR_INVALID_PARAM, s))"

text \<open>The work of the three operations while the queue is locked.\<close>

definition queue_put :: "addr \<Rightarrow> addr \<Rightarrow> 'a sync_scheme \<Rightarrow> 'a sync_scheme" where
  "queue_put q item s =
    (let x = sy_queue s q;
         dest = q_buffer x + unat (q_tail x * q_item_size x);
         s = s\<lparr>sy_mem := mem_copy dest item (unat (q_item_size x)) (sy_mem s)\<rparr>
     in upd_queue q (\<lambda>x. x\<lparr>q_tail := (q_tail x + 1) mod q_max_items x, q_count := q_count x + 1\<rparr>) s)"

definition queue_front :: "addr \<Rightarrow> addr \<Rightarrow> 'a sync_scheme \<Rightarrow> 'a sync_scheme" where
  "queue_front q item s =
    (let x = sy_queue s q;
         src = q_buffer x + unat (q_head x * q_item_size x)
     in s\<lparr>sy_mem := mem_copy item src (unat (q_item_size x)) (sy_mem s)\<rparr>)"

definition queue_take :: "addr \<Rightarrow> addr \<Rightarrow> 'a sync_scheme \<Rightarrow> 'a sync_scheme" where
  "queue_take q item s =
    upd_queue q (\<lambda>x. x\<lparr>q_head := (q_head x + 1) mod q_max_items x, q_count := q_count x - 1\<rparr>)
      (queue_front q item s)"

text \<open>
  The polling loop, the same in \<^verbatim>\<open>os_queue_send\<close>, \<^verbatim>\<open>os_queue_peek\<close> and \<^verbatim>\<open>os_queue_receive\<close>: lock for
  at most 10 ticks, if the queue is \<open>ready\<close> do the work and unlock, otherwise unlock, check the
  timeout and sleep one tick.
\<close>

partial_function (option) queue_loop ::
    "'a sswitch \<Rightarrow> addr \<Rightarrow> (msg_queue \<Rightarrow> bool) \<Rightarrow> ('a sync_scheme \<Rightarrow> 'a sync_scheme) \<Rightarrow> u32 \<Rightarrow> u32 \<Rightarrow>
     'a sync_scheme \<Rightarrow> (os_error \<times> 'a sync_scheme) option" where
  "queue_loop cs q ready work timeout start s = do {
     (err, s) \<leftarrow> os_mutex_lock cs (Some (QueueLock q)) 10 s;
     (if err \<noteq> OS_OK
      then (if timed_out timeout start s then Some (OS_ERROR_TIMEOUT, s)
            else queue_loop cs q ready work timeout start s)
      else if ready (sy_queue s q)
      then do {
        (_, s) \<leftarrow> os_mutex_unlock cs (Some (QueueLock q)) (work s);
        Some (OS_OK, s) }
      else do {
        (_, s) \<leftarrow> os_mutex_unlock cs (Some (QueueLock q)) s;
        (if timed_out timeout start s then Some (OS_ERROR_TIMEOUT, s)
         else do {
           s \<leftarrow> os_task_delay cs 1 s;
           queue_loop cs q ready work timeout start s }) }) }"

definition os_queue_send ::
    "'a sswitch \<Rightarrow> addr option \<Rightarrow> addr option \<Rightarrow> u32 \<Rightarrow> 'a sync_scheme \<Rightarrow> (os_error \<times> 'a sync_scheme) option" where
  "os_queue_send cs queue item timeout s =
    (case (queue, item) of
       (Some q, Some i) \<Rightarrow>
         queue_loop cs q (\<lambda>x. q_count x < q_max_items x) (queue_put q i) timeout (os_get_tick_count s) s
     | _ \<Rightarrow> Some (OS_ERROR_INVALID_PARAM, s))"

definition os_queue_peek ::
    "'a sswitch \<Rightarrow> addr option \<Rightarrow> addr option \<Rightarrow> u32 \<Rightarrow> 'a sync_scheme \<Rightarrow> (os_error \<times> 'a sync_scheme) option" where
  "os_queue_peek cs queue item timeout s =
    (case (queue, item) of
       (Some q, Some i) \<Rightarrow>
         queue_loop cs q (\<lambda>x. q_count x > 0) (queue_front q i) timeout (os_get_tick_count s) s
     | _ \<Rightarrow> Some (OS_ERROR_INVALID_PARAM, s))"

definition os_queue_get_count :: "addr option \<Rightarrow> 'a sync_scheme \<Rightarrow> u32 \<times> 'a sync_scheme" where
  "os_queue_get_count queue s =
    (case queue of
       None \<Rightarrow> (0, s)
     | Some q \<Rightarrow>
        (let (st, s) = os_enter_critical s in (q_count (sy_queue s q), os_exit_critical st s)))"

definition os_queue_receive ::
    "'a sswitch \<Rightarrow> addr option \<Rightarrow> addr option \<Rightarrow> u32 \<Rightarrow> 'a sync_scheme \<Rightarrow> (os_error \<times> 'a sync_scheme) option" where
  "os_queue_receive cs queue item timeout s =
    (case (queue, item) of
       (Some q, Some i) \<Rightarrow>
         queue_loop cs q (\<lambda>x. q_count x > 0) (queue_take q i) timeout (os_get_tick_count s) s
     | _ \<Rightarrow> Some (OS_ERROR_INVALID_PARAM, s))"

section \<open>Event groups\<close>

definition EVENT_WAIT_ALL :: u8 where "EVENT_WAIT_ALL = 0x01"
definition EVENT_WAIT_ANY :: u8 where "EVENT_WAIT_ANY = 0x02"
definition EVENT_CLEAR_ON_EXIT :: u8 where "EVENT_CLEAR_ON_EXIT = 0x04"

definition upd_event :: "addr \<Rightarrow> (event_group \<Rightarrow> event_group) \<Rightarrow> 'a sync_scheme \<Rightarrow> 'a sync_scheme" where
  "upd_event a f s = s\<lparr>sy_event := (sy_event s)(a := f (sy_event s a))\<rparr>"

definition os_event_group_init :: "addr option \<Rightarrow> 'a sync_scheme \<Rightarrow> 'a sync_scheme" where
  "os_event_group_init event_group s =
    (case event_group of None \<Rightarrow> s
     | Some a \<Rightarrow> upd_event a (\<lambda>_. \<lparr>ev_events = 0, ev_wait_queue = None\<rparr>) s)"

definition os_event_group_set_bits ::
    "'a sswitch \<Rightarrow> addr option \<Rightarrow> u32 \<Rightarrow> 'a sync_scheme \<Rightarrow> (os_error \<times> 'a sync_scheme) option" where
  "os_event_group_set_bits cs event_group bits s =
    (case event_group of
       None \<Rightarrow> Some (OS_ERROR_INVALID_PARAM, s)
     | Some a \<Rightarrow> do {
         let (st, s) = os_enter_critical s;
         let s = upd_event a (\<lambda>x. x\<lparr>ev_events := ev_events x OR bits\<rparr>) s;
         s \<leftarrow> os_task_yield cs (os_exit_critical st s);
         Some (OS_OK, s) })"

definition os_event_group_clear_bits ::
    "addr option \<Rightarrow> u32 \<Rightarrow> 'a sync_scheme \<Rightarrow> os_error \<times> 'a sync_scheme" where
  "os_event_group_clear_bits event_group bits s =
    (case event_group of
       None \<Rightarrow> (OS_ERROR_INVALID_PARAM, s)
     | Some a \<Rightarrow>
        (let (st, s) = os_enter_critical s;
             s = upd_event a (\<lambda>x. x\<lparr>ev_events := ev_events x AND NOT bits\<rparr>) s
         in (OS_OK, os_exit_critical st s)))"

definition event_met :: "bool \<Rightarrow> u32 \<Rightarrow> u32 \<Rightarrow> bool" where
  "event_met wait_all bits current_events =
    (if wait_all then current_events AND bits = bits else current_events AND bits \<noteq> 0)"

definition event_try ::
    "addr \<Rightarrow> u32 \<Rightarrow> bool \<Rightarrow> bool \<Rightarrow> 'a sync_scheme \<Rightarrow> (u32 option \<times> 'a sync_scheme) option" where
  "event_try a bits wait_all clear_on_exit s =
    (let (st, s) = os_enter_critical s;
         current_events = ev_events (sy_event s a)
     in if event_met wait_all bits current_events
        then (let s = (if clear_on_exit
                       then upd_event a (\<lambda>x. x\<lparr>ev_events := ev_events x AND NOT bits\<rparr>) s else s)
              in Some (Some (current_events AND bits), os_exit_critical st s))
        else Some (None, os_exit_critical st s))"

text \<open>The result carries the value that is stored through a non-NULL \<^verbatim>\<open>bits_received\<close>.\<close>

definition os_event_group_wait_bits ::
    "'a sswitch \<Rightarrow> addr option \<Rightarrow> u32 \<Rightarrow> u8 \<Rightarrow> u32 \<Rightarrow> 'a sync_scheme \<Rightarrow>
     (os_error \<times> u32 option \<times> 'a sync_scheme) option" where
  "os_event_group_wait_bits cs event_group bits options timeout s =
    (case event_group of
       None \<Rightarrow> Some (OS_ERROR_INVALID_PARAM, None, s)
     | Some a \<Rightarrow>
        if bits = 0 then Some (OS_ERROR_INVALID_PARAM, None, s)
        else do {
          (r, s) \<leftarrow> poll cs (event_try a bits (options AND EVENT_WAIT_ALL \<noteq> 0)
                             (options AND EVENT_CLEAR_ON_EXIT \<noteq> 0)) timeout (os_get_tick_count s) s;
          Some (wait_result r, r, s) })"

definition os_event_group_get_bits :: "addr option \<Rightarrow> 'a sync_scheme \<Rightarrow> u32 \<times> 'a sync_scheme" where
  "os_event_group_get_bits event_group s =
    (case event_group of
       None \<Rightarrow> (0, s)
     | Some a \<Rightarrow>
        (let (st, s) = os_enter_critical s in (ev_events (sy_event s a), os_exit_critical st s)))"

section \<open>Condition variables\<close>

text \<open>The wait queue is chained through the \<open>t_next\<close> field that the ready queues use too.\<close>

definition upd_cond :: "addr \<Rightarrow> (cond_var \<Rightarrow> cond_var) \<Rightarrow> 'a sync_scheme \<Rightarrow> 'a sync_scheme" where
  "upd_cond a f s = s\<lparr>sy_cond := (sy_cond s)(a := f (sy_cond s a))\<rparr>"

text \<open>\<^verbatim>\<open>while (prev != NULL && prev->next != task) prev = prev->next;\<close>\<close>

partial_function (option) cond_prev :: "(addr \<Rightarrow> ptr) \<Rightarrow> addr \<Rightarrow> ptr \<Rightarrow> ptr option" where
  "cond_prev nx task prev =
    (if prev = None then Some None
     else if nx (the prev) = Some task then Some prev
     else cond_prev nx task (nx (the prev)))"

definition cond_remove_task :: "addr \<Rightarrow> addr \<Rightarrow> 'a sync_scheme \<Rightarrow> 'a sync_scheme option" where
  "cond_remove_task cond task s = do {
     s \<leftarrow> (if c_wait_queue (sy_cond s cond) = Some task
           then Some (upd_cond cond (\<lambda>x. x\<lparr>c_wait_queue := t_next (k_heap s task)\<rparr>) s)
           else do {
             prev \<leftarrow> cond_prev (nexts s) task (c_wait_queue (sy_cond s cond));
             Some (case prev of
                     None \<Rightarrow> s
                   | Some p \<Rightarrow> upd_task p (\<lambda>t. t\<lparr>t_next := t_next (k_heap s task)\<rparr>) s) });
     let s = upd_cond cond (\<lambda>x. x\<lparr>c_waiting_count := c_waiting_count x - 1\<rparr>) s;
     Some (upd_task task (\<lambda>t. t\<lparr>t_next := None\<rparr>) s) }"

definition os_cond_init :: "addr option \<Rightarrow> 'a sync_scheme \<Rightarrow> 'a sync_scheme" where
  "os_cond_init cond s =
    (case cond of None \<Rightarrow> s
     | Some a \<Rightarrow> upd_cond a (\<lambda>_. \<lparr>c_wait_queue = None, c_waiting_count = 0\<rparr>) s)"

text \<open>Entering the wait queue at its end.\<close>

definition cond_enqueue :: "addr \<Rightarrow> addr \<Rightarrow> 'a sync_scheme \<Rightarrow> 'a sync_scheme option" where
  "cond_enqueue cond c s = do {
     s \<leftarrow> (case c_wait_queue (sy_cond s cond) of
             None \<Rightarrow> Some (upd_task c (\<lambda>t. t\<lparr>t_next := None\<rparr>)
                       (upd_cond cond (\<lambda>x. x\<lparr>c_wait_queue := Some c\<rparr>) s))
           | Some h \<Rightarrow> do {
               last \<leftarrow> list_tail (nexts s) h;
               let s = upd_task last (\<lambda>t. t\<lparr>t_next := Some c\<rparr>) s;
               Some (upd_task c (\<lambda>t. t\<lparr>t_next := None\<rparr>) s) });
     Some (upd_cond cond (\<lambda>x. x\<lparr>c_waiting_count := c_waiting_count x + 1\<rparr>) s) }"

text \<open>Whether the task is still in the wait queue.\<close>

partial_function (option) cond_waiting :: "(addr \<Rightarrow> ptr) \<Rightarrow> addr \<Rightarrow> ptr \<Rightarrow> bool option" where
  "cond_waiting nx c task =
    (if task = None then Some False
     else if task = Some c then Some True
     else cond_waiting nx c (nx (the task)))"

text \<open>The check whether the task has been signalled, that is taken out of the wait queue.\<close>

definition cond_try :: "addr \<Rightarrow> addr \<Rightarrow> 'a sync_scheme \<Rightarrow> (unit option \<times> 'a sync_scheme) option" where
  "cond_try cond c s = do {
     let (st, s) = os_enter_critical s;
     found \<leftarrow> cond_waiting (nexts s) c (c_wait_queue (sy_cond s cond));
     Some (if found then None else Some (), os_exit_critical st s) }"

definition os_cond_wait ::
    "'a sswitch \<Rightarrow> addr option \<Rightarrow> mutex_loc option \<Rightarrow> u32 \<Rightarrow> 'a sync_scheme \<Rightarrow>
     (os_error \<times> 'a sync_scheme) option" where
  "os_cond_wait cs cond mutex timeout s =
    (case (cond, mutex) of
       (Some a, Some m) \<Rightarrow> do {
         c \<leftarrow> os_task_get_current s;
         let start = os_get_tick_count s;
         let (st, s) = os_enter_critical s;
         s \<leftarrow> cond_enqueue a c s;
         let s = os_exit_critical st s;
         (r, s) \<leftarrow> os_mutex_unlock cs (Some m) s;
         (if r \<noteq> OS_OK
          then do {
            let (st, s) = os_enter_critical s;
            s \<leftarrow> cond_remove_task a c s;
            Some (r, os_exit_critical st s) }
          else do {
            (signaled, s) \<leftarrow> poll cs (cond_try a c) timeout start s;
            s \<leftarrow> (if signaled = None
                  then do {
                    let (st, s) = os_enter_critical s;
                    s \<leftarrow> cond_remove_task a c s;
                    Some (os_exit_critical st s) }
                  else Some s);
            (_, s) \<leftarrow> os_mutex_lock cs (Some m) 0 s;
            Some (wait_result signaled, s) }) }
     | _ \<Rightarrow> Some (OS_ERROR_INVALID_PARAM, s))"

definition cond_wake :: "addr \<Rightarrow> addr \<Rightarrow> 'a sync_scheme \<Rightarrow> 'a sync_scheme" where
  "cond_wake cond t s =
    (let s = upd_cond cond (\<lambda>x. x\<lparr>c_wait_queue := t_next (k_heap s t)\<rparr>) s;
         s = upd_task t (\<lambda>t. t\<lparr>t_next := None\<rparr>) s
     in upd_cond cond (\<lambda>x. x\<lparr>c_waiting_count := c_waiting_count x - 1\<rparr>) s)"

definition os_cond_signal ::
    "'a sswitch \<Rightarrow> addr option \<Rightarrow> 'a sync_scheme \<Rightarrow> (os_error \<times> 'a sync_scheme) option" where
  "os_cond_signal cs cond s =
    (case cond of
       None \<Rightarrow> Some (OS_ERROR_INVALID_PARAM, s)
     | Some a \<Rightarrow> do {
         let (st, s) = os_enter_critical s;
         let s = (case c_wait_queue (sy_cond s a) of None \<Rightarrow> s | Some t \<Rightarrow> cond_wake a t s);
         s \<leftarrow> os_task_yield cs (os_exit_critical st s);
         Some (OS_OK, s) })"

partial_function (option) cond_wake_all :: "addr \<Rightarrow> 'a sync_scheme \<Rightarrow> 'a sync_scheme option" where
  "cond_wake_all cond s =
    (if c_wait_queue (sy_cond s cond) = None then Some s
     else cond_wake_all cond (cond_wake cond (the (c_wait_queue (sy_cond s cond))) s))"

definition os_cond_broadcast ::
    "'a sswitch \<Rightarrow> addr option \<Rightarrow> 'a sync_scheme \<Rightarrow> (os_error \<times> 'a sync_scheme) option" where
  "os_cond_broadcast cs cond s =
    (case cond of
       None \<Rightarrow> Some (OS_ERROR_INVALID_PARAM, s)
     | Some a \<Rightarrow> do {
         let (st, s) = os_enter_critical s;
         s \<leftarrow> cond_wake_all a s;
         s \<leftarrow> os_task_yield cs (os_exit_critical st s);
         Some (OS_OK, s) })"

end
