(* ===== verification/Sync_Lemmas.thy ===== *)
theory Sync_Lemmas
  imports Sync
begin

text \<open>
  The polling contract and its consequence for every primitive that waits by polling, and
  the refinement of the message queue's ring buffer to a bounded list.
\<close>

section \<open>Stores into synchronisation objects leave the kernel alone\<close>

lemma sync_updates [simp]:
  "sched_rel (s\<lparr>sy_mutex := a\<rparr>) Q \<longleftrightarrow> sched_rel s Q"
  "sched_rel (s\<lparr>sy_sem := b\<rparr>) Q \<longleftrightarrow> sched_rel s Q"
  "sched_rel (s\<lparr>sy_queue := c\<rparr>) Q \<longleftrightarrow> sched_rel s Q"
  "sched_rel (s\<lparr>sy_event := d\<rparr>) Q \<longleftrightarrow> sched_rel s Q"
  "sched_rel (s\<lparr>sy_cond := e\<rparr>) Q \<longleftrightarrow> sched_rel s Q"
  "sched_rel (s\<lparr>sy_mem := f\<rparr>) Q \<longleftrightarrow> sched_rel s Q"
  by (simp_all add: sched_rel_def nexts_def [abs_def])

lemma upd_mutex_kernel [simp]:
  "sched_rel (upd_mutex m f s) Q \<longleftrightarrow> sched_rel s Q" "k_heap (upd_mutex m f s) = k_heap s"
  "k_current_task (upd_mutex m f s) = k_current_task s" "k_tick_count (upd_mutex m f s) = k_tick_count s"
  "k_scheduler_running (upd_mutex m f s) = k_scheduler_running s" "k_primask (upd_mutex m f s) = k_primask s"
  by (cases m; simp)+

lemma mutex_at_upd [simp]: "mutex_at m (upd_mutex m f s) = f (mutex_at m s)"
  by (cases m) simp_all

lemma mutex_at_primask [simp]: "mutex_at m (s\<lparr>k_primask := x\<rparr>) = mutex_at m s"
  by (cases m) simp_all

lemma upd_objects_kernel [simp]:
  "sched_rel (upd_sem a f s) Q \<longleftrightarrow> sched_rel s Q" "k_heap (upd_sem a f s) = k_heap s"
  "k_current_task (upd_sem a f s) = k_current_task s" "k_tick_count (upd_sem a f s) = k_tick_count s"
  "k_scheduler_running (upd_sem a f s) = k_scheduler_running s" "k_primask (upd_sem a f s) = k_primask s"
  "sched_rel (upd_event a g s) Q \<longleftrightarrow> sched_rel s Q" "k_heap (upd_event a g s) = k_heap s"
  "k_current_task (upd_event a g s) = k_current_task s" "k_tick_count (upd_event a g s) = k_tick_count s"
  "k_scheduler_running (upd_event a g s) = k_scheduler_running s" "k_primask (upd_event a g s) = k_primask s"
  by (simp_all add: upd_sem_def upd_event_def)

section \<open>The polling contract\<close>

text \<open>A task that is running under a healthy kernel.\<close>

definition on_cpu :: "addr \<Rightarrow> 'a kernel_scheme \<Rightarrow> bool" where
  "on_cpu c s \<longleftrightarrow> sched_inv s \<and> k_scheduler_running s \<and> k_current_task s = Some c"

text \<open>
  An attempt is a short critical section: it completes, leaves the kernel healthy with the
  caller on the CPU, takes no time and restores the interrupt mask.
\<close>

locale polling =
  fixes attempt :: "addr \<Rightarrow> 'a sync_scheme \<Rightarrow> ('r option \<times> 'a sync_scheme) option"
  assumes attempt_law: "on_cpu c s \<Longrightarrow>
     \<exists>r s'. attempt c s = Some (r, s') \<and> on_cpu c s' \<and> k_tick_count s' = k_tick_count s \<and>
            k_primask s' = k_primask s"

lemma timed_out_advance:
  fixes t0 t1 start timeout :: u32
  assumes lt: "unat (t0 - start) < unat timeout" and "unat timeout \<le> 2 ^ 30"
    and "1 \<le> unat (t1 - t0)" and "unat (t1 - t0) \<le> 2 ^ 30"
  shows "unat (t1 - start) = unat (t0 - start) + unat (t1 - t0)"
proof -
  have "t1 - start = (t0 - start) + (t1 - t0)" by simp
  moreover have "unat ((t0 - start) + (t1 - t0)) = unat (t0 - start) + unat (t1 - t0)"
    using assms by (subst unat_add_lem [THEN iffD1]) simp_all
  ultimately show ?thesis by simp
qed

context polling
begin

lemma poll_returns:
  assumes cs: "resumes cs" and to: "timeout \<noteq> 0" "unat timeout \<le> 2 ^ 30"
  shows "on_cpu c s \<Longrightarrow> unat (k_tick_count s - start) \<le> 2 ^ 31 \<Longrightarrow>
     \<exists>r s'. poll cs (attempt c) timeout start s = Some (r, s') \<and> on_cpu c s' \<and>
       (case r of None \<Rightarrow> timeout \<le> k_tick_count s' - start
        | Some v \<Rightarrow> \<exists>s0. on_cpu c s0 \<and> attempt c s0 = Some (Some v, s'))"
proof (induction "2 ^ 31 - unat (k_tick_count s - start)" arbitrary: s rule: less_induct)
  case less
  obtain r s1 where s1: "attempt c s = Some (r, s1)" "on_cpu c s1" "k_tick_count s1 = k_tick_count s"
    using attempt_law [OF less.prems(1)] by blast
  show ?case
  proof (cases "r \<noteq> None \<or> timed_out timeout start s1")
    case True
    then show ?thesis
      using s1 less.prems(1) by (subst poll.simps) (auto simp: timed_out_def os_get_tick_count_def)
  next
    case False
    then have lt: "unat (k_tick_count s - start) < unat timeout"
      using to(1) s1(3) by (simp add: timed_out_def os_get_tick_count_def word_less_nat_alt not_le)
    obtain s2 where s2: "os_task_yield cs s1 = Some s2" "sched_inv s2" "k_scheduler_running s2"
        "k_current_task s2 = Some c" "1 \<le> unat (k_tick_count s2 - k_tick_count s1)"
        "unat (k_tick_count s2 - k_tick_count s1) \<le> 2 ^ 30"
      using yield_advances [of s1 c cs] s1(2) cs unfolding on_cpu_def by blast
    have adv: "unat (k_tick_count s2 - start) = unat (k_tick_count s - start) + unat (k_tick_count s2 - k_tick_count s1)"
      using timed_out_advance [OF lt to(2) s2(5,6)[unfolded s1(3)]] s1(3) by simp
    have on: "on_cpu c s2" using s2(2-4) by (simp add: on_cpu_def)
    have "poll cs (attempt c) timeout start s = poll cs (attempt c) timeout start s2"
      using False s1(1) s2(1) by (subst poll.simps) simp
    moreover have "unat (k_tick_count s2 - start) \<le> 2 ^ 31" using adv lt to(2) s2(6) by simp
    moreover have "2 ^ 31 - unat (k_tick_count s2 - start) < 2 ^ 31 - unat (k_tick_count s - start)"
      using adv lt to(2) s2(5) by simp
    ultimately show ?thesis using less.hyps [OF _ on] by simp
  qed
qed

text \<open>A first attempt that succeeds is the whole wait.\<close>

lemma poll_at_once:
  "attempt c s = Some (Some v, s') \<Longrightarrow> poll cs (attempt c) timeout start s = Some (Some v, s')"
  by (subst poll.simps) simp

end

section \<open>The four primitives that poll\<close>

lemma more_objects:
  assumes "kernel.more s' = kernel.more (s :: 'a sync_scheme)"
  shows "sy_mutex s' = sy_mutex s" "sy_sem s' = sy_sem s" "sy_queue s' = sy_queue s"
    "sy_event s' = sy_event s" "sy_cond s' = sy_cond s" "sy_mem s' = sy_mem s"
    "mutex_at m s' = mutex_at m s"
proof -
  show eqs: "sy_mutex s' = sy_mutex s" "sy_sem s' = sy_sem s" "sy_queue s' = sy_queue s"
    "sy_event s' = sy_event s" "sy_cond s' = sy_cond s" "sy_mem s' = sy_mem s"
    using assms by (cases s; cases s'; simp)+
  show "mutex_at m s' = mutex_at m s" using eqs by (cases m) simp_all
qed

text \<open>Raising another task to the caller's own priority never gives up the CPU.\<close>

lemma raise_to_own_priority:
  assumes on: "on_cpu c s" and lt: "t_priority (k_heap s c) < t_priority (k_heap s w)"
  shows "\<exists>s'. os_task_raise_priority cs (Some w) (t_priority (k_heap s c)) s = Some (OS_OK, s') \<and>
     on_cpu c s' \<and> k_tick_count s' = k_tick_count s \<and> k_primask s' = k_primask s \<and>
     kernel.more s' = kernel.more s \<and> t_priority (k_heap s' w) = t_priority (k_heap s c) \<and>
     (\<forall>x. x \<noteq> w \<longrightarrow> t_priority (k_heap s' x) = t_priority (k_heap s x)) \<and>
     (\<forall>x. t_base_priority (k_heap s' x) = t_base_priority (k_heap s x))"
proof -
  let ?p = "t_priority (k_heap s c)" and ?s0 = "s\<lparr>k_primask := 1\<rparr>"
  have inv: "sched_inv ?s0" using on by (simp add: on_cpu_def)
  obtain s1 where s1: "requeue w (\<lambda>t. t\<lparr>t_priority := ?p\<rparr>) ?s0 = Some s1" "sched_inv s1" "sched_frame ?s0 s1"
      "\<And>x. core (k_heap s1 x) = core (if x = w then (k_heap ?s0 x)\<lparr>t_priority := ?p\<rparr> else k_heap ?s0 x)"
    by (rule requeue_inv [OF inv, of "\<lambda>t. t\<lparr>t_priority := ?p\<rparr>" w]) (auto simp: core_def)
  note h = core_eqD(2,3) [OF s1(4)]
  have cw: "c \<noteq> w" using lt by auto
  have "\<not> outranks_current ?p s1"
    using h(1) [of c] cw s1(3) on by (simp add: outranks_current_def sched_frame_def on_cpu_def)
  then have "os_task_raise_priority cs (Some w) ?p s = Some (OS_OK, s1\<lparr>k_primask := k_primask s\<rparr>)"
    using s1(1) lt by (simp add: os_task_raise_priority_def critical_defs)
  moreover have "on_cpu c (s1\<lparr>k_primask := k_primask s\<rparr>)"
    using s1(2,3) on by (simp add: on_cpu_def sched_frame_def)
  moreover have "kernel.more s1 = kernel.more s" using s1(3) by (simp add: sched_frame_def)
  ultimately show ?thesis using s1(3) h by (auto simp: sched_frame_def)
qed

lemma mutex_boost_law:
  assumes "on_cpu c s"
  shows "\<exists>s'. mutex_boost cs m c s = Some s' \<and> on_cpu c s' \<and> k_tick_count s' = k_tick_count s \<and>
     k_primask s' = k_primask s \<and> kernel.more s' = kernel.more s \<and>
     (\<forall>w. m_owner (mutex_at m s) = Some w \<longrightarrow> t_priority (k_heap s' w) \<le> t_priority (k_heap s c)) \<and>
     (\<forall>x. t_base_priority (k_heap s' x) = t_base_priority (k_heap s x))"
proof (cases "\<exists>w. m_owner (mutex_at m s) = Some w \<and> t_priority (k_heap s c) < t_priority (k_heap s w)")
  case True
  then obtain w where w: "m_owner (mutex_at m s) = Some w" "t_priority (k_heap s c) < t_priority (k_heap s w)"
    by blast
  show ?thesis using raise_to_own_priority [OF assms w(2), of cs] w by (auto simp: mutex_boost_def)
next
  case False
  then have "mutex_boost cs m c s = Some s" by (auto simp: mutex_boost_def split: option.splits)
  moreover have "t_priority (k_heap s w) \<le> t_priority (k_heap s c)" if "m_owner (mutex_at m s) = Some w" for w
    using that False by (meson not_less)
  ultimately show ?thesis using assms by simp
qed

lemma mutex_acquire_kernel [simp]:
  "sched_rel (mutex_acquire m c s) Q \<longleftrightarrow> sched_rel s Q" "k_heap (mutex_acquire m c s) = k_heap s"
  "k_current_task (mutex_acquire m c s) = k_current_task s"
  "k_tick_count (mutex_acquire m c s) = k_tick_count s"
  "k_scheduler_running (mutex_acquire m c s) = k_scheduler_running s"
  by (simp_all add: mutex_acquire_def Let_def)

lemma mutex_acquire_at [simp]:
  "m_locked (mutex_at m (mutex_acquire m c s))" "m_owner (mutex_at m (mutex_acquire m c s)) = Some c"
  by (simp_all add: mutex_acquire_def Let_def)

lemma on_cpu_kernel:
  assumes "\<And>Q. sched_rel s' Q \<longleftrightarrow> sched_rel s Q" and "k_heap s' = k_heap s"
    and "k_current_task s' = k_current_task s" and "k_scheduler_running s' = k_scheduler_running s"
  shows "on_cpu c s' \<longleftrightarrow> on_cpu c s"
  using assms by (simp add: on_cpu_def sched_inv_def)

lemma on_cpu_updates [simp]:
  "on_cpu c (s\<lparr>k_primask := x\<rparr>) \<longleftrightarrow> on_cpu c s"
  "on_cpu c (mutex_acquire m d t) \<longleftrightarrow> on_cpu c t"
  "on_cpu c (upd_mutex m f t) \<longleftrightarrow> on_cpu c t"
  "on_cpu c (upd_sem a g t) \<longleftrightarrow> on_cpu c t"
  "on_cpu c (upd_event a h t) \<longleftrightarrow> on_cpu c t"
  by (rule on_cpu_kernel; simp)+

lemma mutex_try_law:
  assumes "on_cpu c s"
  shows "\<exists>r s'. mutex_try cs m (Some c) s = Some (r, s') \<and> on_cpu c s' \<and>
     k_tick_count s' = k_tick_count s \<and> k_primask s' = k_primask s \<and>
     (if m_locked (mutex_at m s)
      then r = None \<and> mutex_at m s' = mutex_at m s \<and>
        (\<forall>w. m_owner (mutex_at m s) = Some w \<longrightarrow> t_priority (k_heap s' w) \<le> t_priority (k_heap s c)) \<and>
        (\<forall>x. t_base_priority (k_heap s' x) = t_base_priority (k_heap s x))
      else r = Some () \<and> m_locked (mutex_at m s') \<and> m_owner (mutex_at m s') = Some c)"
proof -
  let ?s0 = "s\<lparr>k_primask := 1\<rparr>"
  have on0: "on_cpu c ?s0" using assms by simp
  obtain s1 where s1: "mutex_boost cs m c ?s0 = Some s1" "on_cpu c s1" "k_tick_count s1 = k_tick_count s"
      "kernel.more s1 = kernel.more ?s0"
      "\<And>w. m_owner (mutex_at m s) = Some w \<Longrightarrow> t_priority (k_heap s1 w) \<le> t_priority (k_heap s c)"
      "\<And>x. t_base_priority (k_heap s1 x) = t_base_priority (k_heap s x)"
    using mutex_boost_law [OF on0, of cs m] by auto
  have "mutex_at m s1 = mutex_at m s" using more_objects(7) [OF s1(4)] by simp
  then show ?thesis using s1(1,2,3,5,6) assms by (auto simp: mutex_try_def critical_defs)
qed

interpretation mx: polling "\<lambda>c. mutex_try cs m (Some c)" for cs m
  by unfold_locales (use mutex_try_law in blast)

interpretation sem: polling "\<lambda>c. sem_try a" for a
  by unfold_locales (auto simp: sem_try_def critical_defs)

interpretation ev: polling "\<lambda>c. event_try a bits wait_all clear" for a bits wait_all clear
  by unfold_locales (auto simp: event_try_def critical_defs)

end
