(* ===== verification/Message_Queue.thy ===== *)
theory Message_Queue
  imports Sync_Lemmas
begin

text \<open>
  The ring buffer of \<^verbatim>\<open>msg_queue_t\<close> implements a bounded first-in first-out queue: the
  contract as a locale, its consequence for every sequence of operations, and the
  interpretation on the operations of \<^verbatim>\<open>src/sync.c\<close>.
\<close>

section \<open>Bounded queues\<close>

datatype 'v qop = Put 'v | Get

text \<open>The specification: what a sequence of operations returns on a list of bounded length.\<close>

fun list_run :: "nat \<Rightarrow> 'v qop list \<Rightarrow> 'v list \<Rightarrow> 'v option list \<times> 'v list" where
  "list_run cap [] xs = ([], xs)"
| "list_run cap (Put v # ops) xs =
    (let (rs, ys) = list_run cap ops (if length xs < cap then xs @ [v] else xs) in (None # rs, ys))"
| "list_run cap (Get # ops) xs =
    (let (rs, ys) = list_run cap ops (tl xs) in ((if xs = [] then None else Some (hd xs)) # rs, ys))"

locale bounded_queue =
  fixes ok :: "'s \<Rightarrow> bool" and items :: "'s \<Rightarrow> 'v list" and cap :: "'s \<Rightarrow> nat"
    and isfull :: "'s \<Rightarrow> bool" and isempty :: "'s \<Rightarrow> bool"
    and put :: "'v \<Rightarrow> 's \<Rightarrow> 's" and get :: "'s \<Rightarrow> 'v \<times> 's" and valid :: "'s \<Rightarrow> 'v \<Rightarrow> bool"
  assumes full_law: "ok s \<Longrightarrow> isfull s \<longleftrightarrow> \<not> length (items s) < cap s"
    and empty_law: "ok s \<Longrightarrow> isempty s \<longleftrightarrow> items s = []"
    and put_law: "ok s \<Longrightarrow> valid s v \<Longrightarrow> \<not> isfull s \<Longrightarrow>
      ok (put v s) \<and> items (put v s) = items s @ [v] \<and> cap (put v s) = cap s \<and> valid (put v s) = valid s"
    and get_law: "ok s \<Longrightarrow> \<not> isempty s \<Longrightarrow>
      fst (get s) = hd (items s) \<and> ok (snd (get s)) \<and> items (snd (get s)) = tl (items s) \<and>
      cap (snd (get s)) = cap s \<and> valid (snd (get s)) = valid s"

text \<open>Running the operations of an implementation: a full queue refuses, an empty one has no result.\<close>

fun queue_run :: "('s \<Rightarrow> bool) \<Rightarrow> ('s \<Rightarrow> bool) \<Rightarrow> ('v \<Rightarrow> 's \<Rightarrow> 's) \<Rightarrow> ('s \<Rightarrow> 'v \<times> 's) \<Rightarrow>
    'v qop list \<Rightarrow> 's \<Rightarrow> 'v option list \<times> 's" where
  "queue_run isfull isempty put get [] s = ([], s)"
| "queue_run isfull isempty put get (Put v # ops) s =
    (let (rs, s) = queue_run isfull isempty put get ops (if isfull s then s else put v s) in (None # rs, s))"
| "queue_run isfull isempty put get (Get # ops) s =
    (if isempty s then (let (rs, s) = queue_run isfull isempty put get ops s in (None # rs, s))
     else (let (v, s) = get s; (rs, s) = queue_run isfull isempty put get ops s in (Some v # rs, s)))"

context bounded_queue
begin

lemma run_refines:
  "ok s \<Longrightarrow> (\<And>v. Put v \<in> set ops \<Longrightarrow> valid s v) \<Longrightarrow>
   fst (queue_run isfull isempty put get ops s) = fst (list_run (cap s) ops (items s)) \<and>
   items (snd (queue_run isfull isempty put get ops s)) = snd (list_run (cap s) ops (items s))"
proof (induction ops arbitrary: s)
  case (Cons op ops)
  show ?case
  proof (cases op)
    case (Put v)
    have v: "valid s v" using Cons.prems(2) Put by simp
    let ?s = "if isfull s then s else put v s"
    have s: "ok ?s" "items ?s = (if length (items s) < cap s then items s @ [v] else items s)"
        "cap ?s = cap s" "valid ?s = valid s"
      using put_law [OF Cons.prems(1) v] full_law [OF Cons.prems(1)] Cons.prems(1) by auto
    have "\<And>u. Put u \<in> set ops \<Longrightarrow> valid ?s u" using Cons.prems(2) s(4) by simp
    from Cons.IH [OF s(1) this] show ?thesis
      unfolding Put s(2,3) by (simp add: Let_def case_prod_beta)
  next
    case Get
    show ?thesis
    proof (cases "isempty s")
      case True
      then have "items s = []" using empty_law [OF Cons.prems(1)] by simp
      moreover have "\<And>u. Put u \<in> set ops \<Longrightarrow> valid s u" using Cons.prems(2) by simp
      ultimately show ?thesis
        using Cons.IH [OF Cons.prems(1)] True Get by (simp add: Let_def case_prod_beta)
    next
      case False
      note g = get_law [OF Cons.prems(1) False]
      have ne: "items s \<noteq> []" using False empty_law [OF Cons.prems(1)] by simp
      obtain v s1 where s1: "get s = (v, s1)" by fastforce
      have "\<And>u. Put u \<in> set ops \<Longrightarrow> valid s1 u" using Cons.prems(2) g s1 by simp
      from Cons.IH [OF _ this] g s1 ne False Get show ?thesis
        by (simp add: Let_def case_prod_beta)
    qed
  qed
qed simp

end

section \<open>The ring buffer\<close>

definition mem_bytes :: "(addr \<Rightarrow> u8) \<Rightarrow> addr \<Rightarrow> nat \<Rightarrow> u8 list" where
  "mem_bytes mem a n = map (\<lambda>i. mem (a + i)) [0..<n]"

definition mem_store :: "addr \<Rightarrow> u8 list \<Rightarrow> (addr \<Rightarrow> u8) \<Rightarrow> addr \<Rightarrow> u8" where
  "mem_store a bs mem x = (if a \<le> x \<and> x < a + length bs then bs ! (x - a) else mem x)"

definition q_size :: "addr \<Rightarrow> 'a sync_scheme \<Rightarrow> nat" where
  "q_size q s = unat (q_item_size (sy_queue s q))"

definition q_cap :: "addr \<Rightarrow> 'a sync_scheme \<Rightarrow> nat" where
  "q_cap q s = unat (q_max_items (sy_queue s q))"

text \<open>The address of the \<open>j\<close>-th waiting item, and the items in order.\<close>

definition q_slot :: "addr \<Rightarrow> 'a sync_scheme \<Rightarrow> nat \<Rightarrow> addr" where
  "q_slot q s j = q_buffer (sy_queue s q) + ((unat (q_head (sy_queue s q)) + j) mod q_cap q s) * q_size q s"

definition q_items :: "addr \<Rightarrow> 'a sync_scheme \<Rightarrow> u8 list list" where
  "q_items q s = map (\<lambda>j. mem_bytes (sy_mem s) (q_slot q s j) (q_size q s)) [0..<unat (q_count (sy_queue s q))]"

text \<open>
  A well-formed queue whose buffer does not overlap the item buffer at \<open>i\<close> of its client.
\<close>

definition q_ok :: "addr \<Rightarrow> addr \<Rightarrow> 'a sync_scheme \<Rightarrow> bool" where
  "q_ok q i s \<longleftrightarrow> (let x = sy_queue s q in
     0 < q_size q s \<and> 0 < q_cap q s \<and> q_cap q s * q_size q s < 2 ^ 32 \<and>
     unat (q_head x) < q_cap q s \<and> unat (q_count x) \<le> q_cap q s \<and>
     unat (q_tail x) = (unat (q_head x) + unat (q_count x)) mod q_cap q s \<and>
     (i + q_size q s \<le> q_buffer x \<or> q_buffer x + q_cap q s * q_size q s \<le> i))"

lemma mod_slot_neq:
  fixes h j c m :: nat
  assumes "j < c" and "c < m"
  shows "(h + j) mod m \<noteq> (h + c) mod m"
proof
  assume "(h + j) mod m = (h + c) mod m"
  then have "m dvd (h + c) - (h + j)"
    using mod_eq_dvd_iff_nat [of "h + j" "h + c" m] assms(1) by (metis add_le_cancel_left less_imp_le)
  then have "m dvd c - j" by simp
  then show False using assms by (auto dest: dvd_imp_le)
qed

lemma slot_disjoint:
  fixes a b n i j :: nat
  assumes "a \<noteq> b" and "i < n" and "j < n"
  shows "a * n + i \<noteq> b * n + j"
proof
  assume "a * n + i = b * n + j"
  then have "(a * n + i) div n = (b * n + j) div n" by simp
  then show False using assms by simp
qed

lemma slot_in_buffer:
  fixes a m n i :: nat
  assumes "a < m" and "i < n"
  shows "a * n + i < m * n"
proof -
  have "a * n + i < (a + 1) * n" using assms(2) by simp
  also have "\<dots> \<le> m * n" using assms(1) by (intro mult_le_mono) simp_all
  finally show ?thesis .
qed

lemma mem_bytes_eq_iff: "mem_bytes f a n = mem_bytes g b n \<longleftrightarrow> (\<forall>i < n. f (a + i) = g (b + i))"
  by (auto simp: mem_bytes_def)

lemma length_mem_bytes [simp]: "length (mem_bytes f a n) = n"
  by (simp add: mem_bytes_def)

lemma mem_copy_read:
  "mem_bytes (mem_copy d i n mem) d n = mem_bytes mem i n"
  "(\<And>k. k < n \<Longrightarrow> \<not> (d \<le> a + k \<and> a + k < d + n)) \<Longrightarrow> mem_bytes (mem_copy d i n mem) a n = mem_bytes mem a n"
  by (auto simp: mem_bytes_eq_iff mem_copy_def)

text \<open>Offsets are computed in 32 bits without overflow.\<close>

lemma q_offset:
  assumes "unat k < q_cap q s" and "q_cap q s * q_size q s < 2 ^ 32"
  shows "unat (k * q_item_size (sy_queue s q)) = unat k * q_size q s"
proof -
  have "unat k * q_size q s \<le> q_cap q s * q_size q s" using assms(1) by (intro mult_le_mono1) simp
  then have "unat k * q_size q s < 2 ^ 32" using assms(2) by (rule order.strict_trans1)
  then show ?thesis unfolding q_size_def by (intro unat_mult_u32) simp
qed

lemma q_next_index:
  fixes k m :: u32
  assumes "unat k < unat m"
  shows "unat ((k + 1) mod m) = (unat k + 1) mod unat m"
  using unat_Suc_u32 [OF assms] by (simp add: unat_mod)

lemma slot_apart:
  fixes B h c m n j k :: nat
  assumes "j < c" and "c < m" and "k < n"
  shows "\<not> (B + (h + c) mod m * n \<le> B + (h + j) mod m * n + k \<and>
            B + (h + j) mod m * n + k < B + (h + c) mod m * n + n)"
proof
  assume *: "B + (h + c) mod m * n \<le> B + (h + j) mod m * n + k \<and>
      B + (h + j) mod m * n + k < B + (h + c) mod m * n + n"
  define l where "l = (h + j) mod m * n + k - (h + c) mod m * n"
  from * have "(h + j) mod m * n + k = (h + c) mod m * n + l" "l < n" unfolding l_def by linarith+
  then show False using slot_disjoint [OF mod_slot_neq [OF assms(1,2)] assms(3), of l] by simp
qed

lemma queue_put_refines:
  assumes ok: "q_ok q i s" and room: "q_count (sy_queue s q) < q_max_items (sy_queue s q)"
  shows "q_ok q i (queue_put q i s)"
    and "q_items q (queue_put q i s) = q_items q s @ [mem_bytes (sy_mem s) i (q_size q s)]"
    and "q_cap q (queue_put q i s) = q_cap q s" and "q_size q (queue_put q i s) = q_size q s"
proof -
  define x where "x = sy_queue s q"
  define h c m n where defs: "h = unat (q_head x)" "c = unat (q_count x)" "m = q_cap q s" "n = q_size q s"
  let ?s' = "queue_put q i s" and ?B = "q_buffer x"
  let ?dest = "?B + (h + c) mod m * n"
  from ok have ok': "0 < n" "0 < m" "m * n < 2 ^ 32" "h < m" "unat (q_tail x) = (h + c) mod m"
      "i + n \<le> ?B \<or> ?B + m * n \<le> i"
    unfolding q_ok_def Let_def defs x_def by simp_all
  have cm: "c < m" using room unfolding defs x_def q_cap_def by (simp add: word_less_nat_alt)
  have tm: "unat (q_tail x) < m" using ok'(2,5) by simp
  have mx: "unat (q_max_items x) = m" by (simp add: defs q_cap_def x_def)
  have "unat (q_tail x * q_item_size x) = (h + c) mod m * n"
    using q_offset [of "q_tail x" q s] tm ok'(3,5) by (simp add: defs x_def)
  then have mem: "sy_mem ?s' = mem_copy ?dest i n (sy_mem s)"
    by (simp add: queue_put_def upd_queue_def Let_def x_def defs(4) q_size_def)
  have x': "sy_queue ?s' q = x\<lparr>q_tail := (q_tail x + 1) mod q_max_items x, q_count := q_count x + 1\<rparr>"
    by (simp add: queue_put_def upd_queue_def Let_def x_def)
  show cap: "q_cap q ?s' = q_cap q s" and size: "q_size q ?s' = q_size q s"
    unfolding q_cap_def q_size_def x' by (simp_all add: x_def)
  have slot: "q_slot q ?s' j = ?B + (h + j) mod m * n" "q_slot q s j = ?B + (h + j) mod m * n" for j
    unfolding q_slot_def cap size x' by (simp_all add: defs x_def)
  have c1: "unat (q_count x + 1) = c + 1"
    using unat_Suc_u32 [of "q_count x" "q_max_items x"] cm mx by (simp add: defs(2))
  have old: "mem_bytes (sy_mem ?s') (?B + (h + j) mod m * n) n = mem_bytes (sy_mem s) (?B + (h + j) mod m * n) n"
    if "j < c" for j
    unfolding mem by (rule mem_copy_read(2)) (rule slot_apart [OF that cm])
  have "q_items q ?s' = map (\<lambda>j. mem_bytes (sy_mem ?s') (?B + (h + j) mod m * n) n) [0..<c + 1]"
    unfolding q_items_def slot(1) size x' by (simp add: c1 defs(4))
  also have "\<dots> = map (\<lambda>j. mem_bytes (sy_mem s) (?B + (h + j) mod m * n) n) [0..<c] @ [mem_bytes (sy_mem s) i n]"
    using old by (simp add: mem mem_copy_read(1))
  finally show "q_items q ?s' = q_items q s @ [mem_bytes (sy_mem s) i (q_size q s)]"
    unfolding q_items_def slot(2) by (simp add: defs x_def)
  have "unat ((q_tail x + 1) mod q_max_items x) = (h + (c + 1)) mod m"
    using q_next_index [of "q_tail x" "q_max_items x"] tm ok'(5) mx by (simp add: mod_simps)
  then show "q_ok q i ?s'"
    unfolding q_ok_def Let_def cap size x' using ok' cm c1 by (simp add: defs)
qed

text \<open>Reading the front item into the client's buffer leaves the ring untouched.\<close>

lemma queue_front_refines:
  assumes ok: "q_ok q i s" and some: "0 < q_count (sy_queue s q)"
  shows "mem_bytes (sy_mem (queue_front q i s)) i (q_size q s) = hd (q_items q s)"
    and "q_items q (queue_front q i s) = q_items q s" and "q_ok q i (queue_front q i s)"
    and "sy_queue (queue_front q i s) = sy_queue s"
proof -
  define x where "x = sy_queue s q"
  define h c m n where defs: "h = unat (q_head x)" "c = unat (q_count x)" "m = q_cap q s" "n = q_size q s"
  let ?s' = "queue_front q i s" and ?B = "q_buffer x"
  from ok have ok': "0 < n" "0 < m" "m * n < 2 ^ 32" "h < m" "i + n \<le> ?B \<or> ?B + m * n \<le> i"
    unfolding q_ok_def Let_def defs x_def by simp_all
  have "unat (q_head x * q_item_size x) = h * n"
    using q_offset [of "q_head x" q s] ok'(3,4) by (simp add: defs x_def)
  then have mem: "sy_mem ?s' = mem_copy i (?B + h * n) n (sy_mem s)"
    by (simp add: queue_front_def Let_def x_def defs(4) q_size_def)
  show q: "sy_queue ?s' = sy_queue s" by (simp add: queue_front_def Let_def)
  have c: "0 < c" using some by (simp add: defs x_def word_less_nat_alt)
  have slot: "q_slot q s j = ?B + (h + j) mod m * n" for j by (simp add: q_slot_def defs x_def)
  have "hd (q_items q s) = mem_bytes (sy_mem s) (?B + h * n) n"
    using c ok'(4) by (simp add: q_items_def slot hd_map defs(2,4) x_def)
  then show "mem_bytes (sy_mem ?s') i (q_size q s) = hd (q_items q s)"
    by (simp add: mem mem_copy_read(1) defs(4))
  have same: "mem_bytes (sy_mem ?s') (?B + (h + j) mod m * n) n = mem_bytes (sy_mem s) (?B + (h + j) mod m * n) n" for j
    unfolding mem
  proof (rule mem_copy_read(2))
    fix k assume "k < n"
    then have "(h + j) mod m * n + k < m * n" using ok'(2) by (intro slot_in_buffer) simp_all
    then show "\<not> (i \<le> ?B + (h + j) mod m * n + k \<and> ?B + (h + j) mod m * n + k < i + n)"
      using ok'(5) by linarith
  qed
  have eqs: "q_cap q ?s' = m" "q_size q ?s' = n" "q_slot q ?s' j = ?B + (h + j) mod m * n" for j
    unfolding q_cap_def q_size_def q_slot_def q by (simp_all add: defs q_cap_def q_size_def x_def)
  show "q_items q ?s' = q_items q s"
    unfolding q_items_def eqs q slot using same by (simp add: defs(4))
  show "q_ok q i ?s'" using ok unfolding q_ok_def Let_def eqs(1,2) q by (simp add: defs)
qed

lemma queue_take_refines:
  assumes ok: "q_ok q i s" and some: "0 < q_count (sy_queue s q)"
  shows "mem_bytes (sy_mem (queue_take q i s)) i (q_size q s) = hd (q_items q s)"
    and "q_items q (queue_take q i s) = tl (q_items q s)" and "q_ok q i (queue_take q i s)"
    and "q_cap q (queue_take q i s) = q_cap q s" and "q_size q (queue_take q i s) = q_size q s"
proof -
  let ?t = "queue_front q i s" and ?s' = "queue_take q i s"
  note f = queue_front_refines [OF ok some]
  define x where "x = sy_queue s q"
  define h c m n where defs: "h = unat (q_head x)" "c = unat (q_count x)" "m = q_cap q s" "n = q_size q s"
  have x': "sy_queue ?s' q = x\<lparr>q_head := (q_head x + 1) mod q_max_items x, q_count := q_count x - 1\<rparr>"
    and mem: "sy_mem ?s' = sy_mem ?t"
    by (simp_all add: queue_take_def upd_queue_def f(4) x_def)
  from ok have ok': "0 < n" "0 < m" "h < m" "c \<le> m" "unat (q_tail x) = (h + c) mod m" "m * n < 2 ^ 32"
      "i + n \<le> q_buffer x \<or> q_buffer x + m * n \<le> i"
    unfolding q_ok_def Let_def defs x_def by simp_all
  have c: "0 < c" using some by (simp add: defs x_def word_less_nat_alt)
  show cap: "q_cap q ?s' = q_cap q s" and size: "q_size q ?s' = q_size q s"
    unfolding q_cap_def q_size_def x' by (simp_all add: x_def)
  show "mem_bytes (sy_mem ?s') i (q_size q s) = hd (q_items q s)" unfolding mem by (rule f(1))
  have h': "unat ((q_head x + 1) mod q_max_items x) = (h + 1) mod m"
    using q_next_index [of "q_head x" "q_max_items x"] ok'(3) by (simp add: defs q_cap_def x_def)
  have c': "unat (q_count x - 1) = c - 1" using c by (simp add: defs(2) unat_sub word_le_nat_alt)
  have slot: "q_slot q ?s' j = q_slot q ?t (Suc j)" for j
    unfolding q_slot_def cap size x' f(4) using f(4) h'
    by (simp add: q_cap_def q_size_def x_def mod_simps) (simp add: defs x_def q_cap_def mod_simps)
  have "q_items q ?s' = map (\<lambda>j. mem_bytes (sy_mem ?t) (q_slot q ?t (Suc j)) n) [0..<c - 1]"
    unfolding q_items_def slot mem size x' by (simp add: c' defs(4))
  also have "\<dots> = tl (map (\<lambda>j. mem_bytes (sy_mem ?t) (q_slot q ?t j) n) [0..<c])"
    using c by (cases c) (simp_all add: map_tl map_upt_Suc del: upt_Suc)
  also have "\<dots> = tl (q_items q ?t)"
    unfolding q_items_def f(4) by (simp add: defs x_def q_size_def f(4))
  finally show "q_items q ?s' = tl (q_items q s)" using f(2) by simp
  have "((h + 1) mod m + (c - 1)) mod m = (h + c) mod m"
    using c by (cases c) (simp_all add: mod_simps)
  then show "q_ok q i ?s'"
    using ok' unfolding q_ok_def Let_def cap size x' by (auto simp: h' c' simp flip: defs(3,4))
qed

text \<open>A client that fills its item buffer and sends it, and one that receives into it.\<close>

definition q_write :: "addr \<Rightarrow> addr \<Rightarrow> u8 list \<Rightarrow> 'a sync_scheme \<Rightarrow> 'a sync_scheme" where
  "q_write q i v s = queue_put q i (s\<lparr>sy_mem := mem_store i v (sy_mem s)\<rparr>)"

definition q_read :: "addr \<Rightarrow> addr \<Rightarrow> 'a sync_scheme \<Rightarrow> u8 list \<times> 'a sync_scheme" where
  "q_read q i s = (let s' = queue_take q i s in (mem_bytes (sy_mem s') i (q_size q s), s'))"

lemma q_fields_mem [simp]:
  "q_cap q (s\<lparr>sy_mem := f\<rparr>) = q_cap q s" "q_size q (s\<lparr>sy_mem := f\<rparr>) = q_size q s"
  "q_slot q (s\<lparr>sy_mem := f\<rparr>) j = q_slot q s j" "q_ok q i (s\<lparr>sy_mem := f\<rparr>) = q_ok q i s"
  by (simp_all add: q_cap_def q_size_def q_slot_def q_ok_def)

text \<open>The memory a queue and its client's item buffer occupy.\<close>

definition q_region :: "addr \<Rightarrow> addr \<Rightarrow> 'a sync_scheme \<Rightarrow> addr set" where
  "q_region q i s = {q_buffer (sy_queue s q)..<q_buffer (sy_queue s q) + q_cap q s * q_size q s} \<union>
     {i..<i + q_size q s}"

lemma q_slot_region:
  assumes "q_ok q i s" and "k < q_size q s"
  shows "q_slot q s j + k \<in> {q_buffer (sy_queue s q)..<q_buffer (sy_queue s q) + q_cap q s * q_size q s}"
proof -
  have "(unat (q_head (sy_queue s q)) + j) mod q_cap q s < q_cap q s"
    using assms(1) by (simp add: q_ok_def Let_def)
  from slot_in_buffer [OF this assms(2)] show ?thesis by (simp add: q_slot_def)
qed

lemma q_items_cong:
  assumes "q_ok q i s" and q: "sy_queue s' q = (sy_queue s q)\<lparr>q_lock := l\<rparr>"
    and mem: "\<And>a. a \<in> {q_buffer (sy_queue s q)..<q_buffer (sy_queue s q) + q_cap q s * q_size q s} \<Longrightarrow>
      sy_mem s' a = sy_mem s a"
  shows "q_items q s' = q_items q s" and "q_ok q i s'" and "q_cap q s' = q_cap q s" and "q_size q s' = q_size q s"
proof -
  have eqs: "q_cap q s' = q_cap q s" "q_size q s' = q_size q s" "q_slot q s' j = q_slot q s j" for j
    unfolding q_cap_def q_size_def q_slot_def q by simp_all
  then show "q_cap q s' = q_cap q s" "q_size q s' = q_size q s" by simp_all
  have "mem_bytes (sy_mem s') (q_slot q s j) (q_size q s) = mem_bytes (sy_mem s) (q_slot q s j) (q_size q s)" for j
    unfolding mem_bytes_eq_iff using mem q_slot_region [OF assms(1)] by blast
  then show "q_items q s' = q_items q s" unfolding q_items_def eqs q by simp
  show "q_ok q i s'" using assms(1) unfolding q_ok_def Let_def eqs q by simp
qed

lemma q_store:
  assumes ok: "q_ok q i s" and v: "length v = q_size q s"
  shows "q_items q (s\<lparr>sy_mem := mem_store i v (sy_mem s)\<rparr>) = q_items q s"
    and "mem_bytes (mem_store i v (sy_mem s)) i (q_size q s) = v"
proof -
  let ?B = "q_buffer (sy_queue s q)" and ?s' = "s\<lparr>sy_mem := mem_store i v (sy_mem s)\<rparr>"
  have apart: "i + q_size q s \<le> ?B \<or> ?B + q_cap q s * q_size q s \<le> i"
    using ok by (simp add: q_ok_def Let_def)
  have same: "sy_queue ?s' q = (sy_queue s q)\<lparr>q_lock := q_lock (sy_queue s q)\<rparr>" by simp
  show "q_items q ?s' = q_items q s"
    by (rule q_items_cong(1) [OF ok same]) (use apart v in \<open>auto simp: mem_store_def\<close>)
  show "mem_bytes (mem_store i v (sy_mem s)) i (q_size q s) = v"
    by (rule nth_equalityI) (simp_all add: v mem_bytes_def mem_store_def)
qed

interpretation ring: bounded_queue "q_ok q i" "q_items q" "q_cap q"
    "\<lambda>s. \<not> q_count (sy_queue s q) < q_max_items (sy_queue s q)" "\<lambda>s. \<not> 0 < q_count (sy_queue s q)"
    "q_write q i" "q_read q i" "\<lambda>s v. length v = q_size q s" for q i
proof unfold_locales
  fix s :: "'a sync_scheme" and v
  assume ok: "q_ok q i s"
  show "\<not> q_count (sy_queue s q) < q_max_items (sy_queue s q) \<longleftrightarrow> \<not> length (q_items q s) < q_cap q s"
    by (simp add: q_items_def q_cap_def word_less_nat_alt)
  show "\<not> 0 < q_count (sy_queue s q) \<longleftrightarrow> q_items q s = []"
    by (simp add: q_items_def word_less_nat_alt)
  show "q_ok q i (q_write q i v s) \<and> q_items q (q_write q i v s) = q_items q s @ [v] \<and>
      q_cap q (q_write q i v s) = q_cap q s \<and>
      (\<lambda>u. length u = q_size q (q_write q i v s)) = (\<lambda>u. length u = q_size q s)"
    if "length v = q_size q s" "\<not> \<not> q_count (sy_queue s q) < q_max_items (sy_queue s q)"
    using queue_put_refines [of q i "s\<lparr>sy_mem := mem_store i v (sy_mem s)\<rparr>"] ok q_store [OF ok that(1)] that(2)
    by (simp add: q_write_def)
  show "fst (q_read q i s) = hd (q_items q s) \<and> q_ok q i (snd (q_read q i s)) \<and>
      q_items q (snd (q_read q i s)) = tl (q_items q s) \<and> q_cap q (snd (q_read q i s)) = q_cap q s \<and>
      (\<lambda>u. length u = q_size q (snd (q_read q i s))) = (\<lambda>u. length u = q_size q s)"
    if "\<not> \<not> 0 < q_count (sy_queue s q)"
    using queue_take_refines [OF ok] that by (simp add: q_read_def Let_def)
qed

section \<open>Locking around the work\<close>

text \<open>A property of the objects that no kernel operation and no other task changes.\<close>

definition obj_stable :: "('a sync_scheme \<Rightarrow> bool) \<Rightarrow> 'a sswitch \<Rightarrow> bool" where
  "obj_stable P cs \<longleftrightarrow> (\<forall>s s'. kernel.more s = kernel.more s' \<longrightarrow> P s \<longrightarrow> P s') \<and>
     (\<forall>old new s. P s \<longrightarrow> P (cs old new s))"

lemma obj_stableD:
  assumes "obj_stable P cs" and "P s"
  shows "kernel.more s' = kernel.more s \<Longrightarrow> P s'" and "P (cs old new s)"
proof -
  have "\<forall>s s'. kernel.more s = kernel.more s' \<longrightarrow> P s \<longrightarrow> P s'"
    using assms(1) unfolding obj_stable_def by (rule conjunct1)
  from this [rule_format, of s s'] show "kernel.more s' = kernel.more s \<Longrightarrow> P s'" using assms(2) by simp
  have "\<forall>old new s. P s \<longrightarrow> P (cs old new s)"
    using assms(1) unfolding obj_stable_def by (rule conjunct2)
  then show "P (cs old new s)" using assms(2) by simp
qed

lemma yield_law:
  assumes "on_cpu c s" and "resumes cs" and st: "obj_stable P cs" and P: "P s"
  shows "\<exists>s'. os_task_yield cs s = Some s' \<and> on_cpu c s' \<and> P s'"
proof -
  have on: "sched_inv s" "k_scheduler_running s" "k_current_task s = Some c"
    using assms(1) by (simp_all add: on_cpu_def)
  obtain s' where s': "os_task_yield cs s = Some s'" "sched_inv s'" "k_scheduler_running s'" "k_current_task s' = Some c"
      "kernel.more s' = kernel.more s \<or> (\<exists>n s1. kernel.more s1 = kernel.more s \<and> s' = cs c n s1)"
    by (rule yield_advances [OF on assms(2)]) (rule that, assumption+)
  have "P s'" using s'(5)
  proof (elim disjE exE conjE)
    fix n s1 assume "kernel.more s1 = kernel.more s" "s' = cs c n s1"
    then show "P s'" using obj_stableD [OF st] P by blast
  qed (rule obj_stableD(1) [OF st P])
  with s' show ?thesis by (auto simp: on_cpu_def)
qed

lemma reset_law:
  assumes on: "on_cpu c s" and "resumes cs" and st: "obj_stable P cs" and P: "P s"
  shows "\<exists>s'. os_task_reset_priority cs (Some c) s = Some (OS_OK, s') \<and> on_cpu c s' \<and> P s'"
proof -
  let ?s0 = "s\<lparr>k_primask := 1\<rparr>" and ?f = "\<lambda>t. t\<lparr>t_priority := t_base_priority t\<rparr>"
  have inv: "sched_inv ?s0" using on by (simp add: on_cpu_def)
  obtain s1 where s1: "requeue c ?f ?s0 = Some s1" "sched_inv s1" "sched_frame ?s0 s1"
    by (rule requeue_inv [OF inv, of ?f c]) (auto simp: core_def)
  let ?s2 = "s1\<lparr>k_primask := k_primask s\<rparr>"
  have on2: "on_cpu c ?s2" using s1(2,3) on by (simp add: on_cpu_def sched_frame_def)
  have "kernel.more ?s2 = kernel.more s" using s1(3) by (simp add: sched_frame_def)
  then have P2: "P ?s2" by (rule obj_stableD(1) [OF st P])
  show ?thesis
    using yield_law [OF on2 assms(2) st P2] s1(1) on2 P2
    by (auto simp: os_task_reset_priority_def critical_defs)
qed

lemma unlock_law:
  assumes on: "on_cpu c s" and cs: "resumes cs" and own: "m_owner (mutex_at m s) = Some c"
    and st: "obj_stable P cs" and P: "P s"
    and st': "obj_stable P' cs" and P': "\<And>s. P s \<Longrightarrow> P' (upd_mutex m (\<lambda>x. x\<lparr>m_locked := False, m_owner := None\<rparr>) s)"
  shows "\<exists>s'. os_mutex_unlock cs (Some m) s = Some (OS_OK, s') \<and> on_cpu c s' \<and> P' s'"
proof -
  let ?s0 = "s\<lparr>k_primask := 1\<rparr>" and ?rel = "\<lambda>x. x\<lparr>m_locked := False, m_owner := None\<rparr>"
  have on0: "on_cpu c ?s0" using on by simp
  have "kernel.more ?s0 = kernel.more s" by simp
  then have P0: "P ?s0" by (rule obj_stableD(1) [OF st P])
  obtain s1 where s1: "os_task_reset_priority cs (Some c) ?s0 = Some (OS_OK, s1)" "on_cpu c s1" "P s1"
    using reset_law [OF on0 cs st P0] by blast
  let ?s2 = "(upd_mutex m ?rel s1)\<lparr>k_primask := k_primask s\<rparr>"
  have on2: "on_cpu c ?s2" using s1(2) by simp
  have "kernel.more ?s2 = kernel.more (upd_mutex m ?rel s1)" by simp
  then have P2: "P' ?s2" by (rule obj_stableD(1) [OF st' P' [OF s1(3)]])
  have cur: "k_current_task s = Some c" using on by (simp add: on_cpu_def)
  show ?thesis
    using yield_law [OF on2 cs st' P2] s1(1) own cur
    by (auto simp: os_mutex_unlock_def os_task_get_current_def critical_defs)
qed

text \<open>The other tasks neither use the queue nor write to the memory \<open>R\<close>.\<close>

definition leaves_queue :: "addr \<Rightarrow> addr set \<Rightarrow> 'a sswitch \<Rightarrow> bool" where
  "leaves_queue q R cs \<longleftrightarrow> (\<forall>old new s. sy_queue (cs old new s) q = sy_queue s q \<and>
     (\<forall>a \<in> R. sy_mem (cs old new s) a = sy_mem s a))"

lemma queue_view_stable:
  fixes cs :: "'a sswitch"
  assumes "leaves_queue q R cs"
  shows "obj_stable (\<lambda>s. sy_queue s q = x \<and> (\<forall>a \<in> R. sy_mem s a = mem a)) cs"
  unfolding obj_stable_def
proof (intro conjI allI impI)
  fix s s' :: "'a sync_scheme"
  assume "kernel.more s = kernel.more s'"
  note eq = more_objects(3,6) [OF this]
  assume "sy_queue s q = x \<and> (\<forall>a\<in>R. sy_mem s a = mem a)"
  then show "sy_queue s' q = x" "\<forall>a\<in>R. sy_mem s' a = mem a" unfolding eq by simp_all
qed (use assms in \<open>simp_all add: leaves_queue_def\<close>)

text \<open>The same queue up to its lock.\<close>

definition same_queue :: "addr \<Rightarrow> 'a sync_scheme \<Rightarrow> 'a sync_scheme \<Rightarrow> bool" where
  "same_queue q s s' \<longleftrightarrow> sy_queue s' q = (sy_queue s q)\<lparr>q_lock := q_lock (sy_queue s' q)\<rparr>"

lemma same_queueD:
  assumes "same_queue q s s'"
  shows "q_buffer (sy_queue s' q) = q_buffer (sy_queue s q)" "q_count (sy_queue s' q) = q_count (sy_queue s q)"
    "q_max_items (sy_queue s' q) = q_max_items (sy_queue s q)"
  using assms unfolding same_queue_def by (metis msg_queue.ext_inject msg_queue.surjective msg_queue.update_convs(7))+

text \<open>With the queue unlocked and ready, the operation is: acquire, work, release.\<close>

lemma queue_loop_at_once:
  fixes s :: "'a sync_scheme"
  assumes on: "on_cpu c s" and cs: "resumes cs" and lv: "leaves_queue q R cs"
    and free: "\<not> m_locked (q_lock (sy_queue s q))"
    and ready: "\<And>x l. ready (x\<lparr>q_lock := l\<rparr>) = ready x" "ready (sy_queue s q)"
    and work: "\<And>t. on_cpu c t \<Longrightarrow> on_cpu c (work t)" "\<And>t. q_lock (sy_queue (work t) q) = q_lock (sy_queue t q)"
  shows "\<exists>s0 s'. queue_loop cs q ready work timeout start s = Some (OS_OK, s') \<and> on_cpu c s' \<and>
     same_queue q s s0 \<and> sy_mem s0 = sy_mem s \<and> same_queue q (work s0) s' \<and>
     \<not> m_locked (q_lock (sy_queue s' q)) \<and> (\<forall>a \<in> R. sy_mem s' a = sy_mem (work s0) a)"
proof -
  let ?m = "QueueLock q"
  define s0 where "s0 = (mutex_acquire ?m c (s\<lparr>k_primask := 1\<rparr>))\<lparr>k_primask := k_primask s\<rparr>"
  have cur: "k_current_task s = Some c" using on by (simp add: on_cpu_def)
  have attempt: "mutex_try cs ?m (Some c) s = Some (Some (), s0)"
    using free by (simp add: mutex_try_def critical_defs s0_def)
  have lock: "os_mutex_lock cs (Some ?m) 10 s = Some (OS_OK, s0)"
    using mx.poll_at_once [OF attempt] cur by (simp add: os_mutex_lock_def os_task_get_current_def wait_result_def)
  have on0: "on_cpu c s0" using on by (simp add: s0_def)
  have s0: "m_owner (q_lock (sy_queue s0 q)) = Some c" "sy_mem s0 = sy_mem s"
      "sy_queue s0 q = (sy_queue s q)\<lparr>q_lock := q_lock (sy_queue s0 q)\<rparr>"
    by (simp_all add: s0_def mutex_acquire_def Let_def)
  let ?w = "work s0"
  let ?P = "\<lambda>s. sy_queue s q = sy_queue ?w q \<and> (\<forall>a \<in> R. sy_mem s a = sy_mem ?w a)"
  let ?x' = "(sy_queue ?w q)\<lparr>q_lock := (q_lock (sy_queue ?w q))\<lparr>m_locked := False, m_owner := None\<rparr>\<rparr>"
  let ?P' = "\<lambda>s. sy_queue s q = ?x' \<and> (\<forall>a \<in> R. sy_mem s a = sy_mem ?w a)"
  have own: "m_owner (mutex_at ?m ?w) = Some c" using s0(1) work(2) by simp
  have rel: "?P' (upd_mutex ?m (\<lambda>x. x\<lparr>m_locked := False, m_owner := None\<rparr>) t)" if "?P t" for t
    using that by simp
  have P: "?P ?w" by simp
  have "\<exists>s'. os_mutex_unlock cs (Some ?m) ?w = Some (OS_OK, s') \<and> on_cpu c s' \<and> ?P' s'"
    by (rule unlock_law [of c ?w cs ?m ?P ?P', OF work(1) [OF on0] cs own queue_view_stable [OF lv] P
        queue_view_stable [OF lv] rel])
  then obtain s' where s': "os_mutex_unlock cs (Some ?m) ?w = Some (OS_OK, s')" "on_cpu c s'" "?P' s'"
    by (elim exE conjE) (rule that; assumption?; simp)
  have "ready (sy_queue s0 q)" using ready by (subst s0(3)) simp
  then have "queue_loop cs q ready work timeout start s = Some (OS_OK, s')"
    using lock s'(1) by (subst queue_loop.simps) simp
  moreover have "sy_queue s' q = (sy_queue ?w q)\<lparr>q_lock := q_lock (sy_queue s' q)\<rparr>"
      "\<not> m_locked (q_lock (sy_queue s' q))" "\<forall>a \<in> R. sy_mem s' a = sy_mem ?w a"
    using s'(3) by simp_all
  ultimately show ?thesis unfolding same_queue_def
    using s'(2) s0(2,3) by - (rule exI [of _ s0], rule exI [of _ s'], intro conjI, assumption+)
qed

lemma queue_work_on_cpu:
  "on_cpu c (queue_put q i t) \<longleftrightarrow> on_cpu c t" "on_cpu c (queue_take q i t) \<longleftrightarrow> on_cpu c t"
  "q_lock (sy_queue (queue_put q i t) q) = q_lock (sy_queue t q)"
  "q_lock (sy_queue (queue_take q i t) q) = q_lock (sy_queue t q)"
  by (rule on_cpu_kernel; simp add: queue_put_def queue_take_def queue_front_def upd_queue_def Let_def)+
    (simp_all add: queue_put_def queue_take_def queue_front_def upd_queue_def Let_def)

text \<open>The region of a queue does not change with its lock or its contents.\<close>

lemma q_region_subset:
  "{q_buffer (sy_queue s q)..<q_buffer (sy_queue s q) + q_cap q s * q_size q s} \<subseteq> q_region q i s"
  by (simp add: q_region_def)

lemma queue_send_law:
  assumes on: "on_cpu c s" and cs: "resumes cs" and ok: "q_ok q i s"
    and lv: "leaves_queue q (q_region q i s) cs" and free: "\<not> m_locked (q_lock (sy_queue s q))"
    and room: "q_count (sy_queue s q) < q_max_items (sy_queue s q)"
  shows "\<exists>s'. queue_loop cs q (\<lambda>x. q_count x < q_max_items x) (queue_put q i) timeout start s = Some (OS_OK, s') \<and>
     on_cpu c s' \<and> q_ok q i s' \<and> q_items q s' = q_items q s @ [mem_bytes (sy_mem s) i (q_size q s)] \<and>
     \<not> m_locked (q_lock (sy_queue s' q))"
proof -
  obtain s0 s' where s': "queue_loop cs q (\<lambda>x. q_count x < q_max_items x) (queue_put q i) timeout start s = Some (OS_OK, s')"
      "on_cpu c s'" "same_queue q s s0" "sy_mem s0 = sy_mem s" "same_queue q (queue_put q i s0) s'"
      "\<not> m_locked (q_lock (sy_queue s' q))" "\<forall>a \<in> q_region q i s. sy_mem s' a = sy_mem (queue_put q i s0) a"
    using queue_loop_at_once [OF on cs lv free, of "\<lambda>x. q_count x < q_max_items x" "queue_put q i" timeout start]
      room by (auto simp: queue_work_on_cpu)
  note a = q_items_cong [OF ok s'(3) [unfolded same_queue_def]]
  have ok0: "q_ok q i s0" and it0: "q_items q s0 = q_items q s" and sz: "q_size q s0 = q_size q s" "q_cap q s0 = q_cap q s"
    using a s'(4) by simp_all
  have room0: "q_count (sy_queue s0 q) < q_max_items (sy_queue s0 q)" using room same_queueD [OF s'(3)] by simp
  note p = queue_put_refines [OF ok0 room0]
  have buf: "q_buffer (sy_queue (queue_put q i s0) q) = q_buffer (sy_queue s q)"
    using same_queueD [OF s'(3)] by (simp add: queue_put_def upd_queue_def Let_def)
  note b = q_items_cong [OF p(1) s'(5) [unfolded same_queue_def], unfolded buf p(3,4) sz]
  have "sy_mem s' x = sy_mem (queue_put q i s0) x"
    if "x \<in> {q_buffer (sy_queue s q)..<q_buffer (sy_queue s q) + q_cap q s * q_size q s}" for x
    using that s'(7) q_region_subset by blast
  note c = b [OF this]
  show ?thesis using s'(1,2,6) c(1,2) p(2) it0 sz s'(4) by auto
qed

lemma queue_receive_law:
  assumes on: "on_cpu c s" and cs: "resumes cs" and ok: "q_ok q i s"
    and lv: "leaves_queue q (q_region q i s) cs" and free: "\<not> m_locked (q_lock (sy_queue s q))"
    and some: "0 < q_count (sy_queue s q)"
  shows "\<exists>s'. queue_loop cs q (\<lambda>x. q_count x > 0) (queue_take q i) timeout start s = Some (OS_OK, s') \<and>
     on_cpu c s' \<and> q_ok q i s' \<and> q_items q s' = tl (q_items q s) \<and>
     mem_bytes (sy_mem s') i (q_size q s) = hd (q_items q s) \<and> \<not> m_locked (q_lock (sy_queue s' q))"
proof -
  obtain s0 s' where s': "queue_loop cs q (\<lambda>x. q_count x > 0) (queue_take q i) timeout start s = Some (OS_OK, s')"
      "on_cpu c s'" "same_queue q s s0" "sy_mem s0 = sy_mem s" "same_queue q (queue_take q i s0) s'"
      "\<not> m_locked (q_lock (sy_queue s' q))" "\<forall>a \<in> q_region q i s. sy_mem s' a = sy_mem (queue_take q i s0) a"
    using queue_loop_at_once [OF on cs lv free, of "\<lambda>x. q_count x > 0" "queue_take q i" timeout start]
      some by (auto simp: queue_work_on_cpu)
  note a = q_items_cong [OF ok s'(3) [unfolded same_queue_def]]
  have ok0: "q_ok q i s0" and it0: "q_items q s0 = q_items q s" and sz: "q_size q s0 = q_size q s" "q_cap q s0 = q_cap q s"
    using a s'(4) by simp_all
  have some0: "0 < q_count (sy_queue s0 q)" using some same_queueD [OF s'(3)] by simp
  note p = queue_take_refines [OF ok0 some0]
  have buf: "q_buffer (sy_queue (queue_take q i s0) q) = q_buffer (sy_queue s q)"
    using same_queueD [OF s'(3)] by (simp add: queue_take_def queue_front_def upd_queue_def Let_def)
  note b = q_items_cong [OF p(3) s'(5) [unfolded same_queue_def], unfolded buf p(4,5) sz]
  have "sy_mem s' x = sy_mem (queue_take q i s0) x"
    if "x \<in> {q_buffer (sy_queue s q)..<q_buffer (sy_queue s q) + q_cap q s * q_size q s}" for x
    using that s'(7) q_region_subset by blast
  note c = b [OF this]
  have "mem_bytes (sy_mem s') i (q_size q s) = mem_bytes (sy_mem (queue_take q i s0)) i (q_size q s)"
    unfolding mem_bytes_eq_iff using s'(7) by (simp add: q_region_def)
  then show ?thesis using s'(1,2,6) c(1,2) p(1,2) it0 sz by auto
qed

end
