(* ===== verification/Sync_Spec.thy ===== *)
theory Sync_Spec
  imports Kernel_Spec Message_Queue
begin

text \<open>
  The properties of the synchronisation primitives of \<^verbatim>\<open>src/sync.c\<close>, and the concrete
  state they are applied to: the kernel \<open>demo_two\<close> with a message queue of four two-byte
  items at address 100, an item buffer at address 50, and free mutexes.
\<close>

section \<open>A concrete state\<close>

definition free_mutex :: mutex where
  "free_mutex = \<lparr>m_locked = False, m_owner = None, m_ceiling_priority = PRIORITY_IDLE\<rparr>"

definition demo_sync :: sync where
  "demo_sync = kernel.extend demo_two (sync.fields
     (\<lambda>_. free_mutex) (\<lambda>_. \<lparr>sem_count = 1, sem_wait_queue = None\<rparr>)
     (\<lambda>_. \<lparr>q_buffer = 100, q_item_size = 2, q_max_items = 4, q_head = 0, q_tail = 0, q_count = 0,
           q_lock = free_mutex\<rparr>)
     (\<lambda>_. \<lparr>ev_events = 5, ev_wait_queue = None\<rparr>)
     (\<lambda>_. \<lparr>c_wait_queue = None, c_waiting_count = 0\<rparr>) (\<lambda>a. word_of_nat a))"

lemma demo_sync_kernel [simp]:
  "k_heap demo_sync = k_heap demo_two" "k_current_task demo_sync = Some 3"
  "k_scheduler_running demo_sync" "k_ready_queue demo_sync = k_ready_queue demo_two"
  "k_ready_bitmap demo_sync = k_ready_bitmap demo_two" "k_tick_count demo_sync = 0"
  "k_primask demo_sync = 0"
  by (simp_all add: demo_sync_def kernel.defs sync.defs demo_defs)

lemma demo_sync_objects [simp]:
  "sy_mutex demo_sync a = free_mutex" "sem_count (sy_sem demo_sync a) = 1"
  "ev_events (sy_event demo_sync a) = 5"
  "sy_queue demo_sync q = \<lparr>q_buffer = 100, q_item_size = 2, q_max_items = 4, q_head = 0, q_tail = 0,
     q_count = 0, q_lock = free_mutex\<rparr>"
  "sy_mem demo_sync x = word_of_nat x"
  by (simp_all add: demo_sync_def kernel.defs sync.defs)

lemma demo_sync_rel: "sched_rel demo_sync (demo_queues(PRIORITY_NORMAL := [2]))"
  using demo_two_rel unfolding sched_rel_def by (simp add: nexts_def [abs_def])

lemma demo_sync_on_cpu: "on_cpu 3 demo_sync"
  using demo_sync_rel demo_inv(2) by (auto simp: on_cpu_def sched_inv_def)

lemma demo_q_ok: "q_ok 7 50 demo_sync"
  by (simp add: q_ok_def q_cap_def q_size_def)

section \<open>Mutexes\<close>

text \<open>C11. Locking with a timeout returns, provided context switches come back to their caller:
  either with the mutex locked and owned by the caller, taken when it was free, or with
  \<^verbatim>\<open>OS_ERROR_TIMEOUT\<close>, and then not before the timeout has elapsed.\<close>

theorem mutex_lock_returns:
  assumes "on_cpu c s" and "resumes cs" and "timeout \<noteq> 0" and "unat timeout \<le> 2 ^ 30"
  shows "\<exists>r s'. os_mutex_lock cs (Some m) timeout s = Some (r, s') \<and> on_cpu c s' \<and>
     (r = OS_OK \<and> m_locked (mutex_at m s') \<and> m_owner (mutex_at m s') = Some c \<and>
        (\<exists>s0. on_cpu c s0 \<and> \<not> m_locked (mutex_at m s0) \<and> mutex_try cs m (Some c) s0 = Some (Some (), s')) \<or>
      r = OS_ERROR_TIMEOUT \<and> timeout \<le> k_tick_count s' - k_tick_count s)"
proof -
  have cur: "k_current_task s = Some c" using assms(1) by (simp add: on_cpu_def)
  obtain r s' where s': "poll cs (mutex_try cs m (Some c)) timeout (k_tick_count s) s = Some (r, s')" "on_cpu c s'"
      "case r of None \<Rightarrow> timeout \<le> k_tick_count s' - k_tick_count s
        | Some v \<Rightarrow> \<exists>s0. on_cpu c s0 \<and> mutex_try cs m (Some c) s0 = Some (Some v, s')"
    using mx.poll_returns [OF assms(2-4) assms(1), of "k_tick_count s" cs m] by auto
  have lock: "os_mutex_lock cs (Some m) timeout s = Some (wait_result r, s')"
    using s'(1) cur by (simp add: os_mutex_lock_def os_task_get_current_def os_get_tick_count_def)
  show ?thesis
  proof (cases r)
    case None
    then show ?thesis using lock s'(2,3) by (simp add: wait_result_def)
  next
    case (Some v)
    then obtain s0 where s0: "on_cpu c s0" "mutex_try cs m (Some c) s0 = Some (Some (), s')"
      using s'(3) by auto
    have "\<not> m_locked (mutex_at m s0)" "m_locked (mutex_at m s')" "m_owner (mutex_at m s') = Some c"
      using mutex_try_law [OF s0(1), of cs m] s0(2) by (auto split: if_splits)
    then show ?thesis using Some lock s'(2) s0 by (auto simp: wait_result_def)
  qed
qed

theorem mutex_lock_returns_witness:
  "\<exists>r s'. os_mutex_lock cs_back (Some (MutexVar 1)) 10 demo_sync = Some (r, s') \<and>
     (r = OS_OK \<and> m_owner (sy_mutex s' 1) = Some 3 \<or> r = OS_ERROR_TIMEOUT)"
  using mutex_lock_returns [OF demo_sync_on_cpu cs_back_resumes, of 10 "MutexVar 1"] by auto

text \<open>C15. Priority inheritance: an attempt to lock a mutex that is held leaves the mutex alone,
  does not give up the CPU, and afterwards the owner's effective priority is at least as
  urgent as that of the waiting task, while every base priority is as before.\<close>

theorem priority_inheritance:
  assumes "on_cpu c s" and "m_locked (mutex_at m s)" and "m_owner (mutex_at m s) = Some w"
  shows "\<exists>s'. mutex_try cs m (Some c) s = Some (None, s') \<and> on_cpu c s' \<and> mutex_at m s' = mutex_at m s \<and>
     t_priority (k_heap s' w) \<le> t_priority (k_heap s c) \<and>
     (\<forall>x. t_base_priority (k_heap s' x) = t_base_priority (k_heap s x))"
  using mutex_try_law [OF assms(1), of cs m] assms(2,3) by auto

theorem priority_inheritance_witness:
  "let s = upd_mutex (MutexVar 1) (\<lambda>_. \<lparr>m_locked = True, m_owner = Some 0, m_ceiling_priority = 255\<rparr>) demo_sync in
   t_priority (k_heap s 0) = 255 \<and>
   (\<exists>s'. mutex_try cs_now (MutexVar 1) (Some 3) s = Some (None, s') \<and> t_priority (k_heap s' 0) \<le> 128)"
proof -
  let ?s = "upd_mutex (MutexVar 1) (\<lambda>_. \<lparr>m_locked = True, m_owner = Some 0, m_ceiling_priority = 255\<rparr>) demo_sync"
  have "on_cpu 3 ?s" using demo_sync_on_cpu by (simp only: on_cpu_updates)
  from priority_inheritance [OF this, of "MutexVar 1" 0 cs_now]
  show ?thesis by (auto simp: demo_defs)
qed

text \<open>Other tasks do not touch the mutex while the caller is switched out.\<close>

definition leaves_mutex :: "mutex_loc \<Rightarrow> 'a sswitch \<Rightarrow> bool" where
  "leaves_mutex m cs \<longleftrightarrow> (\<forall>old new s. mutex_at m (cs old new s) = mutex_at m s)"

lemma mutex_view_stable:
  fixes cs :: "'a sswitch"
  assumes "leaves_mutex m cs"
  shows "obj_stable (\<lambda>s. mutex_at m s = x) cs"
  unfolding obj_stable_def
proof (intro conjI allI impI)
  fix s s' :: "'a sync_scheme"
  assume "kernel.more s = kernel.more s'" and "mutex_at m s = x"
  then show "mutex_at m s' = x" using more_objects(7) [of s s' m] by simp
qed (use assms in \<open>simp add: leaves_mutex_def\<close>)

text \<open>C26. Releasing: a task that does not own the mutex gets \<^verbatim>\<open>OS_ERROR_PERMISSION_DENIED\<close> and
  changes nothing at all; the owner's unlock completes, through the priority reset and the
  yields it contains, and leaves the mutex free.\<close>

theorem mutex_unlock_owner:
  assumes "on_cpu c s" and "resumes cs" and "leaves_mutex m cs"
  shows "if m_owner (mutex_at m s) = Some c
     then \<exists>s'. os_mutex_unlock cs (Some m) s = Some (OS_OK, s') \<and> on_cpu c s' \<and>
            \<not> m_locked (mutex_at m s') \<and> m_owner (mutex_at m s') = None
     else os_mutex_unlock cs (Some m) s = Some (OS_ERROR_PERMISSION_DENIED, s)"
proof (cases "m_owner (mutex_at m s) = Some c")
  case True
  let ?x = "(mutex_at m s)\<lparr>m_locked := False, m_owner := None\<rparr>"
  have "\<exists>s'. os_mutex_unlock cs (Some m) s = Some (OS_OK, s') \<and> on_cpu c s' \<and> mutex_at m s' = ?x"
    by (rule unlock_law [of c s cs m "\<lambda>t. mutex_at m t = mutex_at m s" "\<lambda>t. mutex_at m t = ?x",
          OF assms(1,2) True mutex_view_stable [OF assms(3)] refl mutex_view_stable [OF assms(3)]]) simp
  then show ?thesis using True by auto
next
  case False
  have "k_current_task s = Some c" using assms(1) by (simp add: on_cpu_def)
  then show ?thesis using False by (simp add: os_mutex_unlock_def os_task_get_current_def critical_defs)
qed

lemma cs_back_leaves: "leaves_mutex m cs_back" "leaves_queue q R cs_back"
  by (cases m; simp add: leaves_mutex_def cs_back_def) (simp add: leaves_queue_def cs_back_def)

theorem mutex_unlock_owner_witness:
  "os_mutex_unlock cs_back (Some (MutexVar 1)) demo_sync = Some (OS_ERROR_PERMISSION_DENIED, demo_sync) \<and>
   (\<exists>s'. os_mutex_unlock cs_back (Some (MutexVar 1)) (mutex_acquire (MutexVar 1) 3 demo_sync) = Some (OS_OK, s') \<and>
      \<not> m_locked (sy_mutex s' 1))"
proof -
  let ?m = "MutexVar 1"
  have on: "on_cpu 3 (mutex_acquire ?m 3 demo_sync)" using demo_sync_on_cpu by simp
  have own: "m_owner (mutex_at ?m (mutex_acquire ?m 3 demo_sync)) = Some 3" by (rule mutex_acquire_at)
  have "m_owner (mutex_at ?m demo_sync) \<noteq> Some 3" by (simp add: free_mutex_def)
  then show ?thesis
    using mutex_unlock_owner [OF demo_sync_on_cpu cs_back_resumes cs_back_leaves(1), of ?m]
      mutex_unlock_owner [OF on cs_back_resumes cs_back_leaves(1), of ?m] own by auto
qed

section \<open>Semaphores and event groups\<close>

text \<open>Waiting on a semaphore with a timeout returns: either a token was available at the
  last check and exactly one is taken, or the timeout has elapsed.\<close>

theorem semaphore_wait_returns:
  fixes s :: "'a sync_scheme"
  assumes "on_cpu c s" and "resumes cs" and "timeout \<noteq> 0" and "unat timeout \<le> 2 ^ 30"
  shows "\<exists>r s'. os_semaphore_wait cs (Some a) timeout s = Some (r, s') \<and> on_cpu c s' \<and>
     (r = OS_OK \<and> (\<exists>s0 :: 'a sync_scheme. on_cpu c s0 \<and> 0 < sint (sem_count (sy_sem s0 a)) \<and>
        sint (sem_count (sy_sem s' a)) = sint (sem_count (sy_sem s0 a)) - 1) \<or>
      r = OS_ERROR_TIMEOUT \<and> timeout \<le> k_tick_count s' - k_tick_count s)"
proof -
  obtain r s' where s': "poll cs (sem_try a) timeout (k_tick_count s) s = Some (r, s')" "on_cpu c s'"
      "case r of None \<Rightarrow> timeout \<le> k_tick_count s' - k_tick_count s
        | Some v \<Rightarrow> \<exists>s0. on_cpu c s0 \<and> sem_try a s0 = Some (Some v, s')"
    using sem.poll_returns [OF assms(2-4) assms(1), of "k_tick_count s" a] by auto
  have wait: "os_semaphore_wait cs (Some a) timeout s = Some (wait_result r, s')"
    using s'(1) by (simp add: os_semaphore_wait_def os_get_tick_count_def)
  show ?thesis
  proof (cases r)
    case None
    then show ?thesis using wait s'(2,3) by (simp add: wait_result_def)
  next
    case (Some v)
    then obtain s0 where s0: "on_cpu c s0" "sem_try a s0 = Some (Some (), s')" using s'(3) by auto
    have pos: "0 < sint (sem_count (sy_sem s0 a))" "sem_count (sy_sem s' a) = sem_count (sy_sem s0 a) - 1"
      using s0(2) by (auto simp: sem_try_def critical_defs upd_sem_def split: if_splits)
    then have "sint (sem_count (sy_sem s' a)) = sint (sem_count (sy_sem s0 a)) - 1"
      by (simp add: sint_dec_u32)
    moreover have "os_semaphore_wait cs (Some a) timeout s = Some (OS_OK, s')"
      using Some wait by (simp add: wait_result_def)
    ultimately show ?thesis using s'(2) s0(1) pos(1) by blast
  qed
qed

theorem semaphore_wait_returns_witness:
  "\<exists>r s'. os_semaphore_wait cs_back (Some 4) 10 demo_sync = Some (r, s') \<and> (r = OS_OK \<or> r = OS_ERROR_TIMEOUT)"
  using semaphore_wait_returns [OF demo_sync_on_cpu cs_back_resumes, of 10 4] by auto

text \<open>Waiting on an event group with a timeout returns: on success the requested bits (all of
  them with \<^verbatim>\<open>EVENT_WAIT_ALL\<close>, at least one otherwise) were set at the last check, the bits
  reported are the requested ones that were set, and exactly the requested bits are cleared
  when \<^verbatim>\<open>EVENT_CLEAR_ON_EXIT\<close> is given and no bit otherwise.\<close>

theorem event_wait_returns:
  fixes s :: "'a sync_scheme"
  assumes "on_cpu c s" and "resumes cs" and "timeout \<noteq> 0" and "unat timeout \<le> 2 ^ 30" and "bits \<noteq> 0"
  shows "\<exists>r v s'. os_event_group_wait_bits cs (Some a) bits options timeout s = Some (r, v, s') \<and> on_cpu c s' \<and>
     (r = OS_OK \<and> (\<exists>s0 :: 'a sync_scheme. on_cpu c s0 \<and> (let e = ev_events (sy_event s0 a) in
        v = Some (e AND bits) \<and> e AND bits \<noteq> 0 \<and> (options AND EVENT_WAIT_ALL \<noteq> 0 \<longrightarrow> e AND bits = bits) \<and>
        ev_events (sy_event s' a) = (if options AND EVENT_CLEAR_ON_EXIT \<noteq> 0 then e AND NOT bits else e))) \<or>
      r = OS_ERROR_TIMEOUT \<and> v = None \<and> timeout \<le> k_tick_count s' - k_tick_count s)"
proof -
  let ?attempt = "event_try a bits (options AND EVENT_WAIT_ALL \<noteq> 0) (options AND EVENT_CLEAR_ON_EXIT \<noteq> 0)"
  obtain r s' where s': "poll cs ?attempt timeout (k_tick_count s) s = Some (r, s')" "on_cpu c s'"
      "case r of None \<Rightarrow> timeout \<le> k_tick_count s' - k_tick_count s
        | Some v \<Rightarrow> \<exists>s0. on_cpu c s0 \<and> ?attempt s0 = Some (Some v, s')"
    using ev.poll_returns [OF assms(2-4) assms(1), of "k_tick_count s" a bits
        "options AND EVENT_WAIT_ALL \<noteq> 0" "options AND EVENT_CLEAR_ON_EXIT \<noteq> 0"] by auto
  have wait: "os_event_group_wait_bits cs (Some a) bits options timeout s = Some (wait_result r, r, s')"
    using s'(1) assms(5) by (simp add: os_event_group_wait_bits_def os_get_tick_count_def)
  show ?thesis
  proof (cases r)
    case None
    then show ?thesis using wait s'(2,3) by (simp add: wait_result_def)
  next
    case (Some v)
    then obtain s0 where s0: "on_cpu c s0" "?attempt s0 = Some (Some v, s')" using s'(3) by auto
    let ?e = "ev_events (sy_event s0 a)"
    have "v = ?e AND bits \<and> ?e AND bits \<noteq> 0 \<and> (options AND EVENT_WAIT_ALL \<noteq> 0 \<longrightarrow> ?e AND bits = bits) \<and>
        ev_events (sy_event s' a) = (if options AND EVENT_CLEAR_ON_EXIT \<noteq> 0 then ?e AND NOT bits else ?e)"
      using s0(2) assms(5)
      by (auto simp: event_try_def event_met_def critical_defs upd_event_def split: if_splits)
    moreover have "os_event_group_wait_bits cs (Some a) bits options timeout s = Some (OS_OK, Some v, s')"
      using Some wait by (simp add: wait_result_def)
    ultimately show ?thesis using s'(2) s0(1) unfolding Let_def by blast
  qed
qed

theorem event_wait_returns_witness:
  "\<exists>r v s'. os_event_group_wait_bits cs_back (Some 4) 5 EVENT_WAIT_ALL 10 demo_sync = Some (r, v, s') \<and>
     (r = OS_OK \<or> r = OS_ERROR_TIMEOUT)"
  using event_wait_returns [OF demo_sync_on_cpu cs_back_resumes, of 10 5 4 EVENT_WAIT_ALL] by auto

section \<open>Message queues\<close>

text \<open>C6. Refinement of the ring buffer: any sequence of put and get operations on a well-formed
  queue returns exactly what the same sequence returns on a list of bounded length, first
  in first out, a put on a full queue being refused and a get on an empty one giving
  nothing, and leaves exactly the items of that list.\<close>

theorem message_queue_fifo:
  assumes "q_ok q i s" and "\<And>v. Put v \<in> set ops \<Longrightarrow> length v = q_size q s"
  shows "let (rs, s') = queue_run (\<lambda>s. \<not> q_count (sy_queue s q) < q_max_items (sy_queue s q))
             (\<lambda>s. \<not> 0 < q_count (sy_queue s q)) (q_write q i) (q_read q i) ops s;
           (rs', xs') = list_run (q_cap q s) ops (q_items q s)
         in rs = rs' \<and> q_items q s' = xs'"
  using ring.run_refines [OF assms] by (simp add: case_prod_beta Let_def)

theorem message_queue_fifo_witness:
  "fst (queue_run (\<lambda>s. \<not> q_count (sy_queue s 7) < q_max_items (sy_queue s 7))
      (\<lambda>s. \<not> 0 < q_count (sy_queue s 7)) (q_write 7 50) (q_read 7 50)
      [Put [1, 2], Put [3, 4], Get, Get, Get] demo_sync) = [None, None, Some [1, 2], Some [3, 4], None]"
proof -
  let ?ops = "[Put [1, 2], Put [3, 4], Get, Get, Get] :: u8 list qop list"
  have "length v = q_size 7 demo_sync" if "Put v \<in> set ?ops" for v
    using that by (auto simp: q_size_def)
  with message_queue_fifo [OF demo_q_ok, of ?ops] show ?thesis
    by (simp add: case_prod_beta Let_def q_cap_def q_items_def)
qed

text \<open>C16. Sending and receiving on an uncontended queue, locking, unlocking and the yields
  included: \<^verbatim>\<open>os_queue_send\<close> on a queue with room returns \<^verbatim>\<open>OS_OK\<close> with the item appended,
  \<^verbatim>\<open>os_queue_receive\<close> on a queue with items returns \<^verbatim>\<open>OS_OK\<close> with the oldest item removed and
  copied to the caller, and both leave the queue unlocked; \<open>R\<close> is the memory of the queue and
  of the item buffer, which the other tasks leave alone.\<close>

theorem queue_send_receive:
  assumes "on_cpu c s" and "resumes cs" and "q_ok q i s" and "leaves_queue q (q_region q i s) cs"
    and "\<not> m_locked (q_lock (sy_queue s q))"
  shows "(length (q_items q s) < q_cap q s \<longrightarrow>
      (\<exists>s'. os_queue_send cs (Some q) (Some i) timeout s = Some (OS_OK, s') \<and> on_cpu c s' \<and>
         q_ok q i s' \<and> q_items q s' = q_items q s @ [mem_bytes (sy_mem s) i (q_size q s)] \<and>
         \<not> m_locked (q_lock (sy_queue s' q)))) \<and>
     (q_items q s \<noteq> [] \<longrightarrow>
      (\<exists>s'. os_queue_receive cs (Some q) (Some i) timeout s = Some (OS_OK, s') \<and> on_cpu c s' \<and>
         q_ok q i s' \<and> q_items q s' = tl (q_items q s) \<and>
         mem_bytes (sy_mem s') i (q_size q s) = hd (q_items q s) \<and>
         \<not> m_locked (q_lock (sy_queue s' q))))"
proof (intro conjI impI)
  assume "length (q_items q s) < q_cap q s"
  then have room: "q_count (sy_queue s q) < q_max_items (sy_queue s q)"
    by (simp add: q_items_def q_cap_def word_less_nat_alt)
  show "\<exists>s'. os_queue_send cs (Some q) (Some i) timeout s = Some (OS_OK, s') \<and> on_cpu c s' \<and>
     q_ok q i s' \<and> q_items q s' = q_items q s @ [mem_bytes (sy_mem s) i (q_size q s)] \<and>
     \<not> m_locked (q_lock (sy_queue s' q))"
    using queue_send_law [OF assms room] by (simp add: os_queue_send_def)
next
  assume "q_items q s \<noteq> []"
  then have some: "0 < q_count (sy_queue s q)"
    by (simp add: q_items_def word_less_nat_alt)
  show "\<exists>s'. os_queue_receive cs (Some q) (Some i) timeout s = Some (OS_OK, s') \<and> on_cpu c s' \<and>
     q_ok q i s' \<and> q_items q s' = tl (q_items q s) \<and>
     mem_bytes (sy_mem s') i (q_size q s) = hd (q_items q s) \<and> \<not> m_locked (q_lock (sy_queue s' q))"
    using queue_receive_law [OF assms some] by (simp add: os_queue_receive_def)
qed

theorem queue_send_receive_witness:
  "\<exists>s'. os_queue_send cs_back (Some 7) (Some 50) 0 demo_sync = Some (OS_OK, s') \<and> q_items 7 s' = [[50, 51]]"
proof -
  have "q_items 7 demo_sync = []" "q_cap 7 demo_sync = 4" "q_size 7 demo_sync = 2"
    by (simp_all add: q_items_def q_cap_def q_size_def)
  moreover have "mem_bytes (sy_mem demo_sync) 50 2 = [50, 51]"
    by (simp add: mem_bytes_def upt_rec)
  ultimately show ?thesis
    using queue_send_receive [OF demo_sync_on_cpu cs_back_resumes demo_q_ok cs_back_leaves(2), of 0]
    by (auto simp: free_mutex_def)
qed

section \<open>Condition variables\<close>

lemma cond_wake_rel:
  assumes rel: "sched_rel s Q" and Qp: "Q p = us @ a # vs"
  shows "sched_rel (cond_wake cv a s) (Q(p := us @ [a]))"
proof -
  have a: "a \<in> set (Q p)" by (simp add: Qp)
  have nx: "nexts (cond_wake cv a s) = (nexts s)(a := None)"
    by (auto simp: cond_wake_def upd_cond_def Let_def nexts_def)
  have fields: "k_ready_queue (cond_wake cv a s) = k_ready_queue s"
      "k_ready_bitmap (cond_wake cv a s) = k_ready_bitmap s"
      "t_priority (k_heap (cond_wake cv a s) x) = t_priority (k_heap s x)"
      "t_state (k_heap (cond_wake cv a s) x) = t_state (k_heap s x)" for x
    by (simp_all add: cond_wake_def upd_cond_def Let_def)
  have "chain ((nexts s)(a := None)) (k_ready_queue s p) (us @ [a])"
    using chain_truncate sched_relD(1) [OF rel, of p] Qp by simp
  moreover have "chain ((nexts s)(a := None)) (k_ready_queue s q) (Q q)" if "q \<noteq> p" for q
  proof -
    have "a \<notin> set (Q q)" using sched_rel_disjoint [OF rel a, of q] that by auto
    then show ?thesis using sched_relD(1) [OF rel, of q] by simp
  qed
  moreover have "t_priority (k_heap s x) = p \<and> t_state (k_heap s x) = TASK_STATE_READY" if "x \<in> set (us @ [a])" for x
    using sched_relD(2,3) [OF rel, of x p] that Qp by auto
  ultimately show ?thesis
    unfolding sched_rel_def nx fields using sched_relD(2,3,4) [OF rel] Qp by simp
qed

text \<open>Signalling a condition variable destroys a ready queue: waiting tasks stay in the ready
  queues (they poll), and the wait queue is chained through the same \<^verbatim>\<open>next\<close> field. When the
  signalled task \<open>a\<close> is in the ready queue \<open>us @ a # vs\<close>, clearing its \<^verbatim>\<open>next\<close> cuts the queue
  behind it: every task of \<open>vs\<close> is READY but in no queue when the signaller yields.\<close>

theorem cond_signal_truncates:
  assumes "sched_rel s Q" and "Q p = us @ a # vs" and "c_wait_queue (sy_cond s cv) = Some a"
  shows "\<exists>s1. os_cond_signal cs (Some cv) s = map_option (Pair OS_OK) (os_task_yield cs s1) \<and>
     sched_rel s1 (Q(p := us @ [a])) \<and>
     (\<forall>x \<in> set vs. t_state (k_heap s1 x) = TASK_STATE_READY \<and> (\<forall>q. x \<notin> set ((Q(p := us @ [a])) q)))"
proof -
  let ?s0 = "s\<lparr>k_primask := 1\<rparr>"
  define s1 where "s1 = (cond_wake cv a ?s0)\<lparr>k_primask := k_primask s\<rparr>"
  have "os_cond_signal cs (Some cv) s = map_option (Pair OS_OK) (os_task_yield cs s1)"
    using assms(3) by (cases "os_task_yield cs s1") (simp_all add: os_cond_signal_def critical_defs s1_def)
  moreover have "sched_rel s1 (Q(p := us @ [a]))"
    using cond_wake_rel [of ?s0 Q p us a vs cv] assms(1,2) by (simp add: s1_def)
  moreover have "t_state (k_heap s1 x) = TASK_STATE_READY" if "x \<in> set vs" for x
  proof -
    have "x \<in> set (Q p)" using that assms(2) by simp
    from sched_relD(3) [OF assms(1) this] show ?thesis
      by (auto simp: s1_def cond_wake_def upd_cond_def Let_def)
  qed
  moreover have "x \<notin> set ((Q(p := us @ [a])) q)" if "x \<in> set vs" for x q
    using that assms(2) chain_distinct [OF sched_relD(1) [OF assms(1)], of p]
      sched_rel_disjoint [OF assms(1), of x p q] by auto
  ultimately show ?thesis by blast
qed

definition demo_waiting :: sync where
  "demo_waiting = (upd_cond 1 (\<lambda>_. \<lparr>c_wait_queue = Some 2, c_waiting_count = 1\<rparr>) demo_sync)
     \<lparr>k_heap := (k_heap demo_sync)(2 := demo_task PRIORITY_NORMAL TASK_STATE_READY (Some 4),
        4 := demo_task PRIORITY_NORMAL TASK_STATE_READY None)\<rparr>"

lemma demo_waiting_rel: "sched_rel demo_waiting (demo_queues(PRIORITY_NORMAL := [2, 4]))"
proof -
  have h: "k_heap demo_waiting = demo_heap(2 := demo_task 128 TASK_STATE_READY (Some 4),
      4 := demo_task 128 TASK_STATE_READY None)"
    and rq: "k_ready_queue demo_waiting = k_ready_queue demo_two"
    and bm: "k_ready_bitmap demo_waiting = k_ready_bitmap demo_two"
    by (simp_all add: demo_waiting_def upd_cond_def PRIORITY_NORMAL_def) (simp add: demo_two_def demo_kernel_def)
  show ?thesis
    unfolding sched_rel_def nexts_def [abs_def] h rq bm
    by (auto simp: demo_defs bit_bitmap_mark)
qed

theorem cond_signal_truncates_witness:
  "\<exists>s1. os_cond_signal cs_now (Some 1) demo_waiting = map_option (Pair OS_OK) (os_task_yield cs_now s1) \<and>
     t_state (k_heap s1 4) = TASK_STATE_READY \<and> \<not> queued s1 4"
proof -
  have "c_wait_queue (sy_cond demo_waiting 1) = Some 2" by (simp add: demo_waiting_def upd_cond_def)
  moreover have "(demo_queues(PRIORITY_NORMAL := [2, 4])) PRIORITY_NORMAL = [] @ 2 # [4]" by simp
  ultimately obtain s1 where s1:
      "os_cond_signal cs_now (Some 1) demo_waiting = map_option (Pair OS_OK) (os_task_yield cs_now s1)"
      "sched_rel s1 ((demo_queues(PRIORITY_NORMAL := [2, 4]))(PRIORITY_NORMAL := [] @ [2]))"
      "\<forall>x \<in> set [4]. t_state (k_heap s1 x) = TASK_STATE_READY \<and>
         (\<forall>q. x \<notin> set (((demo_queues(PRIORITY_NORMAL := [2, 4]))(PRIORITY_NORMAL := [] @ [2])) q))"
    using cond_signal_truncates [OF demo_waiting_rel] by blast
  then have "\<not> queued s1 4" by (intro not_queuedI [OF s1(2)]) simp
  then show ?thesis using s1(1,3) by auto
qed

end
