(* ===== verification/Timer.thy ===== *)
theory Timer
  imports Tasks
begin

text \<open>
  The software timers of \<^verbatim>\<open>src/timer.c\<close>. The state extends the kernel state by the timer
  manager and the heap of timer structures; the list of active timers is a chain through
  \<open>tm_next\<close>. A callback is code of the application: \<open>cb f p s\<close> is the state after the call of
  the function at address \<open>f\<close> with the argument \<open>p\<close>.
\<close>

section \<open>Data\<close>

datatype timer_type = TIMER_ONE_SHOT | TIMER_AUTO_RELOAD

record timer =
  tm_name :: string
  tm_type :: timer_type
  tm_period :: u32
  tm_expire_time :: u32
  tm_active :: bool
  tm_callback :: u32
  tm_callback_param :: u32
  tm_next :: ptr

record timers = kernel +
  tk_active_timers :: ptr
  tk_timer_count :: u32
  tk_heap :: "addr \<Rightarrow> timer"

type_synonym 'a callback = "u32 \<Rightarrow> u32 \<Rightarrow> 'a timers_scheme \<Rightarrow> 'a timers_scheme"

definition upd_timer :: "addr \<Rightarrow> (timer \<Rightarrow> timer) \<Rightarrow> 'a timers_scheme \<Rightarrow> 'a timers_scheme" where
  "upd_timer a f s = s\<lparr>tk_heap := (tk_heap s)(a := f (tk_heap s a))\<rparr>"

definition tm_nexts :: "'a timers_scheme \<Rightarrow> addr \<Rightarrow> ptr" where
  "tm_nexts s a = tm_next (tk_heap s a)"

text \<open>\<^verbatim>\<open>memset(timer, 0, sizeof(timer_t))\<close>.\<close>

definition zero_timer :: timer where
  "zero_timer = \<lparr>tm_name = [], tm_type = TIMER_ONE_SHOT, tm_period = 0, tm_expire_time = 0,
     tm_active = False, tm_callback = 0, tm_callback_param = 0, tm_next = None\<rparr>"

section \<open>Operations\<close>

definition os_timer_init :: "'a timers_scheme \<Rightarrow> 'a timers_scheme" where
  "os_timer_init s = s\<lparr>tk_active_timers := None, tk_timer_count := 0\<rparr>"

definition os_timer_create ::
    "ptr \<Rightarrow> string option \<Rightarrow> timer_type \<Rightarrow> u32 \<Rightarrow> u32 \<Rightarrow> u32 \<Rightarrow> 'a timers_scheme \<Rightarrow> os_error \<times> 'a timers_scheme" where
  "os_timer_create timer name type period_ms callback callback_param s =
    (case timer of
       None \<Rightarrow> (OS_ERROR_INVALID_PARAM, s)
     | Some a \<Rightarrow>
        if callback = 0 \<or> period_ms = 0 then (OS_ERROR_INVALID_PARAM, s)
        else
          (let (st, s) = os_enter_critical s;
               s = upd_timer a (\<lambda>_. zero_timer\<lparr>tm_name := take 15 (case name of None \<Rightarrow> [] | Some n \<Rightarrow> n),
                     tm_type := type, tm_period := period_ms, tm_callback := callback,
                     tm_callback_param := callback_param, tm_active := False, tm_next := None\<rparr>) s
           in (OS_OK, os_exit_critical st s)))"

text \<open>
  \<^verbatim>\<open>while (current->next != NULL && current->next->expire_time <= timer->expire_time)\<close>
\<close>

partial_function (option) insert_after :: "(addr \<Rightarrow> ptr) \<Rightarrow> (addr \<Rightarrow> u32) \<Rightarrow> u32 \<Rightarrow> addr \<Rightarrow> addr option" where
  "insert_after nx ex e current =
    (if nx current \<noteq> None \<and> ex (the (nx current)) \<le> e
     then insert_after nx ex e (the (nx current))
     else Some current)"

definition timer_insert_sorted :: "addr \<Rightarrow> 'a timers_scheme \<Rightarrow> 'a timers_scheme option" where
  "timer_insert_sorted a s = do {
     let e = tm_expire_time (tk_heap s a);
     s \<leftarrow> (case tk_active_timers s of
             None \<Rightarrow> Some ((upd_timer a (\<lambda>t. t\<lparr>tm_next := tk_active_timers s\<rparr>) s)\<lparr>tk_active_timers := Some a\<rparr>)
           | Some h \<Rightarrow>
              if e < tm_expire_time (tk_heap s h)
              then Some ((upd_timer a (\<lambda>t. t\<lparr>tm_next := tk_active_timers s\<rparr>) s)\<lparr>tk_active_timers := Some a\<rparr>)
              else do {
                current \<leftarrow> insert_after (tm_nexts s) (\<lambda>b. tm_expire_time (tk_heap s b)) e h;
                let s = upd_timer a (\<lambda>t. t\<lparr>tm_next := tm_next (tk_heap s current)\<rparr>) s;
                Some (upd_timer current (\<lambda>t. t\<lparr>tm_next := Some a\<rparr>) s) });
     Some (s\<lparr>tk_timer_count := tk_timer_count s + 1\<rparr>) }"

text \<open>\<^verbatim>\<open>while (current != NULL && current->next != timer) current = current->next;\<close>\<close>

partial_function (option) timer_prev :: "(addr \<Rightarrow> ptr) \<Rightarrow> addr \<Rightarrow> ptr \<Rightarrow> ptr option" where
  "timer_prev nx a current =
    (if current = None then Some None
     else if nx (the current) = Some a then Some current
     else timer_prev nx a (nx (the current)))"

definition os_timer_stop :: "ptr \<Rightarrow> 'a timers_scheme \<Rightarrow> (os_error \<times> 'a timers_scheme) option" where
  "os_timer_stop timer s =
    (case timer of
       None \<Rightarrow> Some (OS_ERROR_INVALID_PARAM, s)
     | Some a \<Rightarrow> do {
         let (st, s) = os_enter_critical s;
         (if \<not> tm_active (tk_heap s a) then Some (OS_OK, os_exit_critical st s)
          else do {
            s \<leftarrow> (if tk_active_timers s = Some a
                  then Some (s\<lparr>tk_active_timers := tm_next (tk_heap s a)\<rparr>)
                  else do {
                    current \<leftarrow> timer_prev (tm_nexts s) a (tk_active_timers s);
                    Some (case current of
                            None \<Rightarrow> s
                          | Some p \<Rightarrow> upd_timer p (\<lambda>t. t\<lparr>tm_next := tm_next (tk_heap s a)\<rparr>) s) });
            let s = upd_timer a (\<lambda>t. t\<lparr>tm_active := False, tm_next := None\<rparr>) s;
            let s = s\<lparr>tk_timer_count := tk_timer_count s - 1\<rparr>;
            Some (OS_OK, os_exit_critical st s) }) })"

definition os_timer_start :: "ptr \<Rightarrow> 'a timers_scheme \<Rightarrow> (os_error \<times> 'a timers_scheme) option" where
  "os_timer_start timer s =
    (case timer of
       None \<Rightarrow> Some (OS_ERROR_INVALID_PARAM, s)
     | Some a \<Rightarrow> do {
         let (st, s) = os_enter_critical s;
         s \<leftarrow> (if tm_active (tk_heap s a) then map_option snd (os_timer_stop timer s) else Some s);
         let s = upd_timer a (\<lambda>t. t\<lparr>tm_expire_time := os_get_tick_count s + tm_period t, tm_active := True\<rparr>) s;
         s \<leftarrow> timer_insert_sorted a s;
         Some (OS_OK, os_exit_critical st s) })"

definition os_timer_reset :: "ptr \<Rightarrow> 'a timers_scheme \<Rightarrow> (os_error \<times> 'a timers_scheme) option" where
  "os_timer_reset timer s =
    (if timer = None then Some (OS_ERROR_INVALID_PARAM, s)
     else do {
       (_, s) \<leftarrow> os_timer_stop timer s;
       os_timer_start timer s })"

definition os_timer_delete :: "ptr \<Rightarrow> 'a timers_scheme \<Rightarrow> (os_error \<times> 'a timers_scheme) option" where
  "os_timer_delete timer s =
    (case timer of
       None \<Rightarrow> Some (OS_ERROR_INVALID_PARAM, s)
     | Some a \<Rightarrow> do {
         s \<leftarrow> (if tm_active (tk_heap s a) then map_option snd (os_timer_stop timer s) else Some s);
         Some (OS_OK, upd_timer a (\<lambda>_. zero_timer) s) })"

definition os_timer_change_period ::
    "ptr \<Rightarrow> u32 \<Rightarrow> 'a timers_scheme \<Rightarrow> (os_error \<times> 'a timers_scheme) option" where
  "os_timer_change_period timer new_period_ms s =
    (case timer of
       None \<Rightarrow> Some (OS_ERROR_INVALID_PARAM, s)
     | Some a \<Rightarrow>
        if new_period_ms = 0 then Some (OS_ERROR_INVALID_PARAM, s)
        else do {
          let was_active = tm_active (tk_heap s a);
          s \<leftarrow> (if was_active then map_option snd (os_timer_stop timer s) else Some s);
          let s = upd_timer a (\<lambda>t. t\<lparr>tm_period := new_period_ms\<rparr>) s;
          s \<leftarrow> (if was_active then map_option snd (os_timer_start timer s) else Some s);
          Some (OS_OK, s) })"

definition os_timer_is_active :: "ptr \<Rightarrow> 'a timers_scheme \<Rightarrow> bool" where
  "os_timer_is_active timer s = (case timer of None \<Rightarrow> False | Some a \<Rightarrow> tm_active (tk_heap s a))"

text \<open>
  An expired timer is taken out of the list and, outside the critical section, its callback
  is called; \<open>st\<close> and \<open>prev\<close> are local variables of \<^verbatim>\<open>os_timer_process\<close>.
\<close>

definition timer_fire :: "'a callback \<Rightarrow> u32 \<Rightarrow> ptr \<Rightarrow> addr \<Rightarrow> 'a timers_scheme \<Rightarrow> 'a timers_scheme" where
  "timer_fire cb st prev a s =
    (let timer = tm_next (tk_heap s a);
         s = (case prev of
                None \<Rightarrow> s\<lparr>tk_active_timers := timer\<rparr>
              | Some p \<Rightarrow> upd_timer p (\<lambda>t. t\<lparr>tm_next := timer\<rparr>) s);
         s = upd_timer a (\<lambda>t. t\<lparr>tm_active := False\<rparr>) s;
         s = os_exit_critical st (s\<lparr>tk_timer_count := tk_timer_count s - 1\<rparr>)
     in if tm_callback (tk_heap s a) \<noteq> 0
        then cb (tm_callback (tk_heap s a)) (tm_callback_param (tk_heap s a)) s else s)"

partial_function (option) timer_process_loop ::
    "'a callback \<Rightarrow> u32 \<Rightarrow> u32 \<Rightarrow> ptr \<Rightarrow> ptr \<Rightarrow> 'a timers_scheme \<Rightarrow> (u32 \<times> 'a timers_scheme) option" where
  "timer_process_loop cb now st prev timer s =
    (if timer = None then Some (st, s)
     else if sint (now - tm_expire_time (tk_heap s (the timer))) \<ge> 0
     then do {
       let expired_timer = the timer;
       let timer = tm_next (tk_heap s expired_timer);
       let (st, s) = os_enter_critical (timer_fire cb st prev expired_timer s);
       (if tm_type (tk_heap s expired_timer) = TIMER_AUTO_RELOAD
        then do {
          let s = upd_timer expired_timer
                    (\<lambda>t. t\<lparr>tm_expire_time := now + tm_period t, tm_active := True\<rparr>) s;
          s \<leftarrow> timer_insert_sorted expired_timer s;
          timer_process_loop cb now st None (tk_active_timers s) s }
        else timer_process_loop cb now st prev timer s) }
     else Some (st, s))"

definition os_timer_process :: "'a callback \<Rightarrow> 'a timers_scheme \<Rightarrow> 'a timers_scheme option" where
  "os_timer_process cb s = do {
     let now = os_get_tick_count s;
     let (st, s) = os_enter_critical s;
     (st, s) \<leftarrow> timer_process_loop cb now st None (tk_active_timers s) s;
     Some (os_exit_critical st s) }"

definition os_timer_get_remaining_ms :: "ptr \<Rightarrow> 'a timers_scheme \<Rightarrow> u32" where
  "os_timer_get_remaining_ms timer s =
    (case timer of
       None \<Rightarrow> 0
     | Some a \<Rightarrow>
        if \<not> tm_active (tk_heap s a) then 0
        else (let remaining = tm_expire_time (tk_heap s a) - os_get_tick_count s
              in if sint remaining > 0 then remaining else 0))"

definition os_timer_get_count :: "'a timers_scheme \<Rightarrow> u32" where
  "os_timer_get_count s = tk_timer_count s"

end
