(* ===== verification/Timer_Lemmas.thy ===== *)
theory Timer_Lemmas
  imports Timer
begin

text \<open>
  The active timers form a list sorted by expiry; the operations of \<^verbatim>\<open>src/timer.c\<close> insert
  into and delete from it, and the tick handler fires exactly the expired prefix.
\<close>

section \<open>The list of active timers\<close>

definition expires :: "'a timers_scheme \<Rightarrow> addr \<Rightarrow> u32" where
  "expires s a = tm_expire_time (tk_heap s a)"

definition timer_rel :: "'a timers_scheme \<Rightarrow> addr list \<Rightarrow> bool" where
  "timer_rel s ts \<longleftrightarrow> chain (tm_nexts s) (tk_active_timers s) ts \<and> sorted (map (expires s) ts) \<and>
     (\<forall>a. tm_active (tk_heap s a) \<longleftrightarrow> a \<in> set ts) \<and> tk_timer_count s = of_nat (length ts)"

text \<open>Where a timer is inserted: behind all timers that expire no later.\<close>

fun ins_timer :: "(addr \<Rightarrow> u32) \<Rightarrow> addr \<Rightarrow> addr list \<Rightarrow> addr list" where
  "ins_timer ex a [] = [a]"
| "ins_timer ex a (b # ts) = (if ex b \<le> ex a then b # ins_timer ex a ts else a # b # ts)"

lemma set_ins_timer [simp]: "set (ins_timer ex a ts) = insert a (set ts)"
  by (induction ts) auto

lemma length_ins_timer [simp]: "length (ins_timer ex a ts) = Suc (length ts)"
  by (induction ts) auto

lemma sorted_ins_timer: "sorted (map ex ts) \<Longrightarrow> sorted (map ex (ins_timer ex a ts))"
  by (induction ts) auto

lemma ins_timer_cong: "(\<And>b. b \<in> insert a (set ts) \<Longrightarrow> ex b = ey b) \<Longrightarrow> ins_timer ex a ts = ins_timer ey a ts"
  by (induction ts) auto

lemma remove1_ins_timer: "a \<notin> set ts \<Longrightarrow> remove1 a (ins_timer ex a ts) = ts"
  by (induction ts) auto

lemma ins_timer_split:
  "ins_timer ex a ts = takeWhile (\<lambda>b. ex b \<le> ex a) ts @ a # dropWhile (\<lambda>b. ex b \<le> ex a) ts"
  by (induction ts) auto

text \<open>The two search loops on a chain.\<close>

lemma insert_after_chain:
  "chain nx (Some h) ts \<Longrightarrow> ex h \<le> e \<Longrightarrow> insert_after nx ex e h = Some (last (takeWhile (\<lambda>b. ex b \<le> e) ts))"
proof (induction ts arbitrary: h)
  case (Cons b bs)
  then have b: "b = h" "chain nx (nx h) bs" by simp_all
  show ?case
  proof (cases bs)
    case Nil
    then have "nx h = None" using b by simp
    then show ?thesis using Nil b Cons.prems(2) by (simp add: insert_after.simps)
  next
    case (Cons c cs)
    then have c: "nx h = Some c" using b by simp
    show ?thesis
    proof (cases "ex c \<le> e")
      case True
      then have "insert_after nx ex e h = insert_after nx ex e c" using c by (subst insert_after.simps) simp
      moreover have "insert_after nx ex e c = Some (last (takeWhile (\<lambda>b. ex b \<le> e) bs))"
        using Cons.IH [of c] b(2) c True by simp
      ultimately show ?thesis using b(1) Cons.prems(2) True Cons by simp
    next
      case False
      then show ?thesis using c b(1) Cons.prems(2) Cons by (simp add: insert_after.simps)
    qed
  qed
qed simp

lemma timer_prev_chain:
  "chain nx p (us @ a # vs) \<Longrightarrow> us \<noteq> [] \<Longrightarrow> timer_prev nx a p = Some (Some (last us))"
proof (induction us arbitrary: p)
  case (Cons b us)
  then have p: "p = Some b" "chain nx (nx b) (us @ a # vs)" by simp_all
  show ?case
  proof (cases us)
    case Nil
    then show ?thesis using p by (simp add: timer_prev.simps)
  next
    case (Cons c cs)
    have "distinct (us @ a # vs)" using p(2) by (rule chain_distinct)
    then have "nx b \<noteq> Some a" using p(2) Cons by auto
    then have "timer_prev nx a p = timer_prev nx a (nx b)" using p(1) by (subst timer_prev.simps) simp
    then show ?thesis using Cons.IH [OF p(2)] Cons by simp
  qed
qed simp

section \<open>The operations on the list\<close>

lemma upd_timer_fields [simp]:
  "tk_heap (upd_timer a f s) = (tk_heap s)(a := f (tk_heap s a))"
  "tk_active_timers (upd_timer a f s) = tk_active_timers s" "tk_timer_count (upd_timer a f s) = tk_timer_count s"
  "k_tick_count (upd_timer a f s) = k_tick_count s" "k_primask (upd_timer a f s) = k_primask s"
  "timers.more (upd_timer a f s) = timers.more s"
  by (simp_all add: upd_timer_def)

text \<open>
  The insertion, for a timer that is marked active but not yet in the list. \<open>tlinked\<close> is the
  part of the invariant about the links alone.
\<close>

definition tlinked :: "'a timers_scheme \<Rightarrow> addr list \<Rightarrow> bool" where
  "tlinked s ts \<longleftrightarrow> chain (tm_nexts s) (tk_active_timers s) ts \<and> sorted (map (expires s) ts) \<and>
     tk_timer_count s = of_nat (length ts)"

lemma timer_rel_iff: "timer_rel s ts \<longleftrightarrow> tlinked s ts \<and> (\<forall>a. tm_active (tk_heap s a) \<longleftrightarrow> a \<in> set ts)"
  by (auto simp: timer_rel_def tlinked_def)

text \<open>What the list operations keep of a timer, and of the rest of the state.\<close>

definition tcore :: "timer \<Rightarrow> timer" where
  "tcore t = t\<lparr>tm_next := None\<rparr>"

lemma tcore_eqD:
  assumes "tcore t = tcore u"
  shows "tm_expire_time t = tm_expire_time u" "tm_active t = tm_active u" "tm_type t = tm_type u"
    "tm_period t = tm_period u" "tm_callback t = tm_callback u" "tm_callback_param t = tm_callback_param u"
  using assms by (cases t; cases u; simp add: tcore_def)+

definition tframe :: "'a timers_scheme \<Rightarrow> 'a timers_scheme \<Rightarrow> bool" where
  "tframe s s' \<longleftrightarrow> k_tick_count s' = k_tick_count s \<and> k_primask s' = k_primask s \<and> timers.more s' = timers.more s"

lemma timer_insert_sorted_rel:
  assumes rel: "tlinked s ts" and fresh: "a \<notin> set ts"
  shows "\<exists>s'. timer_insert_sorted a s = Some s' \<and> tlinked s' (ins_timer (expires s) a ts) \<and>
     (\<forall>b. tcore (tk_heap s' b) = tcore (tk_heap s b)) \<and> tframe s s'"
proof -
  let ?e = "expires s a" and ?P = "\<lambda>b. expires s b \<le> expires s a"
  let ?us = "takeWhile ?P ts" and ?vs = "dropWhile ?P ts"
  have ch: "chain (tm_nexts s) (tk_active_timers s) ts" and so: "sorted (map (expires s) ts)"
    and ct: "tk_timer_count s = of_nat (length ts)" using rel by (simp_all add: tlinked_def)
  have fin: "tlinked s' (ins_timer (expires s) a ts)"
    if "chain (tm_nexts s') (tk_active_timers s') (ins_timer (expires s) a ts)"
      "tk_timer_count s' = tk_timer_count s + 1" "\<And>b. tcore (tk_heap s' b) = tcore (tk_heap s b)"
      for s' :: "'a timers_scheme"
  proof -
    have "expires s' = expires s" using tcore_eqD(1) [OF that(3)] by (auto simp: expires_def)
    then show ?thesis using that sorted_ins_timer [OF so] ct by (simp add: tlinked_def)
  qed
  show ?thesis
  proof (cases "?us = []")
    case True
    then have ins: "ins_timer (expires s) a ts = a # ts"
      by (cases ts) (auto split: if_splits)
    let ?s' = "((upd_timer a (\<lambda>t. t\<lparr>tm_next := tk_active_timers s\<rparr>) s)\<lparr>tk_active_timers := Some a\<rparr>)
        \<lparr>tk_timer_count := tk_timer_count s + 1\<rparr>"
    have op: "timer_insert_sorted a s = Some ?s'"
      using True ch by (cases ts) (auto simp: timer_insert_sorted_def Let_def expires_def split: if_splits)
    have "tm_nexts ?s' = (tm_nexts s)(a := tk_active_timers s)" by (auto simp: tm_nexts_def)
    then have "chain (tm_nexts ?s') (tk_active_timers ?s') (ins_timer (expires s) a ts)"
      using ch fresh by (simp add: ins)
    from fin [OF this] op show ?thesis by (auto simp: tcore_def tframe_def)
  next
    case False
    then obtain h where h: "tk_active_timers s = Some h" "expires s h \<le> ?e"
      using ch by (cases ts) (auto split: if_splits)
    let ?z = "last ?us"
    have z: "insert_after (tm_nexts s) (\<lambda>b. tm_expire_time (tk_heap s b)) ?e h = Some ?z"
      using insert_after_chain [of "tm_nexts s" h ts "expires s" ?e] ch h by (simp add: expires_def [abs_def])
    let ?s1 = "upd_timer a (\<lambda>t. t\<lparr>tm_next := tm_next (tk_heap s ?z)\<rparr>) s"
    let ?s' = "(upd_timer ?z (\<lambda>t. t\<lparr>tm_next := Some a\<rparr>) ?s1)\<lparr>tk_timer_count := tk_timer_count s + 1\<rparr>"
    have op: "timer_insert_sorted a s = Some ?s'"
      using h z by (simp add: timer_insert_sorted_def Let_def expires_def)
    have "?z \<in> set ?us" using False by (rule last_in_set)
    then have za: "?z \<noteq> a" using fresh by (auto dest: set_takeWhileD)
    have "tm_nexts ?s' = (tm_nexts s)(a := tm_nexts s ?z, ?z := Some a)" using za by (auto simp: tm_nexts_def)
    moreover have "chain ((tm_nexts s)(a := tm_nexts s ?z, ?z := Some a)) (tk_active_timers s) (?us @ a # ?vs)"
      by (rule chain_link_after) (use ch False fresh in simp_all)
    ultimately have "chain (tm_nexts ?s') (tk_active_timers ?s') (ins_timer (expires s) a ts)"
      by (simp add: ins_timer_split)
    from fin [OF this] op za show ?thesis by (auto simp: tcore_def tframe_def)
  qed
qed

lemma timer_rel_primask [simp]: "timer_rel (s\<lparr>k_primask := x\<rparr>) ts \<longleftrightarrow> timer_rel s ts"
  by (simp add: timer_rel_def tm_nexts_def [abs_def] expires_def [abs_def])

lemma expires_primask [simp]: "expires (s\<lparr>k_primask := x\<rparr>) = expires s"
  by (auto simp: expires_def)

lemma sorted_remove1_map: "sorted (map f xs) \<Longrightarrow> sorted (map f (remove1 a xs))"
  by (induction xs) (auto dest: notin_set_remove1)

lemma os_timer_stop_rel:
  assumes rel: "timer_rel s ts"
  shows "\<exists>s'. os_timer_stop (Some a) s = Some (OS_OK, s') \<and> timer_rel s' (remove1 a ts) \<and> tframe s s' \<and>
     (\<forall>b. tcore (tk_heap s' b) = (if b = a then tcore (tk_heap s a\<lparr>tm_active := False\<rparr>) else tcore (tk_heap s b)))"
proof (cases "a \<in> set ts")
  case False
  then have "\<not> tm_active (tk_heap s a)" using rel by (simp add: timer_rel_def)
  moreover from this have "tcore (tk_heap s a\<lparr>tm_active := False\<rparr>) = tcore (tk_heap s a)"
    by (cases "tk_heap s a") simp
  ultimately show ?thesis
    using rel False by (simp add: os_timer_stop_def critical_defs remove1_idem tframe_def)
next
  case True
  then obtain us vs where ts: "ts = us @ a # vs" "a \<notin> set us" by (metis split_list_first)
  have ch: "chain (tm_nexts s) (tk_active_timers s) (us @ a # vs)" and act: "tm_active (tk_heap s a)"
    using rel True by (simp_all add: timer_rel_def ts)
  note d = chain_distinct [OF ch]
  let ?s0 = "s\<lparr>k_primask := 1\<rparr>"
  define s1 where "s1 = (if us = [] then ?s0\<lparr>tk_active_timers := tm_next (tk_heap s a)\<rparr>
    else upd_timer (last us) (\<lambda>t. t\<lparr>tm_next := tm_next (tk_heap s a)\<rparr>) ?s0)"
  define s' where "s' = (upd_timer a (\<lambda>t. t\<lparr>tm_active := False, tm_next := None\<rparr>) s1)
    \<lparr>tk_timer_count := tk_timer_count s - 1, k_primask := k_primask s\<rparr>"
  have nx0: "tm_nexts ?s0 = tm_nexts s" by (auto simp: tm_nexts_def)
  have op: "os_timer_stop (Some a) s = Some (OS_OK, s')"
  proof (cases us)
    case Nil
    then show ?thesis using ch act by (simp add: os_timer_stop_def critical_defs s1_def s'_def)
  next
    case (Cons b bs)
    then have "tk_active_timers s = Some b" "b \<noteq> a" using ch ts(2) by auto
    then show ?thesis using timer_prev_chain [OF ch] act nx0 Cons
      by (simp add: os_timer_stop_def critical_defs s1_def s'_def)
  qed
  have la: "us \<noteq> [] \<Longrightarrow> last us \<noteq> a" using ts(2) last_in_set by metis
  have ch': "chain (tm_nexts s') (tk_active_timers s') (us @ vs)"
  proof (cases "us = []")
    case True
    have "tm_nexts s' = (tm_nexts s)(a := None)" using True by (auto simp: tm_nexts_def s'_def s1_def)
    then show ?thesis using True chain_unlink_head [of "tm_nexts s"] ch
      by (simp add: s'_def s1_def tm_nexts_def)
  next
    case False
    have "tm_nexts s' = (tm_nexts s)(last us := tm_nexts s a, a := None)"
      using False la by (auto simp: tm_nexts_def s'_def s1_def)
    then show ?thesis using chain_unlink [OF ch False] False by (simp add: s'_def s1_def)
  qed
  have core: "tcore (tk_heap s' b) = (if b = a then tcore (tk_heap s a\<lparr>tm_active := False\<rparr>) else tcore (tk_heap s b))" for b
    using la by (auto simp: s'_def s1_def tcore_def)
  have ex: "expires s' = expires s" using tcore_eqD(1) [OF core [unfolded if_distrib [of tcore, symmetric]]]
    by (auto simp: expires_def core tcore_def split: if_splits)
  have r1: "remove1 a ts = us @ vs" using ts by (simp add: remove1_append)
  have so: "sorted (map (expires s') (remove1 a ts))"
    using rel sorted_remove1_map [of "expires s" ts a] by (simp add: ex timer_rel_def)
  have "tm_active (tk_heap s' b) \<longleftrightarrow> b \<in> set (us @ vs)" for b
  proof -
    have "tm_active (tk_heap s' b) \<longleftrightarrow> b \<noteq> a \<and> tm_active (tk_heap s b)"
      using core [of b] by (auto dest!: tcore_eqD(2) split: if_splits)
    then show ?thesis using rel d ts by (auto simp: timer_rel_def)
  qed
  moreover have "tk_timer_count s' = of_nat (length (us @ vs))"
    using rel ts by (simp add: s'_def timer_rel_def)
  ultimately have "timer_rel s' (remove1 a ts)" using ch' so by (simp add: timer_rel_def r1)
  moreover have "tframe s s'" by (simp add: tframe_def s'_def s1_def)
  ultimately show ?thesis using op core by blast
qed

text \<open>Everything of a timer but its link, its expiry and whether it is active.\<close>

definition tconf :: "timer \<Rightarrow> timer" where
  "tconf t = t\<lparr>tm_next := None, tm_expire_time := 0, tm_active := False\<rparr>"

lemma tconf_eqD:
  assumes "tconf t = tconf u"
  shows "tm_type t = tm_type u" "tm_period t = tm_period u" "tm_callback t = tm_callback u"
    "tm_callback_param t = tm_callback_param u" "tm_name t = tm_name u"
  using assms by (cases t; cases u; simp add: tconf_def)+

lemma tconf_tcore: "tcore t = tcore u \<Longrightarrow> tconf t = tconf u"
  by (cases t; cases u; simp add: tconf_def tcore_def)

lemma tconf_upd [simp]:
  "tconf (t\<lparr>tm_active := x\<rparr>) = tconf t" "tconf (t\<lparr>tm_next := y\<rparr>) = tconf t"
  "tconf (t\<lparr>tm_expire_time := z\<rparr>) = tconf t" "tconf (t\<lparr>tm_expire_time := z, tm_active := x\<rparr>) = tconf t"
  by (simp_all add: tconf_def)

text \<open>Marking an inactive timer active with a new expiry and inserting it.\<close>

lemma timer_arm_rel:
  assumes rel: "timer_rel s ts" and fresh: "a \<notin> set ts"
  shows "\<exists>s'. timer_insert_sorted a (upd_timer a (\<lambda>t. t\<lparr>tm_expire_time := e t, tm_active := True\<rparr>) s) = Some s' \<and>
     timer_rel s' (ins_timer (expires s') a ts) \<and>
     expires s' = (expires s)(a := e (tk_heap s a)) \<and> tframe s s' \<and>
     (\<forall>b. tconf (tk_heap s' b) = tconf (tk_heap s b))"
proof -
  let ?s1 = "upd_timer a (\<lambda>t. t\<lparr>tm_expire_time := e t, tm_active := True\<rparr>) s"
  have ex1: "expires ?s1 = (expires s)(a := e (tk_heap s a))" by (auto simp: expires_def)
  have nx1: "tm_nexts ?s1 = tm_nexts s" by (auto simp: tm_nexts_def)
  have same: "map ((expires s)(a := e (tk_heap s a))) ts = map (expires s) ts" using fresh by auto
  have l1: "tlinked ?s1 ts"
    using rel unfolding tlinked_def ex1 nx1 same by (simp add: timer_rel_def)
  obtain s' where s': "timer_insert_sorted a ?s1 = Some s'" "tlinked s' (ins_timer (expires ?s1) a ts)"
      "\<And>b. tcore (tk_heap s' b) = tcore (tk_heap ?s1 b)" "tframe ?s1 s'"
    using timer_insert_sorted_rel [OF l1 fresh] by blast
  have ex': "expires s' = expires ?s1" using tcore_eqD(1) [OF s'(3)] by (auto simp: expires_def)
  have "tm_active (tk_heap s' b) \<longleftrightarrow> b \<in> insert a (set ts)" for b
    using tcore_eqD(2) [OF s'(3) [of b]] rel by (simp add: timer_rel_def)
  then have "timer_rel s' (ins_timer (expires s') a ts)" using s'(2) by (simp add: timer_rel_iff ex')
  moreover have "tconf (tk_heap s' b) = tconf (tk_heap s b)" for b
    using tconf_tcore [OF s'(3) [of b]] by (simp split: if_splits)
  moreover have "tframe s s'" using s'(4) by (simp add: tframe_def)
  ultimately show ?thesis using s'(1) ex1 ex' by auto
qed

lemma os_timer_start_rel:
  assumes rel: "timer_rel s ts"
  shows "\<exists>s'. os_timer_start (Some a) s = Some (OS_OK, s') \<and>
     timer_rel s' (ins_timer (expires s') a (remove1 a ts)) \<and>
     expires s' = (expires s)(a := k_tick_count s + tm_period (tk_heap s a)) \<and> tframe s s' \<and>
     (\<forall>b. tconf (tk_heap s' b) = tconf (tk_heap s b))"
proof -
  let ?s0 = "s\<lparr>k_primask := 1\<rparr>"
  have rel0: "timer_rel ?s0 ts" using rel by simp
  obtain s1 where s1: "os_timer_stop (Some a) ?s0 = Some (OS_OK, s1)" "timer_rel s1 (remove1 a ts)"
      "tframe ?s0 s1" "\<And>b. tcore (tk_heap s1 b) =
        (if b = a then tcore (tk_heap ?s0 a\<lparr>tm_active := False\<rparr>) else tcore (tk_heap ?s0 b))"
    using os_timer_stop_rel [OF rel0, of a] by blast
  define s2 where "s2 = (if tm_active (tk_heap s a) then s1 else ?s0)"
  have inact: "\<not> tm_active (tk_heap s a) \<Longrightarrow> remove1 a ts = ts"
    using rel by (simp add: timer_rel_def remove1_idem)
  have rel2: "timer_rel s2 (remove1 a ts)" using s1(2) rel0 inact by (simp add: s2_def)
  have fr2: "tframe ?s0 s2" using s1(3) by (simp add: s2_def tframe_def)
  have h: "tm_expire_time (tk_heap s1 b) = tm_expire_time (tk_heap s b)"
      "tconf (tk_heap s1 b) = tconf (tk_heap s b)" for b
    using tcore_eqD(1) [OF s1(4) [of b, unfolded if_distrib [of tcore, symmetric]]]
      tconf_tcore [OF s1(4) [of b, unfolded if_distrib [of tcore, symmetric]]] by (auto split: if_splits)
  have ex2: "expires s2 = expires s" using h(1) by (auto simp: expires_def s2_def)
  have cf2: "tconf (tk_heap s2 b) = tconf (tk_heap s b)" for b using h(2) by (simp add: s2_def)
  have fresh: "a \<notin> set (remove1 a ts)"
    using rel chain_distinct by (auto simp: timer_rel_def set_remove1_eq)
  let ?e = "\<lambda>t. k_tick_count s2 + tm_period t"
  obtain s3 where s3: "timer_insert_sorted a (upd_timer a (\<lambda>t. t\<lparr>tm_expire_time := ?e t, tm_active := True\<rparr>) s2) = Some s3"
      "timer_rel s3 (ins_timer (expires s3) a (remove1 a ts))" "expires s3 = (expires s2)(a := ?e (tk_heap s2 a))"
      "tframe s2 s3" "\<And>b. tconf (tk_heap s3 b) = tconf (tk_heap s2 b)"
    using timer_arm_rel [OF rel2 fresh, of ?e] by blast
  let ?s' = "s3\<lparr>k_primask := k_primask s\<rparr>"
  have op: "os_timer_start (Some a) s = Some (OS_OK, ?s')"
    using s1(1) s3(1) by (auto simp: os_timer_start_def critical_defs s2_def os_get_tick_count_def)
  have e: "?e (tk_heap s2 a) = k_tick_count s + tm_period (tk_heap s a)"
    using fr2 tconf_eqD(2) [OF cf2 [of a]] by (simp add: tframe_def)
  have "tframe s ?s'" using fr2 s3(4) by (simp add: tframe_def)
  moreover have "timer_rel ?s' (ins_timer (expires ?s') a (remove1 a ts))" using s3(2) by simp
  moreover have "expires ?s' = (expires s)(a := k_tick_count s + tm_period (tk_heap s a))"
    using s3(3) ex2 e by simp
  moreover have "\<forall>b. tconf (tk_heap ?s' b) = tconf (tk_heap s b)" using s3(5) cf2 by simp
  ultimately show ?thesis using op by blast
qed

section \<open>The tick handler\<close>

text \<open>
  Callbacks that leave the timers and the interrupt mask as they find them, whatever else they do to the
  kernel; and those whose effect on the rest of the state is \<open>g\<close>. The calls of a list of timers, in order.
\<close>

definition leaves_timers :: "'a callback \<Rightarrow> bool" where
  "leaves_timers cb \<longleftrightarrow> (\<forall>f p s. tk_heap (cb f p s) = tk_heap s \<and> tk_active_timers (cb f p s) = tk_active_timers s \<and>
     tk_timer_count (cb f p s) = tk_timer_count s \<and> k_primask (cb f p s) = k_primask s)"

definition calls_only :: "(u32 \<Rightarrow> u32 \<Rightarrow> 'a \<Rightarrow> 'a) \<Rightarrow> 'a callback \<Rightarrow> bool" where
  "calls_only g cb \<longleftrightarrow> leaves_timers cb \<and> (\<forall>f p s. timers.more (cb f p s) = g f p (timers.more s))"

definition run_calls :: "(u32 \<Rightarrow> u32 \<Rightarrow> 'a \<Rightarrow> 'a) \<Rightarrow> (addr \<Rightarrow> timer) \<Rightarrow> addr list \<Rightarrow> 'a \<Rightarrow> 'a" where
  "run_calls g h xs m = fold (\<lambda>a m. if tm_callback (h a) \<noteq> 0 then g (tm_callback (h a)) (tm_callback_param (h a)) m else m) xs m"

lemma leaves_timersD:
  assumes "leaves_timers cb"
  shows "tk_heap (cb f p s) = tk_heap s" "tk_active_timers (cb f p s) = tk_active_timers s"
    "tk_timer_count (cb f p s) = tk_timer_count s" "k_primask (cb f p s) = k_primask s"
  using assms by (simp_all add: leaves_timers_def)

lemma calls_only_leaves: "calls_only g cb \<Longrightarrow> leaves_timers cb"
  by (simp add: calls_only_def)

definition due :: "u32 \<Rightarrow> u32 \<Rightarrow> bool" where
  "due now e \<longleftrightarrow> sint (now - e) \<ge> 0"

lemma due_reload:
  assumes "0 < unat p" and "unat p \<le> 2 ^ 31"
  shows "\<not> due now (now + p)"
proof -
  have "now - (now + p) = 0 - p" by simp
  moreover have "unat (0 - p) = 4294967296 - unat p"
    using unat_diff_u32(2) [of 0 p] assms by simp
  moreover have "\<not> 4294967296 - unat p < 2147483648" using assms by simp
  ultimately have "sint (now - (now + p)) = int (4294967296 - unat p) - 4294967296"
    by (simp only: sint_u32 if_False)
  moreover have "int (4294967296 - unat p) < 4294967296" using assms by linarith
  ultimately show ?thesis by (simp add: due_def del: of_nat_diff)
qed

lemma due_reload_long:
  assumes "2 ^ 31 < unat p"
  shows "due now (now + p)"
proof -
  have "now - (now + p) = 0 - p" by simp
  moreover have "unat (0 - p) = 4294967296 - unat p"
    using unat_diff_u32(2) [of 0 p] assms by simp
  moreover have "4294967296 - unat p < 2147483648" using assms by simp
  ultimately have "sint (now - (now + p)) = int (4294967296 - unat p)"
    by (simp only: sint_u32 if_True)
  then show ?thesis by (simp add: due_def del: of_nat_diff)
qed

text \<open>Firing the head of the list: what the state is when its callback has returned.\<close>

lemma timer_fire_rel:
  fixes st :: u32
  assumes rel: "timer_rel s (a # ts)" and cb: "leaves_timers cb"
  defines "s2 \<equiv> timer_fire cb st None a s"
  shows "timer_rel s2 ts" and "expires s2 = expires s" and "k_primask s2 = st"
    and "tconf (tk_heap s2 b) = tconf (tk_heap s b)" and "tk_active_timers s2 = tm_next (tk_heap s a)"
    and "calls_only g cb \<Longrightarrow> timers.more s2 = run_calls g (tk_heap s) [a] (timers.more s)"
proof -
  define s1 where "s1 = os_exit_critical st ((upd_timer a (\<lambda>t. t\<lparr>tm_active := False\<rparr>)
      (s\<lparr>tk_active_timers := tm_next (tk_heap s a)\<rparr>))\<lparr>tk_timer_count := tk_timer_count s - 1\<rparr>)"
  have s2: "s2 = (if tm_callback (tk_heap s1 a) \<noteq> 0
      then cb (tm_callback (tk_heap s1 a)) (tm_callback_param (tk_heap s1 a)) s1 else s1)"
    by (simp add: s2_def timer_fire_def s1_def Let_def)
  have ch: "chain (tm_nexts s) (tm_next (tk_heap s a)) ts" using rel by (simp add: timer_rel_def tm_nexts_def)
  have d: "a \<notin> set ts"
    using chain_distinct [of "tm_nexts s" "tk_active_timers s" "a # ts"] rel by (simp add: timer_rel_def)
  have "tm_nexts s1 = tm_nexts s" "expires s1 = expires s" by (auto simp: s1_def tm_nexts_def expires_def os_exit_critical_def)
  then have rel1: "timer_rel s1 ts" and ex1: "expires s1 = expires s"
    using rel ch d by (auto simp: timer_rel_def s1_def os_exit_critical_def)
  have h2: "tk_heap s2 = tk_heap s1" "tk_active_timers s2 = tk_active_timers s1" "tk_timer_count s2 = tk_timer_count s1"
      "k_primask s2 = k_primask s1"
    using leaves_timersD [OF cb] by (simp_all add: s2)
  show "timer_rel s2 ts" using rel1 h2 by (simp add: timer_rel_def tm_nexts_def [abs_def] expires_def [abs_def])
  show "expires s2 = expires s" using ex1 h2(1) by (simp add: expires_def [abs_def])
  show "k_primask s2 = st" "tk_active_timers s2 = tm_next (tk_heap s a)"
    using h2 by (simp_all add: s1_def os_exit_critical_def)
  show "tconf (tk_heap s2 b) = tconf (tk_heap s b)" using h2(1) by (simp add: s1_def os_exit_critical_def)
  show "timers.more s2 = run_calls g (tk_heap s) [a] (timers.more s)" if "calls_only g cb"
    using that by (simp add: calls_only_def s2 s1_def os_exit_critical_def run_calls_def)
qed

text \<open>One turn of the loop on an expired head: the timer is fired and, if it reloads, sorted in again.\<close>

lemma timer_turn:
  assumes cb: "leaves_timers cb" and rel: "timer_rel s (a # ts)" and due: "due now (expires s a)"
  shows "\<exists>s'. timer_process_loop cb now st None (tk_active_timers s) s =
       timer_process_loop cb now st None (tk_active_timers s') s' \<and>
     timer_rel s' (if tm_type (tk_heap s a) = TIMER_AUTO_RELOAD then ins_timer (expires s') a ts else ts) \<and>
     expires s' = (if tm_type (tk_heap s a) = TIMER_AUTO_RELOAD
        then (expires s)(a := now + tm_period (tk_heap s a)) else expires s) \<and>
     timers.more s' = timers.more (timer_fire cb st None a s) \<and> (\<forall>b. tconf (tk_heap s' b) = tconf (tk_heap s b))"
proof -
  define s3 where "s3 = (timer_fire cb st None a s)\<lparr>k_primask := 1\<rparr>"
  note f = timer_fire_rel [OF rel cb, where st = st]
  have s3: "timer_rel s3 ts" "expires s3 = expires s" "timers.more s3 = timers.more (timer_fire cb st None a s)"
      "\<And>b. tconf (tk_heap s3 b) = tconf (tk_heap s b)" "tm_next (tk_heap s a) = tk_active_timers s3"
    using f(1,2,4,5) by (simp_all add: s3_def)
  have d: "a \<notin> set ts"
    using chain_distinct [of "tm_nexts s" "tk_active_timers s" "a # ts"] rel by (simp add: timer_rel_def)
  have act: "tk_active_timers s = Some a" using rel by (simp add: timer_rel_def)
  have dueA: "sint (now - tm_expire_time (tk_heap s a)) \<ge> 0" using due by (simp add: due_def expires_def)
  have conf: "tm_type (tk_heap s3 a) = tm_type (tk_heap s a)" "tm_period (tk_heap s3 a) = tm_period (tk_heap s a)"
    using tconf_eqD(1,2) [OF s3(4)] by simp_all
  have crit: "os_enter_critical (timer_fire cb st None a s) = (st, s3)"
    using f(3) by (simp add: os_enter_critical_def s3_def)
  show ?thesis
  proof (cases "tm_type (tk_heap s a) = TIMER_AUTO_RELOAD")
    case True
    obtain s4 where s4: "timer_insert_sorted a (upd_timer a (\<lambda>t. t\<lparr>tm_expire_time := now + tm_period t, tm_active := True\<rparr>) s3) = Some s4"
        "timer_rel s4 (ins_timer (expires s4) a ts)" "expires s4 = (expires s3)(a := now + tm_period (tk_heap s3 a))"
        "tframe s3 s4" "\<And>b. tconf (tk_heap s4 b) = tconf (tk_heap s3 b)"
      using timer_arm_rel [OF s3(1) d, of "\<lambda>t. now + tm_period t"] by blast
    have "timer_process_loop cb now st None (tk_active_timers s) s =
        timer_process_loop cb now st None (tk_active_timers s4) s4"
      unfolding act using dueA crit conf(1) True s4(1) by (subst timer_process_loop.simps) (simp add: Let_def)
    then show ?thesis using s4 s3 conf True by (intro exI [of _ s4]) (simp add: tframe_def)
  next
    case False
    have "timer_process_loop cb now st None (tk_active_timers s) s =
        timer_process_loop cb now st None (tk_active_timers s3) s3"
      unfolding act using dueA crit conf(1) False s3(5) by (subst timer_process_loop.simps) (simp add: Let_def)
    then show ?thesis using s3 False by (intro exI [of _ s3]) simp
  qed
qed

lemma timer_loop_stops:
  assumes "timer_rel s ts" and "ts = [] \<or> \<not> due now (expires s (hd ts))"
  shows "timer_process_loop cb now st None (tk_active_timers s) s = Some (st, s)"
  using assms by (cases ts) (subst timer_process_loop.simps, simp add: timer_rel_def due_def expires_def)+

text \<open>The loop ends if the reloaded expiry of every timer it fires lies in the future.\<close>

definition period_ok :: "timer \<Rightarrow> bool" where
  "period_ok t \<longleftrightarrow> (tm_type t = TIMER_AUTO_RELOAD \<longrightarrow> 0 < unat (tm_period t) \<and> unat (tm_period t) \<le> 2 ^ 31)"

lemma period_ok_cong: "tconf t = tconf u \<Longrightarrow> period_ok t \<longleftrightarrow> period_ok u"
  using tconf_eqD(1,2) [of t u] by (simp add: period_ok_def)

lemma timer_loop_completes:
  assumes cb: "leaves_timers cb"
  shows "timer_rel s ts \<Longrightarrow> (\<And>b. b \<in> set ts \<Longrightarrow> due now (expires s b) \<Longrightarrow> period_ok (tk_heap s b)) \<Longrightarrow>
     \<exists>s' ts'. timer_process_loop cb now st None (tk_active_timers s) s = Some (st, s') \<and> timer_rel s' ts'"
proof (induction "card {b \<in> set ts. due now (expires s b)}" arbitrary: s ts)
  case 0
  then have "ts = [] \<or> \<not> due now (expires s (hd ts))" by auto
  then show ?case using timer_loop_stops [OF 0(2), of now cb st] 0(2) by blast
next
  case (Suc n)
  show ?case
  proof (cases "ts = [] \<or> \<not> due now (expires s (hd ts))")
    case True
    then show ?thesis using timer_loop_stops [OF Suc.prems(1), of now cb st] Suc.prems(1) by blast
  next
    case False
    then obtain a us where ts: "ts = a # us" and due: "due now (expires s a)" by (cases ts) auto
    have d: "a \<notin> set us"
      using chain_distinct [of "tm_nexts s" "tk_active_timers s" "a # us"] Suc.prems(1) ts by (simp add: timer_rel_def)
    let ?auto = "tm_type (tk_heap s a) = TIMER_AUTO_RELOAD"
    obtain s1 where s1: "timer_process_loop cb now st None (tk_active_timers s) s =
         timer_process_loop cb now st None (tk_active_timers s1) s1"
        "timer_rel s1 (if ?auto then ins_timer (expires s1) a us else us)"
        "expires s1 = (if ?auto then (expires s)(a := now + tm_period (tk_heap s a)) else expires s)"
        "\<And>b. tconf (tk_heap s1 b) = tconf (tk_heap s b)"
      using timer_turn [OF cb Suc.prems(1) [unfolded ts] due] by blast
    let ?ts1 = "if ?auto then ins_timer (expires s1) a us else us"
    have "\<not> due now (now + tm_period (tk_heap s a))" if "?auto"
      using that Suc.prems(2) [of a] due ts due_reload by (simp add: period_ok_def)
    then have set1: "{b \<in> set ?ts1. due now (expires s1 b)} = {b \<in> set us. due now (expires s b)}"
      using d by (auto simp: s1(3) split: if_splits)
    have "{b \<in> set ts. due now (expires s b)} = insert a {b \<in> set us. due now (expires s b)}" using ts due by auto
    then have "n = card {b \<in> set ?ts1. due now (expires s1 b)}" using Suc.hyps(2) d by (simp add: set1)
    moreover have "period_ok (tk_heap s1 b)" if "b \<in> set ?ts1" "due now (expires s1 b)" for b
    proof -
      have "b \<in> {b \<in> set us. due now (expires s b)}" using that set1 by blast
      then show ?thesis using Suc.prems(2) [of b] ts period_ok_cong [OF s1(4)] by simp
    qed
    ultimately show ?thesis using Suc.hyps(1) [OF _ s1(2)] s1(1) by simp
  qed
qed

lemma os_timer_process_completes:
  assumes "leaves_timers cb" and "timer_rel s ts"
    and "\<And>b. b \<in> set ts \<Longrightarrow> due (k_tick_count s) (expires s b) \<Longrightarrow> period_ok (tk_heap s b)"
  shows "\<exists>s' ts'. os_timer_process cb s = Some s' \<and> timer_rel s' ts' \<and> k_primask s' = k_primask s"
proof -
  let ?s0 = "s\<lparr>k_primask := 1\<rparr>"
  obtain s' ts' where s': "timer_process_loop cb (k_tick_count s) (k_primask s) None (tk_active_timers ?s0) ?s0 = Some (k_primask s, s')"
      "timer_rel s' ts'"
    using timer_loop_completes [OF assms(1), of ?s0 ts "k_tick_count s" "k_primask s"] assms(2,3) by auto
  then have "os_timer_process cb s = Some (s'\<lparr>k_primask := k_primask s\<rparr>)"
    by (simp add: os_timer_process_def critical_defs os_get_tick_count_def)
  then show ?thesis using s'(2) by (intro exI [of _ "s'\<lparr>k_primask := k_primask s\<rparr>"] exI [of _ ts']) simp
qed

lemma ins_timer_append:
  assumes "\<And>b. b \<in> set xs \<Longrightarrow> ex b \<le> ex a"
  shows "ins_timer ex a (xs @ ys) = xs @ ins_timer ex a ys"
  using assms by (induction xs) auto

lemma run_calls_Cons: "run_calls g h (a # xs) m = run_calls g h xs (run_calls g h [a] m)"
  by (simp add: run_calls_def)

lemma run_calls_cong:
  assumes "\<And>a. tconf (h a) = tconf (h' a)"
  shows "run_calls g h xs m = run_calls g h' xs m"
proof -
  have "tm_callback (h a) = tm_callback (h' a)" "tm_callback_param (h a) = tm_callback_param (h' a)" for a
    using tconf_eqD(3,4) [OF assms] by simp_all
  then show ?thesis unfolding run_calls_def by (intro fold_cong refl) (simp add: fun_eq_iff)
qed

text \<open>Periods for which a reloaded timer expires in the future, without wrap-around.\<close>

definition reload_ok :: "u32 \<Rightarrow> timer \<Rightarrow> bool" where
  "reload_ok now t \<longleftrightarrow> (tm_type t = TIMER_AUTO_RELOAD \<longrightarrow>
     0 < unat (tm_period t) \<and> unat (tm_period t) \<le> 2 ^ 31 \<and> unat now + unat (tm_period t) < 2 ^ 32)"

lemma reload_ok_cong: "tconf t = tconf u \<Longrightarrow> reload_ok now t \<longleftrightarrow> reload_ok now u"
  using tconf_eqD(1,2) [of t u] by (simp add: reload_ok_def)

text \<open>A turn on the first of the expired timers \<open>a # xs\<close>, the others being behind it.\<close>

lemma timer_step_rel:
  assumes cb: "calls_only g cb" and rel: "timer_rel s (a # xs @ rest)"
    and due: "\<And>b. b \<in> set (a # xs) \<Longrightarrow> due now (expires s b) \<and> expires s b \<le> now" and ok: "reload_ok now (tk_heap s a)"
  shows "\<exists>s' rest'. timer_process_loop cb now st None (tk_active_timers s) s =
       timer_process_loop cb now st None (tk_active_timers s') s' \<and> timer_rel s' (xs @ rest') \<and>
     set rest' = set rest \<union> (if tm_type (tk_heap s a) = TIMER_AUTO_RELOAD then {a} else {}) \<and>
     expires s' = (if tm_type (tk_heap s a) = TIMER_AUTO_RELOAD
        then (expires s)(a := now + tm_period (tk_heap s a)) else expires s) \<and>
     timers.more s' = run_calls g (tk_heap s) [a] (timers.more s) \<and>
     (\<forall>b. tconf (tk_heap s' b) = tconf (tk_heap s b))"
proof -
  let ?auto = "tm_type (tk_heap s a) = TIMER_AUTO_RELOAD" and ?p = "tm_period (tk_heap s a)"
  have lv: "leaves_timers cb" and dueA: "due now (expires s a)" using calls_only_leaves [OF cb] due [of a] by simp_all
  obtain s1 where s1: "timer_process_loop cb now st None (tk_active_timers s) s =
       timer_process_loop cb now st None (tk_active_timers s1) s1"
      "timer_rel s1 (if ?auto then ins_timer (expires s1) a (xs @ rest) else xs @ rest)"
      "expires s1 = (if ?auto then (expires s)(a := now + ?p) else expires s)"
      "timers.more s1 = timers.more (timer_fire cb st None a s)" "\<forall>b. tconf (tk_heap s1 b) = tconf (tk_heap s b)"
    using timer_turn [OF lv rel dueA] by blast
  have d: "a \<notin> set xs"
    using chain_distinct [of "tm_nexts s" "tk_active_timers s" "a # xs @ rest"] rel by (simp add: timer_rel_def)
  have "ins_timer (expires s1) a (xs @ rest) = xs @ ins_timer (expires s1) a rest" if auto: "?auto"
  proof (rule ins_timer_append)
    fix b assume b: "b \<in> set xs"
    have "unat now + unat ?p < 4294967296" "0 < unat ?p" using ok auto by (simp_all add: reload_ok_def)
    then have "now < now + ?p" using unat_add_u32 [of now ?p] by (simp add: word_less_nat_alt)
    then show "expires s1 b \<le> expires s1 a" using due [of b] b d auto by (auto simp: s1(3))
  qed
  then have "timer_rel s1 (xs @ (if ?auto then ins_timer (expires s1) a rest else rest))"
    using s1(2) by (cases ?auto) simp_all
  moreover have "timers.more s1 = run_calls g (tk_heap s) [a] (timers.more s)"
    unfolding s1(4) by (rule timer_fire_rel(6) [OF rel lv cb])
  ultimately show ?thesis using s1(1,3,5)
    by (intro exI [of _ s1] exI [of _ "if ?auto then ins_timer (expires s1) a rest else rest"]) simp
qed

lemma timer_process_loop_rel:
  assumes cb: "calls_only g cb"
  shows "timer_rel s (xs @ rest) \<Longrightarrow>
     (\<And>b. b \<in> set xs \<Longrightarrow> due now (expires s b) \<and> expires s b \<le> now) \<Longrightarrow>
     (\<And>b. b \<in> set rest \<Longrightarrow> \<not> due now (expires s b)) \<Longrightarrow>
     (\<And>b. b \<in> set xs \<Longrightarrow> reload_ok now (tk_heap s b)) \<Longrightarrow>
     \<exists>s' rest'. timer_process_loop cb now st None (tk_active_timers s) s = Some (st, s') \<and>
       timer_rel s' rest' \<and> set rest' = set rest \<union> {b \<in> set xs. tm_type (tk_heap s b) = TIMER_AUTO_RELOAD} \<and>
       expires s' = (\<lambda>b. if b \<in> set xs \<and> tm_type (tk_heap s b) = TIMER_AUTO_RELOAD
                        then now + tm_period (tk_heap s b) else expires s b) \<and>
       timers.more s' = run_calls g (tk_heap s) xs (timers.more s)"
proof (induction xs arbitrary: s rest)
  case Nil
  have "timer_process_loop cb now st None (tk_active_timers s) s = Some (st, s)"
    using Nil.prems(1,3) by (intro timer_loop_stops [of s rest]) (auto simp: neq_Nil_conv)
  then show ?case using Nil.prems(1) by (auto simp: run_calls_def)
next
  case (Cons a xs)
  let ?auto = "\<lambda>b. tm_type (tk_heap s b) = TIMER_AUTO_RELOAD"
  have rel: "timer_rel s (a # xs @ rest)" and ok: "reload_ok now (tk_heap s a)"
    using Cons.prems(1,4) by simp_all
  have d: "a \<notin> set xs" "a \<notin> set rest"
    using chain_distinct [of "tm_nexts s" "tk_active_timers s" "a # xs @ rest"] rel by (simp_all add: timer_rel_def)
  obtain s1 r1 where s1: "timer_process_loop cb now st None (tk_active_timers s) s =
       timer_process_loop cb now st None (tk_active_timers s1) s1" "timer_rel s1 (xs @ r1)"
      "set r1 = set rest \<union> (if ?auto a then {a} else {})"
      "expires s1 = (if ?auto a then (expires s)(a := now + tm_period (tk_heap s a)) else expires s)"
      "timers.more s1 = run_calls g (tk_heap s) [a] (timers.more s)"
      "\<And>b. tconf (tk_heap s1 b) = tconf (tk_heap s b)"
    using timer_step_rel [OF cb rel Cons.prems(2) ok] by blast
  have conf: "tm_type (tk_heap s1 b) = tm_type (tk_heap s b)" "tm_period (tk_heap s1 b) = tm_period (tk_heap s b)" for b
    using tconf_eqD(1,2) [OF s1(6)] by simp_all
  have due1: "due now (expires s1 b) \<and> expires s1 b \<le> now" if "b \<in> set xs" for b
    using Cons.prems(2) [of b] that d(1) s1(4) by auto
  have nd1: "\<not> due now (expires s1 b)" if "b \<in> set r1" for b
    using that s1(3,4) Cons.prems(3) [of b] d(2) ok due_reload [of "tm_period (tk_heap s a)" now]
    by (auto simp: reload_ok_def split: if_splits)
  have ok1: "reload_ok now (tk_heap s1 b)" if "b \<in> set xs" for b
    using Cons.prems(4) [of b] that reload_ok_cong [OF s1(6)] by simp
  obtain s' rest' where s': "timer_process_loop cb now st None (tk_active_timers s1) s1 = Some (st, s')"
      "timer_rel s' rest'" "set rest' = set r1 \<union> {b \<in> set xs. ?auto b}"
      "expires s' = (\<lambda>b. if b \<in> set xs \<and> ?auto b then now + tm_period (tk_heap s b) else expires s1 b)"
      "timers.more s' = run_calls g (tk_heap s1) xs (timers.more s1)"
    using Cons.IH [OF s1(2) due1 nd1 ok1] unfolding conf by blast
  have "timers.more s' = run_calls g (tk_heap s) (a # xs) (timers.more s)"
    using s'(5) s1(5) run_calls_cong [OF s1(6)] by (simp add: run_calls_Cons [of g _ a xs])
  moreover have "set rest' = set rest \<union> {b \<in> set (a # xs). ?auto b}" using s'(3) s1(3) by auto
  moreover have "expires s' = (\<lambda>b. if b \<in> set (a # xs) \<and> ?auto b then now + tm_period (tk_heap s b) else expires s b)"
    unfolding s'(4) using s1(4) d(1) by (auto simp: fun_eq_iff)
  ultimately show ?case using s1(1) s'(1,2) by auto
qed

section \<open>Reachable timer states\<close>

text \<open>
  The calls of tasks, the tick handler and the passing of time. A timer structure that is active must
  not be created again, and the tick handler must not find an auto-reload timer due whose period is
  0 or more than half the range of the counter; the code checks neither.
\<close>

datatype top =
    TCreate ptr "string option" timer_type u32 u32 u32
  | TStart ptr
  | TStop ptr
  | TReset ptr
  | TDelete ptr
  | TPeriod ptr u32
  | TTicks u32
  | TProcess

fun texec :: "'a callback \<Rightarrow> top \<Rightarrow> 'a timers_scheme \<Rightarrow> (os_error \<times> 'a timers_scheme) option" where
  "texec cb (TCreate t name ty period f p) s = Some (os_timer_create t name ty period f p s)"
| "texec cb (TStart t) s = os_timer_start t s"
| "texec cb (TStop t) s = os_timer_stop t s"
| "texec cb (TReset t) s = os_timer_reset t s"
| "texec cb (TDelete t) s = os_timer_delete t s"
| "texec cb (TPeriod t period) s = os_timer_change_period t period s"
| "texec cb (TTicks n) s = Some (OS_OK, s\<lparr>k_tick_count := k_tick_count s + n\<rparr>)"
| "texec cb TProcess s = map_option (Pair OS_OK) (os_timer_process cb s)"

fun tguard :: "top \<Rightarrow> 'a timers_scheme \<Rightarrow> bool" where
  "tguard (TCreate (Some a) name ty period f p) s \<longleftrightarrow> \<not> tm_active (tk_heap s a)"
| "tguard TProcess s \<longleftrightarrow> (\<forall>a. tm_active (tk_heap s a) \<and> due (k_tick_count s) (expires s a) \<longrightarrow> period_ok (tk_heap s a))"
| "tguard _ s \<longleftrightarrow> True"

inductive treach :: "'a callback \<Rightarrow> 'a timers_scheme \<Rightarrow> bool" for cb where
  init: "(\<And>a. \<not> tm_active (tk_heap s a)) \<Longrightarrow> treach cb (os_timer_init s)"
| op: "treach cb s \<Longrightarrow> tguard op s \<Longrightarrow> texec cb op s = Some (r, s') \<Longrightarrow> treach cb s'"

lemma timer_rel_inactive:
  assumes rel: "timer_rel s ts" and "\<not> tm_active (tk_heap s a)" and "\<not> tm_active (f (tk_heap s a))"
  shows "timer_rel (upd_timer a f s) ts"
proof -
  have a: "a \<notin> set ts" using assms by (simp add: timer_rel_def)
  have "tm_nexts (upd_timer a f s) = (tm_nexts s)(a := tm_next (f (tk_heap s a)))" by (auto simp: tm_nexts_def)
  moreover have "map (expires (upd_timer a f s)) ts = map (expires s) ts"
    using a by (auto simp: expires_def)
  then have "sorted (map (expires (upd_timer a f s)) ts)" using rel by (simp only: timer_rel_def)
  ultimately show ?thesis using rel a assms(3) by (simp add: timer_rel_def)
qed

lemma os_timer_stop_done:
  assumes "timer_rel s ts"
  shows "\<exists>s'. os_timer_stop (Some a) s = Some (OS_OK, s') \<and> timer_rel s' (remove1 a ts) \<and> \<not> tm_active (tk_heap s' a)"
proof -
  obtain s' where s': "os_timer_stop (Some a) s = Some (OS_OK, s')" "timer_rel s' (remove1 a ts)"
    using os_timer_stop_rel [OF assms] by blast
  have "a \<notin> set (remove1 a ts)"
    using assms chain_distinct by (auto simp: timer_rel_def set_remove1_eq)
  then show ?thesis using s' by (simp add: timer_rel_def)
qed

lemma timer_null:
  "os_timer_start None s = Some (OS_ERROR_INVALID_PARAM, s)" "os_timer_stop None s = Some (OS_ERROR_INVALID_PARAM, s)"
  by (simp_all add: os_timer_start_def os_timer_stop_def)

lemma texec_rel:
  assumes cb: "leaves_timers cb" and rel: "timer_rel s ts" and g: "tguard op s"
  shows "\<exists>r s' ts'. texec cb op s = Some (r, s') \<and> timer_rel s' ts'"
proof (cases op)
  case (TCreate t name ty period f p)
  show ?thesis
  proof (cases t)
    case (Some a)
    have "\<not> tm_active (tk_heap (s\<lparr>k_primask := 1\<rparr>) a)" using g TCreate Some by simp
    then have "timer_rel ((upd_timer a (\<lambda>_. x) (s\<lparr>k_primask := 1\<rparr>))\<lparr>k_primask := k_primask s\<rparr>) ts"
      if "\<not> tm_active x" for x
      using timer_rel_inactive [of "s\<lparr>k_primask := 1\<rparr>" ts a "\<lambda>_. x"] rel that by simp
    then show ?thesis using rel TCreate Some
      by (auto simp: os_timer_create_def critical_defs zero_timer_def intro!: exI [of _ ts])
  qed (use rel TCreate in \<open>auto simp: os_timer_create_def\<close>)
next
  case (TStart t)
  then show ?thesis using os_timer_start_rel [OF rel] rel by (cases t) (auto simp: timer_null, blast)
next
  case (TStop t)
  then show ?thesis using os_timer_stop_done [OF rel] rel by (cases t) (auto simp: timer_null, blast)
next
  case (TReset t)
  show ?thesis
  proof (cases t)
    case (Some a)
    obtain s1 where s1: "os_timer_stop (Some a) s = Some (OS_OK, s1)" "timer_rel s1 (remove1 a ts)"
      using os_timer_stop_done [OF rel] by blast
    then show ?thesis using os_timer_start_rel [OF s1(2), of a] TReset Some by (auto simp: os_timer_reset_def)
  qed (use rel TReset in \<open>auto simp: os_timer_reset_def\<close>)
next
  case (TDelete t)
  show ?thesis
  proof (cases t)
    case (Some a)
    obtain s1 where s1: "os_timer_stop (Some a) s = Some (OS_OK, s1)" "timer_rel s1 (remove1 a ts)"
        "\<not> tm_active (tk_heap s1 a)" using os_timer_stop_done [OF rel] by blast
    have "timer_rel (upd_timer a (\<lambda>_. zero_timer) s1) (remove1 a ts)"
      using timer_rel_inactive [OF s1(2,3)] by (simp add: zero_timer_def)
    moreover have "timer_rel (upd_timer a (\<lambda>_. zero_timer) s) ts" if "\<not> tm_active (tk_heap s a)"
      using timer_rel_inactive [OF rel that] by (simp add: zero_timer_def)
    ultimately show ?thesis using s1(1) TDelete Some
      by (cases "tm_active (tk_heap s a)") (auto simp: os_timer_delete_def)
  qed (use rel TDelete in \<open>auto simp: os_timer_delete_def\<close>)
next
  case (TPeriod t period)
  show ?thesis
  proof (cases t)
    case (Some a)
    obtain s1 where s1: "os_timer_stop (Some a) s = Some (OS_OK, s1)" "timer_rel s1 (remove1 a ts)"
        "\<not> tm_active (tk_heap s1 a)" using os_timer_stop_done [OF rel] by blast
    have "timer_rel (upd_timer a (\<lambda>t. t\<lparr>tm_period := period\<rparr>) s1) (remove1 a ts)"
      using timer_rel_inactive [OF s1(2,3)] s1(3) by simp
    from os_timer_start_rel [OF this, of a] obtain s2 ts2 where
      "os_timer_start (Some a) (upd_timer a (\<lambda>t. t\<lparr>tm_period := period\<rparr>) s1) = Some (OS_OK, s2)" "timer_rel s2 ts2"
      by blast
    moreover have "timer_rel (upd_timer a (\<lambda>t. t\<lparr>tm_period := period\<rparr>) s) ts" if "\<not> tm_active (tk_heap s a)"
      using timer_rel_inactive [OF rel that] that by simp
    ultimately show ?thesis using s1(1) TPeriod Some rel
      by (cases "tm_active (tk_heap s a)") (auto simp: os_timer_change_period_def)
  qed (use rel TPeriod in \<open>auto simp: os_timer_change_period_def\<close>)
next
  case (TTicks n)
  then show ?thesis using rel by (auto simp: timer_rel_def tm_nexts_def [abs_def] expires_def [abs_def])
next
  case TProcess
  have "period_ok (tk_heap s b)" if "b \<in> set ts" "due (k_tick_count s) (expires s b)" for b
    using g that rel TProcess by (simp add: timer_rel_def)
  then show ?thesis using os_timer_process_completes [OF cb rel] TProcess by fastforce
qed

lemma treach_rel: "treach cb s \<Longrightarrow> leaves_timers cb \<Longrightarrow> \<exists>ts. timer_rel s ts"
proof (induction rule: treach.induct)
  case (init s)
  then show ?case by (intro exI [of _ "[]"]) (simp add: timer_rel_def os_timer_init_def)
next
  case (op s op r s')
  then show ?case using texec_rel [of cb s _ op] by fastforce
qed

section \<open>A tick of the timers\<close>

text \<open>Expiries that are less than half the range of the counter away from now, without wrap-around.\<close>

definition in_window :: "u32 \<Rightarrow> u32 \<Rightarrow> bool" where
  "in_window now e \<longleftrightarrow> uint now - 2 ^ 31 < uint e \<and> uint e \<le> uint now + 2 ^ 31"

lemma in_window_due:
  assumes "in_window now e"
  shows "due now e \<longleftrightarrow> e \<le> now"
proof -
  have "int (unat now) < int (unat e) + 2147483648" "int (unat e) \<le> int (unat now) + 2147483648"
    using assms by (simp_all add: in_window_def)
  then have w: "unat now < unat e + 2147483648" "unat e \<le> unat now + 2147483648" by linarith+
  show ?thesis
  proof (cases "e \<le> now")
    case True
    then have "unat (now - e) = unat now - unat e" by (simp add: unat_sub word_le_nat_alt)
    then have "unat (now - e) < 2147483648" using True w by (simp add: word_le_nat_alt)
    then have "sint (now - e) = int (unat (now - e))" by (simp only: sint_u32 if_True)
    then show ?thesis using True by (simp add: due_def)
  next
    case False
    then have "unat (now - e) = unat now + 4294967296 - unat e" using unat_diff_u32(2) [of now e] by (simp add: word_le_nat_alt)
    then have "\<not> unat (now - e) < 2147483648" using w by simp
    then have "sint (now - e) = int (unat (now - e)) - 4294967296" by (simp only: sint_u32 if_False)
    moreover have "unat (now - e) < 4294967296" by simp
    ultimately have "sint (now - e) < 0" by linarith
    then show ?thesis using False by (simp add: due_def)
  qed
qed

lemma sorted_filter_takeWhile:
  "sorted (map f ts) \<Longrightarrow> filter (\<lambda>b. f b \<le> (x :: 'b :: linorder)) ts = takeWhile (\<lambda>b. f b \<le> x) ts"
proof (induction ts)
  case (Cons b ts)
  show ?case
  proof (cases "f b \<le> x")
    case False
    then have "filter (\<lambda>b. f b \<le> x) ts = []" using Cons.prems by (auto simp: filter_empty_conv)
    then show ?thesis using False by simp
  qed (use Cons in simp)
qed simp

lemma os_timer_process_rel:
  assumes rel: "timer_rel s ts" and cb: "calls_only g cb" and now: "now = k_tick_count s"
    and win: "\<And>b. b \<in> set ts \<Longrightarrow> in_window now (expires s b)"
    and ok: "\<And>b. b \<in> set ts \<Longrightarrow> expires s b \<le> now \<Longrightarrow> reload_ok now (tk_heap s b)"
  shows "\<exists>s' ts'. os_timer_process cb s = Some s' \<and> timer_rel s' ts' \<and> k_primask s' = k_primask s \<and>
     timers.more s' = run_calls g (tk_heap s) (filter (\<lambda>b. expires s b \<le> now) ts) (timers.more s) \<and>
     set ts' = {b \<in> set ts. now < expires s b \<or> tm_type (tk_heap s b) = TIMER_AUTO_RELOAD} \<and>
     expires s' = (\<lambda>b. if b \<in> set ts \<and> expires s b \<le> now \<and> tm_type (tk_heap s b) = TIMER_AUTO_RELOAD
                      then now + tm_period (tk_heap s b) else expires s b)"
proof -
  have window: "due now (expires s b) \<longleftrightarrow> expires s b \<le> now" if "b \<in> set ts" for b using in_window_due [OF win [OF that]] .
  let ?P = "\<lambda>b. expires s b \<le> now" and ?s0 = "s\<lparr>k_primask := 1\<rparr>"
  let ?xs = "takeWhile ?P ts" and ?rest = "dropWhile ?P ts"
  have so: "sorted (map (expires s) ts)" using rel by (simp add: timer_rel_def)
  note flt = sorted_filter_takeWhile [OF so, of now]
  have xs: "set ?xs = {b \<in> set ts. ?P b}" using arg_cong [OF flt, of set] by simp
  have d: "distinct ts" using rel chain_distinct by (auto simp: timer_rel_def)
  have rest: "set ?rest = {b \<in> set ts. \<not> ?P b}"
  proof -
    have "set ts = set ?xs \<union> set ?rest" by (metis set_append takeWhile_dropWhile_id)
    moreover have "set ?xs \<inter> set ?rest = {}" using d by (metis distinct_append takeWhile_dropWhile_id)
    ultimately show ?thesis using xs by blast
  qed
  have rel0: "timer_rel ?s0 (?xs @ ?rest)" using rel by simp
  have due0: "due now (expires ?s0 b) \<and> expires ?s0 b \<le> now" if "b \<in> set ?xs" for b
    using that window [of b] xs by simp
  have nd0: "\<not> due now (expires ?s0 b)" if "b \<in> set ?rest" for b using that window [of b] rest by simp
  have ok0: "reload_ok now (tk_heap ?s0 b)" if "b \<in> set ?xs" for b using that ok [of b] xs by simp
  obtain s' ts' where s': "timer_process_loop cb now (k_primask s) None (tk_active_timers ?s0) ?s0 = Some (k_primask s, s')"
      "timer_rel s' ts'" "set ts' = set ?rest \<union> {b \<in> set ?xs. tm_type (tk_heap ?s0 b) = TIMER_AUTO_RELOAD}"
      "expires s' = (\<lambda>b. if b \<in> set ?xs \<and> tm_type (tk_heap ?s0 b) = TIMER_AUTO_RELOAD
                       then now + tm_period (tk_heap ?s0 b) else expires ?s0 b)"
      "timers.more s' = run_calls g (tk_heap ?s0) ?xs (timers.more ?s0)"
    using timer_process_loop_rel [OF cb rel0 due0 nd0 ok0, of "k_primask s"] by blast
  have "os_timer_process cb s = Some (s'\<lparr>k_primask := k_primask s\<rparr>)"
    using s'(1) by (simp add: os_timer_process_def critical_defs os_get_tick_count_def now)
  moreover have "set ts' = {b \<in> set ts. now < expires s b \<or> tm_type (tk_heap s b) = TIMER_AUTO_RELOAD}"
    unfolding s'(3) xs rest by (auto simp: not_le not_less)
  moreover have "expires s' = (\<lambda>b. if b \<in> set ts \<and> expires s b \<le> now \<and> tm_type (tk_heap s b) = TIMER_AUTO_RELOAD
                      then now + tm_period (tk_heap s b) else expires s b)"
    unfolding s'(4) xs by (simp add: fun_eq_iff)
  moreover have "timers.more s' = run_calls g (tk_heap s) (filter (\<lambda>b. expires s b \<le> now) ts) (timers.more s)"
    unfolding flt using s'(5) by simp
  ultimately show ?thesis using s'(2)
    by (intro exI [of _ "s'\<lparr>k_primask := k_primask s\<rparr>"] exI [of _ ts']) simp
qed

text \<open>A single auto-reload timer whose reloaded expiry is due again keeps the loop running forever.\<close>

definition stuck :: "u32 \<Rightarrow> addr \<Rightarrow> 'a timers_scheme \<Rightarrow> bool" where
  "stuck now a s \<longleftrightarrow> timer_rel s [a] \<and> due now (expires s a) \<and> tm_type (tk_heap s a) = TIMER_AUTO_RELOAD \<and>
     due now (now + tm_period (tk_heap s a))"

lemma stuck_step:
  assumes cb: "calls_only g cb" and st: "stuck now a s"
  shows "\<exists>s'. timer_insert_sorted a (upd_timer a (\<lambda>t. t\<lparr>tm_expire_time := now + tm_period t, tm_active := True\<rparr>)
       (snd (os_enter_critical (timer_fire cb pm None a s)))) = Some s' \<and> stuck now a s' \<and>
     tm_type (tk_heap (snd (os_enter_critical (timer_fire cb pm None a s))) a) = TIMER_AUTO_RELOAD"
proof -
  have rel: "timer_rel s (a # [])" using st by (simp add: stuck_def)
  let ?s3 = "snd (os_enter_critical (timer_fire cb pm None a s))"
  note f = timer_fire_rel [OF rel calls_only_leaves [OF cb], where st = pm]
  have rel3: "timer_rel ?s3 []" and cf3: "tconf (tk_heap ?s3 b) = tconf (tk_heap s b)" for b
    using f(1,4) by (simp_all add: os_enter_critical_def)
  obtain s4 where s4: "timer_insert_sorted a (upd_timer a (\<lambda>t. t\<lparr>tm_expire_time := now + tm_period t, tm_active := True\<rparr>) ?s3) = Some s4"
      "timer_rel s4 (ins_timer (expires s4) a [])" "expires s4 = (expires ?s3)(a := now + tm_period (tk_heap ?s3 a))"
      "\<And>b. tconf (tk_heap s4 b) = tconf (tk_heap ?s3 b)"
    using timer_arm_rel [OF rel3, of a "\<lambda>t. now + tm_period t"] by auto
  have "tm_type (tk_heap s4 a) = tm_type (tk_heap s a)" "tm_period (tk_heap s4 a) = tm_period (tk_heap s a)"
      "tm_period (tk_heap ?s3 a) = tm_period (tk_heap s a)" "tm_type (tk_heap ?s3 a) = tm_type (tk_heap s a)"
    using tconf_eqD(1,2) [OF s4(4) [of a]] tconf_eqD(1,2) [OF cf3 [of a]] by simp_all
  then show ?thesis using s4(1-3) st by (simp add: stuck_def)
qed

lemma timer_loop_diverges:
  assumes "timer_process_loop cb now st prev timer s = Some r"
  shows "calls_only g cb \<longrightarrow> prev = None \<longrightarrow> timer = tk_active_timers s \<longrightarrow> \<not> stuck now a s"
  using assms
proof (rule timer_process_loop.raw_induct [where P = "\<lambda>cb now st prev timer s r. calls_only g cb \<longrightarrow>
    prev = None \<longrightarrow> timer = tk_active_timers s \<longrightarrow> \<not> stuck now a s", rotated])
  fix f :: "'a callback \<Rightarrow> u32 \<Rightarrow> u32 \<Rightarrow> ptr \<Rightarrow> ptr \<Rightarrow> 'a timers_scheme \<Rightarrow> (u32 \<times> 'a timers_scheme) option"
    and cb now st prev timer s r
  assume IH: "\<And>cb now st prev timer s y. f cb now st prev timer s = Some y \<Longrightarrow>
      calls_only g cb \<longrightarrow> prev = None \<longrightarrow> timer = tk_active_timers s \<longrightarrow> \<not> stuck now a s"
    and body: "(if timer = None then Some (st, s)
     else if sint (now - tm_expire_time (tk_heap s (the timer))) \<ge> 0
     then do {
       let expired_timer = the timer;
       let timer = tm_next (tk_heap s expired_timer);
       let (st, s) = os_enter_critical (timer_fire cb st prev expired_timer s);
       (if tm_type (tk_heap s expired_timer) = TIMER_AUTO_RELOAD
        then do {
          let s = upd_timer expired_timer
                    (\<lambda>t. t\<lparr>tm_expire_time := now + tm_period t, tm_active := True\<rparr>) s;
          s \<leftarrow> timer_insert_sorted expired_timer s;
          f cb now st None (tk_active_timers s) s }
        else f cb now st prev timer s) }
     else Some (st, s)) = Some r"
  show "calls_only g cb \<longrightarrow> prev = None \<longrightarrow> timer = tk_active_timers s \<longrightarrow> \<not> stuck now a s"
  proof (intro impI notI)
    assume cb: "calls_only g cb" and prev: "prev = None" and timer: "timer = tk_active_timers s" and stuck: "stuck now a s"
    have "timer = Some a" "sint (now - tm_expire_time (tk_heap s a)) \<ge> 0"
      using stuck timer by (simp_all add: stuck_def timer_rel_def due_def expires_def)
    moreover obtain s' where "timer_insert_sorted a (upd_timer a (\<lambda>t. t\<lparr>tm_expire_time := now + tm_period t, tm_active := True\<rparr>)
       (snd (os_enter_critical (timer_fire cb st None a s)))) = Some s'" "stuck now a s'"
      "tm_type (tk_heap (snd (os_enter_critical (timer_fire cb st None a s))) a) = TIMER_AUTO_RELOAD"
      using stuck_step [OF cb stuck] by blast
    ultimately have "f cb now (fst (os_enter_critical (timer_fire cb st None a s))) None (tk_active_timers s') s' = Some r"
      using body prev by (simp add: Let_def case_prod_beta)
    from IH [OF this] cb \<open>stuck now a s'\<close> show False by simp
  qed
qed

end
