(* ===== verification/Timer_Spec.thy ===== *)
theory Timer_Spec
  imports Timer_Lemmas Kernel_Spec
begin

text \<open>
  The properties of the software timers of \<^verbatim>\<open>src/timer.c\<close>, with a concrete state: timer 3 is
  a one-shot timer of 5 ms, timer 2 reloads every 20 ms, timer 4 reloads with a period of
  more than half the range of the tick counter. The state carries a log of the callbacks.
\<close>

section \<open>A concrete state\<close>

definition demo_timer :: "timer_type \<Rightarrow> u32 \<Rightarrow> u32 \<Rightarrow> timer" where
  "demo_timer ty period f = zero_timer\<lparr>tm_type := ty, tm_period := period, tm_callback := f\<rparr>"

definition demo_timers :: "u32 \<Rightarrow> (u32 list) timers_scheme" where
  "demo_timers now = kernel.extend (boot_memory\<lparr>k_tick_count := now\<rparr>) \<lparr>tk_active_timers = None, tk_timer_count = 0,
     tk_heap = (\<lambda>_. zero_timer)(3 := demo_timer TIMER_ONE_SHOT 5 16, 2 := demo_timer TIMER_AUTO_RELOAD 20 32,
                                4 := demo_timer TIMER_AUTO_RELOAD 0x90000000 48), \<dots> = []\<rparr>"

definition cb_log :: "(u32 list) callback" where
  "cb_log f p s = timers.more_update (\<lambda>l. l @ [f]) s"

lemma demo_timers_fields [simp]:
  "tk_active_timers (demo_timers now) = None" "tk_timer_count (demo_timers now) = 0"
  "k_tick_count (demo_timers now) = now" "timers.more (demo_timers now) = []"
  "tk_heap (demo_timers now) = (\<lambda>_. zero_timer)(3 := demo_timer TIMER_ONE_SHOT 5 16,
     2 := demo_timer TIMER_AUTO_RELOAD 20 32, 4 := demo_timer TIMER_AUTO_RELOAD 0x90000000 48)"
  by (simp_all add: demo_timers_def kernel.defs)

lemma demo_timers_rel: "timer_rel (demo_timers now) []"
  by (auto simp: timer_rel_def demo_timer_def zero_timer_def)

lemma cb_log_calls: "calls_only (\<lambda>f p l. l @ [f]) cb_log"
  by (simp add: calls_only_def leaves_timers_def cb_log_def)

section \<open>Properties\<close>

text \<open>C13. In every state reachable by creating, starting, stopping, resetting, deleting timers,
  changing periods and running the tick handler, at any times, the active timers form an acyclic
  list sorted by expiry that contains exactly the timers marked active and whose length is the timer
  count; and every operation, \<^verbatim>\<open>os_timer_process\<close> included, completes there. Excluded are creating an
  active timer again and running the tick handler while an auto-reload timer is due whose period is 0 or
  above half the range of the counter; callbacks leave the timers and the interrupt mask alone.\<close>

theorem timer_invariant:
  assumes "leaves_timers cb" and "treach cb s"
  shows "(\<exists>ts. timer_rel s ts) \<and> (\<forall>op. tguard op s \<longrightarrow> (\<exists>r s'. texec cb op s = Some (r, s') \<and> (\<exists>ts. timer_rel s' ts)))"
proof -
  obtain ts where "timer_rel s ts" using treach_rel [OF assms(2,1)] by blast
  then show ?thesis using texec_rel [OF assms(1), of s ts] by blast
qed

text \<open>A one-shot timer is started and, ten ticks later, fired.\<close>

theorem timer_invariant_witness:
  "\<exists>s1 s2. texec cb_log (TStart (Some 3)) (os_timer_init (demo_timers 0)) = Some (OS_OK, s1) \<and>
     texec cb_log (TTicks 10) s1 = Some (OS_OK, s2) \<and> (\<exists>r s'. texec cb_log TProcess s2 = Some (r, s') \<and> (\<exists>ts. timer_rel s' ts))"
proof -
  let ?s0 = "os_timer_init (demo_timers 0)"
  have r0: "treach cb_log ?s0" by (rule treach.init) (simp add: demo_timer_def zero_timer_def)
  have "?s0 = demo_timers 0" by (simp add: os_timer_init_def demo_timers_def kernel.defs)
  then obtain s1 where s1: "os_timer_start (Some 3) ?s0 = Some (OS_OK, s1)" "timer_rel s1 (ins_timer (expires s1) 3 (remove1 3 []))"
      "\<forall>b. tconf (tk_heap s1 b) = tconf (tk_heap (demo_timers 0) b)"
    using os_timer_start_rel [OF demo_timers_rel, of 3 0] by auto
  let ?s2 = "s1\<lparr>k_tick_count := k_tick_count s1 + 10\<rparr>"
  have "treach cb_log s1" by (rule treach.op [OF r0, of "TStart (Some 3)" OS_OK]) (simp_all add: s1(1))
  then have r2: "treach cb_log ?s2" by (rule treach.op [of _ _ "TTicks 10" OS_OK]) simp_all
  have act: "tm_active (tk_heap s1 a) \<longleftrightarrow> a = 3" for a using s1(2) by (simp add: timer_rel_def)
  have "tm_type (tk_heap s1 3) = TIMER_ONE_SHOT" using tconf_eqD(1) [OF s1(3) [rule_format, of 3]] by (simp add: demo_timer_def)
  then have "tguard TProcess ?s2" by (simp add: act period_ok_def)
  then have "\<exists>r s'. texec cb_log TProcess ?s2 = Some (r, s') \<and> (\<exists>ts. timer_rel s' ts)"
    using timer_invariant [OF calls_only_leaves [OF cb_log_calls] r2] by blast
  then show ?thesis using s1(1) by (intro exI [of _ s1] exI [of _ ?s2]) simp
qed

text \<open>Starting a timer, running or not, inserts it exactly once into the sorted list, behind
  the timers that expire no later, to expire one period from now; with a period below half
  the counter range the remaining time is then exactly the period, also across the
  wrap-around of the tick counter. Stopping removes it and the remaining time is 0.\<close>

theorem timer_start_stop:
  assumes "timer_rel s ts"
  shows "\<exists>s1 s2. os_timer_start (Some a) s = Some (OS_OK, s1) \<and>
     timer_rel s1 (ins_timer (expires s1) a (remove1 a ts)) \<and> expires s1 a = k_tick_count s + tm_period (tk_heap s a) \<and>
     (0 < unat (tm_period (tk_heap s a)) \<and> unat (tm_period (tk_heap s a)) < 2 ^ 31 \<longrightarrow>
        os_timer_get_remaining_ms (Some a) s1 = tm_period (tk_heap s a)) \<and>
     os_timer_stop (Some a) s1 = Some (OS_OK, s2) \<and> timer_rel s2 (remove1 a ts) \<and>
     os_timer_get_remaining_ms (Some a) s2 = 0"
proof -
  obtain s1 where s1: "os_timer_start (Some a) s = Some (OS_OK, s1)"
      "timer_rel s1 (ins_timer (expires s1) a (remove1 a ts))"
      "expires s1 = (expires s)(a := k_tick_count s + tm_period (tk_heap s a))" "tframe s s1"
    using os_timer_start_rel [OF assms] by blast
  have act: "tm_active (tk_heap s1 a)" using s1(2) by (simp add: timer_rel_def)
  have "tm_expire_time (tk_heap s1 a) - k_tick_count s1 = tm_period (tk_heap s a)"
    using s1(3,4) by (simp add: expires_def tframe_def fun_eq_iff)
  then have rem: "os_timer_get_remaining_ms (Some a) s1 = tm_period (tk_heap s a)"
    if "0 < unat (tm_period (tk_heap s a)) \<and> unat (tm_period (tk_heap s a)) < 2 ^ 31"
    using that act by (simp add: os_timer_get_remaining_ms_def os_get_tick_count_def sint_pos_u32)
  obtain s2 where s2: "os_timer_stop (Some a) s1 = Some (OS_OK, s2)"
      "timer_rel s2 (remove1 a (ins_timer (expires s1) a (remove1 a ts)))" "\<not> tm_active (tk_heap s2 a)"
    using os_timer_stop_done [OF s1(2), of a] by blast
  have "a \<notin> set (remove1 a ts)" using assms chain_distinct by (auto simp: timer_rel_def set_remove1_eq)
  then have "remove1 a (ins_timer (expires s1) a (remove1 a ts)) = remove1 a ts" by (rule remove1_ins_timer)
  then show ?thesis using s1(1-3) rem s2 by (auto simp: os_timer_get_remaining_ms_def)
qed

theorem timer_start_stop_witness:
  "\<exists>s1. os_timer_start (Some 3) (demo_timers 0xFFFFFFFE) = Some (OS_OK, s1) \<and> os_timer_get_remaining_ms (Some 3) s1 = 5"
  using timer_start_stop [OF demo_timers_rel, of 3 "0xFFFFFFFE"] by (auto simp: demo_timer_def)

text \<open>C8. The tick handler. The conditions: every active timer expires within half the range of the
  tick counter around now, without a wrap-around in between; every auto-reload timer that has expired has
  a period of at least 1 and at most half the range, whose end is before the wrap-around; callbacks leave
  the timers and the interrupt mask alone. Then \<^verbatim>\<open>os_timer_process\<close> returns, has called the
  callbacks of exactly the expired timers, each once and in the order of expiry, and keeps active exactly
  the timers that have not expired and those that reload, the latter to expire one period from now.\<close>

theorem timer_process_fires:
  assumes "timer_rel s ts" and "calls_only g cb" and "now = k_tick_count s"
    and "\<And>b. b \<in> set ts \<Longrightarrow> in_window now (expires s b)"
    and "\<And>b. b \<in> set ts \<Longrightarrow> expires s b \<le> now \<Longrightarrow> reload_ok now (tk_heap s b)"
  shows "\<exists>s' ts'. os_timer_process cb s = Some s' \<and> timer_rel s' ts' \<and> k_primask s' = k_primask s \<and>
     timers.more s' = run_calls g (tk_heap s) (filter (\<lambda>b. expires s b \<le> now) ts) (timers.more s) \<and>
     set ts' = {b \<in> set ts. now < expires s b \<or> tm_type (tk_heap s b) = TIMER_AUTO_RELOAD} \<and>
     expires s' = (\<lambda>b. if b \<in> set ts \<and> expires s b \<le> now \<and> tm_type (tk_heap s b) = TIMER_AUTO_RELOAD
                      then now + tm_period (tk_heap s b) else expires s b)"
  using assms by (rule os_timer_process_rel)

text \<open>Two timers started at tick 100 and processed at tick 120.\<close>

lemma demo_started:
  obtains s1 s2 where "os_timer_start (Some 3) (demo_timers now) = Some (OS_OK, s1)"
    and "os_timer_start (Some 2) s1 = Some (OS_OK, s2)"
    and "timer_rel s2 (if now + 5 \<le> now + 20 then [3, 2] else [2, 3])"
    and "expires s2 3 = now + 5" and "expires s2 2 = now + 20" and "k_tick_count s2 = now"
    and "timers.more s2 = []" and "\<And>b. tconf (tk_heap s2 b) = tconf (tk_heap (demo_timers now) b)"
proof -
  obtain s1 where s1: "os_timer_start (Some 3) (demo_timers now) = Some (OS_OK, s1)"
      "timer_rel s1 (ins_timer (expires s1) 3 (remove1 3 []))"
      "expires s1 = (expires (demo_timers now))(3 := k_tick_count (demo_timers now) + tm_period (tk_heap (demo_timers now) 3))"
      "tframe (demo_timers now) s1" "\<And>b. tconf (tk_heap s1 b) = tconf (tk_heap (demo_timers now) b)"
    using os_timer_start_rel [OF demo_timers_rel, of 3 now] by blast
  have rel1: "timer_rel s1 [3]" using s1(2) by simp
  obtain s2 where s2: "os_timer_start (Some 2) s1 = Some (OS_OK, s2)"
      "timer_rel s2 (ins_timer (expires s2) 2 (remove1 2 [3]))"
      "expires s2 = (expires s1)(2 := k_tick_count s1 + tm_period (tk_heap s1 2))"
      "tframe s1 s2" "\<And>b. tconf (tk_heap s2 b) = tconf (tk_heap s1 b)"
    using os_timer_start_rel [OF rel1, of 2] by blast
  have p: "tm_period (tk_heap s1 2) = 20" using tconf_eqD(2) [OF s1(5) [of 2]] by (simp add: demo_timer_def)
  have e: "expires s2 3 = now + 5" "expires s2 2 = now + 20"
    using s1(3,4) s2(3) p by (simp_all add: tframe_def demo_timer_def)
  have ins: "ins_timer (expires s2) 2 (remove1 2 [3]) = (if now + 5 \<le> now + 20 then [3, 2] else [2, 3])"
    using e by simp
  show thesis
    by (rule that [OF s1(1) s2(1) s2(2) [unfolded ins] e])
      (use s1(4,5) s2(4,5) in \<open>simp_all add: tframe_def\<close>)
qed

lemma timer_rel_tick [simp]: "timer_rel (s\<lparr>k_tick_count := n\<rparr>) ts \<longleftrightarrow> timer_rel s ts"
  by (simp add: timer_rel_def tm_nexts_def [abs_def] expires_def [abs_def])

lemma expires_tick [simp]: "expires (s\<lparr>k_tick_count := n\<rparr>) = expires s"
  by (auto simp: expires_def)

theorem timer_process_fires_witness:
  "\<exists>s1 s2 s' ts'. os_timer_start (Some 3) (demo_timers 100) = Some (OS_OK, s1) \<and>
     os_timer_start (Some 2) s1 = Some (OS_OK, s2) \<and>
     os_timer_process cb_log (s2\<lparr>k_tick_count := 120\<rparr>) = Some s' \<and> timer_rel s' ts' \<and>
     timers.more s' = [16, 32] \<and> set ts' = {2} \<and> expires s' 2 = 140"
proof -
  obtain s1 s2 where s: "os_timer_start (Some 3) (demo_timers 100) = Some (OS_OK, s1)"
      "os_timer_start (Some 2) s1 = Some (OS_OK, s2)" "timer_rel s2 [3, 2]" "expires s2 3 = 105" "expires s2 2 = 120"
      "timers.more s2 = []" "\<And>b. tconf (tk_heap s2 b) = tconf (tk_heap (demo_timers 100) b)"
    by (rule demo_started [of 100]) simp
  let ?s = "s2\<lparr>k_tick_count := 120\<rparr>"
  have c2: "tm_type (tk_heap s2 2) = TIMER_AUTO_RELOAD" "tm_period (tk_heap s2 2) = 20" "tm_callback (tk_heap s2 2) = 32"
    and c3: "tm_type (tk_heap s2 3) = TIMER_ONE_SHOT" "tm_callback (tk_heap s2 3) = 16"
    using tconf_eqD [OF s(7) [of 2]] tconf_eqD [OF s(7) [of 3]] by (simp_all add: demo_timer_def zero_timer_def)
  have w: "in_window 120 (expires ?s b)" if "b \<in> set [3, 2]" for b
    using that s(4,5) by (auto simp: in_window_def)
  have ok: "reload_ok 120 (tk_heap ?s b)" if "b \<in> set [3, 2]" for b
    using that c2 c3 by (auto simp: reload_ok_def)
  have rel: "timer_rel ?s [3, 2]" using s(3) by simp
  have now: "120 = k_tick_count ?s" by simp
  obtain s' ts' where
      s': "os_timer_process cb_log ?s = Some s'" "timer_rel s' ts'"
      "timers.more s' = run_calls (\<lambda>f p l. l @ [f]) (tk_heap ?s) (filter (\<lambda>b. expires ?s b \<le> 120) [3, 2]) (timers.more ?s)"
      "set ts' = {b \<in> set [3, 2]. 120 < expires ?s b \<or> tm_type (tk_heap ?s b) = TIMER_AUTO_RELOAD}"
      "expires s' = (\<lambda>b. if b \<in> set [3, 2] \<and> expires ?s b \<le> 120 \<and> tm_type (tk_heap ?s b) = TIMER_AUTO_RELOAD
                      then 120 + tm_period (tk_heap ?s b) else expires ?s b)"
    using timer_process_fires [OF rel cb_log_calls now] w ok by blast
  have "timers.more s' = [16, 32]" unfolding s'(3) using s(4,5,6) c2 c3 by (simp add: run_calls_def)
  moreover have "set ts' = {2}" unfolding s'(4) using s(4,5) c2 c3 by auto
  moreover have "expires s' 2 = 140" unfolding s'(5) using s(5) c2 by simp
  ultimately show ?thesis using s(1,2) s'(1,2) by blast
qed

text \<open>Wrap-around defeats the order of the list: with timers of 5 and 20 ms started at tick
  \<open>0xFFFFFFF6\<close>, the second one expires at tick 10 and is sorted in front of the first; seven
  ticks later the first timer is due, but \<^verbatim>\<open>os_timer_process\<close> stops at the second one and
  fires nothing.\<close>

theorem timer_wraparound_late:
  "\<exists>s1 s2. os_timer_start (Some 3) (demo_timers 0xFFFFFFF6) = Some (OS_OK, s1) \<and>
     os_timer_start (Some 2) s1 = Some (OS_OK, s2) \<and>
     (let s = s2\<lparr>k_tick_count := 0xFFFFFFFD\<rparr> in
      tm_active (tk_heap s 3) \<and> due (k_tick_count s) (expires s 3) \<and> os_timer_process cb s = Some s)"
proof -
  obtain s1 s2 where s: "os_timer_start (Some 3) (demo_timers 0xFFFFFFF6) = Some (OS_OK, s1)"
      "os_timer_start (Some 2) s1 = Some (OS_OK, s2)" "timer_rel s2 [2, 3]" "expires s2 3 = 0xFFFFFFFB" "expires s2 2 = 10"
    by (rule demo_started [of "0xFFFFFFF6"]) simp
  have "tk_active_timers s2 = Some 2" "tm_active (tk_heap s2 3)" using s(3) by (simp_all add: timer_rel_def)
  moreover have "timer_process_loop cb 0xFFFFFFFD st None (Some 2) t = Some (st, t)"
    if "tm_expire_time (tk_heap t 2) = 10" for st t
    using that by (subst timer_process_loop.simps) simp
  moreover have "due 0xFFFFFFFD (expires s2 3)" using s(4) by (simp add: due_def)
  ultimately show ?thesis
    using s(1,2,5) by (auto simp: os_timer_process_def critical_defs os_get_tick_count_def expires_def Let_def)
qed

text \<open>An auto-reload timer whose period exceeds half the counter range hangs the tick handler:
  once it is due, the reloaded expiry is due again and \<^verbatim>\<open>os_timer_process\<close> never returns.\<close>

theorem timer_long_period_hangs:
  assumes "timer_rel s [a]" and "calls_only g cb" and "due (k_tick_count s) (expires s a)"
    and "tm_type (tk_heap s a) = TIMER_AUTO_RELOAD" and "2 ^ 31 < unat (tm_period (tk_heap s a))"
  shows "os_timer_process cb s = None"
proof -
  let ?now = "k_tick_count s" and ?s0 = "s\<lparr>k_primask := 1\<rparr>"
  have "stuck ?now a ?s0" using assms(1,3,4) due_reload_long [OF assms(5)] by (simp add: stuck_def)
  then have "timer_process_loop cb ?now (k_primask s) None (tk_active_timers ?s0) ?s0 \<noteq> Some r" for r
    using timer_loop_diverges [of cb ?now "k_primask s" None "tk_active_timers ?s0" ?s0 r g a] assms(2) by blast
  then have "timer_process_loop cb ?now (k_primask s) None (tk_active_timers ?s0) ?s0 = None"
    by (metis not_None_eq)
  then show ?thesis by (simp add: os_timer_process_def critical_defs os_get_tick_count_def)
qed

theorem timer_long_period_hangs_witness:
  "\<exists>s1. os_timer_start (Some 4) (demo_timers 0) = Some (OS_OK, s1) \<and>
     os_timer_process cb_log (s1\<lparr>k_tick_count := 0x90000000\<rparr>) = None"
proof -
  obtain s1 where s1: "os_timer_start (Some 4) (demo_timers 0) = Some (OS_OK, s1)"
      "timer_rel s1 (ins_timer (expires s1) 4 (remove1 4 []))"
      "expires s1 = (expires (demo_timers 0))(4 := k_tick_count (demo_timers 0) + tm_period (tk_heap (demo_timers 0) 4))"
      "\<And>b. tconf (tk_heap s1 b) = tconf (tk_heap (demo_timers 0) b)"
    using os_timer_start_rel [OF demo_timers_rel, of 4 0] by blast
  let ?s = "s1\<lparr>k_tick_count := 0x90000000\<rparr>"
  have "timer_rel ?s [4]" using s1(2) by simp
  moreover have "due (k_tick_count ?s) (expires ?s 4)" using s1(3) by (simp add: due_def demo_timer_def)
  moreover have "tm_type (tk_heap ?s 4) = TIMER_AUTO_RELOAD" "2 ^ 31 < unat (tm_period (tk_heap ?s 4))"
    using tconf_eqD(1,2) [OF s1(4) [of 4]] by (simp_all add: demo_timer_def)
  ultimately show ?thesis using timer_long_period_hangs [OF _ cb_log_calls] s1(1) by blast
qed

end
