(* ===== verification/Memory.thy ===== *)
theory Memory
  imports Tasks
begin

text \<open>
  The heap allocator of \<^verbatim>\<open>src/memory.c\<close>. A header \<^verbatim>\<open>memory_block_t\<close> (12 bytes on the 32-bit
  target: \<^verbatim>\<open>next\<close>, \<^verbatim>\<open>allocated\<close>, \<^verbatim>\<open>size\<close>) may stand at every 32-byte boundary of the pool, and
  \<open>mp_hdr s a\<close> is what a read of a header at the address \<open>a\<close> of the pool gives: the header the
  allocator wrote there or, inside an allocated block, the data of the application.

  \<^verbatim>\<open>pool\<close> is the first member of the static struct \<^verbatim>\<open>mem\<close>, so a header read at its end sees the
  members behind it; \<open>None\<close> is an access outside of the struct, or a loop that does not end.
\<close>

section \<open>Data\<close>

definition MEMORY_POOL_SIZE :: nat where "MEMORY_POOL_SIZE = 4096"
definition BLOCK_SIZE :: u32 where "BLOCK_SIZE = 32"
definition NUM_BLOCKS :: nat where "NUM_BLOCKS = MEMORY_POOL_SIZE div 32"
definition HEADER_SIZE :: u32 where "HEADER_SIZE = 12"

lemmas mem_consts = MEMORY_POOL_SIZE_def BLOCK_SIZE_def NUM_BLOCKS_def HEADER_SIZE_def

record memory_block =
  mb_next :: ptr
  mb_allocated :: bool
  mb_size :: u32

record memory = kernel +
  mp_pool :: addr
  mp_hdr :: "addr \<Rightarrow> memory_block"
  mp_free_list :: ptr
  mp_free_bytes :: u32
  mp_allocated_bytes :: u32
  mp_allocation_count :: u32
  mp_free_count :: u32

definition in_pool :: "addr \<Rightarrow> 'a memory_scheme \<Rightarrow> bool" where
  "in_pool a s \<longleftrightarrow> mp_pool s \<le> a \<and> a + 12 \<le> mp_pool s + MEMORY_POOL_SIZE"

definition load_block :: "addr \<Rightarrow> 'a memory_scheme \<Rightarrow> memory_block option" where
  "load_block a s =
    (if in_pool a s then Some (mp_hdr s a)
     else if a = mp_pool s + MEMORY_POOL_SIZE
     then Some \<lparr>mb_next = mp_free_list s, mb_allocated = (mp_free_bytes s AND 0xFF \<noteq> 0), mb_size = mp_allocated_bytes s\<rparr>
     else None)"

definition upd_block :: "addr \<Rightarrow> (memory_block \<Rightarrow> memory_block) \<Rightarrow> 'a memory_scheme \<Rightarrow> 'a memory_scheme option" where
  "upd_block a f s =
    (if in_pool a s then Some (s\<lparr>mp_hdr := (mp_hdr s)(a := f (mp_hdr s a))\<rparr>) else None)"

section \<open>Initialisation\<close>

definition zero_block :: memory_block where
  "zero_block = \<lparr>mb_next = None, mb_allocated = False, mb_size = 0\<rparr>"

text \<open>The loop of \<^verbatim>\<open>os_mem_init\<close>: \<open>n\<close> more blocks before the last one.\<close>

fun mem_init_loop :: "nat \<Rightarrow> addr \<Rightarrow> 'a memory_scheme \<Rightarrow> 'a memory_scheme option" where
  "mem_init_loop 0 current s =
     upd_block current (\<lambda>b. b\<lparr>mb_allocated := False, mb_size := BLOCK_SIZE, mb_next := None\<rparr>) s"
| "mem_init_loop (Suc n) current s =
     (case upd_block current (\<lambda>b. b\<lparr>mb_allocated := False, mb_size := BLOCK_SIZE,
                                 mb_next := Some (current + unat BLOCK_SIZE)\<rparr>) s of
        None \<Rightarrow> None
      | Some s \<Rightarrow> mem_init_loop n (current + unat BLOCK_SIZE) s)"

definition os_mem_init :: "'a memory_scheme \<Rightarrow> 'a memory_scheme option" where
  "os_mem_init s =
    (let s = s\<lparr>mp_hdr := (\<lambda>_. zero_block), mp_free_list := Some (mp_pool s),
               mp_free_bytes := of_nat MEMORY_POOL_SIZE, mp_allocated_bytes := 0,
               mp_allocation_count := 0, mp_free_count := 0\<rparr>
     in mem_init_loop (NUM_BLOCKS - 1) (mp_pool s) s)"

section \<open>Allocation\<close>

text \<open>The inner loop of \<^verbatim>\<open>os_malloc\<close>: how many bytes from \<open>check\<close> on are free, as far as they are needed.\<close>

partial_function (option) mem_available :: "'a memory_scheme \<Rightarrow> u32 \<Rightarrow> addr \<Rightarrow> u32 \<Rightarrow> u32 option" where
  "mem_available s total_size check available = do {
     c \<leftarrow> load_block check s;
     (if \<not> mb_allocated c \<and> available < total_size
      then mem_available s total_size (check + unat BLOCK_SIZE) (available + BLOCK_SIZE)
      else Some available) }"

text \<open>The outer loop: the block that is used and its predecessor in the list.\<close>

partial_function (option) mem_find ::
    "'a memory_scheme \<Rightarrow> u32 \<Rightarrow> ptr \<Rightarrow> ptr \<Rightarrow> (ptr \<times> addr) option option" where
  "mem_find s total_size prev block =
    (if block = None then Some None
     else do {
       let a = the block;
       b \<leftarrow> load_block a s;
       available \<leftarrow> (if mb_allocated b then Some 0 else mem_available s total_size a 0);
       (if \<not> mb_allocated b \<and> available \<ge> total_size then Some (Some (prev, a))
        else mem_find s total_size (Some a) (mb_next b)) })"

definition mem_unlink :: "ptr \<Rightarrow> addr \<Rightarrow> 'a memory_scheme \<Rightarrow> 'a memory_scheme option" where
  "mem_unlink prev rest s =
    (case prev of
       None \<Rightarrow> Some (s\<lparr>mp_free_list := Some rest\<rparr>)
     | Some p \<Rightarrow> upd_block p (\<lambda>b. b\<lparr>mb_next := Some rest\<rparr>) s)"

definition mem_total_size :: "u32 \<Rightarrow> u32" where
  "mem_total_size req = (req + HEADER_SIZE + BLOCK_SIZE - 1) div BLOCK_SIZE * BLOCK_SIZE"

definition os_malloc :: "u32 \<Rightarrow> 'a memory_scheme \<Rightarrow> (ptr \<times> 'a memory_scheme) option" where
  "os_malloc req s =
    (if req = 0 \<or> req > of_nat MEMORY_POOL_SIZE then Some (None, s)
     else do {
       let (st, s) = os_enter_critical s;
       let total_size = mem_total_size req;
       r \<leftarrow> mem_find s total_size None (mp_free_list s);
       (case r of
          None \<Rightarrow> Some (None, os_exit_critical st s)
        | Some (prev, block) \<Rightarrow> do {
            s \<leftarrow> upd_block block (\<lambda>b. b\<lparr>mb_allocated := True, mb_size := total_size\<rparr>) s;
            s \<leftarrow> mem_unlink prev (block + unat total_size) s;
            let s = s\<lparr>mp_free_bytes := mp_free_bytes s - total_size,
                      mp_allocated_bytes := mp_allocated_bytes s + total_size,
                      mp_allocation_count := mp_allocation_count s + 1\<rparr>;
            Some (Some (block + unat HEADER_SIZE), os_exit_critical st s) }) })"

section \<open>Release\<close>

partial_function (option) mem_coalesce :: "ptr \<Rightarrow> 'a memory_scheme \<Rightarrow> 'a memory_scheme option" where
  "mem_coalesce cur s =
    (if cur = None then Some s
     else do {
       let a = the cur;
       c \<leftarrow> load_block a s;
       let neighbor = a + unat (mb_size c);
       (if neighbor < mp_pool s + MEMORY_POOL_SIZE
        then do {
          n \<leftarrow> load_block neighbor s;
          (if \<not> mb_allocated n
           then do {
             s \<leftarrow> upd_block a (\<lambda>b. b\<lparr>mb_size := mb_size b + mb_size n, mb_next := mb_next n\<rparr>) s;
             mem_coalesce cur s }
           else mem_coalesce (mb_next c) s) }
        else mem_coalesce (mb_next c) s) })"

definition os_free :: "ptr \<Rightarrow> 'a memory_scheme \<Rightarrow> 'a memory_scheme option" where
  "os_free p s =
    (case p of
       None \<Rightarrow> Some s
     | Some p \<Rightarrow> do {
         let (st, s) = os_enter_critical s;
         let a = p - unat HEADER_SIZE;
         b \<leftarrow> (if p < unat HEADER_SIZE then None else load_block a s);
         (if \<not> mb_allocated b then Some (os_exit_critical st s)
          else do {
            s \<leftarrow> upd_block a (\<lambda>b. b\<lparr>mb_allocated := False, mb_next := mp_free_list s\<rparr>) s;
            let s = s\<lparr>mp_free_bytes := mp_free_bytes s + mb_size b,
                      mp_allocated_bytes := mp_allocated_bytes s - mb_size b,
                      mp_free_count := mp_free_count s + 1, mp_free_list := Some a\<rparr>;
            s \<leftarrow> mem_coalesce (mp_free_list s) s;
            Some (os_exit_critical st s) }) })"

section \<open>Statistics\<close>

definition os_get_free_memory :: "'a memory_scheme \<Rightarrow> u32" where
  "os_get_free_memory s = mp_free_bytes s"

text \<open>The four results of \<^verbatim>\<open>os_get_memory_stats\<close>, each stored only where the caller gave an address.\<close>

definition os_get_memory_stats ::
    "bool \<Rightarrow> bool \<Rightarrow> bool \<Rightarrow> bool \<Rightarrow> 'a memory_scheme \<Rightarrow> u32 option \<times> u32 option \<times> u32 option \<times> u32 option" where
  "os_get_memory_stats free used allocs frees s =
    (if free then Some (mp_free_bytes s) else None,
     if used then Some (mp_allocated_bytes s) else None,
     if allocs then Some (mp_allocation_count s) else None,
     if frees then Some (mp_free_count s) else None)"

end
