(* ===== verification/Memory_Spec.thy ===== *)
theory Memory_Spec
  imports Memory Kernel_Spec
begin

text \<open>
  Properties of the heap allocator: consecutive allocation from the untouched part of the pool;
  release of the last block, and that its memory is served again; what happens at the end of the
  pool; and what becomes of the data in freed blocks.
\<close>

section \<open>The untouched part of the pool\<close>

definition fresh_block :: "addr \<Rightarrow> nat \<Rightarrow> memory_block" where
  "fresh_block p off = \<lparr>mb_next = (if off + 32 < 4096 then Some (p + off + 32) else None), mb_allocated = False, mb_size = 32\<rparr>"

text \<open>From offset \<open>32 * j\<close> on the headers are those of the initialisation.\<close>

definition untouched :: "'a memory_scheme \<Rightarrow> nat \<Rightarrow> bool" where
  "untouched s j \<longleftrightarrow> (\<forall>k. j \<le> k \<and> k < 128 \<longrightarrow> mp_hdr s (mp_pool s + 32 * k) = fresh_block (mp_pool s) (32 * k))"

lemma untouchedD: "untouched s j \<Longrightarrow> j \<le> k \<Longrightarrow> k < 128 \<Longrightarrow> mp_hdr s (mp_pool s + 32 * k) = fresh_block (mp_pool s) (32 * k)"
  by (simp add: untouched_def)

lemma in_pool_block [simp]: "in_pool (mp_pool s + 32 * k) s \<longleftrightarrow> k < 128"
  by (auto simp: in_pool_def mem_consts)

lemma unat_blocks: "i \<le> 200 \<Longrightarrow> unat (of_nat (32 * i) :: u32) = 32 * i"
  by (simp only: unat_of_nat) simp

lemma unat_HEADER: "unat HEADER_SIZE = 12"
  by (simp add: HEADER_SIZE_def)

text \<open>Advancing by one block.\<close>

lemma next_block: "a + 32 * j + unat BLOCK_SIZE = a + 32 * Suc j" "of_nat (32 * i) + BLOCK_SIZE = of_nat (32 * Suc i)"
  by (simp_all add: BLOCK_SIZE_def)

lemma untouched_mono: "untouched s j \<Longrightarrow> j \<le> i \<Longrightarrow> untouched s i"
  by (simp add: untouched_def)

lemma untouched_upd: "untouched (s\<lparr>mp_hdr := (mp_hdr s)(mp_pool s + 32 * i := h)\<rparr>) j \<longleftrightarrow> untouched s j" if "i < j"
  using that by (auto simp: untouched_def)

lemma mem_init_loop_untouched:
  "j + n = 127 \<Longrightarrow> \<exists>h. mem_init_loop n (mp_pool s + 32 * j) s = Some (s\<lparr>mp_hdr := h\<rparr>) \<and>
     untouched (s\<lparr>mp_hdr := h\<rparr>) j \<and> (\<forall>a < mp_pool s + 32 * j. h a = mp_hdr s a)"
proof (induction n arbitrary: j s)
  case 0
  then have j: "j = 127" by simp
  show ?case unfolding j
    by (auto simp: upd_block_def untouched_def fresh_block_def mem_consts in_pool_def le_less_Suc_eq
        intro!: exI [of _ "(mp_hdr s)(mp_pool s + 4064 := b)" for b])
next
  case (Suc n)
  let ?a = "mp_pool s + 32 * j"
  let ?s = "s\<lparr>mp_hdr := (mp_hdr s)(?a := fresh_block (mp_pool s) (32 * j))\<rparr>"
  have upd: "upd_block ?a (\<lambda>b. b\<lparr>mb_allocated := False, mb_size := BLOCK_SIZE, mb_next := Some (?a + unat BLOCK_SIZE)\<rparr>) s = Some ?s"
    using Suc.prems by (cases "mp_hdr s ?a") (simp add: upd_block_def fresh_block_def mem_consts)
  obtain h where h: "mem_init_loop n (mp_pool ?s + 32 * Suc j) ?s = Some (?s\<lparr>mp_hdr := h\<rparr>)"
      "untouched (?s\<lparr>mp_hdr := h\<rparr>) (Suc j)" "\<And>a. a < mp_pool ?s + 32 * Suc j \<Longrightarrow> h a = mp_hdr ?s a"
    using Suc.IH [of "Suc j" ?s] Suc.prems by auto
  have "mem_init_loop (Suc n) ?a s = Some (s\<lparr>mp_hdr := h\<rparr>)"
    using upd h(1) by (simp add: next_block del: mult_Suc_right)
  moreover have "untouched (s\<lparr>mp_hdr := h\<rparr>) j"
    unfolding untouched_def
  proof (intro allI impI)
    fix k assume "j \<le> k \<and> k < 128"
    then show "mp_hdr (s\<lparr>mp_hdr := h\<rparr>) (mp_pool (s\<lparr>mp_hdr := h\<rparr>) + 32 * k) = fresh_block (mp_pool (s\<lparr>mp_hdr := h\<rparr>)) (32 * k)"
      using h(2) h(3) [of ?a] by (cases "k = j") (auto simp: untouched_def)
  qed
  moreover have "\<forall>a < ?a. h a = mp_hdr s a" using h(3) by simp
  ultimately show ?case by blast
qed

lemma os_mem_init_untouched:
  "\<exists>s0. os_mem_init s = Some s0 \<and> untouched s0 0 \<and> mp_pool s0 = mp_pool s \<and> mp_free_list s0 = Some (mp_pool s) \<and>
     mp_free_bytes s0 = 4096 \<and> mp_allocated_bytes s0 = 0"
proof -
  let ?s = "s\<lparr>mp_hdr := (\<lambda>_. zero_block), mp_free_list := Some (mp_pool s), mp_free_bytes := of_nat MEMORY_POOL_SIZE,
      mp_allocated_bytes := 0, mp_allocation_count := 0, mp_free_count := 0\<rparr>"
  obtain h where "mem_init_loop 127 (mp_pool ?s + 32 * 0) ?s = Some (?s\<lparr>mp_hdr := h\<rparr>)" "untouched (?s\<lparr>mp_hdr := h\<rparr>) 0"
    using mem_init_loop_untouched [of 0 127 ?s] by auto
  then show ?thesis by (auto simp: os_mem_init_def mem_consts)
qed

section \<open>Allocation from the untouched part\<close>

lemma load_untouched:
  assumes "untouched s j" and "j \<le> k" and "k < 128"
  shows "load_block (mp_pool s + 32 * k) s = Some (fresh_block (mp_pool s) (32 * k))"
  using untouchedD [OF assms] assms(3) by (simp add: load_block_def)

lemma load_end: "load_block (mp_pool s + 4096) s = Some \<lparr>mb_next = mp_free_list s,
    mb_allocated = (mp_free_bytes s AND 0xFF \<noteq> 0), mb_size = mp_allocated_bytes s\<rparr>"
  by (simp add: load_block_def in_pool_def mem_consts)

lemma mem_available_untouched:
  assumes "untouched s j" and "j \<le> k" and "i \<le> n" and "k + (n - i) \<le> 128" and "n \<le> 129"
  shows "mem_available s (of_nat (32 * n)) (mp_pool s + 32 * k) (of_nat (32 * i)) = Some (of_nat (32 * n))"
  using assms
proof (induction "n - i" arbitrary: k i)
  case 0
  then have "i = n" by simp
  have "\<exists>c. load_block (mp_pool s + 32 * k) s = Some c"
    using load_untouched [OF assms(1) "0.prems"(2)] load_end [of s] "0.prems"(4) by (cases "k = 128") auto
  then show ?case using \<open>i = n\<close> by (subst mem_available.simps) auto
next
  case (Suc d)
  have lt: "(of_nat (32 * i) :: u32) < of_nat (32 * n)"
    using Suc(2) assms(5) unat_blocks [of i] unat_blocks [of n] by (simp only: word_less_nat_alt)
  have "mem_available s (of_nat (32 * n)) (mp_pool s + 32 * Suc k) (of_nat (32 * Suc i)) = Some (of_nat (32 * n))"
    using Suc by (intro Suc.hyps(1)) auto
  then show ?case
    using lt load_untouched [OF assms(1) Suc.prems(2)] Suc(2) Suc.prems
    by (subst mem_available.simps) (simp add: fresh_block_def next_block del: mult_Suc_right of_nat_mult)
qed

definition nblocks :: "u32 \<Rightarrow> nat" where
  "nblocks req = (unat req + 43) div 32"

lemma mem_total_size_blocks:
  assumes "unat req \<le> 4096"
  shows "mem_total_size req = of_nat (32 * nblocks req)" and "nblocks req \<le> 129" and "nblocks req > 0"
    and "unat req + 12 \<le> 32 * nblocks req"
proof -
  have "unat (req + 43) = unat req + 43" using assms by (subst unat_add_u32) auto
  then have d: "unat ((req + 43) div 32) = nblocks req" by (simp add: unat_div nblocks_def)
  moreover have "nblocks req * 32 < 4294967296" using assms by (simp add: nblocks_def)
  ultimately have "unat ((req + 43) div 32 * 32) = 32 * nblocks req" by (subst unat_mult_u32) auto
  then have "unat (mem_total_size req) = 32 * nblocks req" by (simp add: mem_total_size_def mem_consts add.commute)
  then show "mem_total_size req = of_nat (32 * nblocks req)" 
    using unat_blocks [of "nblocks req"] assms by (simp add: word_unat_eq_iff nblocks_def del: of_nat_mult)
qed (use assms in \<open>auto simp: nblocks_def\<close>)

text \<open>A request that is served from the block at the front of the list.\<close>

lemma os_malloc_first:
  assumes "untouched s (Suc j)" and free: "\<not> mb_allocated (mp_hdr s (mp_pool s + 32 * j))"
    and "mp_free_list s = Some (mp_pool s + 32 * j)" and "req \<noteq> 0" and fits: "j + nblocks req \<le> 128"
  shows "os_malloc req s = Some (Some (mp_pool s + 32 * j + 12),
     s\<lparr>mp_hdr := (mp_hdr s)(mp_pool s + 32 * j :=
         (mp_hdr s (mp_pool s + 32 * j))\<lparr>mb_allocated := True, mb_size := of_nat (32 * nblocks req)\<rparr>),
       mp_free_list := Some (mp_pool s + 32 * (j + nblocks req)),
       mp_free_bytes := mp_free_bytes s - of_nat (32 * nblocks req),
       mp_allocated_bytes := mp_allocated_bytes s + of_nat (32 * nblocks req),
       mp_allocation_count := mp_allocation_count s + 1\<rparr>)"
proof -
  let ?s = "s\<lparr>k_primask := 1\<rparr>"
  have small: "unat req \<le> 4096" using fits by (simp add: nblocks_def)
  note n = mem_total_size_blocks [OF small]
  have j: "j < 128" using fits n(3) by simp
  have "untouched ?s (Suc j)" using assms(1) by (simp add: untouched_def)
  then have av: "mem_available ?s (of_nat (32 * nblocks req)) (mp_pool ?s + 32 * Suc j) (of_nat (32 * 1)) = Some (of_nat (32 * nblocks req))"
    using fits n(2,3) by (intro mem_available_untouched) auto
  have step: "mp_pool ?s + 32 * Suc j = mp_pool s + 32 * j + unat BLOCK_SIZE" "(of_nat (32 * 1) :: u32) = 0 + BLOCK_SIZE"
    by (simp_all add: BLOCK_SIZE_def)
  have ld: "load_block (mp_pool s + 32 * j) ?s = Some (mp_hdr s (mp_pool s + 32 * j))" using j by (simp add: load_block_def in_pool_def mem_consts)
  have "(0 :: u32) < of_nat (32 * nblocks req)" using n(2,3) unat_blocks [of "nblocks req"] by (simp add: word_less_nat_alt)
  then have "mem_available ?s (of_nat (32 * nblocks req)) (mp_pool s + 32 * j) 0 = Some (of_nat (32 * nblocks req))"
    using av [unfolded step] ld free by (subst mem_available.simps) simp
  then have "mem_find ?s (mem_total_size req) None (mp_free_list s) = Some (Some (None, mp_pool s + 32 * j))"
    using ld free by (subst mem_find.simps) (simp add: assms(3) n(1))
  moreover have "\<not> 4096 < req" using small by (simp add: word_less_nat_alt)
  ultimately show ?thesis
    using assms(4) j unat_blocks [of "nblocks req"] fits
    by (simp add: os_malloc_def critical_defs n(1) upd_block_def in_pool_def mem_unlink_def unat_HEADER MEMORY_POOL_SIZE_def algebra_simps)
qed

lemma os_malloc_untouched:
  assumes "untouched s j" and "mp_free_list s = Some (mp_pool s + 32 * j)" and "req \<noteq> 0"
    and fits: "j + nblocks req \<le> 128"
  shows "os_malloc req s = Some (Some (mp_pool s + 32 * j + 12),
     s\<lparr>mp_hdr := (mp_hdr s)(mp_pool s + 32 * j := (fresh_block (mp_pool s) (32 * j))\<lparr>mb_allocated := True, mb_size := of_nat (32 * nblocks req)\<rparr>),
       mp_free_list := Some (mp_pool s + 32 * (j + nblocks req)),
       mp_free_bytes := mp_free_bytes s - of_nat (32 * nblocks req),
       mp_allocated_bytes := mp_allocated_bytes s + of_nat (32 * nblocks req),
       mp_allocation_count := mp_allocation_count s + 1\<rparr>)"
proof -
  have "0 < nblocks req" by (simp add: nblocks_def)
  then have h: "mp_hdr s (mp_pool s + 32 * j) = fresh_block (mp_pool s) (32 * j)" using untouchedD [OF assms(1), of j] fits by simp
  have "untouched s (Suc j)" using assms(1) by (rule untouched_mono) simp
  then show ?thesis using os_malloc_first [OF _ _ assms(2,3) fits] unfolding h by (simp add: fresh_block_def)
qed

section \<open>Sequences of requests\<close>

fun mallocs :: "u32 list \<Rightarrow> 'a memory_scheme \<Rightarrow> (ptr list \<times> 'a memory_scheme) option" where
  "mallocs [] s = Some ([], s)"
| "mallocs (r # rs) s = do {
     (p, s) \<leftarrow> os_malloc r s;
     (ps, s) \<leftarrow> mallocs rs s;
     Some (p # ps, s) }"

definition need :: "u32 list \<Rightarrow> nat" where
  "need rs = sum_list (map nblocks rs)"

lemma mallocs_untouched:
  assumes "untouched s j" and "mp_free_list s = Some (mp_pool s + 32 * j)" and "0 \<notin> set rs" and "j + need rs \<le> 128"
  shows "\<exists>as s'. mallocs rs s = Some (map Some as, s') \<and> length as = length rs \<and>
     sorted_wrt (\<lambda>(a, r) (b, q). a + unat r + 12 \<le> b) (zip as rs) \<and>
     (\<forall>(a, r) \<in> set (zip as rs). mp_pool s + 32 * j + 12 \<le> a \<and> a + unat r \<le> mp_pool s + 4096) \<and>
     untouched s' (j + need rs) \<and> mp_pool s' = mp_pool s \<and> mp_free_list s' = Some (mp_pool s + 32 * (j + need rs)) \<and>
     mp_free_bytes s' = mp_free_bytes s - of_nat (32 * need rs)"
  using assms
proof (induction rs arbitrary: s j)
  case Nil
  then show ?case by (simp add: need_def)
next
  case (Cons r rs)
  have fits: "j + nblocks r \<le> 128" using Cons.prems by (simp add: need_def)
  then have "unat r \<le> 4096" by (simp add: nblocks_def)
  note n = mem_total_size_blocks [OF this]
  obtain s1 where s1: "os_malloc r s = Some (Some (mp_pool s + 32 * j + 12), s1)" "mp_pool s1 = mp_pool s"
      "untouched s1 (j + nblocks r)" "mp_free_list s1 = Some (mp_pool s + 32 * (j + nblocks r))"
      "mp_free_bytes s1 = mp_free_bytes s - of_nat (32 * nblocks r)"
    using os_malloc_untouched [OF Cons.prems(1,2) _ fits] Cons.prems(1,3) n(3) by (simp add: untouched_def)
  obtain as s' where as: "mallocs rs s1 = Some (map Some as, s')" "length as = length rs"
      "sorted_wrt (\<lambda>(a, r) (b, q). a + unat r + 12 \<le> b) (zip as rs)"
      "\<forall>(a, q) \<in> set (zip as rs). mp_pool s1 + 32 * (j + nblocks r) + 12 \<le> a \<and> a + unat q \<le> mp_pool s1 + 4096"
      "untouched s' (j + nblocks r + need rs)" "mp_pool s' = mp_pool s1"
      "mp_free_list s' = Some (mp_pool s1 + 32 * (j + nblocks r + need rs))"
      "mp_free_bytes s' = mp_free_bytes s1 - of_nat (32 * need rs)"
    using Cons.IH [OF s1(3)] s1(2,4) Cons.prems(3,4) by (auto simp: need_def)
  let ?as = "(mp_pool s + 32 * j + 12) # as"
  have "mallocs (r # rs) s = Some (map Some ?as, s')" using s1(1) as(1) by simp
  moreover have "sorted_wrt (\<lambda>(a, r) (b, q). a + unat r + 12 \<le> b) (zip ?as (r # rs))"
    using as(3,4) n(4) s1(2) by fastforce
  moreover have "\<forall>(a, r) \<in> set (zip ?as (r # rs)). mp_pool s + 32 * j + 12 \<le> a \<and> a + unat r \<le> mp_pool s + 4096"
    using as(4) n(4) s1(2) fits by fastforce
  ultimately show ?case
    using as(2,5-8) s1(2,5) by (intro exI [of _ ?as] exI [of _ s']) (simp add: need_def algebra_simps)
qed

text \<open>The end of the pool: \<open>free_list\<close> points behind it.\<close>

lemma os_malloc_at_end:
  assumes "mp_free_list s = Some (mp_pool s + 4096)" and "mp_free_bytes s = 0" and "req \<noteq> 0" and "unat req \<le> 4096"
  shows "os_malloc req s = None"
proof -
  let ?s = "s\<lparr>k_primask := 1\<rparr>"
  note n = mem_total_size_blocks [OF assms(4)]
  have pos: "0 < mem_total_size req" using n(2,3) unat_blocks [of "nblocks req"] by (simp add: n(1) word_less_nat_alt)
  have "mem_available ?s (mem_total_size req) (mp_pool ?s + 4096 + 32) 32 = None"
    by (subst mem_available.simps) (simp add: load_block_def in_pool_def mem_consts)
  then have "mem_available ?s (mem_total_size req) (mp_pool ?s + 4096) 0 = None"
    using pos load_end [of ?s] assms(2) by (subst mem_available.simps) (simp add: BLOCK_SIZE_def)
  then have "mem_find ?s (mem_total_size req) None (mp_free_list s) = None"
    using load_end [of ?s] assms(1,2) by (subst mem_find.simps) simp
  moreover have "\<not> 4096 < req" using assms(4) by (simp add: word_less_nat_alt)
  ultimately show ?thesis using assms(3) by (simp add: os_malloc_def critical_defs mem_consts)
qed

section \<open>Coalescing\<close>

lemma mem_coalesce_step:
  assumes "load_block a s = Some b" and "a + unat (mb_size b) = nb" and "nb < mp_pool s + 4096"
    and "load_block nb s = Some n" and "\<not> mb_allocated n"
    and "upd_block a (\<lambda>b. b\<lparr>mb_size := mb_size b + mb_size n, mb_next := mb_next n\<rparr>) s = Some s1"
  shows "mem_coalesce (Some a) s = mem_coalesce (Some a) s1"
  using assms by (subst mem_coalesce.simps) (simp add: Let_def MEMORY_POOL_SIZE_def)

text \<open>A free block whose end meets the untouched part absorbs all of it.\<close>

lemma mem_coalesce_untouched:
  assumes "untouched s j" and "i < j" and "j \<le> 128" and "mp_hdr s (mp_pool s + 32 * i) = b"
    and "mb_size b = of_nat (32 * (j - i))" and "j = 128 \<longrightarrow> mb_next b = None"
  shows "mem_coalesce (Some (mp_pool s + 32 * i)) s = Some (s\<lparr>mp_hdr := (mp_hdr s)(mp_pool s + 32 * i :=
     b\<lparr>mb_size := of_nat (32 * (128 - i)), mb_next := None\<rparr>)\<rparr>)"
  using assms
proof (induction "128 - j" arbitrary: j s b)
  case 0
  let ?a = "mp_pool s + 32 * i"
  have j: "j = 128" using 0 by simp
  have nb: "?a + unat (mb_size b) = mp_pool s + 4096" using "0.prems" j unat_blocks [of "128 - i"] by (simp del: of_nat_mult)
  have ld: "load_block ?a s = Some b" using "0.prems" j by (simp add: load_block_def)
  have "mem_coalesce (mb_next b) s = Some s" using "0.prems"(6) j by (subst mem_coalesce.simps) simp
  then have "mem_coalesce (Some ?a) s = Some s"
    using ld nb by (subst mem_coalesce.simps) (simp add: mem_consts)
  moreover have "b = b\<lparr>mb_size := of_nat (32 * (128 - i)), mb_next := None\<rparr>" using "0.prems"(5,6) j by (cases b) simp
  ultimately show ?case using "0.prems"(4) by (metis fun_upd_triv memory.surjective memory.update_convs(2))
next
  case (Suc d)
  let ?a = "mp_pool s + 32 * i" and ?n = "fresh_block (mp_pool s) (32 * j)"
  let ?b = "b\<lparr>mb_size := of_nat (32 * (Suc j - i)), mb_next := mb_next ?n\<rparr>"
  let ?s = "s\<lparr>mp_hdr := (mp_hdr s)(?a := ?b)\<rparr>"
  have j: "j < 128" using Suc by simp
  have nb: "?a + unat (mb_size b) = mp_pool s + 32 * j"
    using Suc.prems(2,5) j unat_blocks [of "j - i"] by (simp del: of_nat_mult)
  have ld: "load_block ?a s = Some b" using Suc.prems j by (simp add: load_block_def)
  have "b\<lparr>mb_size := mb_size b + mb_size ?n, mb_next := mb_next ?n\<rparr> = ?b"
    using Suc.prems(2,5) by (simp add: fresh_block_def Suc_diff_le)
  then have upd: "upd_block ?a (\<lambda>b. b\<lparr>mb_size := mb_size b + mb_size ?n, mb_next := mb_next ?n\<rparr>) s = Some ?s"
    using Suc.prems(2,4) j by (simp add: upd_block_def)
  have "mem_coalesce (Some ?a) s = mem_coalesce (Some ?a) ?s"
    by (rule mem_coalesce_step [OF ld nb _ load_untouched [OF Suc.prems(1) order_refl j] _ upd])
      (use j in \<open>simp_all add: fresh_block_def\<close>)
  moreover have "mem_coalesce (Some (mp_pool ?s + 32 * i)) ?s = Some (?s\<lparr>mp_hdr := (mp_hdr ?s)(mp_pool ?s + 32 * i :=
     ?b\<lparr>mb_size := of_nat (32 * (128 - i)), mb_next := None\<rparr>)\<rparr>)"
    using Suc by (intro Suc.hyps(1) [of "Suc j"]) (auto simp: untouched_def fresh_block_def)
  ultimately show ?case by simp
qed

text \<open>Releasing the block before the untouched part: the rest of the pool becomes one free block.\<close>

lemma os_free_last:
  assumes un: "untouched s (i + n)" and n: "0 < n" "i + n < 128"
    and h: "mp_hdr s (mp_pool s + 32 * i) = b" "mb_allocated b" "mb_size b = of_nat (32 * n)"
  shows "os_free (Some (mp_pool s + 32 * i + 12)) s = Some (s\<lparr>mp_hdr := (mp_hdr s)(mp_pool s + 32 * i :=
       \<lparr>mb_next = None, mb_allocated = False, mb_size = of_nat (32 * (128 - i))\<rparr>),
     mp_free_list := Some (mp_pool s + 32 * i), mp_free_bytes := mp_free_bytes s + of_nat (32 * n),
     mp_allocated_bytes := mp_allocated_bytes s - of_nat (32 * n), mp_free_count := mp_free_count s + 1\<rparr>)"
proof -
  let ?a = "mp_pool s + 32 * i" and ?f = "b\<lparr>mb_allocated := False, mb_next := mp_free_list s\<rparr>"
  define m where "m = s\<lparr>k_primask := 1, mp_hdr := (mp_hdr s)(?a := ?f), mp_free_bytes := mp_free_bytes s + of_nat (32 * n),
     mp_allocated_bytes := mp_allocated_bytes s - of_nat (32 * n), mp_free_count := mp_free_count s + 1, mp_free_list := Some ?a\<rparr>"
  have "untouched m (i + n)" using un n(1) by (auto simp: untouched_def m_def)
  then have co: "mem_coalesce (Some (mp_pool m + 32 * i)) m = Some (m\<lparr>mp_hdr := (mp_hdr m)(mp_pool m + 32 * i :=
      ?f\<lparr>mb_size := of_nat (32 * (128 - i)), mb_next := None\<rparr>)\<rparr>)"
    using n h by (intro mem_coalesce_untouched [of m "i + n"]) (auto simp: m_def)
  have eq: "?f\<lparr>mb_size := of_nat (32 * (128 - i)), mb_next := None\<rparr> = \<lparr>mb_next = None, mb_allocated = False, mb_size = of_nat (32 * (128 - i))\<rparr>"
    by (cases b) simp
  have "in_pool ?a (s\<lparr>k_primask := 1\<rparr>)" using n by (simp add: in_pool_def mem_consts)
  then have "os_free (Some (?a + 12)) s = map_option (os_exit_critical (k_primask s)) (mem_coalesce (Some ?a) m)"
    using h by (simp add: os_free_def critical_defs load_block_def upd_block_def HEADER_SIZE_def m_def map_option_case Option.bind_def split: option.splits)
  moreover have "mem_coalesce (Some ?a) m = Some (m\<lparr>mp_hdr := (mp_hdr m)(?a :=
      \<lparr>mb_next = None, mb_allocated = False, mb_size = of_nat (32 * (128 - i))\<rparr>)\<rparr>)"
    using co unfolding eq by (simp add: m_def)
  ultimately show ?thesis by (simp add: m_def os_exit_critical_def)
qed

text \<open>A block that is free already is not released again.\<close>

lemma os_free_twice:
  assumes "in_pool a s" and "\<not> mb_allocated (mp_hdr s a)"
  shows "os_free (Some (a + 12)) s = Some s"
  using assms by (simp add: os_free_def critical_defs load_block_def in_pool_def HEADER_SIZE_def)

text \<open>When the free list starts behind the pool, its first element is read from the members of
  \<^verbatim>\<open>mem\<close> behind the pool, and its \<^verbatim>\<open>next\<close> is the free list itself: the walk runs in a circle.\<close>

definition circle :: "addr \<Rightarrow> 'a memory_scheme \<Rightarrow> bool" where
  "circle a s \<longleftrightarrow> (\<exists>b. load_block a s = Some b \<and> mb_next b = Some (mp_pool s + 4096) \<and>
     (let nb = a + unat (mb_size b) in nb < mp_pool s + 4096 \<longrightarrow> (\<exists>n. load_block nb s = Some n \<and> mb_allocated n))) \<and>
     mp_free_list s = Some a"

lemma mem_coalesce_circle:
  "mem_coalesce cur s = Some s' \<Longrightarrow> circle a s \<Longrightarrow> cur = Some a \<or> cur = Some (mp_pool s + 4096) \<Longrightarrow> False"
proof (induction cur s s' rule: mem_coalesce.raw_induct [rotated, consumes 1, case_names Step])
  case (Step f cur s s')
  note IH = Step(1) and body = Step(2)
  obtain b where b: "load_block a s = Some b" "mb_next b = Some (mp_pool s + 4096)" "mp_free_list s = Some a"
      "\<not> a + unat (mb_size b) < mp_pool s + 4096 \<or> (\<exists>n. load_block (a + unat (mb_size b)) s = Some n \<and> mb_allocated n)"
    using Step(3) by (auto simp: circle_def Let_def)
  from Step(4) show False
  proof
    assume "cur = Some a"
    then have "f (Some (mp_pool s + 4096)) s = Some s'" using body b by (auto simp: Let_def MEMORY_POOL_SIZE_def split: if_splits)
    then show False using IH Step(3) by blast
  next
    assume "cur = Some (mp_pool s + 4096)"
    then have "f (Some a) s = Some s'" using body load_end [of s] b(3) by (auto simp: Let_def MEMORY_POOL_SIZE_def)
    then show False using IH Step(3) by blast
  qed
qed

lemma os_free_circle:
  assumes "mp_free_list s = Some (mp_pool s + 4096)" and "in_pool a s" and "mb_allocated (mp_hdr s a)"
    and "mp_pool s + 4096 \<le> a + unat (mb_size (mp_hdr s a))"
  shows "os_free (Some (a + 12)) s = None"
proof -
  let ?b = "mp_hdr s a"
  let ?s = "s\<lparr>k_primask := 1, mp_hdr := (mp_hdr s)(a := ?b\<lparr>mb_allocated := False, mb_next := mp_free_list s\<rparr>),
     mp_free_bytes := mp_free_bytes s + mb_size ?b, mp_allocated_bytes := mp_allocated_bytes s - mb_size ?b,
     mp_free_count := mp_free_count s + 1, mp_free_list := Some a\<rparr>"
  have "circle a ?s" using assms by (simp add: circle_def load_block_def in_pool_def Let_def)
  then have "mem_coalesce (Some a) ?s \<noteq> Some s'" for s' using mem_coalesce_circle by blast
  then have "mem_coalesce (Some a) ?s = None" by (metis not_None_eq)
  then show ?thesis
    using assms(2,3) by (simp add: os_free_def critical_defs load_block_def upd_block_def in_pool_def HEADER_SIZE_def)
qed

text \<open>A single free block in the list, whose second unit does not look free.\<close>

lemma os_malloc_blocked:
  assumes "mp_free_list s = Some (mp_pool s)" and "\<not> mb_allocated (mp_hdr s (mp_pool s))"
    and "mb_next (mp_hdr s (mp_pool s)) = None" and "mb_allocated (mp_hdr s (mp_pool s + 32))"
    and "20 < unat q" and "unat q \<le> 4096"
  shows "os_malloc q s = Some (None, s)"
proof -
  let ?s = "s\<lparr>k_primask := 1\<rparr>" and ?T = "mem_total_size q"
  have "32 < 32 * nblocks q" using assms(5) by (simp add: nblocks_def)
  then have T: "32 < ?T" "0 < ?T"
    using unat_blocks [of "nblocks q"] mem_total_size_blocks [OF assms(6)] by (simp_all add: word_less_nat_alt del: of_nat_mult)
  have ld: "load_block (mp_pool s) ?s = Some (mp_hdr s (mp_pool s))" "load_block (mp_pool s + 32) ?s = Some (mp_hdr s (mp_pool s + 32))"
    by (simp_all add: load_block_def in_pool_def mem_consts)
  have "mem_available ?s ?T (mp_pool s + 32) 32 = Some 32" using ld(2) assms(4) by (subst mem_available.simps) simp
  then have "mem_available ?s ?T (mp_pool s) 0 = Some 32"
    using ld(1) assms(2) T(2) by (subst mem_available.simps) (simp add: BLOCK_SIZE_def)
  moreover have "mem_find ?s ?T (Some (mp_pool s)) None = Some None" by (subst mem_find.simps) simp
  ultimately have "mem_find ?s ?T None (mp_free_list s) = Some None"
    using ld(1) assms(1-3) T(1) by (subst mem_find.simps) (simp add: Let_def not_le [symmetric])
  moreover have "q \<noteq> 0" "\<not> 4096 < q" using assms(5,6) by (auto simp: word_less_nat_alt)
  ultimately show ?thesis by (simp add: os_malloc_def critical_defs MEMORY_POOL_SIZE_def)
qed

section \<open>Properties\<close>

definition boot_pool :: memory where
  "boot_pool = kernel.extend boot_memory (memory.fields 0x2000 (\<lambda>_. zero_block) None 0 0 0 0)"

text \<open>C19. Release and reuse: after any requests that leave at least one block free, releasing the memory
  of the last request, into which nothing was written at a block boundary, gives its bytes back,
  joins its block with the rest of the pool to one free block, and leaves the blocks of the earlier
  requests alone; a second release of the same memory changes nothing; and the next request that
  fits into the rest of the pool gets the same memory.\<close>

theorem release_and_reuse:
  assumes "0 \<notin> set rs" and "r \<noteq> 0" and "need rs + nblocks r < NUM_BLOCKS"
  shows "\<exists>s0 as s1 a s2 s3. os_mem_init s = Some s0 \<and> mallocs rs s0 = Some (map Some as, s1) \<and>
     os_malloc r s1 = Some (Some (a + 12), s2) \<and> os_free (Some (a + 12)) s2 = Some s3 \<and>
     os_get_free_memory s3 = os_get_free_memory s1 \<and> mp_allocated_bytes s3 = mp_allocated_bytes s1 \<and>
     mp_free_list s3 = Some a \<and>
     mp_hdr s3 a = \<lparr>mb_next = None, mb_allocated = False, mb_size = of_nat (32 * (NUM_BLOCKS - need rs))\<rparr> \<and>
     (\<forall>b < a. mp_hdr s3 b = mp_hdr s1 b) \<and> os_free (Some (a + 12)) s3 = Some s3 \<and>
     (\<forall>q. q \<noteq> 0 \<and> need rs + nblocks q \<le> NUM_BLOCKS \<longrightarrow> (\<exists>s4. os_malloc q s3 = Some (Some (a + 12), s4)))"
proof -
  define j n where "j = need rs" and "n = nblocks r"
  have n: "0 < n" "j + n < 128" using assms(3) by (simp_all add: j_def n_def nblocks_def mem_consts)
  obtain s0 where s0: "os_mem_init s = Some s0" "untouched s0 0" "mp_free_list s0 = Some (mp_pool s0 + 32 * 0)"
    using os_mem_init_untouched [of s] by auto
  have "0 + need rs \<le> 128" using n by (simp add: j_def)
  from mallocs_untouched [OF s0(2,3) assms(1) this] obtain as s1 where s1: "mallocs rs s0 = Some (map Some as, s1)"
      "untouched s1 j" "mp_free_list s1 = Some (mp_pool s1 + 32 * j)" unfolding j_def by auto
  let ?a = "mp_pool s1 + 32 * j"
  obtain s2 where s2: "os_malloc r s1 = Some (Some (?a + 12), s2)" "mp_pool s2 = mp_pool s1" "untouched s2 (j + n)"
      "mp_free_bytes s2 = mp_free_bytes s1 - of_nat (32 * n)" "mp_allocated_bytes s2 = mp_allocated_bytes s1 + of_nat (32 * n)"
      "mp_hdr s2 = (mp_hdr s1)(?a := (fresh_block (mp_pool s1) (32 * j))\<lparr>mb_allocated := True, mb_size := of_nat (32 * n)\<rparr>)"
    using os_malloc_untouched [OF s1(2,3) assms(2)] s1(2) n by (simp add: n_def [symmetric] untouched_def)
  define s3 where "s3 = s2\<lparr>mp_hdr := (mp_hdr s2)(?a := \<lparr>mb_next = None, mb_allocated = False, mb_size = of_nat (32 * (128 - j))\<rparr>),
     mp_free_list := Some ?a, mp_free_bytes := mp_free_bytes s1, mp_allocated_bytes := mp_allocated_bytes s1, mp_free_count := mp_free_count s2 + 1\<rparr>"
  have free: "os_free (Some (?a + 12)) s2 = Some s3"
    using os_free_last [OF s2(3) n refl] s2(2,4,5,6) by (simp add: s3_def)
  have "in_pool ?a s3" using n s2(2) by (simp add: s3_def in_pool_def mem_consts)
  then have "os_free (Some (?a + 12)) s3 = Some s3" by (rule os_free_twice) (simp add: s3_def)
  moreover have "untouched s3 (Suc j)" using s1(2) s2(2,6) by (auto simp: s3_def untouched_def)
  then have "\<exists>s4. os_malloc q s3 = Some (Some (?a + 12), s4)" if "q \<noteq> 0 \<and> need rs + nblocks q \<le> NUM_BLOCKS" for q
    using os_malloc_first [of s3 j q] that s2(2) by (simp add: s3_def j_def mem_consts)
  moreover have "\<forall>b < ?a. mp_hdr s3 b = mp_hdr s1 b" using s2(6) by (simp add: s3_def)
  ultimately show ?thesis using s0(1) s1(1) s2(1) free
    by (intro exI [of _ s0] exI [of _ as] exI [of _ s1] exI [of _ ?a] exI [of _ s2] exI [of _ s3])
      (simp add: os_get_free_memory_def s3_def j_def NUM_BLOCKS_def MEMORY_POOL_SIZE_def)
qed

theorem release_and_reuse_witness:
  "\<exists>s0 as s1 a s2 s3 s4. os_mem_init boot_pool = Some s0 \<and> mallocs [100, 60] s0 = Some (map Some as, s1) \<and>
     os_malloc 500 s1 = Some (Some a, s2) \<and> os_free (Some a) s2 = Some s3 \<and> os_get_free_memory s3 = os_get_free_memory s1 \<and>
     os_free (Some a) s3 = Some s3 \<and> os_malloc 3000 s3 = Some (Some a, s4)"
proof -
  have n: "need [100, 60] = 7" "nblocks 500 = 16" "nblocks 3000 = 95" by (simp_all add: need_def nblocks_def)
  obtain s0 as s1 a s2 s3 where s: "os_mem_init boot_pool = Some s0" "mallocs [100, 60] s0 = Some (map Some as, s1)"
      "os_malloc 500 s1 = Some (Some (a + 12), s2)" "os_free (Some (a + 12)) s2 = Some s3" "os_get_free_memory s3 = os_get_free_memory s1"
      "os_free (Some (a + 12)) s3 = Some s3"
      "\<forall>q. q \<noteq> 0 \<and> need [100, 60] + nblocks q \<le> NUM_BLOCKS \<longrightarrow> (\<exists>s4. os_malloc q s3 = Some (Some (a + 12), s4))"
    using release_and_reuse [of "[100, 60]" 500 boot_pool] n(1,2) by (auto simp: mem_consts)
  obtain s4 where "os_malloc 3000 s3 = Some (Some (a + 12), s4)" using s(7) [rule_format, of 3000] n(1,3) by (auto simp: mem_consts)
  then show ?thesis using s(1-6) by blast
qed

text \<open>C20. Requests served from the initialised pool get consecutive blocks: as long as the rounded
  sizes fit into the 128 blocks, every request succeeds, the blocks lie inside the pool, and
  the memory of each request ends at least a header before the memory of every later one.\<close>

theorem malloc_consecutive:
  assumes "0 \<notin> set rs" and "need rs \<le> NUM_BLOCKS"
  shows "\<exists>s0 as s'. os_mem_init s = Some s0 \<and> mallocs rs s0 = Some (map Some as, s') \<and> length as = length rs \<and>
     sorted_wrt (\<lambda>(a, r) (b, q). a + unat r + 12 \<le> b) (zip as rs) \<and>
     (\<forall>(a, r) \<in> set (zip as rs). mp_pool s + 12 \<le> a \<and> a + unat r \<le> mp_pool s + MEMORY_POOL_SIZE) \<and>
     os_get_free_memory s' = of_nat (32 * (NUM_BLOCKS - need rs))"
proof -
  obtain s0 where s0: "os_mem_init s = Some s0" "untouched s0 0" "mp_pool s0 = mp_pool s"
      "mp_free_list s0 = Some (mp_pool s0 + 32 * 0)" "mp_free_bytes s0 = 4096"
    using os_mem_init_untouched [of s] by auto
  have "0 + need rs \<le> 128" using assms(2) by (simp add: mem_consts)
  from mallocs_untouched [OF s0(2,4) assms(1) this] obtain as s' where as: "mallocs rs s0 = Some (map Some as, s')"
      "length as = length rs" "sorted_wrt (\<lambda>(a, r) (b, q). a + unat r + 12 \<le> b) (zip as rs)"
      "\<forall>(a, r) \<in> set (zip as rs). mp_pool s0 + 32 * 0 + 12 \<le> a \<and> a + unat r \<le> mp_pool s0 + 4096"
      "mp_free_bytes s' = mp_free_bytes s0 - of_nat (32 * need rs)" by blast
  have "mp_free_bytes s' = of_nat (32 * (NUM_BLOCKS - need rs))"
    using as(5) s0(5) assms(2) by (simp add: mem_consts)
  then show ?thesis using as(1-4) s0(1,3) by (auto simp: os_get_free_memory_def MEMORY_POOL_SIZE_def)
qed

theorem malloc_consecutive_witness:
  "\<exists>s0 a b s'. os_mem_init boot_pool = Some s0 \<and> mallocs [100, 2000] s0 = Some ([Some a, Some b], s') \<and> a + 112 \<le> b"
  using malloc_consecutive [of "[100, 2000]" boot_pool] by (auto simp: need_def nblocks_def mem_consts length_Suc_conv)

text \<open>Exhausting the pool: after requests that use up exactly the whole pool, the free list
  points behind the pool. The next valid \<^verbatim>\<open>os_malloc\<close> reads memory outside of the allocator instead of returning \<^verbatim>\<open>NULL\<close>.\<close>

theorem malloc_exhausted:
  assumes "0 \<notin> set rs" and "need rs = NUM_BLOCKS" and "r \<noteq> 0" and "unat r \<le> MEMORY_POOL_SIZE"
  shows "\<exists>s0 ps s'. os_mem_init s = Some s0 \<and> mallocs rs s0 = Some (ps, s') \<and> os_malloc r s' = None"
proof -
  obtain s0 where s0: "os_mem_init s = Some s0" "untouched s0 0"
      "mp_free_list s0 = Some (mp_pool s0 + 32 * 0)" "mp_free_bytes s0 = 4096"
    using os_mem_init_untouched [of s] by auto
  have n: "need rs = 128" using assms(2) by (simp add: mem_consts)
  then have "0 + need rs \<le> 128" by simp
  from mallocs_untouched [OF s0(2,3) assms(1) this] obtain as s' where "mallocs rs s0 = Some (map Some as, s')"
      "mp_pool s' = mp_pool s0" "mp_free_list s' = Some (mp_pool s0 + 32 * (0 + need rs))"
      "mp_free_bytes s' = mp_free_bytes s0 - of_nat (32 * need rs)" by blast
  with n s0(1,4) os_malloc_at_end [of s' r] assms(3,4) show ?thesis by (auto simp: MEMORY_POOL_SIZE_def)
qed

theorem malloc_exhausted_witness:
  "\<exists>s0 ps s'. os_mem_init boot_pool = Some s0 \<and> mallocs [2036, 2036] s0 = Some (ps, s') \<and> os_malloc 4 s' = None"
  using malloc_exhausted [of "[2036, 2036]" 4 boot_pool] by (simp add: need_def nblocks_def mem_consts)

text \<open>Releasing a block that fills the whole pool never returns: its \<^verbatim>\<open>next\<close> is the free list
  behind the pool, and what is read there as \<^verbatim>\<open>next\<close> leads back to the block.\<close>

theorem free_whole_pool_hangs:
  assumes "nblocks r = NUM_BLOCKS"
  shows "\<exists>s0 s1. os_mem_init s = Some s0 \<and> os_malloc r s0 = Some (Some (mp_pool s + 12), s1) \<and>
     os_free (Some (mp_pool s + 12)) s1 = None"
proof -
  obtain s0 where s0: "os_mem_init s = Some s0" "untouched s0 0" "mp_pool s0 = mp_pool s" "mp_free_list s0 = Some (mp_pool s0 + 32 * 0)"
    using os_mem_init_untouched [of s] by auto
  have n: "nblocks r = 128" "r \<noteq> 0" using assms by (auto simp: mem_consts nblocks_def)
  obtain s1 where s1: "os_malloc r s0 = Some (Some (mp_pool s0 + 12), s1)" "mp_pool s1 = mp_pool s0"
      "mp_free_list s1 = Some (mp_pool s0 + 4096)"
      "mp_hdr s1 (mp_pool s0) = (fresh_block (mp_pool s0) 0)\<lparr>mb_allocated := True, mb_size := 4096\<rparr>"
    using os_malloc_untouched [OF s0(2,4) n(2)] n(1) by simp
  then have "os_free (Some (mp_pool s0 + 12)) s1 = None"
    by (intro os_free_circle) (auto simp: in_pool_def mem_consts)
  then show ?thesis using s0(1,3) s1(1) by auto
qed

theorem free_whole_pool_hangs_witness:
  "\<exists>s0 s1. os_mem_init boot_pool = Some s0 \<and> os_malloc 4084 s0 = Some (Some (mp_pool boot_pool + 12), s1) \<and>
     os_free (Some (mp_pool boot_pool + 12)) s1 = None"
  using free_whole_pool_hangs [of 4084 boot_pool] by (simp add: nblocks_def mem_consts)

text \<open>Data of the application outlives its block and is taken for a header: allocate more than
  20 bytes, write a word that reads as \<^verbatim>\<open>allocated\<close> at the next block boundary, and release the
  memory again. All 4096 bytes are free, yet every request of more than 20 bytes now fails.\<close>

theorem freed_data_blocks_heap:
  assumes "20 < unat r" and "unat r \<le> 4052" and "20 < unat q" and "unat q \<le> MEMORY_POOL_SIZE" and "mb_allocated h"
  shows "\<exists>s0 s1 s2. os_mem_init s = Some s0 \<and> os_malloc r s0 = Some (Some (mp_pool s + 12), s1) \<and>
     os_free (Some (mp_pool s + 12)) (s1\<lparr>mp_hdr := (mp_hdr s1)(mp_pool s + 32 := h)\<rparr>) = Some s2 \<and>
     os_get_free_memory s2 = 4096 \<and> os_malloc q s2 = Some (None, s2)"
proof -
  define n where "n = nblocks r"
  have n: "1 < n" "n < 128" "r \<noteq> 0" using assms(1,2) by (auto simp: nblocks_def n_def)
  obtain s0 where s0: "os_mem_init s = Some s0" "untouched s0 0" "mp_pool s0 = mp_pool s"
      "mp_free_list s0 = Some (mp_pool s0 + 32 * 0)" "mp_free_bytes s0 = 4096"
    using os_mem_init_untouched [of s] by auto
  define b where "b = (fresh_block (mp_pool s) 0)\<lparr>mb_allocated := True, mb_size := of_nat (32 * n)\<rparr>"
  obtain s1 where s1: "os_malloc r s0 = Some (Some (mp_pool s + 12), s1)" "mp_pool s1 = mp_pool s" "untouched s1 n"
      "mp_free_list s1 = Some (mp_pool s + 32 * n)" "mp_free_bytes s1 = 4096 - of_nat (32 * n)" "mp_hdr s1 (mp_pool s) = b"
    using os_malloc_untouched [OF s0(2,4) n(3)] n s0(2,3,5) by (auto simp: untouched_def n_def b_def)
  let ?s1 = "s1\<lparr>mp_hdr := (mp_hdr s1)(mp_pool s + 32 := h)\<rparr>"
  have un: "untouched ?s1 (0 + n)" using s1(2,3) n(1) by (auto simp: untouched_def)
  let ?m = "(mp_hdr ?s1)(mp_pool s := \<lparr>mb_next = None, mb_allocated = False, mb_size = 4096\<rparr>)"
  define s2 where "s2 = ?s1\<lparr>mp_hdr := ?m, mp_free_list := Some (mp_pool s), mp_free_bytes := 4096,
     mp_allocated_bytes := mp_allocated_bytes s1 - of_nat (32 * n), mp_free_count := mp_free_count s1 + 1\<rparr>"
  have "os_free (Some (mp_pool ?s1 + 32 * 0 + 12)) ?s1 = Some s2"
    using os_free_last [OF un, of b] n s1(2,5,6) by (simp add: s2_def b_def)
  then have "os_free (Some (mp_pool s + 12)) ?s1 = Some s2" using s1(2) by simp
  moreover have "os_malloc q s2 = Some (None, s2)"
    using assms(3-5) s1(2) by (intro os_malloc_blocked) (auto simp: s2_def MEMORY_POOL_SIZE_def)
  moreover have "os_get_free_memory s2 = 4096" by (simp add: s2_def os_get_free_memory_def)
  ultimately show ?thesis using s0(1) s1(1) by blast
qed

theorem freed_data_blocks_heap_witness:
  "\<exists>s0 s1 s2. os_mem_init boot_pool = Some s0 \<and> os_malloc 40 s0 = Some (Some (mp_pool boot_pool + 12), s1) \<and>
     os_free (Some (mp_pool boot_pool + 12))
       (s1\<lparr>mp_hdr := (mp_hdr s1)(mp_pool boot_pool + 32 := \<lparr>mb_next = None, mb_allocated = True, mb_size = 0\<rparr>)\<rparr>) = Some s2 \<and>
     os_get_free_memory s2 = 4096 \<and> os_malloc 40 s2 = Some (None, s2)"
  by (rule freed_data_blocks_heap) (simp_all add: MEMORY_POOL_SIZE_def)

end
