(* ===== verification/Power_Mgmt.thy ===== *)
theory Power_Mgmt
  imports Tasks Kernel_Spec
begin

text \<open>
  Power management, \<^verbatim>\<open>src/power.c\<close>. The functions of the platform are weak symbols that a board
  overrides, and the callbacks are code of the application: both are arguments of the
  operations, the record \<open>platform\<close>. Enumerations are their integer codes, so that values
  outside of the enumeration are covered as well.
\<close>

section \<open>Data\<close>

type_synonym power_mode = u32
type_synonym wakeup_source = u32

definition POWER_MODE_ACTIVE :: power_mode where "POWER_MODE_ACTIVE = 0"
definition POWER_MODE_IDLE :: power_mode where "POWER_MODE_IDLE = 1"
definition POWER_MODE_SLEEP :: power_mode where "POWER_MODE_SLEEP = 2"
definition POWER_MODE_DEEP_SLEEP :: power_mode where "POWER_MODE_DEEP_SLEEP = 3"
definition POWER_MODE_MAX :: power_mode where "POWER_MODE_MAX = 4"
definition WAKEUP_SOURCE_MAX :: wakeup_source where "WAKEUP_SOURCE_MAX = 8"

lemmas power_consts = POWER_MODE_ACTIVE_def POWER_MODE_IDLE_def POWER_MODE_SLEEP_def
  POWER_MODE_DEEP_SLEEP_def POWER_MODE_MAX_def WAKEUP_SOURCE_MAX_def

record power_config =
  pc_idle_mode_enabled :: bool
  pc_sleep_mode_enabled :: bool
  pc_deep_sleep_threshold_ms :: u32
  pc_cpu_freq_hz :: u32
  pc_min_cpu_freq_hz :: u32
  pc_max_cpu_freq_hz :: u32
  pc_battery_capacity_mah :: u32
  pc_battery_voltage_mv :: u32

record power_stats =
  ps_current_mode :: power_mode
  ps_total_sleep_time_ms :: u32
  ps_total_active_time_ms :: u32
  ps_wakeup_sources :: u32
  ps_power_consumption_mw :: u32
  ps_estimated_battery_life_hours :: u32

record power = kernel +
  pw_current_mode :: power_mode
  pw_config :: power_config
  pw_sleep_ticks :: u32
  pw_wakeup_sources :: u32
  pw_tickless_idle_enabled :: bool
  pw_enter_callback :: u32
  pw_exit_callback :: u32
  pw_total_sleep_time_ms :: u32

record 's platform =
  enter_sleep_mode :: "'s \<Rightarrow> 's"
  enter_deep_sleep_mode :: "'s \<Rightarrow> 's"
  set_clock_frequency :: "u32 \<Rightarrow> 's \<Rightarrow> 's"
  enable_wakeup_source :: "wakeup_source \<Rightarrow> 's \<Rightarrow> 's"
  disable_wakeup_source :: "wakeup_source \<Rightarrow> 's \<Rightarrow> 's"
  get_power_consumption_mw :: "'s \<Rightarrow> u32"
  power_callback :: "u32 \<Rightarrow> power_mode \<Rightarrow> 's \<Rightarrow> 's"

text \<open>The consumption that the weak definition of \<^verbatim>\<open>platform_get_power_consumption_mw\<close> returns.\<close>

definition platform_get_power_consumption_mw :: "'a power_scheme \<Rightarrow> u32" where
  "platform_get_power_consumption_mw s =
    (if pw_current_mode s = POWER_MODE_ACTIVE then 50
     else if pw_current_mode s = POWER_MODE_IDLE then 10
     else if pw_current_mode s = POWER_MODE_SLEEP then 1
     else if pw_current_mode s = POWER_MODE_DEEP_SLEEP then 0
     else 50)"

section \<open>Operations\<close>

definition zero_config :: power_config where
  "zero_config = \<lparr>pc_idle_mode_enabled = False, pc_sleep_mode_enabled = False, pc_deep_sleep_threshold_ms = 0,
     pc_cpu_freq_hz = 0, pc_min_cpu_freq_hz = 0, pc_max_cpu_freq_hz = 0, pc_battery_capacity_mah = 0,
     pc_battery_voltage_mv = 0\<rparr>"

definition os_power_init :: "'a power_scheme \<Rightarrow> 'a power_scheme" where
  "os_power_init s = s\<lparr>pw_current_mode := POWER_MODE_ACTIVE,
     pw_config := zero_config\<lparr>pc_idle_mode_enabled := True, pc_sleep_mode_enabled := True,
                               pc_deep_sleep_threshold_ms := 1000\<rparr>,
     pw_sleep_ticks := 0, pw_wakeup_sources := 0, pw_tickless_idle_enabled := False,
     pw_enter_callback := 0, pw_exit_callback := 0, pw_total_sleep_time_ms := 0\<rparr>"

definition os_power_configure ::
    "'a power_scheme platform \<Rightarrow> power_config option \<Rightarrow> 'a power_scheme \<Rightarrow> os_error \<times> 'a power_scheme" where
  "os_power_configure pf config s =
    (case config of
       None \<Rightarrow> (OS_ERROR_INVALID_PARAM, s)
     | Some c \<Rightarrow>
        let (st, s) = os_enter_critical s;
            s = s\<lparr>pw_config := c\<rparr>;
            s = (if pc_cpu_freq_hz c > 0 then set_clock_frequency pf (pc_cpu_freq_hz c) s else s)
        in (OS_OK, os_exit_critical st s))"

definition os_power_set_mode ::
    "'a power_scheme platform \<Rightarrow> power_mode \<Rightarrow> 'a power_scheme \<Rightarrow> os_error \<times> 'a power_scheme" where
  "os_power_set_mode pf mode s =
    (if mode \<ge> POWER_MODE_MAX then (OS_ERROR_INVALID_PARAM, s)
     else
       let (st, s) = os_enter_critical s;
           old_mode = pw_current_mode s;
           s = (if pw_exit_callback s \<noteq> 0 then power_callback pf (pw_exit_callback s) old_mode s else s);
           s = s\<lparr>pw_current_mode := mode\<rparr>;
           s = (if pw_enter_callback s \<noteq> 0 then power_callback pf (pw_enter_callback s) mode s else s)
       in (OS_OK, os_exit_critical st s))"

definition os_power_get_mode :: "'a power_scheme \<Rightarrow> power_mode" where
  "os_power_get_mode s = pw_current_mode s"

definition os_power_enter_idle :: "'a power_scheme platform \<Rightarrow> 'a power_scheme \<Rightarrow> 'a power_scheme" where
  "os_power_enter_idle pf s = (if \<not> pc_idle_mode_enabled (pw_config s) then s else enter_sleep_mode pf s)"

text \<open>\<^verbatim>\<open>os_power_enter_sleep\<close> and \<^verbatim>\<open>os_power_enter_deep_sleep\<close> share their text except for the mode
  and the function of the platform.\<close>

definition power_sleep ::
    "power_mode \<Rightarrow> ('a power_scheme \<Rightarrow> 'a power_scheme) \<Rightarrow> u32 \<Rightarrow> 'a power_scheme \<Rightarrow> os_error \<times> 'a power_scheme" where
  "power_sleep mode enter_mode duration_ms s =
    (if duration_ms = 0 then (OS_ERROR_INVALID_PARAM, s)
     else if \<not> pc_sleep_mode_enabled (pw_config s) then (OS_ERROR_PERMISSION_DENIED, s)
     else
       let (st, s) = os_enter_critical s;
           old_mode = pw_current_mode s;
           s = s\<lparr>pw_current_mode := mode\<rparr>;
           s = s\<lparr>pw_sleep_ticks := duration_ms * TICK_RATE_HZ div 1000\<rparr>;
           s = os_exit_critical st s;
           s = enter_mode s;
           (st, s) = os_enter_critical s;
           s = s\<lparr>pw_current_mode := old_mode, pw_total_sleep_time_ms := pw_total_sleep_time_ms s + duration_ms\<rparr>
       in (OS_OK, os_exit_critical st s))"

definition os_power_enter_sleep ::
    "'a power_scheme platform \<Rightarrow> u32 \<Rightarrow> 'a power_scheme \<Rightarrow> os_error \<times> 'a power_scheme" where
  "os_power_enter_sleep pf = power_sleep POWER_MODE_SLEEP (enter_sleep_mode pf)"

definition os_power_enter_deep_sleep ::
    "'a power_scheme platform \<Rightarrow> u32 \<Rightarrow> 'a power_scheme \<Rightarrow> os_error \<times> 'a power_scheme" where
  "os_power_enter_deep_sleep pf = power_sleep POWER_MODE_DEEP_SLEEP (enter_deep_sleep_mode pf)"

definition os_power_enable_tickless_idle :: "bool \<Rightarrow> 'a power_scheme \<Rightarrow> os_error \<times> 'a power_scheme" where
  "os_power_enable_tickless_idle enable s =
    (let (st, s) = os_enter_critical s
     in (OS_OK, os_exit_critical st (s\<lparr>pw_tickless_idle_enabled := enable\<rparr>)))"

definition os_power_is_tickless_idle_enabled :: "'a power_scheme \<Rightarrow> bool" where
  "os_power_is_tickless_idle_enabled s = pw_tickless_idle_enabled s"

definition os_power_register_callback :: "u32 \<Rightarrow> u32 \<Rightarrow> 'a power_scheme \<Rightarrow> os_error \<times> 'a power_scheme" where
  "os_power_register_callback enter_callback exit_callback s =
    (let (st, s) = os_enter_critical s
     in (OS_OK, os_exit_critical st (s\<lparr>pw_enter_callback := enter_callback, pw_exit_callback := exit_callback\<rparr>)))"

definition os_power_configure_wakeup ::
    "'a power_scheme platform \<Rightarrow> wakeup_source \<Rightarrow> bool \<Rightarrow> 'a power_scheme \<Rightarrow> os_error \<times> 'a power_scheme" where
  "os_power_configure_wakeup pf source enable s =
    (if source \<ge> WAKEUP_SOURCE_MAX then (OS_ERROR_INVALID_PARAM, s)
     else
       let (st, s) = os_enter_critical s;
           s = (if enable
                then enable_wakeup_source pf source
                       (s\<lparr>pw_wakeup_sources := pw_wakeup_sources s OR push_bit (unat source) 1\<rparr>)
                else disable_wakeup_source pf source
                       (s\<lparr>pw_wakeup_sources := pw_wakeup_sources s AND NOT (push_bit (unat source) 1)\<rparr>))
       in (OS_OK, os_exit_critical st s))"

text \<open>\<open>given\<close>: the caller passed an address for the result and not \<^verbatim>\<open>NULL\<close>.\<close>

definition os_power_get_stats ::
    "'a power_scheme platform \<Rightarrow> bool \<Rightarrow> 'a power_scheme \<Rightarrow> power_stats option \<times> 'a power_scheme" where
  "os_power_get_stats pf given s =
    (if \<not> given then (None, s) else
     let (st, s) = os_enter_critical s;
         consumption = get_power_consumption_mw pf s;
         life = (if pc_battery_capacity_mah (pw_config s) > 0
                 then let battery_mwh = pc_battery_capacity_mah (pw_config s) * pc_battery_voltage_mv (pw_config s) div 1000
                      in if consumption > 0 then battery_mwh div consumption else 0xFFFFFFFF
                 else 0)
     in (Some \<lparr>ps_current_mode = pw_current_mode s,
          ps_total_sleep_time_ms = pw_total_sleep_time_ms s,
          ps_total_active_time_ms = os_get_uptime_ms s - pw_total_sleep_time_ms s,
          ps_wakeup_sources = pw_wakeup_sources s,
          ps_power_consumption_mw = consumption,
          ps_estimated_battery_life_hours = life\<rparr>, os_exit_critical st s))"

definition os_power_set_cpu_frequency ::
    "'a power_scheme platform \<Rightarrow> u32 \<Rightarrow> 'a power_scheme \<Rightarrow> os_error \<times> 'a power_scheme" where
  "os_power_set_cpu_frequency pf freq_hz s =
    (if freq_hz = 0 then (OS_ERROR_INVALID_PARAM, s)
     else
       let (st, s) = os_enter_critical s;
           s = s\<lparr>pw_config := (pw_config s)\<lparr>pc_cpu_freq_hz := freq_hz\<rparr>\<rparr>;
           s = set_clock_frequency pf freq_hz s
       in (OS_OK, os_exit_critical st s))"

definition os_power_get_consumption_mw :: "'a power_scheme platform \<Rightarrow> 'a power_scheme \<Rightarrow> u32" where
  "os_power_get_consumption_mw pf s = get_power_consumption_mw pf s"

definition os_power_estimate_battery_life_hours :: "'a power_scheme platform \<Rightarrow> 'a power_scheme \<Rightarrow> u32" where
  "os_power_estimate_battery_life_hours pf s =
    (if pc_battery_capacity_mah (pw_config s) = 0 then 0
     else
       let power_mw = get_power_consumption_mw pf s
       in if power_mw = 0 then 0xFFFFFFFF
          else
            let battery_mwh = pc_battery_capacity_mah (pw_config s) * pc_battery_voltage_mv (pw_config s) div 1000
            in battery_mwh div power_mw)"

section \<open>Properties\<close>

text \<open>What the operations rely on of the platform: reading the consumption does not depend on the
  interrupt mask, and the functions and callbacks do not touch the state of \<^verbatim>\<open>power.c\<close>.\<close>

definition pw_private :: "'a power_scheme \<Rightarrow> power_mode \<times> power_config \<times> u32 \<times> u32 \<times> bool \<times> u32 \<times> u32 \<times> u32" where
  "pw_private s = (pw_current_mode s, pw_config s, pw_sleep_ticks s, pw_wakeup_sources s, pw_tickless_idle_enabled s,
     pw_enter_callback s, pw_exit_callback s, pw_total_sleep_time_ms s)"

definition keeps_power :: "('a power_scheme \<Rightarrow> 'a power_scheme) \<Rightarrow> bool" where
  "keeps_power f \<longleftrightarrow> (\<forall>s. pw_private (f s) = pw_private s)"

lemma keeps_powerD:
  assumes "keeps_power f"
  shows "pw_current_mode (f s) = pw_current_mode s" "pw_config (f s) = pw_config s" "pw_sleep_ticks (f s) = pw_sleep_ticks s"
    "pw_wakeup_sources (f s) = pw_wakeup_sources s" "pw_total_sleep_time_ms (f s) = pw_total_sleep_time_ms s"
    "pw_enter_callback (f s) = pw_enter_callback s" "pw_exit_callback (f s) = pw_exit_callback s"
    "pw_tickless_idle_enabled (f s) = pw_tickless_idle_enabled s"
  using assms by (simp_all add: keeps_power_def pw_private_def)

text \<open>The weak definitions, on a board where the processor is woken after \<open>n\<close> ticks.\<close>

definition weak_platform :: "u32 \<Rightarrow> power platform" where
  "weak_platform n = \<lparr>enter_sleep_mode = (\<lambda>s. s\<lparr>k_tick_count := k_tick_count s + n\<rparr>),
     enter_deep_sleep_mode = (\<lambda>s. s\<lparr>k_tick_count := k_tick_count s + n\<rparr>), set_clock_frequency = (\<lambda>_ s. s),
     enable_wakeup_source = (\<lambda>_ s. s), disable_wakeup_source = (\<lambda>_ s. s),
     get_power_consumption_mw = platform_get_power_consumption_mw, power_callback = (\<lambda>_ _ s. s)\<rparr>"

definition boot_power :: power where
  "boot_power = os_power_init (kernel.extend boot_memory (power.fields 0 zero_config 0 0 False 0 0 0))"

text \<open>The two computations of the battery life agree, and as long as the product of capacity and
  voltage fits 32 bits they are the exact quotient: \<open>mAh * mV / 1000\<close> milliwatt hours over the consumption.\<close>

theorem battery_life_agrees:
  assumes "\<And>x. get_power_consumption_mw pf (s\<lparr>k_primask := x\<rparr>) = get_power_consumption_mw pf s"
  shows "ps_estimated_battery_life_hours (the (fst (os_power_get_stats pf True s))) = os_power_estimate_battery_life_hours pf s \<and>
     (let c = unat (pc_battery_capacity_mah (pw_config s)); v = unat (pc_battery_voltage_mv (pw_config s));
          w = unat (os_power_get_consumption_mw pf s) in
      c * v < 2 ^ 32 \<and> 0 < w \<longrightarrow> unat (os_power_estimate_battery_life_hours pf s) = c * v div 1000 div w)"
proof -
  let ?c = "pc_battery_capacity_mah (pw_config s)" and ?v = "pc_battery_voltage_mv (pw_config s)"
  have "ps_estimated_battery_life_hours (the (fst (os_power_get_stats pf True s))) = os_power_estimate_battery_life_hours pf s"
    using assms [of 1]
    by (simp add: os_power_get_stats_def os_power_estimate_battery_life_hours_def critical_defs Let_def word_gt_0)
  moreover have "unat (?c * ?v div 1000 div w) = unat ?c * unat ?v div 1000 div unat w"
    if "unat ?c * unat ?v < 2 ^ 32" for w using that by (simp add: unat_div unat_mult_u32)
  ultimately show ?thesis
    by (auto simp: os_power_estimate_battery_life_hours_def os_power_get_consumption_mw_def Let_def)
qed

theorem battery_life_agrees_witness:
  "let s = boot_power\<lparr>pw_config := (pw_config boot_power)\<lparr>pc_battery_capacity_mah := 2000, pc_battery_voltage_mv := 3700\<rparr>\<rparr> in
   ps_estimated_battery_life_hours (the (fst (os_power_get_stats (weak_platform 1) True s))) = 148"
  using battery_life_agrees [of "weak_platform 1"
      "boot_power\<lparr>pw_config := (pw_config boot_power)\<lparr>pc_battery_capacity_mah := 2000, pc_battery_voltage_mv := 3700\<rparr>\<rparr>"]
  by (simp add: weak_platform_def platform_get_power_consumption_mw_def boot_power_def os_power_init_def power_consts
      os_power_estimate_battery_life_hours_def Let_def)

text \<open>A sleep restores the mode and counts the whole requested duration as sleep time, however
  early the processor was woken: when the requested duration exceeds the time the system is
  up, the active time of the statistics wraps around.\<close>

theorem sleep_overcounts:
  assumes "keeps_power (enter_sleep_mode pf)" and "d \<noteq> 0" and "pc_sleep_mode_enabled (pw_config s)"
    and "os_power_enter_sleep pf d s = (e, s')"
  shows "e = OS_OK \<and> pw_current_mode s' = pw_current_mode s \<and> pw_config s' = pw_config s \<and>
     pw_total_sleep_time_ms s' = pw_total_sleep_time_ms s + d \<and>
     (pw_total_sleep_time_ms s = 0 \<and> os_get_uptime_ms s' < d \<longrightarrow>
        os_get_uptime_ms s' < ps_total_active_time_ms (the (fst (os_power_get_stats pf True s'))))"
proof -
  have eq: "e = OS_OK" "pw_current_mode s' = pw_current_mode s" "pw_config s' = pw_config s"
      "pw_total_sleep_time_ms s' = pw_total_sleep_time_ms s + d"
    using assms(2-4) keeps_powerD [OF assms(1)]
    by (auto simp: os_power_enter_sleep_def power_sleep_def critical_defs Let_def)
  have "u < u - d" if "u < d" for u :: u32
  proof -
    have "unat u < unat d" "unat d < 4294967296" using that by (simp_all add: word_less_nat_alt)
    moreover have "unat (u - d) = 4294967296 + unat u - unat d"
      using unat_diff_u32 [of u d] that by (simp add: word_less_nat_alt)
    ultimately have "unat u < unat (u - d)" by linarith
    then show ?thesis by (simp add: word_less_nat_alt)
  qed
  then have "os_get_uptime_ms s' < os_get_uptime_ms s' - d" if "os_get_uptime_ms s' < d" using that by blast
  moreover have "os_get_uptime_ms (s'\<lparr>k_primask := 1\<rparr>) = os_get_uptime_ms s'" by (simp add: os_get_uptime_ms_def)
  ultimately show ?thesis
    using eq by (auto simp: os_power_get_stats_def critical_defs Let_def)
qed

theorem sleep_overcounts_witness:
  "\<exists>s'. os_power_enter_sleep (weak_platform 1) 5000 boot_power = (OS_OK, s') \<and> os_get_uptime_ms s' = 1 \<and>
     1 < ps_total_active_time_ms (the (fst (os_power_get_stats (weak_platform 1) True s')))"
proof -
  let ?r = "os_power_enter_sleep (weak_platform 1) 5000 boot_power"
  have "keeps_power (enter_sleep_mode (weak_platform 1))" by (simp add: keeps_power_def weak_platform_def pw_private_def)
  moreover have "pc_sleep_mode_enabled (pw_config boot_power)" "pw_total_sleep_time_ms boot_power = 0"
    by (simp_all add: boot_power_def os_power_init_def)
  moreover have "os_get_uptime_ms (snd ?r) = 1"
    by (simp add: os_power_enter_sleep_def power_sleep_def critical_defs Let_def boot_power_def os_power_init_def
        weak_platform_def os_get_uptime_ms_def kernel_consts power_consts kernel.defs demo_fields boot_memory_def demo_kernel_def)
  ultimately show ?thesis
    using sleep_overcounts [of "weak_platform 1" 5000 boot_power "fst ?r" "snd ?r"] by (intro exI [of _ "snd ?r"]) (auto simp: prod_eq_iff)
qed

end
