(* ===== verification/Security.thy ===== *)
theory Security
  imports Kernel
begin

text \<open>
  The memory protection unit, \<^verbatim>\<open>src/security.c\<close>. Of the ARMv7-M unit the state has the control
  register, the region number register and, selected by it, the base address and the
  attribute register of every region.
\<close>

section \<open>Registers\<close>

record mpu =
  MPU_CTRL :: u32
  MPU_RNR :: u32
  mpu_rbar :: "u32 \<Rightarrow> u32"
  mpu_rasr :: "u32 \<Rightarrow> u32"

definition write_rbar :: "u32 \<Rightarrow> mpu \<Rightarrow> mpu" where
  "write_rbar v m = m\<lparr>mpu_rbar := (mpu_rbar m)(MPU_RNR m := v)\<rparr>"

definition write_rasr :: "u32 \<Rightarrow> mpu \<Rightarrow> mpu" where
  "write_rasr v m = m\<lparr>mpu_rasr := (mpu_rasr m)(MPU_RNR m := v)\<rparr>"

definition MPU_CTRL_ENABLE :: u32 where "MPU_CTRL_ENABLE = push_bit 0 1"
definition MPU_CTRL_PRIVDEFENA :: u32 where "MPU_CTRL_PRIVDEFENA = push_bit 2 1"
definition MPU_RASR_ENABLE :: u32 where "MPU_RASR_ENABLE = push_bit 0 1"
definition MPU_RASR_SIZE :: "u32 \<Rightarrow> u32" where "MPU_RASR_SIZE n = push_bit 1 (n - 1)"
definition MPU_RASR_AP_NO_ACCESS :: u32 where "MPU_RASR_AP_NO_ACCESS = push_bit 24 0"
definition MPU_RASR_AP_RW_ALL :: u32 where "MPU_RASR_AP_RW_ALL = push_bit 24 3"
definition MPU_RASR_AP_RO_ALL :: u32 where "MPU_RASR_AP_RO_ALL = push_bit 24 6"
definition PERM_READ :: u8 where "PERM_READ = push_bit 0 1"
definition PERM_WRITE :: u8 where "PERM_WRITE = push_bit 1 1"
definition PERM_EXEC :: u8 where "PERM_EXEC = push_bit 2 1"

lemmas mpu_consts = MPU_CTRL_ENABLE_def MPU_CTRL_PRIVDEFENA_def MPU_RASR_ENABLE_def MPU_RASR_SIZE_def
  MPU_RASR_AP_NO_ACCESS_def MPU_RASR_AP_RW_ALL_def MPU_RASR_AP_RO_ALL_def PERM_READ_def PERM_WRITE_def PERM_EXEC_def

section \<open>Operations\<close>

record memory_region =
  mr_start_addr :: u32
  mr_size :: u32
  mr_permissions :: u8

definition os_mpu_enable :: "bool \<Rightarrow> mpu \<Rightarrow> mpu" where
  "os_mpu_enable enable m =
    (if enable then m\<lparr>MPU_CTRL := MPU_CTRL_ENABLE OR MPU_CTRL_PRIVDEFENA\<rparr> else m\<lparr>MPU_CTRL := 0\<rparr>)"

text \<open>The loop that computes \<^verbatim>\<open>size_bits\<close>.\<close>

function size_bits_loop :: "u32 \<Rightarrow> nat \<Rightarrow> nat" where
  "size_bits_loop sz size_bits =
    (if size_bits < 32 \<and> push_bit size_bits 1 < sz then size_bits_loop sz (Suc size_bits) else size_bits)"
  by auto
termination by (relation "measure (\<lambda>(sz, n). 32 - n)") auto

declare size_bits_loop.simps [simp del]

definition region_ap_bits :: "u8 \<Rightarrow> u32" where
  "region_ap_bits permissions =
    (if permissions = 0 then MPU_RASR_AP_NO_ACCESS
     else if permissions AND PERM_WRITE \<noteq> 0 then MPU_RASR_AP_RW_ALL
     else if permissions AND PERM_READ \<noteq> 0 then MPU_RASR_AP_RO_ALL
     else MPU_RASR_AP_NO_ACCESS)"

definition os_mpu_set_region :: "u8 \<Rightarrow> memory_region option \<Rightarrow> mpu \<Rightarrow> os_error \<times> mpu" where
  "os_mpu_set_region region_id region m =
    (case region of
       None \<Rightarrow> (OS_ERROR_INVALID_PARAM, m)
     | Some r \<Rightarrow>
        if region_id \<ge> 8 then (OS_ERROR_INVALID_PARAM, m)
        else if mr_start_addr r AND 0x1F \<noteq> 0 then (OS_ERROR_INVALID_PARAM, m)
        else
          let size_bits = size_bits_loop (mr_size r) 0
          in if size_bits < 5 \<or> size_bits > 31 then (OS_ERROR_INVALID_PARAM, m)
             else
               let ap_bits = region_ap_bits (mr_permissions r);
                   m = m\<lparr>MPU_RNR := ucast region_id\<rparr>;
                   m = write_rbar (mr_start_addr r) m;
                   m = write_rasr (MPU_RASR_ENABLE OR MPU_RASR_SIZE (of_nat size_bits) OR ap_bits) m
               in (OS_OK, m))"

definition os_mpu_configure_default :: "mpu \<Rightarrow> mpu" where
  "os_mpu_configure_default m =
    (let m = snd (os_mpu_set_region 0 (Some \<lparr>mr_start_addr = 0x00000000, mr_size = 256 * 1024,
                    mr_permissions = PERM_READ OR PERM_EXEC\<rparr>) m);
         m = snd (os_mpu_set_region 1 (Some \<lparr>mr_start_addr = 0x20000000, mr_size = 64 * 1024,
                    mr_permissions = PERM_READ OR PERM_WRITE\<rparr>) m);
         m = snd (os_mpu_set_region 2 (Some \<lparr>mr_start_addr = 0x40000000, mr_size = 512 * 1024 * 1024,
                    mr_permissions = PERM_READ OR PERM_WRITE\<rparr>) m)
     in os_mpu_enable True m)"

definition os_check_memory_access :: "u32 \<Rightarrow> u32 \<Rightarrow> u8 \<Rightarrow> bool" where
  "os_check_memory_access addr sz permission = True"

definition os_verify_boot_integrity :: bool where
  "os_verify_boot_integrity = True"

text \<open>\<open>None\<close>: the system halts in an endless loop.\<close>

definition os_security_init :: "mpu \<Rightarrow> mpu option" where
  "os_security_init m = (if \<not> os_verify_boot_integrity then None else Some (os_mpu_configure_default m))"

section \<open>Region sizes\<close>

lemma unat_push_bit_1: "k < 32 \<Longrightarrow> unat (push_bit k 1 :: u32) = 2 ^ k"
proof -
  assume "k < 32"
  then have "(2 :: nat) ^ k < 2 ^ 32" by (rule power_strict_increasing) simp
  then have "unat (of_nat (2 ^ k) :: u32) = 2 ^ k" unfolding unat_of_nat by simp
  then show ?thesis by simp
qed

text \<open>The loop finds the least exponent whose power of two is not below the size.\<close>

lemma size_bits_loop_least:
  assumes "n \<le> 32"
  shows "n \<le> size_bits_loop sz n" and "size_bits_loop sz n \<le> 32"
    and "size_bits_loop sz n < 32 \<Longrightarrow> unat sz \<le> 2 ^ size_bits_loop sz n"
    and "n \<le> j \<Longrightarrow> j < size_bits_loop sz n \<Longrightarrow> 2 ^ j < unat sz"
proof -
  have "n \<le> size_bits_loop sz n \<and> size_bits_loop sz n \<le> 32 \<and>
      (size_bits_loop sz n < 32 \<longrightarrow> unat sz \<le> 2 ^ size_bits_loop sz n) \<and>
      (\<forall>j. n \<le> j \<and> j < size_bits_loop sz n \<longrightarrow> 2 ^ j < unat sz)"
    using assms
  proof (induction sz n rule: size_bits_loop.induct)
    case (1 sz n)
    show ?case
    proof (cases "n < 32 \<and> push_bit n 1 < sz")
      case True
      then have "size_bits_loop sz n = size_bits_loop sz (Suc n)" by (subst size_bits_loop.simps) simp
      moreover have "2 ^ n < unat sz" using True unat_push_bit_1 [of n] by (simp add: word_less_nat_alt del: push_bit_of_1)
      ultimately show ?thesis using 1(1) [OF True] True by (auto simp: Suc_le_eq order.strict_iff_order)
    next
      case False
      then have "size_bits_loop sz n = n" by (subst size_bits_loop.simps) auto
      moreover have "n < 32 \<longrightarrow> unat sz \<le> 2 ^ n" using False by (auto simp: word_less_nat_alt unat_push_bit_1 simp del: push_bit_of_1)
      ultimately show ?thesis using 1(2) by auto
    qed
  qed
  then show "n \<le> size_bits_loop sz n" "size_bits_loop sz n \<le> 32"
    "size_bits_loop sz n < 32 \<Longrightarrow> unat sz \<le> 2 ^ size_bits_loop sz n"
    "n \<le> j \<Longrightarrow> j < size_bits_loop sz n \<Longrightarrow> 2 ^ j < unat sz" by auto
qed

lemma size_bits_ge: "5 \<le> size_bits_loop sz 0 \<longleftrightarrow> 16 < unat sz"
proof
  assume "5 \<le> size_bits_loop sz 0"
  then show "16 < unat sz" using size_bits_loop_least(4) [of 0 4 sz] by simp
next
  assume a: "16 < unat sz"
  show "5 \<le> size_bits_loop sz 0"
  proof (rule ccontr)
    assume "\<not> 5 \<le> size_bits_loop sz 0"
    then have "size_bits_loop sz 0 \<le> 4" "unat sz \<le> 2 ^ size_bits_loop sz 0" using size_bits_loop_least(3) [of 0 sz] by auto
    moreover have "(2 :: nat) ^ size_bits_loop sz 0 \<le> 2 ^ 4" using calculation(1) by (rule power_increasing) simp
    ultimately show False using a by simp
  qed
qed

lemma size_bits_le: "size_bits_loop sz 0 \<le> 31 \<longleftrightarrow> unat sz \<le> 2 ^ 31"
proof
  assume a: "size_bits_loop sz 0 \<le> 31"
  then have "unat sz \<le> 2 ^ size_bits_loop sz 0" using size_bits_loop_least(3) [of 0 sz] by simp
  also have "(2 :: nat) ^ size_bits_loop sz 0 \<le> 2 ^ 31" using a by (rule power_increasing) simp
  finally show "unat sz \<le> 2 ^ 31" .
next
  assume "unat sz \<le> 2 ^ 31"
  then show "size_bits_loop sz 0 \<le> 31" using size_bits_loop_least(4) [of 0 31 sz] by force
qed

text \<open>How the hardware reads the attribute register: bit 0 enables the region, bits 1 to 5 give its
  size, bits 24 to 26 the access permissions, and bit 28 forbids execution.\<close>

definition rasr_region_size :: "u32 \<Rightarrow> nat" where
  "rasr_region_size r = 2 ^ (unat (drop_bit 1 r AND 0x1F) + 1)"

definition rasr_ap :: "u32 \<Rightarrow> u32" where
  "rasr_ap r = drop_bit 24 r AND 7"

lemma rasr_fields:
  "\<forall>k \<in> set [5..<32]. \<forall>ap \<in> set [MPU_RASR_AP_NO_ACCESS, MPU_RASR_AP_RW_ALL, MPU_RASR_AP_RO_ALL].
     (let r = MPU_RASR_ENABLE OR MPU_RASR_SIZE (of_nat k) OR ap
      in rasr_region_size r = 2 ^ k \<and> rasr_ap r = drop_bit 24 ap \<and> bit r 0 \<and> \<not> bit r 28)"
  by (simp add: mpu_consts rasr_region_size_def rasr_ap_def Let_def)

lemma region_ap_bits_cases:
  "region_ap_bits p \<in> set [MPU_RASR_AP_NO_ACCESS, MPU_RASR_AP_RW_ALL, MPU_RASR_AP_RO_ALL]"
  by (simp add: region_ap_bits_def)

lemma region_ap_bits_ap:
  "drop_bit 24 (region_ap_bits p) = (if bit p 1 then 3 else if bit p 0 then 6 else 0)"
  unfolding region_ap_bits_def PERM_WRITE_def PERM_READ_def bit_iff_and_push_bit_not_eq_0 [symmetric]
  by (simp add: mpu_consts)

section \<open>Properties\<close>

text \<open>C24. \<^verbatim>\<open>os_mpu_set_region\<close> accepts exactly the regions with a number below 8, a 32-byte aligned start
  and a size from 17 bytes to 2 GB. It then sets up that region and no other: enabled, at
  the start address, with the least power of two that is not below the size, and writable,
  readable or inaccessible as the permissions say. Execution is never forbidden, whether or
  not the permissions include it.\<close>

theorem mpu_set_region_correct:
  fixes region_id :: u8 and r :: memory_region and m :: mpu
  defines "ok \<equiv> region_id < 8 \<and> mr_start_addr r AND 0x1F = 0 \<and> 16 < unat (mr_size r) \<and> unat (mr_size r) \<le> 2 ^ 31"
  shows "case os_mpu_set_region region_id (Some r) m of (e, m') \<Rightarrow>
     e = (if ok then OS_OK else OS_ERROR_INVALID_PARAM) \<and> MPU_CTRL m' = MPU_CTRL m \<and>
     (\<forall>i. i \<noteq> ucast region_id \<or> \<not> ok \<longrightarrow> mpu_rbar m' i = mpu_rbar m i \<and> mpu_rasr m' i = mpu_rasr m i) \<and>
     (ok \<longrightarrow> mpu_rbar m' (ucast region_id) = mr_start_addr r \<and>
       (let rasr = mpu_rasr m' (ucast region_id) in
        bit rasr 0 \<and> unat (mr_size r) \<le> rasr_region_size rasr \<and>
        (\<forall>j. unat (mr_size r) \<le> 2 ^ j \<longrightarrow> rasr_region_size rasr \<le> 2 ^ j) \<and>
        rasr_ap rasr = (if bit (mr_permissions r) 1 then 3 else if bit (mr_permissions r) 0 then 6 else 0) \<and>
        \<not> bit rasr 28))"
proof -
  define k where "k = size_bits_loop (mr_size r) 0"
  have ok: "ok \<longleftrightarrow> region_id < 8 \<and> mr_start_addr r AND 0x1F = 0 \<and> \<not> (k < 5 \<or> 31 < k)"
    using size_bits_ge [of "mr_size r"] size_bits_le [of "mr_size r"] by (auto simp: ok_def k_def)
  show ?thesis
  proof (cases ok)
    case False
    then show ?thesis unfolding ok by (auto simp: os_mpu_set_region_def Let_def k_def)
  next
    case True
    then have k: "k \<in> set [5..<32]" "k < 32" using ok by (simp_all only: set_upt atLeastLessThan_iff) linarith+
    let ?rasr = "MPU_RASR_ENABLE OR MPU_RASR_SIZE (of_nat k) OR region_ap_bits (mr_permissions r)"
    have f: "rasr_region_size ?rasr = 2 ^ k" "rasr_ap ?rasr = drop_bit 24 (region_ap_bits (mr_permissions r))"
        "bit ?rasr 0" "\<not> bit ?rasr 28"
      using bspec [OF bspec [OF rasr_fields k(1)] region_ap_bits_cases [of "mr_permissions r"]] by (simp_all add: Let_def)
    have le: "unat (mr_size r) \<le> 2 ^ k" using size_bits_loop_least(3) [of 0 "mr_size r"] k(2) by (simp add: k_def)
    have least: "(2 :: nat) ^ k \<le> 2 ^ j" if "unat (mr_size r) \<le> 2 ^ j" for j
      using that size_bits_loop_least(4) [of 0 j "mr_size r"] by (intro power_increasing) (auto simp: k_def not_less [symmetric])
    have "os_mpu_set_region region_id (Some r) m =
        (OS_OK, write_rasr ?rasr (write_rbar (mr_start_addr r) (m\<lparr>MPU_RNR := ucast region_id\<rparr>)))"
      using True ok by (auto simp: os_mpu_set_region_def Let_def k_def not_le)
    then show ?thesis
      using True f le least by (simp add: write_rasr_def write_rbar_def Let_def region_ap_bits_ap)
  qed
qed

definition reset_mpu :: mpu where
  "reset_mpu = \<lparr>MPU_CTRL = 0, MPU_RNR = 0, mpu_rbar = (\<lambda>_. 0), mpu_rasr = (\<lambda>_. 0)\<rparr>"

theorem mpu_set_region_correct_witness:
  "fst (os_mpu_set_region 3 (Some \<lparr>mr_start_addr = 0x20000000, mr_size = 5000, mr_permissions = 1\<rparr>) reset_mpu) = OS_OK"
  using mpu_set_region_correct [of 3 "\<lparr>mr_start_addr = 0x20000000, mr_size = 5000, mr_permissions = 1\<rparr>" reset_mpu]
  by (simp add: case_prod_beta)

end
