(* ===== verification/Watchdog.thy ===== *)
theory Watchdog
  imports Tasks
begin

text \<open>
  The watchdog, \<^verbatim>\<open>src/watchdog.c\<close>. The state extends the kernel state by \<^verbatim>\<open>g_wdt_state\<close> and by the
  sequence of calls of the hardware layer (weak functions that a board overrides), \<open>wd_hal\<close>.

  A reset of the system does not return: operations that may reset have the result type
  \<open>'s + 'r\<close>, where \<open>Inl s\<close> is a reset requested in the state \<open>s\<close> and \<open>Inr r\<close> a normal return.
  The callback of the application is the argument \<open>cb\<close>: \<open>cb f reason task s\<close> is the state
  after the call of the function at address \<open>f\<close>.
\<close>

section \<open>Data\<close>

datatype wdt_error = WDT_OK | WDT_ERROR_INVALID_PARAM | WDT_ERROR_NOT_INITIALIZED | WDT_ERROR_ALREADY_INITIALIZED
  | WDT_ERROR_TIMEOUT_TOO_SHORT | WDT_ERROR_TIMEOUT_TOO_LONG | WDT_ERROR_NOT_ENABLED
  | WDT_ERROR_TASK_NOT_REGISTERED | WDT_ERROR_MAX_TASKS_REACHED

datatype wdt_type = WDT_TYPE_HARDWARE | WDT_TYPE_SOFTWARE | WDT_TYPE_BOTH

datatype wdt_reset_reason = WDT_RESET_NONE | WDT_RESET_HARDWARE | WDT_RESET_SOFTWARE | WDT_RESET_TASK_TIMEOUT

record wdt_config =
  wc_type :: wdt_type
  wc_timeout_ms :: u32
  wc_auto_start :: bool
  wc_enable_reset :: bool
  wc_callback :: u32

record wdt_task_entry =
  we_task :: ptr
  we_timeout_ms :: u32
  we_last_feed_time :: u32
  we_enabled :: bool
  we_timeout_count :: u32

record wdt_stats =
  wt_total_feeds :: u32
  wt_total_timeouts :: u32
  wt_hw_resets :: u32
  wt_sw_resets :: u32
  wt_task_timeouts :: u32
  wt_last_reset_reason :: wdt_reset_reason
  wt_last_timeout_task :: ptr

record wdt_status =
  wu_initialized :: bool
  wu_enabled :: bool
  wu_type :: wdt_type
  wu_timeout_ms :: u32
  wu_time_remaining_ms :: u32
  wu_last_feed_time :: u32
  wu_registered_tasks :: u32

datatype hal_call = HalInit u32 | HalFeed | HalEnable | HalDisable | HalReset | HalClear

definition WDT_MAX_MONITORED_TASKS :: u32 where "WDT_MAX_MONITORED_TASKS = 8"
definition WDT_MIN_TIMEOUT_MS :: u32 where "WDT_MIN_TIMEOUT_MS = 100"
definition WDT_MAX_TIMEOUT_MS :: u32 where "WDT_MAX_TIMEOUT_MS = 60000"

lemmas wdt_consts = WDT_MAX_MONITORED_TASKS_def WDT_MIN_TIMEOUT_MS_def WDT_MAX_TIMEOUT_MS_def

record wdt = kernel +
  wd_initialized :: bool
  wd_enabled :: bool
  wd_config :: wdt_config
  wd_last_feed_time :: u32
  wd_stats :: wdt_stats
  wd_task_entries :: "nat \<Rightarrow> wdt_task_entry"
  wd_num_registered_tasks :: u32
  wd_reset_reason :: wdt_reset_reason
  wd_hal :: "hal_call list"

type_synonym 'a wdt_callback = "u32 \<Rightarrow> wdt_reset_reason \<Rightarrow> ptr \<Rightarrow> 'a wdt_scheme \<Rightarrow> 'a wdt_scheme"

definition hal :: "hal_call \<Rightarrow> 'a wdt_scheme \<Rightarrow> 'a wdt_scheme" where
  "hal c s = s\<lparr>wd_hal := wd_hal s @ [c]\<rparr>"

definition zero_stats :: wdt_stats where
  "zero_stats = \<lparr>wt_total_feeds = 0, wt_total_timeouts = 0, wt_hw_resets = 0, wt_sw_resets = 0, wt_task_timeouts = 0,
     wt_last_reset_reason = WDT_RESET_NONE, wt_last_timeout_task = None\<rparr>"

definition zero_entry :: wdt_task_entry where
  "zero_entry = \<lparr>we_task = None, we_timeout_ms = 0, we_last_feed_time = 0, we_enabled = False, we_timeout_count = 0\<rparr>"

definition zero_wdt_config :: wdt_config where
  "zero_wdt_config = \<lparr>wc_type = WDT_TYPE_HARDWARE, wc_timeout_ms = 0, wc_auto_start = False, wc_enable_reset = False, wc_callback = 0\<rparr>"

definition zero_wdt :: "'a wdt_scheme \<Rightarrow> 'a wdt_scheme" where
  "zero_wdt s = s\<lparr>wd_initialized := False, wd_enabled := False, wd_config := zero_wdt_config, wd_last_feed_time := 0,
     wd_stats := zero_stats, wd_task_entries := (\<lambda>_. zero_entry), wd_num_registered_tasks := 0,
     wd_reset_reason := WDT_RESET_NONE\<rparr>"

definition has_hardware :: "'a wdt_scheme \<Rightarrow> bool" where
  "has_hardware s \<longleftrightarrow> wc_type (wd_config s) = WDT_TYPE_HARDWARE \<or> wc_type (wd_config s) = WDT_TYPE_BOTH"

definition has_software :: "'a wdt_scheme \<Rightarrow> bool" where
  "has_software s \<longleftrightarrow> wc_type (wd_config s) = WDT_TYPE_SOFTWARE \<or> wc_type (wd_config s) = WDT_TYPE_BOTH"

definition upd_entry :: "nat \<Rightarrow> (wdt_task_entry \<Rightarrow> wdt_task_entry) \<Rightarrow> 'a wdt_scheme \<Rightarrow> 'a wdt_scheme" where
  "upd_entry i f s = s\<lparr>wd_task_entries := (wd_task_entries s)(i := f (wd_task_entries s i))\<rparr>"

section \<open>Monitored tasks\<close>

text \<open>The index of the entry of a task, by the loop of \<^verbatim>\<open>find_task_entry\<close> from index \<open>i\<close> on.\<close>

function find_entry_from :: "ptr \<Rightarrow> 'a wdt_scheme \<Rightarrow> nat \<Rightarrow> nat option" where
  "find_entry_from task s i =
    (if i < unat (wd_num_registered_tasks s)
     then if we_task (wd_task_entries s i) = task then Some i else find_entry_from task s (Suc i)
     else None)"
  by auto
termination by (relation "measure (\<lambda>(t, s, i). unat (wd_num_registered_tasks s) - i)") auto

declare find_entry_from.simps [simp del]

definition find_task_entry :: "ptr \<Rightarrow> 'a wdt_scheme \<Rightarrow> nat option" where
  "find_task_entry task s = find_entry_from task s 0"

text \<open>A timeout of the entry at index \<open>i\<close>: statistics, callback, reset.\<close>

definition wdt_task_timeout :: "'a wdt_callback \<Rightarrow> nat \<Rightarrow> 'a wdt_scheme \<Rightarrow> 'a wdt_scheme + 'a wdt_scheme" where
  "wdt_task_timeout cb i s =
    (let s = upd_entry i (\<lambda>e. e\<lparr>we_timeout_count := we_timeout_count e + 1\<rparr>) s;
         st = wd_stats s;
         s = s\<lparr>wd_stats := st\<lparr>wt_task_timeouts := wt_task_timeouts st + 1, wt_total_timeouts := wt_total_timeouts st + 1,
                 wt_last_timeout_task := we_task (wd_task_entries s i), wt_last_reset_reason := WDT_RESET_TASK_TIMEOUT\<rparr>\<rparr>;
         s = (if wc_callback (wd_config s) \<noteq> 0
              then cb (wc_callback (wd_config s)) WDT_RESET_TASK_TIMEOUT (we_task (wd_task_entries s i)) s else s)
     in if wc_enable_reset (wd_config s)
        then Inl (hal HalReset (s\<lparr>wd_reset_reason := WDT_RESET_TASK_TIMEOUT,
               wd_stats := (wd_stats s)\<lparr>wt_sw_resets := wt_sw_resets (wd_stats s) + 1\<rparr>\<rparr>))
        else Inr s)"

definition entry_expired :: "u32 \<Rightarrow> wdt_task_entry \<Rightarrow> bool" where
  "entry_expired now e \<longleftrightarrow> we_enabled e \<and> now - we_last_feed_time e \<ge> we_timeout_ms e"

lemma index_u32: "i < unat (n :: u32) \<Longrightarrow> i < 4294967296"
  using unat_u32_less [of n] by linarith

text \<open>The number of registered tasks is read again in every round, since a callback may change it.\<close>

function wdt_check_from :: "'a wdt_callback \<Rightarrow> u32 \<Rightarrow> nat \<Rightarrow> 'a wdt_scheme \<Rightarrow> 'a wdt_scheme + 'a wdt_scheme" where
  "wdt_check_from cb now i s =
    (if i < unat (wd_num_registered_tasks s)
     then if entry_expired now (wd_task_entries s i)
          then case wdt_task_timeout cb i s of Inl s \<Rightarrow> Inl s | Inr s \<Rightarrow> wdt_check_from cb now (Suc i) s
          else wdt_check_from cb now (Suc i) s
     else Inr s)"
  by auto
termination by (relation "measure (\<lambda>(cb, now, i, s). 4294967296 - i)") (auto dest: index_u32)

declare wdt_check_from.simps [simp del]

definition wdt_check_tasks :: "'a wdt_callback \<Rightarrow> 'a wdt_scheme \<Rightarrow> 'a wdt_scheme + 'a wdt_scheme" where
  "wdt_check_tasks cb s =
    (if \<not> wd_initialized s \<or> \<not> wd_enabled s then Inr s
     else wdt_check_from cb (os_get_tick_count s) 0 s)"

section \<open>Control\<close>

definition wdt_start :: "'a wdt_scheme \<Rightarrow> wdt_error \<times> 'a wdt_scheme" where
  "wdt_start s =
    (if \<not> wd_initialized s then (WDT_ERROR_NOT_INITIALIZED, s)
     else
       let s = s\<lparr>wd_enabled := True, wd_last_feed_time := os_get_tick_count s\<rparr>
       in (WDT_OK, if has_hardware s then hal HalEnable s else s))"

definition wdt_stop :: "'a wdt_scheme \<Rightarrow> wdt_error \<times> 'a wdt_scheme" where
  "wdt_stop s =
    (if \<not> wd_initialized s then (WDT_ERROR_NOT_INITIALIZED, s)
     else
       let s = s\<lparr>wd_enabled := False\<rparr>
       in (WDT_OK, if has_hardware s then hal HalDisable s else s))"

text \<open>\<open>was_reset\<close> is what \<^verbatim>\<open>hal_wdt_was_reset_by_watchdog\<close> returns.\<close>

definition wdt_init :: "bool \<Rightarrow> wdt_config option \<Rightarrow> 'a wdt_scheme \<Rightarrow> wdt_error \<times> 'a wdt_scheme" where
  "wdt_init was_reset config s =
    (if wd_initialized s then (WDT_ERROR_ALREADY_INITIALIZED, s)
     else case config of
       None \<Rightarrow> (WDT_ERROR_INVALID_PARAM, s)
     | Some c \<Rightarrow>
        if wc_timeout_ms c < WDT_MIN_TIMEOUT_MS then (WDT_ERROR_TIMEOUT_TOO_SHORT, s)
        else if wc_timeout_ms c > WDT_MAX_TIMEOUT_MS then (WDT_ERROR_TIMEOUT_TOO_LONG, s)
        else
          let s = (zero_wdt s)\<lparr>wd_config := c, wd_initialized := True\<rparr>;
              s = s\<lparr>wd_last_feed_time := os_get_tick_count s\<rparr>;
              s = (if was_reset
                   then hal HalClear (s\<lparr>wd_reset_reason := WDT_RESET_HARDWARE,
                          wd_stats := (wd_stats s)\<lparr>wt_hw_resets := wt_hw_resets (wd_stats s) + 1\<rparr>\<rparr>)
                   else s);
              s = (if has_hardware s then hal (HalInit (wc_timeout_ms c)) s else s)
          in (WDT_OK, if wc_auto_start c then snd (wdt_start s) else s))"

definition wdt_deinit :: "'a wdt_scheme \<Rightarrow> wdt_error \<times> 'a wdt_scheme" where
  "wdt_deinit s =
    (if \<not> wd_initialized s then (WDT_ERROR_NOT_INITIALIZED, s)
     else (WDT_OK, zero_wdt (snd (wdt_stop s))))"

definition wdt_is_initialized :: "'a wdt_scheme \<Rightarrow> bool" where
  "wdt_is_initialized s = wd_initialized s"

definition wdt_feed :: "'a wdt_callback \<Rightarrow> 'a wdt_scheme \<Rightarrow> 'a wdt_scheme + wdt_error \<times> 'a wdt_scheme" where
  "wdt_feed cb s =
    (if \<not> wd_initialized s then Inr (WDT_ERROR_NOT_INITIALIZED, s)
     else if \<not> wd_enabled s then Inr (WDT_ERROR_NOT_ENABLED, s)
     else
       let s = s\<lparr>wd_last_feed_time := os_get_tick_count s,
                 wd_stats := (wd_stats s)\<lparr>wt_total_feeds := wt_total_feeds (wd_stats s) + 1\<rparr>\<rparr>;
           s = (if has_hardware s then hal HalFeed s else s)
       in if has_software s
          then case wdt_check_tasks cb s of Inl s \<Rightarrow> Inl s | Inr s \<Rightarrow> Inr (WDT_OK, s)
          else Inr (WDT_OK, s))"

definition wdt_set_timeout :: "u32 \<Rightarrow> 'a wdt_scheme \<Rightarrow> wdt_error \<times> 'a wdt_scheme" where
  "wdt_set_timeout timeout_ms s =
    (if \<not> wd_initialized s then (WDT_ERROR_NOT_INITIALIZED, s)
     else if timeout_ms < WDT_MIN_TIMEOUT_MS then (WDT_ERROR_TIMEOUT_TOO_SHORT, s)
     else if timeout_ms > WDT_MAX_TIMEOUT_MS then (WDT_ERROR_TIMEOUT_TOO_LONG, s)
     else
       let s = s\<lparr>wd_config := (wd_config s)\<lparr>wc_timeout_ms := timeout_ms\<rparr>\<rparr>
       in (WDT_OK, if has_hardware s then hal (HalInit timeout_ms) s else s))"

definition wdt_get_timeout :: "'a wdt_scheme \<Rightarrow> u32" where
  "wdt_get_timeout s = wc_timeout_ms (wd_config s)"

definition wdt_enable :: "'a wdt_scheme \<Rightarrow> wdt_error \<times> 'a wdt_scheme" where
  "wdt_enable s = wdt_start s"

definition wdt_disable :: "'a wdt_scheme \<Rightarrow> wdt_error \<times> 'a wdt_scheme" where
  "wdt_disable s = wdt_stop s"

definition wdt_is_enabled :: "'a wdt_scheme \<Rightarrow> bool" where
  "wdt_is_enabled s = wd_enabled s"

section \<open>Registration of tasks\<close>

definition wdt_register_task :: "ptr \<Rightarrow> u32 \<Rightarrow> 'a wdt_scheme \<Rightarrow> wdt_error \<times> 'a wdt_scheme" where
  "wdt_register_task task timeout_ms s =
    (if \<not> wd_initialized s then (WDT_ERROR_NOT_INITIALIZED, s)
     else if task = None then (WDT_ERROR_INVALID_PARAM, s)
     else if timeout_ms < WDT_MIN_TIMEOUT_MS then (WDT_ERROR_TIMEOUT_TOO_SHORT, s)
     else if find_task_entry task s \<noteq> None then (WDT_ERROR_INVALID_PARAM, s)
     else if wd_num_registered_tasks s \<ge> WDT_MAX_MONITORED_TASKS then (WDT_ERROR_MAX_TASKS_REACHED, s)
     else
       let s = upd_entry (unat (wd_num_registered_tasks s))
                 (\<lambda>e. \<lparr>we_task = task, we_timeout_ms = timeout_ms, we_last_feed_time = os_get_tick_count s,
                        we_enabled = True, we_timeout_count = 0\<rparr>) s
       in (WDT_OK, s\<lparr>wd_num_registered_tasks := wd_num_registered_tasks s + 1\<rparr>))"

text \<open>The inner loop of \<^verbatim>\<open>wdt_unregister_task\<close>: entries from \<open>j\<close> on move down by one, up to \<open>n\<close>.\<close>

function shift_entries :: "nat \<Rightarrow> nat \<Rightarrow> (nat \<Rightarrow> wdt_task_entry) \<Rightarrow> nat \<Rightarrow> wdt_task_entry" where
  "shift_entries n j es = (if j < n then shift_entries n (Suc j) (es(j := es (Suc j))) else es)"
  by auto
termination by (relation "measure (\<lambda>(l, j, es). l - j)") auto

declare shift_entries.simps [simp del]

definition wdt_unregister_task :: "ptr \<Rightarrow> 'a wdt_scheme \<Rightarrow> wdt_error \<times> 'a wdt_scheme" where
  "wdt_unregister_task task s =
    (if \<not> wd_initialized s then (WDT_ERROR_NOT_INITIALIZED, s)
     else if task = None then (WDT_ERROR_INVALID_PARAM, s)
     else case find_entry_from task s 0 of
       None \<Rightarrow> (WDT_ERROR_TASK_NOT_REGISTERED, s)
     | Some i \<Rightarrow>
         (WDT_OK, s\<lparr>wd_task_entries := shift_entries (unat (wd_num_registered_tasks s - 1)) i (wd_task_entries s),
                    wd_num_registered_tasks := wd_num_registered_tasks s - 1\<rparr>))"

text \<open>The common text of \<^verbatim>\<open>wdt_feed_task\<close>, \<^verbatim>\<open>wdt_enable_task\<close> and \<^verbatim>\<open>wdt_disable_task\<close>.\<close>

definition wdt_on_entry :: "(wdt_task_entry \<Rightarrow> wdt_task_entry) \<Rightarrow> ptr \<Rightarrow> 'a wdt_scheme \<Rightarrow> wdt_error \<times> 'a wdt_scheme" where
  "wdt_on_entry f task s =
    (if \<not> wd_initialized s then (WDT_ERROR_NOT_INITIALIZED, s)
     else if task = None then (WDT_ERROR_INVALID_PARAM, s)
     else case find_task_entry task s of
       None \<Rightarrow> (WDT_ERROR_TASK_NOT_REGISTERED, s)
     | Some i \<Rightarrow> (WDT_OK, upd_entry i f s))"

definition wdt_feed_task :: "ptr \<Rightarrow> 'a wdt_scheme \<Rightarrow> wdt_error \<times> 'a wdt_scheme" where
  "wdt_feed_task task s = wdt_on_entry (\<lambda>e. e\<lparr>we_last_feed_time := os_get_tick_count s\<rparr>) task s"

definition wdt_enable_task :: "ptr \<Rightarrow> 'a wdt_scheme \<Rightarrow> wdt_error \<times> 'a wdt_scheme" where
  "wdt_enable_task task s =
     wdt_on_entry (\<lambda>e. e\<lparr>we_enabled := True, we_last_feed_time := os_get_tick_count s\<rparr>) task s"

definition wdt_disable_task :: "ptr \<Rightarrow> 'a wdt_scheme \<Rightarrow> wdt_error \<times> 'a wdt_scheme" where
  "wdt_disable_task task s = wdt_on_entry (\<lambda>e. e\<lparr>we_enabled := False\<rparr>) task s"

definition wdt_is_task_registered :: "ptr \<Rightarrow> 'a wdt_scheme \<Rightarrow> bool" where
  "wdt_is_task_registered task s \<longleftrightarrow> find_task_entry task s \<noteq> None"

section \<open>Status\<close>

definition wdt_get_time_remaining :: "'a wdt_scheme \<Rightarrow> u32" where
  "wdt_get_time_remaining s =
    (if \<not> wd_initialized s then 0
     else
       let elapsed = os_get_tick_count s - wd_last_feed_time s
       in if elapsed < wc_timeout_ms (wd_config s) then wc_timeout_ms (wd_config s) - elapsed else 0)"

text \<open>\<open>given\<close>: the caller passed an address for the result and not \<^verbatim>\<open>NULL\<close>.\<close>

definition wdt_get_status :: "bool \<Rightarrow> 'a wdt_scheme \<Rightarrow> wdt_error \<times> wdt_status option" where
  "wdt_get_status given s =
    (if \<not> given then (WDT_ERROR_INVALID_PARAM, None)
     else
       let elapsed = os_get_tick_count s - wd_last_feed_time s
       in (WDT_OK, Some \<lparr>wu_initialized = wd_initialized s, wu_enabled = wd_enabled s, wu_type = wc_type (wd_config s),
         wu_timeout_ms = wc_timeout_ms (wd_config s),
         wu_time_remaining_ms = (if elapsed < wc_timeout_ms (wd_config s) then wc_timeout_ms (wd_config s) - elapsed else 0),
         wu_last_feed_time = wd_last_feed_time s, wu_registered_tasks = wd_num_registered_tasks s\<rparr>))"

definition wdt_get_stats :: "bool \<Rightarrow> 'a wdt_scheme \<Rightarrow> wdt_error \<times> wdt_stats option" where
  "wdt_get_stats given s = (if \<not> given then (WDT_ERROR_INVALID_PARAM, None) else (WDT_OK, Some (wd_stats s)))"

definition wdt_reset_stats :: "'a wdt_scheme \<Rightarrow> wdt_error \<times> 'a wdt_scheme" where
  "wdt_reset_stats s =
    (WDT_OK, s\<lparr>wd_stats := zero_stats,
       wd_task_entries := (\<lambda>i. if i < unat (wd_num_registered_tasks s)
                               then (wd_task_entries s i)\<lparr>we_timeout_count := 0\<rparr> else wd_task_entries s i)\<rparr>)"

definition wdt_get_last_reset_reason :: "'a wdt_scheme \<Rightarrow> wdt_reset_reason" where
  "wdt_get_last_reset_reason s = wd_reset_reason s"

definition wdt_trigger_reset :: "'a wdt_callback \<Rightarrow> 'a wdt_scheme \<Rightarrow> 'a wdt_scheme" where
  "wdt_trigger_reset cb s =
    (let s = (if wc_callback (wd_config s) \<noteq> 0 then cb (wc_callback (wd_config s)) WDT_RESET_SOFTWARE None s else s);
         s = s\<lparr>wd_reset_reason := WDT_RESET_SOFTWARE,
               wd_stats := (wd_stats s)\<lparr>wt_sw_resets := wt_sw_resets (wd_stats s) + 1, wt_last_reset_reason := WDT_RESET_SOFTWARE\<rparr>\<rparr>
     in hal HalReset s)"

fun wdt_error_to_string :: "wdt_error \<Rightarrow> string" where
  "wdt_error_to_string WDT_OK = ''OK''"
| "wdt_error_to_string WDT_ERROR_INVALID_PARAM = ''Invalid parameter''"
| "wdt_error_to_string WDT_ERROR_NOT_INITIALIZED = ''Not initialized''"
| "wdt_error_to_string WDT_ERROR_ALREADY_INITIALIZED = ''Already initialized''"
| "wdt_error_to_string WDT_ERROR_TIMEOUT_TOO_SHORT = ''Timeout too short''"
| "wdt_error_to_string WDT_ERROR_TIMEOUT_TOO_LONG = ''Timeout too long''"
| "wdt_error_to_string WDT_ERROR_NOT_ENABLED = ''Not enabled''"
| "wdt_error_to_string WDT_ERROR_TASK_NOT_REGISTERED = ''Task not registered''"
| "wdt_error_to_string WDT_ERROR_MAX_TASKS_REACHED = ''Maximum tasks reached''"

fun wdt_reset_reason_to_string :: "wdt_reset_reason \<Rightarrow> string" where
  "wdt_reset_reason_to_string WDT_RESET_NONE = ''None''"
| "wdt_reset_reason_to_string WDT_RESET_HARDWARE = ''Hardware watchdog''"
| "wdt_reset_reason_to_string WDT_RESET_SOFTWARE = ''Software watchdog''"
| "wdt_reset_reason_to_string WDT_RESET_TASK_TIMEOUT = ''Task timeout''"

end
