(* ===== verification/Watchdog_Spec.thy ===== *)
theory Watchdog_Spec
  imports Watchdog Kernel_Spec
begin

text \<open>
  Properties of the watchdog. The array of monitored tasks is abstracted to the list of its
  first \<^verbatim>\<open>num_registered_tasks\<close> entries; registration appends, removal deletes, and a feed
  handles exactly the expired entries, in the order of the list.
\<close>

section \<open>The table of monitored tasks\<close>

definition wdt_table :: "'a wdt_scheme \<Rightarrow> wdt_task_entry list" where
  "wdt_table s = map (wd_task_entries s) [0..<unat (wd_num_registered_tasks s)]"

lemma length_wdt_table [simp]: "length (wdt_table s) = unat (wd_num_registered_tasks s)"
  by (simp add: wdt_table_def)

lemma nth_wdt_table [simp]: "i < unat (wd_num_registered_tasks s) \<Longrightarrow> wdt_table s ! i = wd_task_entries s i"
  by (simp add: wdt_table_def)

lemma all_from_step: "(\<forall>j. i \<le> j \<and> j < n \<longrightarrow> P j) \<longleftrightarrow> (i < n \<longrightarrow> P i) \<and> (\<forall>j. Suc i \<le> j \<and> j < n \<longrightarrow> P j)" for n :: nat
  by (metis Suc_leD Suc_leI le_neq_implies_less order_refl)

lemma find_entry_from_None:
  "find_entry_from t s i = None \<longleftrightarrow> (\<forall>j. i \<le> j \<and> j < unat (wd_num_registered_tasks s) \<longrightarrow> we_task (wd_task_entries s j) \<noteq> t)"
proof (induction t s i rule: find_entry_from.induct)
  case (1 t s i)
  then show ?case
    by (subst find_entry_from.simps, subst all_from_step) auto
qed

lemma find_entry_from_Some:
  "find_entry_from t s i = Some k \<Longrightarrow> i \<le> k \<and> k < unat (wd_num_registered_tasks s) \<and> we_task (wd_task_entries s k) = t"
proof (induction t s i rule: find_entry_from.induct)
  case (1 t s i)
  from 1(2) show ?case
    by (subst (asm) find_entry_from.simps) (auto split: if_splits dest: 1(1))
qed

lemma find_task_entry_None: "find_task_entry t s = None \<longleftrightarrow> t \<notin> we_task ` set (wdt_table s)"
  by (auto simp: find_task_entry_def find_entry_from_None wdt_table_def)

lemma find_task_entry_Some:
  "find_task_entry t s = Some k \<Longrightarrow> k < unat (wd_num_registered_tasks s) \<and> we_task (wd_task_entries s k) = t"
  using find_entry_from_Some [of t s 0 k] by (simp add: find_task_entry_def)

lemma shift_entries_eq:
  "j \<le> n \<Longrightarrow> shift_entries n j es = (\<lambda>k. if j \<le> k \<and> k < n then es (Suc k) else es k)"
proof (induction n j es rule: shift_entries.induct)
  case (1 n j es)
  show ?case
  proof (cases "j < n")
    case True
    then have "shift_entries n j es = shift_entries n (Suc j) (es(j := es (Suc j)))" by (subst shift_entries.simps) simp
    also have "\<dots> = (\<lambda>k. if Suc j \<le> k \<and> k < n then (es(j := es (Suc j))) (Suc k) else (es(j := es (Suc j))) k)"
      using True by (intro 1(1)) auto
    also have "\<dots> = (\<lambda>k. if j \<le> k \<and> k < n then es (Suc k) else es k)" using True by (intro ext) auto
    finally show ?thesis .
  next
    case False
    then show ?thesis by (subst shift_entries.simps) (auto intro!: ext)
  qed
qed

lemma remove_nth_distinct:
  assumes "distinct (map f xs)" and "i < length xs"
  shows "take i xs @ drop (Suc i) xs = filter (\<lambda>x. f x \<noteq> f (xs ! i)) xs"
proof -
  have xs: "xs = take i xs @ xs ! i # drop (Suc i) xs" using assms(2) by (rule id_take_nth_drop)
  then have d: "distinct (map f (take i xs) @ f (xs ! i) # map f (drop (Suc i) xs))"
    using assms(1) by (metis list.simps(9) map_append)
  let ?P = "\<lambda>x. f x \<noteq> f (xs ! i)"
  have "filter ?P (take i xs) = take i xs" "filter ?P (drop (Suc i) xs) = drop (Suc i) xs"
    using d by (auto intro!: filter_True) (metis imageI)+
  then have "filter ?P (take i xs @ xs ! i # drop (Suc i) xs) = take i xs @ drop (Suc i) xs" by simp
  moreover have "filter ?P xs = filter ?P (take i xs @ xs ! i # drop (Suc i) xs)" using xs by (rule arg_cong)
  ultimately show ?thesis by (simp only:)
qed

section \<open>Invariant\<close>

definition wdt_inv :: "'a wdt_scheme \<Rightarrow> bool" where
  "wdt_inv s \<longleftrightarrow> unat (wd_num_registered_tasks s) \<le> 8 \<and> distinct (map we_task (wdt_table s)) \<and>
     (\<forall>e \<in> set (wdt_table s). we_task e \<noteq> None \<and> 100 \<le> unat (we_timeout_ms e)) \<and>
     (wd_enabled s \<longrightarrow> wd_initialized s) \<and>
     (wd_initialized s \<longrightarrow> 100 \<le> unat (wc_timeout_ms (wd_config s)) \<and> unat (wc_timeout_ms (wd_config s)) \<le> 60000)"

lemma wdt_inv_cong:
  assumes "wd_num_registered_tasks s' = wd_num_registered_tasks s" and "wd_enabled s' \<longrightarrow> wd_initialized s'"
    and "wd_initialized s' \<longrightarrow> 100 \<le> unat (wc_timeout_ms (wd_config s')) \<and> unat (wc_timeout_ms (wd_config s')) \<le> 60000"
    and "\<And>i. we_task (wd_task_entries s' i) = we_task (wd_task_entries s i) \<and> we_timeout_ms (wd_task_entries s' i) = we_timeout_ms (wd_task_entries s i)"
    and "wdt_inv s"
  shows "wdt_inv s'"
  using assms by (auto simp: wdt_inv_def wdt_table_def comp_def)

lemma wdt_inv_zero: "wdt_inv (zero_wdt s)"
  by (simp add: wdt_inv_def zero_wdt_def wdt_table_def)

lemma wdt_start_inv: "wdt_inv s \<Longrightarrow> wdt_inv (snd (wdt_start s))"
  by (rule wdt_inv_cong [of _ s]) (auto simp: wdt_start_def Let_def hal_def wdt_inv_def)

lemma wdt_stop_inv: "wdt_inv s \<Longrightarrow> wdt_inv (snd (wdt_stop s))"
  by (rule wdt_inv_cong [of _ s]) (auto simp: wdt_stop_def Let_def hal_def wdt_inv_def)

lemma wdt_set_timeout_inv: "wdt_inv s \<Longrightarrow> wdt_inv (snd (wdt_set_timeout t s))"
  by (rule wdt_inv_cong [of _ s])
    (auto simp: wdt_set_timeout_def Let_def hal_def wdt_inv_def wdt_consts word_less_nat_alt not_less)

lemma wdt_init_inv:
  assumes "wdt_inv s"
  shows "wdt_inv (snd (wdt_init w c s))"
proof (cases "wd_initialized s \<or> c = None \<or> wc_timeout_ms (the c) < WDT_MIN_TIMEOUT_MS \<or> wc_timeout_ms (the c) > WDT_MAX_TIMEOUT_MS")
  case True
  then show ?thesis using assms by (auto simp: wdt_init_def split: option.splits)
next
  case False
  then obtain c' where c: "c = Some c'" "100 \<le> unat (wc_timeout_ms c')" "unat (wc_timeout_ms c') \<le> 60000" "\<not> wd_initialized s"
    by (auto simp: wdt_consts word_less_nat_alt not_less)
  have in_range: "\<not> wc_timeout_ms c' < WDT_MIN_TIMEOUT_MS" "\<not> wc_timeout_ms c' > WDT_MAX_TIMEOUT_MS" using False c(1) by auto
  let ?s0 = "(zero_wdt s)\<lparr>wd_config := c', wd_initialized := True\<rparr>"
  let ?s = "?s0\<lparr>wd_last_feed_time := os_get_tick_count ?s0\<rparr>"
  obtain s1 where s1: "wdt_inv s1" "wdt_init w c s = (WDT_OK, if wc_auto_start c' then snd (wdt_start s1) else s1)"
  proof
    let ?s1 = "if w then hal HalClear (?s\<lparr>wd_reset_reason := WDT_RESET_HARDWARE,
        wd_stats := (wd_stats ?s)\<lparr>wt_hw_resets := wt_hw_resets (wd_stats ?s) + 1\<rparr>\<rparr>) else ?s"
    let ?s2 = "if has_hardware ?s1 then hal (HalInit (wc_timeout_ms c')) ?s1 else ?s1"
    show "wdt_inv ?s2" using c(2,3)
      by (intro wdt_inv_cong [OF _ _ _ _ wdt_inv_zero [of s]]) (auto simp: hal_def zero_wdt_def)
    show "wdt_init w c s = (WDT_OK, if wc_auto_start c' then snd (wdt_start ?s2) else ?s2)"
      by (simp only: wdt_init_def Let_def c(1,4) in_range option.case if_False)
  qed
  then show ?thesis using wdt_start_inv [OF s1(1)] by auto
qed

lemma wdt_on_entry_inv:
  assumes "wdt_inv s" and "\<And>e. we_task (f e) = we_task e \<and> we_timeout_ms (f e) = we_timeout_ms e"
  shows "wdt_inv (snd (wdt_on_entry f t s))"
  by (rule wdt_inv_cong [of _ s]) (use assms in \<open>auto simp: wdt_on_entry_def upd_entry_def wdt_inv_def split: option.splits\<close>)

lemma wdt_register_table:
  assumes "unat (wd_num_registered_tasks s) \<le> 8" and "wdt_register_task t n s = (e, s')"
  shows "e = WDT_OK \<longleftrightarrow> wd_initialized s \<and> t \<noteq> None \<and> 100 \<le> unat n \<and> t \<notin> we_task ` set (wdt_table s) \<and> length (wdt_table s) < 8"
    and "e = WDT_OK \<Longrightarrow> wdt_table s' = wdt_table s @ [\<lparr>we_task = t, we_timeout_ms = n, we_last_feed_time = k_tick_count s,
           we_enabled = True, we_timeout_count = 0\<rparr>]"
    and "e \<noteq> WDT_OK \<Longrightarrow> s' = s"
    and "wd_enabled s' = wd_enabled s" "wd_initialized s' = wd_initialized s" "wd_config s' = wd_config s"
proof -
  let ?n = "wd_num_registered_tasks s"
  let ?ok = "wd_initialized s \<and> t \<noteq> None \<and> 100 \<le> unat n \<and> t \<notin> we_task ` set (wdt_table s) \<and> length (wdt_table s) < 8"
  let ?e = "\<lparr>we_task = t, we_timeout_ms = n, we_last_feed_time = k_tick_count s, we_enabled = True, we_timeout_count = 0\<rparr>"
  have ok: "?ok \<Longrightarrow> e = WDT_OK \<and> s' = s\<lparr>wd_task_entries := (wd_task_entries s)(unat ?n := ?e), wd_num_registered_tasks := ?n + 1\<rparr>"
    using assms(2) by (auto simp: wdt_register_task_def find_task_entry_None wdt_consts word_less_nat_alt word_le_nat_alt
        upd_entry_def os_get_tick_count_def Let_def)
  have err: "\<not> ?ok \<Longrightarrow> e \<noteq> WDT_OK \<and> s' = s"
    using assms(2) by (auto simp: wdt_register_task_def find_task_entry_None wdt_consts word_less_nat_alt word_le_nat_alt
        Let_def split: if_splits)
  show "e = WDT_OK \<longleftrightarrow> ?ok" using ok err by blast
  show "e \<noteq> WDT_OK \<Longrightarrow> s' = s" using ok err by blast
  have "unat (?n + 1) = Suc (unat ?n)" using assms(1) by (simp add: unat_add_u32)
  moreover have "s' = s\<lparr>wd_task_entries := (wd_task_entries s)(unat ?n := ?e), wd_num_registered_tasks := ?n + 1\<rparr>" if "e = WDT_OK"
    using that ok err by blast
  ultimately show "wdt_table s' = wdt_table s @ [?e]" if "e = WDT_OK"
    using that by (simp add: wdt_table_def)
  have "s' = s \<or> s' = s\<lparr>wd_task_entries := (wd_task_entries s)(unat ?n := ?e), wd_num_registered_tasks := ?n + 1\<rparr>"
    using ok err by blast
  then show "wd_enabled s' = wd_enabled s" "wd_initialized s' = wd_initialized s" "wd_config s' = wd_config s" by auto
qed

lemma wdt_unregister_table:
  assumes "wdt_inv s" and "wdt_unregister_task t s = (e, s')"
  shows "e = WDT_OK \<longleftrightarrow> wd_initialized s \<and> t \<in> we_task ` set (wdt_table s)"
    and "e = WDT_OK \<Longrightarrow> wdt_table s' = filter (\<lambda>x. we_task x \<noteq> t) (wdt_table s)"
    and "e \<noteq> WDT_OK \<Longrightarrow> s' = s"
    and "wd_enabled s' = wd_enabled s" "wd_initialized s' = wd_initialized s" "wd_config s' = wd_config s"
proof -
  let ?n = "wd_num_registered_tasks s"
  have t: "t \<noteq> None" if "t \<in> we_task ` set (wdt_table s)" using assms(1) that by (auto simp: wdt_inv_def)
  have err: "e \<noteq> WDT_OK \<and> s' = s" if "\<not> (wd_initialized s \<and> t \<in> we_task ` set (wdt_table s))"
    using assms(2) that find_task_entry_None [of t s]
    by (auto simp: wdt_unregister_task_def find_task_entry_def split: if_splits option.splits)
  have ok: "e = WDT_OK \<and> wdt_table s' = filter (\<lambda>x. we_task x \<noteq> t) (wdt_table s) \<and> wd_enabled s' = wd_enabled s \<and>
      wd_initialized s' = wd_initialized s \<and> wd_config s' = wd_config s"
    if reg: "wd_initialized s" "t \<in> we_task ` set (wdt_table s)"
  proof -
    obtain i where i: "find_entry_from t s 0 = Some i"
      using reg(2) find_task_entry_None [of t s] by (auto simp: find_task_entry_def)
    then have i': "i < unat ?n" "we_task (wd_task_entries s i) = t" using find_entry_from_Some [OF i] by auto
    have n: "unat (?n - 1) = unat ?n - 1" using i'(1) by (simp add: unat_sub_if' unat_gt_0)
    have "wdt_table s' = map (\<lambda>k. if i \<le> k \<and> k < unat ?n - 1 then wd_task_entries s (Suc k) else wd_task_entries s k) [0..<unat ?n - 1]"
      using assms(2) reg t i i'(1) n by (auto simp: wdt_unregister_task_def wdt_table_def shift_entries_eq)
    also have "\<dots> = take i (wdt_table s) @ drop (Suc i) (wdt_table s)"
      using i'(1) by (intro nth_equalityI) (auto simp: nth_append min_def not_less)
    also have "\<dots> = filter (\<lambda>x. we_task x \<noteq> we_task (wdt_table s ! i)) (wdt_table s)"
      using assms(1) i'(1) by (intro remove_nth_distinct) (auto simp: wdt_inv_def)
    finally show ?thesis using assms(2) reg t i i' by (auto simp: wdt_unregister_task_def)
  qed
  show "e = WDT_OK \<longleftrightarrow> wd_initialized s \<and> t \<in> we_task ` set (wdt_table s)" using ok err by blast
  show "e = WDT_OK \<Longrightarrow> wdt_table s' = filter (\<lambda>x. we_task x \<noteq> t) (wdt_table s)" using ok err by blast
  show "e \<noteq> WDT_OK \<Longrightarrow> s' = s" using ok err by blast
  show "wd_enabled s' = wd_enabled s" "wd_initialized s' = wd_initialized s" "wd_config s' = wd_config s"
    using ok err by metis+
qed

lemma wdt_register_inv: "wdt_inv s \<Longrightarrow> wdt_inv (snd (wdt_register_task t n s))"
proof -
  assume inv: "wdt_inv s"
  obtain e s' where r: "wdt_register_task t n s = (e, s')" by fastforce
  have le: "unat (wd_num_registered_tasks s) \<le> 8" using inv by (simp add: wdt_inv_def)
  note reg = wdt_register_table [OF le r]
  show ?thesis
  proof (cases "e = WDT_OK")
    case True
    then have "length (wdt_table s') = Suc (length (wdt_table s))" using reg(2) by (simp del: length_wdt_table)
    then have "unat (wd_num_registered_tasks s') \<le> 8" using reg(1) True by simp
    then show ?thesis using inv reg True r by (auto simp: wdt_inv_def)
  qed (use reg(3) inv r in simp)
qed

lemma wdt_unregister_inv: "wdt_inv s \<Longrightarrow> wdt_inv (snd (wdt_unregister_task t s))"
proof -
  assume inv: "wdt_inv s"
  obtain e s' where r: "wdt_unregister_task t s = (e, s')" by fastforce
  note unreg = wdt_unregister_table [OF inv r]
  show ?thesis
  proof (cases "e = WDT_OK")
    case True
    then have tb: "wdt_table s' = filter (\<lambda>x. we_task x \<noteq> t) (wdt_table s)" using unreg(2) by simp
    have "unat (wd_num_registered_tasks s') \<le> unat (wd_num_registered_tasks s)"
      using length_filter_le [of "\<lambda>x. we_task x \<noteq> t" "wdt_table s"] length_wdt_table [of s'] by (simp add: tb)
    then show ?thesis using inv unreg(4-6) tb r by (auto simp: wdt_inv_def distinct_map_filter)
  qed (use unreg(3) inv r in simp)
qed

section \<open>Feeding\<close>

lemma has_software_frame [simp]: "has_software (hal c s) = has_software s"
  by (simp add: has_software_def hal_def)

lemma wdt_task_timeout_inv:
  assumes "\<And>f r t s. wdt_inv s \<Longrightarrow> wdt_inv (cb f r t s)" and "wdt_inv s"
  shows "case wdt_task_timeout cb i s of Inl s' \<Rightarrow> wdt_inv s' | Inr s' \<Rightarrow> wdt_inv s'"
proof -
  let ?u = "upd_entry i (\<lambda>e. e\<lparr>we_timeout_count := we_timeout_count e + 1\<rparr>) s"
  have "wdt_inv (?u\<lparr>wd_stats := st\<rparr>)" for st
    by (rule wdt_inv_cong [OF _ _ _ _ assms(2)]) (use assms(2) in \<open>auto simp: upd_entry_def wdt_inv_def\<close>)
  moreover have "wdt_inv (hal HalReset (s1\<lparr>wd_reset_reason := r, wd_stats := st\<rparr>))" if "wdt_inv s1" for s1 :: "'a wdt_scheme" and r st
    by (rule wdt_inv_cong [OF _ _ _ _ that]) (use that in \<open>auto simp: hal_def wdt_inv_def\<close>)
  ultimately show ?thesis using assms(1) by (auto simp: wdt_task_timeout_def Let_def)
qed

lemma wdt_check_from_inv:
  assumes "\<And>f r t s. wdt_inv s \<Longrightarrow> wdt_inv (cb f r t s)" and "wdt_inv s"
  shows "case wdt_check_from cb now i s of Inl s' \<Rightarrow> wdt_inv s' | Inr s' \<Rightarrow> wdt_inv s'"
  using assms
proof (induction cb now i s rule: wdt_check_from.induct)
  case (1 cb now i s)
  have "case wdt_task_timeout cb i s of Inl s' \<Rightarrow> wdt_inv s' | Inr s' \<Rightarrow> wdt_inv s'"
    using 1(3,4) by (rule wdt_task_timeout_inv)
  then show ?case
    using 1 by (subst wdt_check_from.simps) (auto split: sum.splits)
qed

lemma wdt_feed_inv:
  assumes "\<And>f r t s. wdt_inv s \<Longrightarrow> wdt_inv (cb f r t s)" and "wdt_inv s"
  shows "case wdt_feed cb s of Inl s' \<Rightarrow> wdt_inv s' | Inr (e, s') \<Rightarrow> wdt_inv s'"
proof -
  define s1 where "s1 = s\<lparr>wd_last_feed_time := os_get_tick_count s, wd_stats := (wd_stats s)\<lparr>wt_total_feeds := wt_total_feeds (wd_stats s) + 1\<rparr>\<rparr>"
  define s2 where "s2 = (if has_hardware s1 then hal HalFeed s1 else s1)"
  have "wdt_inv s2"
    by (rule wdt_inv_cong [OF _ _ _ _ assms(2)]) (use assms(2) in \<open>auto simp: hal_def wdt_inv_def s1_def s2_def\<close>)
  moreover have "case wdt_check_from cb (os_get_tick_count s2) 0 s2 of Inl s' \<Rightarrow> wdt_inv s' | Inr s' \<Rightarrow> wdt_inv s'"
    using assms(1) calculation by (rule wdt_check_from_inv)
  ultimately show ?thesis
    using assms(2) by (auto simp: wdt_feed_def Let_def wdt_check_tasks_def s1_def [symmetric] s2_def [symmetric] split: sum.splits)
qed

lemma wdt_trigger_reset_inv:
  assumes "\<And>f r t s. wdt_inv s \<Longrightarrow> wdt_inv (cb f r t s)" and "wdt_inv s"
  shows "wdt_inv (wdt_trigger_reset cb s)"
proof -
  have "wdt_inv (hal HalReset (s1\<lparr>wd_reset_reason := r, wd_stats := st\<rparr>))" if "wdt_inv s1" for s1 :: "'a wdt_scheme" and r st
    by (rule wdt_inv_cong [OF _ _ _ _ that]) (use that in \<open>auto simp: hal_def wdt_inv_def\<close>)
  then show ?thesis using assms by (simp add: wdt_trigger_reset_def Let_def)
qed

section \<open>Runs\<close>

datatype wdt_step = WInit bool "wdt_config option" | WDeinit | WStart | WStop | WEnable | WDisable | WFeed | WTimeout u32
  | WRegister ptr u32 | WUnregister ptr | WFeedTask ptr | WEnableTask ptr | WDisableTask ptr | WResetStats | WTriggerReset
  | WTick u32

text \<open>\<open>WTick n\<close>: the tick counter moves to \<open>n\<close>. The left summand is a reset.\<close>

fun wdt_exec :: "'a wdt_callback \<Rightarrow> wdt_step \<Rightarrow> 'a wdt_scheme \<Rightarrow> 'a wdt_scheme + 'a wdt_scheme" where
  "wdt_exec cb (WInit w c) s = Inr (snd (wdt_init w c s))"
| "wdt_exec cb WDeinit s = Inr (snd (wdt_deinit s))"
| "wdt_exec cb WStart s = Inr (snd (wdt_start s))"
| "wdt_exec cb WStop s = Inr (snd (wdt_stop s))"
| "wdt_exec cb WEnable s = Inr (snd (wdt_enable s))"
| "wdt_exec cb WDisable s = Inr (snd (wdt_disable s))"
| "wdt_exec cb WFeed s = (case wdt_feed cb s of Inl s \<Rightarrow> Inl s | Inr (e, s) \<Rightarrow> Inr s)"
| "wdt_exec cb (WTimeout n) s = Inr (snd (wdt_set_timeout n s))"
| "wdt_exec cb (WRegister t n) s = Inr (snd (wdt_register_task t n s))"
| "wdt_exec cb (WUnregister t) s = Inr (snd (wdt_unregister_task t s))"
| "wdt_exec cb (WFeedTask t) s = Inr (snd (wdt_feed_task t s))"
| "wdt_exec cb (WEnableTask t) s = Inr (snd (wdt_enable_task t s))"
| "wdt_exec cb (WDisableTask t) s = Inr (snd (wdt_disable_task t s))"
| "wdt_exec cb WResetStats s = Inr (snd (wdt_reset_stats s))"
| "wdt_exec cb WTriggerReset s = Inl (wdt_trigger_reset cb s)"
| "wdt_exec cb (WTick n) s = Inr (s\<lparr>k_tick_count := n\<rparr>)"

fun wdt_run :: "'a wdt_callback \<Rightarrow> wdt_step list \<Rightarrow> 'a wdt_scheme \<Rightarrow> 'a wdt_scheme + 'a wdt_scheme" where
  "wdt_run cb [] s = Inr s"
| "wdt_run cb (x # xs) s = (case wdt_exec cb x s of Inl s \<Rightarrow> Inl s | Inr s \<Rightarrow> wdt_run cb xs s)"

lemma wdt_exec_inv:
  assumes "\<And>f r t s. wdt_inv s \<Longrightarrow> wdt_inv (cb f r t s)" and "wdt_inv s"
  shows "case wdt_exec cb x s of Inl s' \<Rightarrow> wdt_inv s' | Inr s' \<Rightarrow> wdt_inv s'"
proof -
  have "wdt_inv (s\<lparr>k_tick_count := n\<rparr>)" for n
    by (rule wdt_inv_cong [OF _ _ _ _ assms(2)]) (use assms(2) in \<open>auto simp: wdt_inv_def\<close>)
  moreover have "wdt_inv (snd (wdt_reset_stats s))"
    by (rule wdt_inv_cong [OF _ _ _ _ assms(2)]) (use assms(2) in \<open>auto simp: wdt_inv_def wdt_reset_stats_def\<close>)
  moreover have "wdt_inv (snd (wdt_deinit s))" using assms(2) by (simp add: wdt_deinit_def wdt_inv_zero)
  moreover have "case wdt_feed cb s of Inl s' \<Rightarrow> wdt_inv s' | Inr (e, s') \<Rightarrow> wdt_inv s'" using assms by (rule wdt_feed_inv)
  moreover have "wdt_inv (wdt_trigger_reset cb s)" using assms by (rule wdt_trigger_reset_inv)
  moreover note wdt_init_inv [OF assms(2)] wdt_start_inv [OF assms(2)] wdt_stop_inv [OF assms(2)] wdt_set_timeout_inv [OF assms(2)]
    wdt_register_inv [OF assms(2)] wdt_unregister_inv [OF assms(2)] wdt_on_entry_inv [OF assms(2)]
  ultimately show ?thesis
    by (cases x) (auto simp: wdt_feed_task_def wdt_enable_task_def wdt_disable_task_def wdt_enable_def wdt_disable_def split: sum.splits)
qed

lemma wdt_run_inv:
  assumes "\<And>f r t s. wdt_inv s \<Longrightarrow> wdt_inv (cb f r t s)"
  shows "wdt_inv s \<Longrightarrow> case wdt_run cb xs s of Inl s' \<Rightarrow> wdt_inv s' | Inr s' \<Rightarrow> wdt_inv s'"
proof (induction xs arbitrary: s)
  case (Cons x xs)
  have "case wdt_exec cb x s of Inl s' \<Rightarrow> wdt_inv s' | Inr s' \<Rightarrow> wdt_inv s'" using assms Cons.prems by (rule wdt_exec_inv)
  then show ?case using Cons.IH by (cases "wdt_exec cb x s") simp_all
qed simp

section \<open>Detection\<close>

text \<open>A callback that records its calls outside of the state of the watchdog.\<close>

definition wdt_logger :: "(u32 \<Rightarrow> wdt_reset_reason \<Rightarrow> ptr \<Rightarrow> 'a \<Rightarrow> 'a) \<Rightarrow> 'a wdt_callback" where
  "wdt_logger g f r t s = wdt.more_update (g f r t) s"

definition report :: "(u32 \<Rightarrow> wdt_reset_reason \<Rightarrow> ptr \<Rightarrow> 'a \<Rightarrow> 'a) \<Rightarrow> u32 \<Rightarrow> wdt_task_entry list \<Rightarrow> 'a \<Rightarrow> 'a" where
  "report g f es = (if f \<noteq> 0 then fold (\<lambda>e. g f WDT_RESET_TASK_TIMEOUT (we_task e)) es else id)"

definition entries_from :: "nat \<Rightarrow> 'a wdt_scheme \<Rightarrow> wdt_task_entry list" where
  "entries_from i s = map (wd_task_entries s) [i..<unat (wd_num_registered_tasks s)]"

lemma entries_from_Cons:
  "i < unat (wd_num_registered_tasks s) \<Longrightarrow> entries_from i s = wd_task_entries s i # entries_from (Suc i) s"
  by (simp add: entries_from_def upt_conv_Cons)

lemma wdt_task_timeout_logger:
  "\<exists>s1. wd_num_registered_tasks s1 = wd_num_registered_tasks s \<and> entries_from (Suc i) s1 = entries_from (Suc i) s \<and>
     wd_config s1 = wd_config s \<and> wt_task_timeouts (wd_stats s1) = wt_task_timeouts (wd_stats s) + 1 \<and>
     wt_last_timeout_task (wd_stats s1) = we_task (wd_task_entries s i) \<and>
     wdt.more s1 = report g (wc_callback (wd_config s)) [wd_task_entries s i] (wdt.more s) \<and>
     (if wc_enable_reset (wd_config s)
      then wdt_task_timeout (wdt_logger g) i s = Inl s1 \<and> wd_reset_reason s1 = WDT_RESET_TASK_TIMEOUT \<and> last (wd_hal s1) = HalReset
      else wdt_task_timeout (wdt_logger g) i s = Inr s1)"
  by (auto simp: wdt_task_timeout_def wdt_logger_def upd_entry_def Let_def report_def entries_from_def hal_def
      intro!: exI [of _ "case wdt_task_timeout (wdt_logger g) i s of Inl s1 \<Rightarrow> s1 | Inr s1 \<Rightarrow> s1"])

lemma wdt_check_from_quiet:
  "filter (entry_expired now) (entries_from i s) = [] \<Longrightarrow> wdt_check_from cb now i s = Inr s"
proof (induction cb now i s rule: wdt_check_from.induct)
  case (1 cb now i s)
  then show ?case by (subst wdt_check_from.simps) (auto simp: entries_from_Cons split: if_splits)
qed

lemma wdt_check_from_reset:
  assumes "wc_enable_reset (wd_config s)" and "filter (entry_expired now) (entries_from i s) = e # es"
  shows "\<exists>s'. wdt_check_from (wdt_logger g) now i s = Inl s' \<and> wd_reset_reason s' = WDT_RESET_TASK_TIMEOUT \<and>
     wt_last_timeout_task (wd_stats s') = we_task e \<and> last (wd_hal s') = HalReset \<and>
     wdt.more s' = report g (wc_callback (wd_config s)) [e] (wdt.more s)"
  using assms
proof (induction "unat (wd_num_registered_tasks s) - i" arbitrary: i)
  case 0
  then show ?case by (simp add: entries_from_def)
next
  case (Suc d)
  then have i: "i < unat (wd_num_registered_tasks s)" by simp
  show ?case
  proof (cases "entry_expired now (wd_task_entries s i)")
    case True
    then have "e = wd_task_entries s i" using Suc.prems(2) i by (simp add: entries_from_Cons)
    then show ?thesis using wdt_task_timeout_logger [of s i g] Suc.prems(1) True i
      by (subst wdt_check_from.simps) auto
  next
    case False
    then have "filter (entry_expired now) (entries_from (Suc i) s) = e # es" using Suc.prems(2) i by (simp add: entries_from_Cons)
    then show ?thesis using Suc.hyps(1) [of "Suc i"] Suc.hyps(2) Suc.prems(1) False i
      by (subst wdt_check_from.simps) simp
  qed
qed

lemma wdt_check_from_all:
  assumes "\<not> wc_enable_reset (wd_config s)"
  shows "\<exists>s'. wdt_check_from (wdt_logger g) now i s = Inr s' \<and>
     wt_task_timeouts (wd_stats s') = wt_task_timeouts (wd_stats s) + of_nat (length (filter (entry_expired now) (entries_from i s))) \<and>
     wdt.more s' = report g (wc_callback (wd_config s)) (filter (entry_expired now) (entries_from i s)) (wdt.more s)"
  using assms
proof (induction "unat (wd_num_registered_tasks s) - i" arbitrary: i s)
  case 0
  then show ?case by (subst wdt_check_from.simps) (simp add: entries_from_def report_def)
next
  case (Suc d)
  then have i: "i < unat (wd_num_registered_tasks s)" by simp
  show ?case
  proof (cases "entry_expired now (wd_task_entries s i)")
    case True
    obtain s1 where s1: "wdt_task_timeout (wdt_logger g) i s = Inr s1" "wd_num_registered_tasks s1 = wd_num_registered_tasks s"
        "entries_from (Suc i) s1 = entries_from (Suc i) s" "wd_config s1 = wd_config s"
        "wt_task_timeouts (wd_stats s1) = wt_task_timeouts (wd_stats s) + 1"
        "wdt.more s1 = report g (wc_callback (wd_config s)) [wd_task_entries s i] (wdt.more s)"
      using wdt_task_timeout_logger [of s i g] Suc.prems by auto
    then show ?thesis using Suc.hyps(1) [of s1 "Suc i"] Suc.hyps(2) Suc.prems True i
      by (subst wdt_check_from.simps) (auto simp: entries_from_Cons report_def add.assoc)
  next
    case False
    then show ?thesis using Suc.hyps(1) [of s "Suc i"] Suc.hyps(2) Suc.prems i
      by (subst wdt_check_from.simps) (auto simp: entries_from_Cons)
  qed
qed

text \<open>What it means that a task is late, on integers: since the last feed at least its timeout has
  passed, on a clock of 32 bits.\<close>

definition overdue :: "u32 \<Rightarrow> wdt_task_entry \<Rightarrow> bool" where
  "overdue now e \<longleftrightarrow> we_enabled e \<and> (uint now - uint (we_last_feed_time e)) mod 2 ^ 32 \<ge> uint (we_timeout_ms e)"

lemma entry_expired_overdue: "entry_expired = overdue"
  by (intro ext) (simp add: entry_expired_def overdue_def word_le_def uint_word_ariths)

section \<open>Properties\<close>

text \<open>C22. Whatever sequence of calls is made, also with a callback that calls back into the watchdog
  through operations that keep the invariant, at most eight tasks are monitored, all different and
  none \<^verbatim>\<open>NULL\<close>, each with a timeout of at least 100 ms (the code checks no upper bound for tasks); a
  watchdog that is enabled is initialised, and the timeout of an initialised one is between 100 and
  60000 ms. This holds in the final state and in the state in which a reset is requested.\<close>

theorem wdt_invariant:
  assumes "\<And>f r t s. wdt_inv s \<Longrightarrow> wdt_inv (cb f r t s)"
  shows "case wdt_run cb xs (zero_wdt s) of Inl s' \<Rightarrow> wdt_inv s' | Inr s' \<Rightarrow> wdt_inv s'"
  using assms wdt_inv_zero by (rule wdt_run_inv)

definition boot_wdt :: "(ptr list) wdt_scheme" where
  "boot_wdt = zero_wdt (kernel.extend boot_memory \<lparr>wd_initialized = False, wd_enabled = False, wd_config = zero_wdt_config,
     wd_last_feed_time = 0, wd_stats = zero_stats, wd_task_entries = (\<lambda>_. zero_entry), wd_num_registered_tasks = 0,
     wd_reset_reason = WDT_RESET_NONE, wd_hal = [], \<dots> = []\<rparr>)"

definition log_task :: "u32 \<Rightarrow> wdt_reset_reason \<Rightarrow> ptr \<Rightarrow> ptr list \<Rightarrow> ptr list" where
  "log_task f r t l = l @ [t]"

lemma wdt_logger_inv: "wdt_inv s \<Longrightarrow> wdt_inv (wdt_logger g f r t s)"
  by (simp add: wdt_inv_def wdt_logger_def wdt_table_def)

text \<open>A callback that takes the late task out of the table, and a run in which it is called: of two
  tasks registered with a watchdog without resets the first one is late when the watchdog is fed.\<close>

definition drop_late :: "'a wdt_callback" where
  "drop_late f r t s = snd (wdt_unregister_task t s)"

definition late_run :: "wdt_step list" where
  "late_run = [WInit False (Some \<lparr>wc_type = WDT_TYPE_SOFTWARE, wc_timeout_ms = 1000, wc_auto_start = True, wc_enable_reset = False, wc_callback = 16\<rparr>),
     WRegister (Some 3) 200, WRegister (Some 5) 300, WTick 250, WFeed]"

theorem wdt_invariant_witness:
  "\<exists>s'. wdt_run drop_late late_run (zero_wdt boot_wdt) = Inr s' \<and> wdt_inv s' \<and> wd_enabled s' \<and>
     map we_task (wdt_table s') = [Some 5] \<and> wt_task_timeouts (wd_stats s') = 1"
proof -
  let ?r = "wdt_run drop_late late_run (zero_wdt boot_wdt)"
  have "case ?r of Inl s' \<Rightarrow> wdt_inv s' | Inr s' \<Rightarrow> wdt_inv s'"
    by (rule wdt_invariant) (simp add: drop_late_def wdt_unregister_inv)
  moreover have "\<not> (8 :: u32) \<le> 1" by (simp add: word_le_nat_alt)
  then have "case ?r of Inl s' \<Rightarrow> False
     | Inr s' \<Rightarrow> wd_enabled s' \<and> map we_task (wdt_table s') = [Some 5] \<and> wt_task_timeouts (wd_stats s') = 1"
    by (simp add: late_run_def drop_late_def boot_wdt_def zero_wdt_def zero_stats_def wdt_init_def wdt_start_def Let_def wdt_consts has_hardware_def
        has_software_def wdt_register_task_def find_task_entry_def find_entry_from.simps upd_entry_def wdt_feed_def wdt_check_tasks_def
        wdt_check_from.simps entry_expired_def wdt_task_timeout_def wdt_unregister_task_def shift_entries.simps os_get_tick_count_def wdt_table_def
        kernel.defs boot_memory_def demo_kernel_def upt_rec)
  ultimately show ?thesis by (auto split: sum.splits)
qed

text \<open>C23. Registering and unregistering act on the list of monitored tasks: a task is registered
  exactly if it is not yet in the list, its timeout is not too short and there is room, and
  is then appended with the time of now; unregistering deletes exactly its entry; in all
  other cases nothing changes.\<close>

theorem wdt_registration:
  assumes "wdt_inv s" and "wdt_register_task t n s = (e, s')" and "wdt_unregister_task u s' = (e', s'')"
  shows "(e = WDT_OK \<longleftrightarrow> wd_initialized s \<and> t \<noteq> None \<and> 100 \<le> unat n \<and> t \<notin> we_task ` set (wdt_table s) \<and> length (wdt_table s) < 8) \<and>
     (e' = WDT_OK \<longleftrightarrow> wd_initialized s \<and> u \<in> we_task ` set (wdt_table s')) \<and>
     wdt_table s' = wdt_table s @ (if e = WDT_OK then [\<lparr>we_task = t, we_timeout_ms = n, we_last_feed_time = k_tick_count s,
       we_enabled = True, we_timeout_count = 0\<rparr>] else []) \<and>
     wdt_table s'' = filter (\<lambda>x. we_task x \<noteq> u \<or> e' \<noteq> WDT_OK) (wdt_table s')"
proof -
  have le: "unat (wd_num_registered_tasks s) \<le> 8" using assms(1) by (simp add: wdt_inv_def)
  note reg = wdt_register_table [OF le assms(2)]
  have inv: "wdt_inv s'" using wdt_register_inv [OF assms(1), of t n] assms(2) by simp
  note unreg = wdt_unregister_table [OF inv assms(3)]
  have "wdt_table s' = wdt_table s @ (if e = WDT_OK then [\<lparr>we_task = t, we_timeout_ms = n, we_last_feed_time = k_tick_count s,
      we_enabled = True, we_timeout_count = 0\<rparr>] else [])" using reg(2,3) by auto
  moreover have "wdt_table s'' = filter (\<lambda>x. we_task x \<noteq> u \<or> e' \<noteq> WDT_OK) (wdt_table s')" using unreg(2,3) by (cases "e' = WDT_OK") auto
  ultimately show ?thesis using reg(1,5) unreg(1) by blast
qed

theorem wdt_registration_witness:
  "let s = boot_wdt\<lparr>wd_initialized := True, wd_config := zero_wdt_config\<lparr>wc_timeout_ms := 1000\<rparr>\<rparr>;
       r = wdt_register_task (Some 3) 200 s; r' = wdt_unregister_task (Some 3) (snd r) in
   fst r = WDT_OK \<and> fst r' = WDT_OK \<and> wdt_table (snd r') = []"
proof -
  let ?s = "boot_wdt\<lparr>wd_initialized := True, wd_config := zero_wdt_config\<lparr>wc_timeout_ms := 1000\<rparr>\<rparr>"
  let ?r = "wdt_register_task (Some 3) 200 ?s"
  have "wdt_inv ?s" by (simp add: wdt_inv_def boot_wdt_def zero_wdt_def wdt_table_def)
  moreover have "wd_initialized ?s" "wdt_table ?s = []" by (simp_all add: boot_wdt_def zero_wdt_def wdt_table_def)
  ultimately show ?thesis
    using wdt_registration [of ?s "Some 3" 200 "fst ?r" "snd ?r" "Some 3" "fst (wdt_unregister_task (Some 3) (snd ?r))"
        "snd (wdt_unregister_task (Some 3) (snd ?r))"] by (simp add: Let_def)
qed

text \<open>C12. Feeding a running software watchdog detects exactly the enabled tasks for which at least
  their timeout has passed since they were fed, also across a wrap-around of the tick counter,
  for callbacks that do not call the watchdog. With resets enabled and at least one such task, the system is reset because
  of the first of them, after its callback; with resets disabled, every such task is counted
  and reported once, in the order of registration; if there is none, the call returns normally.\<close>

theorem wdt_feed_detects:
  fixes s :: "'a wdt_scheme"
  assumes "wd_initialized s" and "wd_enabled s" and "has_software s"
    and "late = filter (overdue (k_tick_count s)) (wdt_table s)"
  shows "case wdt_feed (wdt_logger g) s of
       Inl s' \<Rightarrow> wc_enable_reset (wd_config s) \<and> late \<noteq> [] \<and> wd_reset_reason s' = WDT_RESET_TASK_TIMEOUT \<and>
         wt_last_timeout_task (wd_stats s') = we_task (hd late) \<and> last (wd_hal s') = HalReset \<and>
         wdt.more s' = report g (wc_callback (wd_config s)) [hd late] (wdt.more s)
     | Inr (e, s') \<Rightarrow> e = WDT_OK \<and> (wc_enable_reset (wd_config s) \<longrightarrow> late = []) \<and>
         wt_task_timeouts (wd_stats s') = wt_task_timeouts (wd_stats s) + of_nat (length late) \<and>
         wdt.more s' = report g (wc_callback (wd_config s)) late (wdt.more s)"
proof -
  define s1 where "s1 = s\<lparr>wd_last_feed_time := os_get_tick_count s, wd_stats := (wd_stats s)\<lparr>wt_total_feeds := wt_total_feeds (wd_stats s) + 1\<rparr>\<rparr>"
  define s2 where "s2 = (if has_hardware s1 then hal HalFeed s1 else s1)"
  have s2: "wd_initialized s2" "wd_enabled s2" "has_software s2" "wd_config s2 = wd_config s" "wdt.more s2 = wdt.more s"
      "wt_task_timeouts (wd_stats s2) = wt_task_timeouts (wd_stats s)" "os_get_tick_count s2 = k_tick_count s"
      "entries_from 0 s2 = wdt_table s"
    using assms(1-3) by (simp_all add: s1_def s2_def hal_def has_software_def os_get_tick_count_def entries_from_def wdt_table_def)
  have feed: "wdt_feed (wdt_logger g) s = (case wdt_check_from (wdt_logger g) (k_tick_count s) 0 s2 of Inl s \<Rightarrow> Inl s | Inr s \<Rightarrow> Inr (WDT_OK, s))"
    using assms(1-3) s2(1-3,7) by (simp add: wdt_feed_def Let_def wdt_check_tasks_def s1_def [symmetric] s2_def [symmetric])
  have late: "filter (entry_expired (k_tick_count s)) (entries_from 0 s2) = late" using s2(8) assms(4) by (simp add: entry_expired_overdue)
  consider "\<not> wc_enable_reset (wd_config s)" | "late = []" | e es where "wc_enable_reset (wd_config s)" "late = e # es"
    by (cases late) auto
  then show ?thesis
  proof cases
    case 1
    then show ?thesis using wdt_check_from_all [of s2 g "k_tick_count s" 0] s2(4-6) late by (auto simp: feed)
  next
    case 2
    then show ?thesis using wdt_check_from_quiet [of "k_tick_count s" 0 s2 "wdt_logger g"] s2(5,6) late by (simp add: feed report_def)
  next
    case 3
    then show ?thesis using wdt_check_from_reset [of s2 "k_tick_count s" 0 e es g] s2(4,5) late by (auto simp: feed)
  qed
qed

theorem wdt_feed_detects_witness:
  "let s = boot_wdt\<lparr>k_tick_count := 500, wd_initialized := True, wd_enabled := True, wd_num_registered_tasks := 2,
         wd_config := \<lparr>wc_type = WDT_TYPE_BOTH, wc_timeout_ms = 1000, wc_auto_start = True, wc_enable_reset = True, wc_callback = 16\<rparr>,
         wd_task_entries := (\<lambda>_. zero_entry)(0 := \<lparr>we_task = Some 3, we_timeout_ms = 300, we_last_feed_time = 400, we_enabled = True, we_timeout_count = 0\<rparr>,
                             Suc 0 := \<lparr>we_task = Some 2, we_timeout_ms = 300, we_last_feed_time = 100, we_enabled = True, we_timeout_count = 0\<rparr>)\<rparr> in
   \<exists>s'. wdt_feed (wdt_logger log_task) s = Inl s' \<and> wdt.more s' = [Some 2]"
  (is "let s = ?s in _")
proof -
  have "filter (overdue (k_tick_count ?s)) (wdt_table ?s) =
      [\<lparr>we_task = Some 2, we_timeout_ms = 300, we_last_feed_time = 100, we_enabled = True, we_timeout_count = 0\<rparr>]"
    by (simp add: wdt_table_def overdue_def upt_rec)
  moreover have "wdt.more ?s = []" by (simp add: boot_wdt_def zero_wdt_def kernel.defs)
  ultimately show ?thesis
    using wdt_feed_detects [of ?s "filter (overdue (k_tick_count ?s)) (wdt_table ?s)" log_task]
    by (auto simp: has_software_def report_def log_task_def Let_def split: sum.splits prod.splits)
qed

end
