(* ===== verification/Statistics.thy ===== *)
theory Statistics
  imports Memory_Spec Complex_Main
begin

text \<open>
  The statistics and the debugging helpers at the end of \<^verbatim>\<open>src/kernel.c\<close>. Percentages are computed in
  single-precision floating point; the operations of that arithmetic are an argument, the
  record \<open>float_ops\<close>, so that the definitions do not depend on its rounding.
\<close>

section \<open>Data\<close>

record os_stats =
  os_total_tasks :: u32
  os_running_tasks :: u32
  os_blocked_tasks :: u32
  os_context_switches :: u32
  os_uptime_ticks :: u32
  os_free_memory :: u32
  os_used_memory :: u32

record 'f task_stats =
  ts_name :: string
  ts_state :: task_state
  ts_priority :: u8
  ts_run_time :: u32
  ts_context_switches :: u32
  ts_stack_size :: u32
  ts_stack_used :: u32
  ts_stack_free :: u32
  ts_cpu_usage :: 'f

record 'f system_stats =
  ss_total_tasks :: u32
  ss_running_tasks :: u32
  ss_total_context_switches :: u32
  ss_uptime_ticks :: u32
  ss_uptime_seconds :: u32
  ss_idle_time :: u32
  ss_cpu_usage :: 'f
  ss_free_heap :: u32

record 'f float_ops =
  f_of_u32 :: "u32 \<Rightarrow> 'f"
  f_div :: "'f \<Rightarrow> 'f \<Rightarrow> 'f"
  f_mult :: "'f \<Rightarrow> 'f \<Rightarrow> 'f"
  f_minus :: "'f \<Rightarrow> 'f \<Rightarrow> 'f"

section \<open>Operations\<close>

text \<open>The loops over \<^verbatim>\<open>task_pool\<close> that count states.\<close>

fun count_pool :: "(task_state \<Rightarrow> bool) \<Rightarrow> nat \<Rightarrow> 'a kernel_scheme \<Rightarrow> u32" where
  "count_pool P 0 s = 0"
| "count_pool P (Suc i) s = count_pool P i s + (if P (t_state (k_heap s i)) then 1 else 0)"

definition os_get_stats :: "bool \<Rightarrow> 'a memory_scheme \<Rightarrow> os_stats option" where
  "os_get_stats given s =
    (if \<not> given then None
     else Some \<lparr>os_total_tasks = ucast (k_task_count s),
       os_running_tasks = count_pool (\<lambda>st. st = TASK_STATE_RUNNING) MAX_TASKS s,
       os_blocked_tasks = count_pool (\<lambda>st. st = TASK_STATE_BLOCKED) MAX_TASKS s,
       os_context_switches = k_context_switch_count s,
       os_uptime_ticks = k_tick_count s,
       os_free_memory = os_get_free_memory s,
       os_used_memory = 0\<rparr>)"

definition os_task_get_cpu_usage :: "ptr \<Rightarrow> 'a kernel_scheme \<Rightarrow> u8" where
  "os_task_get_cpu_usage task s =
    (case task of
       None \<Rightarrow> 0
     | Some a \<Rightarrow>
        if k_tick_count s = 0 then 0
        else
          let usage = ucast ((ucast (t_run_time (k_heap s a)) * 100 :: u64) div ucast (k_tick_count s)) :: u32
          in ucast (if usage > 100 then 100 else usage))"

text \<open>The first word from \<open>current\<close> on that is not zero, at most \<^verbatim>\<open>stack_top\<close>.\<close>

function first_used :: "(nat \<Rightarrow> u32) \<Rightarrow> nat \<Rightarrow> nat" where
  "first_used stack current =
    (if current < STACK_SIZE - 1 \<and> stack current = 0 then first_used stack (Suc current) else current)"
  by auto
termination by (relation "measure (\<lambda>(st, c). STACK_SIZE - c)") auto

declare first_used.simps [simp del]

definition calculate_stack_usage :: "ptr \<Rightarrow> 'a kernel_scheme \<Rightarrow> u32" where
  "calculate_stack_usage task s =
    (case task of
       None \<Rightarrow> 0
     | Some a \<Rightarrow>
        let used_words = of_nat (STACK_SIZE - 1 - first_used (t_stack (k_heap s a)) 0 + 1) :: u32
        in used_words * 4)"

definition os_task_get_stats ::
    "'f float_ops \<Rightarrow> ptr \<Rightarrow> bool \<Rightarrow> 'a kernel_scheme \<Rightarrow> os_error \<times> 'f task_stats option \<times> 'a kernel_scheme" where
  "os_task_get_stats fl task given s =
    (case task of
       None \<Rightarrow> (OS_ERROR_INVALID_PARAM, None, s)
     | Some a \<Rightarrow>
        if \<not> given then (OS_ERROR_INVALID_PARAM, None, s)
        else
          let (st, s) = os_enter_critical s;
              t = k_heap s a;
              sz = of_nat STACK_SIZE * 4;
              used = calculate_stack_usage task s;
              s = (if used > t_stack_high_water_mark t
                   then upd_task a (\<lambda>t. t\<lparr>t_stack_high_water_mark := used\<rparr>) s else s);
              cpu = (if k_tick_count s > 0
                     then f_mult fl (f_div fl (f_of_u32 fl (t_run_time t)) (f_of_u32 fl (k_tick_count s))) (f_of_u32 fl 100)
                     else f_of_u32 fl 0)
          in (OS_OK,
              Some \<lparr>ts_name = take 15 (t_name t), ts_state = t_state t, ts_priority = t_priority t,
                ts_run_time = t_run_time t, ts_context_switches = t_context_switches t,
                ts_stack_size = sz, ts_stack_used = used, ts_stack_free = (if used \<le> sz then sz - used else 0),
                ts_cpu_usage = cpu\<rparr>,
              os_exit_critical st s))"

definition os_get_system_stats ::
    "'f float_ops \<Rightarrow> bool \<Rightarrow> 'a memory_scheme \<Rightarrow> os_error \<times> 'f system_stats option \<times> 'a memory_scheme" where
  "os_get_system_stats fl given s =
    (if \<not> given then (OS_ERROR_INVALID_PARAM, None, s)
     else
       let (st, s) = os_enter_critical s;
           idle = (if k_task_count s > 0 then t_run_time (k_heap s idle_tcb) else 0);
           cpu = (if k_tick_count s > 0
                  then f_minus fl (f_of_u32 fl 100)
                         (f_mult fl (f_div fl (f_of_u32 fl idle) (f_of_u32 fl (k_tick_count s))) (f_of_u32 fl 100))
                  else f_of_u32 fl 0)
       in (OS_OK,
           Some \<lparr>ss_total_tasks = ucast (k_task_count s),
             ss_running_tasks = count_pool (\<lambda>st. st = TASK_STATE_READY \<or> st = TASK_STATE_RUNNING) MAX_TASKS s,
             ss_total_context_switches = k_context_switch_count s,
             ss_uptime_ticks = k_tick_count s,
             ss_uptime_seconds = k_tick_count s div TICK_RATE_HZ,
             ss_idle_time = idle, ss_cpu_usage = cpu, ss_free_heap = os_get_free_memory s\<rparr>,
           os_exit_critical st s))"

definition os_task_reset_stats :: "ptr \<Rightarrow> 'a kernel_scheme \<Rightarrow> os_error \<times> 'a kernel_scheme" where
  "os_task_reset_stats task s =
    (case task of
       None \<Rightarrow> (OS_ERROR_INVALID_PARAM, s)
     | Some a \<Rightarrow>
        let (st, s) = os_enter_critical s;
            s = upd_task a (\<lambda>t. t\<lparr>t_run_time := 0, t_context_switches := 0, t_stack_high_water_mark := 0\<rparr>) s
        in (OS_OK, os_exit_critical st s))"

section \<open>Names\<close>

fun os_error_to_string :: "os_error \<Rightarrow> string" where
  "os_error_to_string OS_OK = ''Success''"
| "os_error_to_string OS_ERROR = ''Error''"
| "os_error_to_string OS_ERROR_NO_MEMORY = ''Out of memory''"
| "os_error_to_string OS_ERROR_INVALID_PARAM = ''Invalid parameter''"
| "os_error_to_string OS_ERROR_TIMEOUT = ''Timeout''"
| "os_error_to_string OS_ERROR_PERMISSION_DENIED = ''Permission denied''"
| "os_error_to_string OS_ERROR_NOT_IMPLEMENTED = ''Not implemented''"
| "os_error_to_string OS_ERROR_NO_RESOURCE = ''No resource''"
| "os_error_to_string OS_ERROR_NOT_INITIALIZED = ''Not initialized''"

fun os_task_state_to_string :: "task_state \<Rightarrow> string" where
  "os_task_state_to_string TASK_STATE_READY = ''Ready''"
| "os_task_state_to_string TASK_STATE_RUNNING = ''Running''"
| "os_task_state_to_string TASK_STATE_BLOCKED = ''Blocked''"
| "os_task_state_to_string TASK_STATE_SUSPENDED = ''Suspended''"
| "os_task_state_to_string TASK_STATE_TERMINATED = ''Terminated''"

definition os_priority_name :: "u8 \<Rightarrow> string" where
  "os_priority_name priority =
    (if priority = PRIORITY_CRITICAL then ''Critical''
     else if priority \<le> PRIORITY_HIGH then ''High''
     else if priority \<le> PRIORITY_NORMAL then ''Normal''
     else if priority \<le> PRIORITY_LOW then ''Low''
     else if priority = PRIORITY_IDLE then ''Idle''
     else ''Custom'')"

definition os_get_version_string :: string where
  "os_get_version_string = ''1.2.0''"

section \<open>CPU and stack usage\<close>

lemma first_used_spec:
  assumes "c < STACK_SIZE"
  shows "c \<le> first_used st c \<and> first_used st c < STACK_SIZE \<and> (\<forall>i. c \<le> i \<and> i < first_used st c \<longrightarrow> st i = 0) \<and>
     (first_used st c = STACK_SIZE - 1 \<or> st (first_used st c) \<noteq> 0)"
  using assms
proof (induction st c rule: first_used.induct)
  case (1 st c)
  show ?case
  proof (cases "c < STACK_SIZE - 1 \<and> st c = 0")
    case True
    then have eq: "first_used st c = first_used st (Suc c)" by (subst first_used.simps) simp
    have lt: "Suc c < STACK_SIZE" using True by (simp add: less_diff_conv)
    have IH: "Suc c \<le> first_used st (Suc c)" "first_used st (Suc c) < STACK_SIZE"
        "\<And>i. Suc c \<le> i \<Longrightarrow> i < first_used st (Suc c) \<Longrightarrow> st i = 0"
        "first_used st (Suc c) = STACK_SIZE - 1 \<or> st (first_used st (Suc c)) \<noteq> 0"
      using 1(1) [OF True lt] by simp_all
    have "st i = 0" if "c \<le> i" "i < first_used st (Suc c)" for i
      using that IH(3) [of i] True by (cases "i = c") auto
    then show ?thesis unfolding eq using IH by simp
  next
    case False
    then have "first_used st c = c" by (subst first_used.simps) auto
    then show ?thesis using False 1(2) by auto
  qed
qed

text \<open>The usage is at least one word and at most the whole stack, and all words below it are zero.\<close>

lemma calculate_stack_usage_spec:
  obtains i where "i < STACK_SIZE" "unat (calculate_stack_usage (Some a) s) = 4 * (STACK_SIZE - i)"
    "\<And>j. j < i \<Longrightarrow> t_stack (k_heap s a) j = 0" "i = STACK_SIZE - 1 \<or> t_stack (k_heap s a) i \<noteq> 0"
proof -
  let ?i = "first_used (t_stack (k_heap s a)) 0"
  have i: "?i < STACK_SIZE" "\<And>j. j < ?i \<Longrightarrow> t_stack (k_heap s a) j = 0" "?i = STACK_SIZE - 1 \<or> t_stack (k_heap s a) ?i \<noteq> 0"
    using first_used_spec [of 0 "t_stack (k_heap s a)"] by (auto simp: STACK_SIZE_def)
  have "unat (of_nat (STACK_SIZE - ?i) :: u32) = STACK_SIZE - ?i"
    unfolding unat_of_nat using i(1) by (simp add: STACK_SIZE_def)
  moreover have "STACK_SIZE - 1 - ?i + 1 = STACK_SIZE - ?i" using i(1) by simp
  ultimately have "unat (calculate_stack_usage (Some a) s) = 4 * (STACK_SIZE - ?i)"
    by (simp add: calculate_stack_usage_def unat_mult_u32 STACK_SIZE_def del: of_nat_diff)
  then show thesis using that i by blast
qed

lemma os_task_get_cpu_usage_le: "unat (os_task_get_cpu_usage t s) \<le> 100"
proof -
  have "unat (ucast (u :: u32) :: u8) \<le> 100" if "u \<le> 100" for u :: u32
  proof -
    have "unat u \<le> 100" using that by (simp add: word_le_nat_alt)
    then show ?thesis by (simp add: unsigned_ucast_eq take_bit_eq_mod)
  qed
  then show ?thesis by (auto simp: os_task_get_cpu_usage_def Let_def split: option.splits)
qed

lemma count_pool_all: "\<forall>a < n. P (t_state (k_heap s a)) \<Longrightarrow> count_pool P n s = of_nat n"
  by (induction n) auto

lemma new_tcb_state: "t_state (new_tcb n e p pr) = TASK_STATE_READY"
  by (simp add: new_tcb_def split: prod.splits)

lemma zero_tcb_state: "t_state zero_tcb = TASK_STATE_READY"
  by (simp add: zero_tcb_def)

section \<open>Properties\<close>

text \<open>The task counts of the statistics look at \<^verbatim>\<open>task_pool\<close>, of which only the entry of the idle task
  is ever used and whose zeroed entries read as \<^verbatim>\<open>READY\<close>: right after \<^verbatim>\<open>os_init\<close>, with the idle task
  as the only task, \<^verbatim>\<open>os_get_system_stats\<close> reports one task in total and eight of them running or ready.\<close>

theorem system_stats_after_init:
  assumes "idle_entry \<noteq> 0"
  shows "\<exists>s' st s''. os_init idle_entry s = Some s' \<and> os_get_system_stats fl True s' = (OS_OK, Some st, s'') \<and>
     ss_total_tasks st = 1 \<and> ss_running_tasks st = 8"
proof -
  obtain s' where s': "os_init idle_entry s = Some s'" "k_task_count s' = 1" "\<forall>a < MAX_TASKS. t_state (k_heap s' a) = TASK_STATE_READY"
    using assms by (simp add: os_init_def os_task_create_def zero_kernel_def scheduler_add_ready_task_def Let_def
      upd_task_def idle_tcb_def MAX_TASKS_def new_tcb_state zero_tcb_state)
  then have "count_pool (\<lambda>st. st = TASK_STATE_READY \<or> st = TASK_STATE_RUNNING) MAX_TASKS (s'\<lparr>k_primask := 1\<rparr>) = of_nat MAX_TASKS"
    by (intro count_pool_all) simp
  then show ?thesis using s'(1,2) by (simp add: os_get_system_stats_def critical_defs Let_def MAX_TASKS_def)
qed

definition exact_ops :: "rat float_ops" where
  "exact_ops = \<lparr>f_of_u32 = (\<lambda>w. of_nat (unat w)), f_div = (/), f_mult = (*), f_minus = (-)\<rparr>"

theorem system_stats_after_init_witness:
  "\<exists>s' st s''. os_init 64 boot_pool = Some s' \<and> os_get_system_stats exact_ops True s' = (OS_OK, Some st, s'') \<and>
     ss_total_tasks st = 1 \<and> ss_running_tasks st = 8"
  by (rule system_stats_after_init) simp

end
