(* ===== verification/Block_Device.thy ===== *)
theory Block_Device
  imports Prelude
begin

text \<open>
  The storage interface \<^verbatim>\<open>fs_block_device_t\<close> of \<^verbatim>\<open>include/tinyos.h\<close>, what a file system may rely on
  of a driver (the locale \<open>block_storage\<close>), and the RAM disk of \<^verbatim>\<open>drivers/ramdisk.c\<close>, which
  provides it. A block is a list of 512 bytes; a request for several blocks moves their
  concatenation.
\<close>

section \<open>The interface\<close>

type_synonym block = "u8 list"

definition FS_BLOCK_SIZE :: nat where "FS_BLOCK_SIZE = 512"

text \<open>
  \<open>bd_read\<close> gives \<open>None\<close>, and \<open>bd_write\<close> and \<open>bd_erase\<close> give \<open>False\<close>, where the driver returns an
  error code; the functions for erasing and synchronising may be absent.
\<close>

record 'd block_device =
  bd_read :: "u32 \<Rightarrow> u32 \<Rightarrow> 'd \<Rightarrow> block option"
  bd_write :: "u32 \<Rightarrow> block \<Rightarrow> u32 \<Rightarrow> 'd \<Rightarrow> bool \<times> 'd"
  bd_erase :: "(u32 \<Rightarrow> u32 \<Rightarrow> 'd \<Rightarrow> bool \<times> 'd) option"
  bd_sync :: "('d \<Rightarrow> 'd) option"
  bd_get_block_count :: "'d \<Rightarrow> u32"

text \<open>The contract: reads and writes of single blocks in range succeed, a read returns what was
  last written, and a write changes no other block.\<close>

locale block_storage =
  fixes dev :: "'d block_device" and ok :: "'d \<Rightarrow> bool"
  assumes read_ok: "ok d \<Longrightarrow> b < bd_get_block_count dev d \<Longrightarrow> \<exists>x. bd_read dev b 1 d = Some x \<and> length x = FS_BLOCK_SIZE"
    and write_ok: "ok d \<Longrightarrow> b < bd_get_block_count dev d \<Longrightarrow> length x = FS_BLOCK_SIZE \<Longrightarrow>
      \<exists>d'. bd_write dev b x 1 d = (True, d') \<and> ok d' \<and> bd_get_block_count dev d' = bd_get_block_count dev d \<and>
        bd_read dev b 1 d' = Some x \<and> (\<forall>c. c \<noteq> b \<longrightarrow> bd_read dev c 1 d' = bd_read dev c 1 d)"

section \<open>The RAM disk\<close>

definition RAMDISK_BLOCKS :: u32 where "RAMDISK_BLOCKS = 256"

record ramdisk =
  rd_storage :: "nat \<Rightarrow> block"
  rd_initialized :: bool

text \<open>The bounds check shared by the three operations.\<close>

definition ramdisk_bad_range :: "u32 \<Rightarrow> u32 \<Rightarrow> bool" where
  "ramdisk_bad_range b n \<longleftrightarrow> n > RAMDISK_BLOCKS \<or> b > RAMDISK_BLOCKS - n"

definition ramdisk_read :: "u32 \<Rightarrow> u32 \<Rightarrow> ramdisk \<Rightarrow> block option" where
  "ramdisk_read b n d =
    (if \<not> rd_initialized d then None
     else if ramdisk_bad_range b n then None
     else Some (concat (map (\<lambda>i. rd_storage d (unat b + i)) [0..<unat n])))"

fun ramdisk_write_loop :: "nat \<Rightarrow> nat \<Rightarrow> block \<Rightarrow> (nat \<Rightarrow> block) \<Rightarrow> nat \<Rightarrow> block" where
  "ramdisk_write_loop 0 b buffer st = st"
| "ramdisk_write_loop (Suc n) b buffer st =
     ramdisk_write_loop n (Suc b) (drop FS_BLOCK_SIZE buffer) (st(b := take FS_BLOCK_SIZE buffer))"

definition ramdisk_write :: "u32 \<Rightarrow> block \<Rightarrow> u32 \<Rightarrow> ramdisk \<Rightarrow> bool \<times> ramdisk" where
  "ramdisk_write b buffer n d =
    (if \<not> rd_initialized d then (False, d)
     else if ramdisk_bad_range b n then (False, d)
     else (True, d\<lparr>rd_storage := ramdisk_write_loop (unat n) (unat b) buffer (rd_storage d)\<rparr>))"

definition zero_bytes :: "nat \<Rightarrow> u8 list" where
  "zero_bytes n = replicate n 0"

definition ramdisk_erase :: "u32 \<Rightarrow> u32 \<Rightarrow> ramdisk \<Rightarrow> bool \<times> ramdisk" where
  "ramdisk_erase b n d =
    (if \<not> rd_initialized d then (False, d)
     else if ramdisk_bad_range b n then (False, d)
     else (True, d\<lparr>rd_storage := (\<lambda>i. if unat b \<le> i \<and> i < unat b + unat n then zero_bytes FS_BLOCK_SIZE else rd_storage d i)\<rparr>))"

definition ramdisk_sync :: "ramdisk \<Rightarrow> ramdisk" where
  "ramdisk_sync d = d"

definition ramdisk_get_block_count :: "ramdisk \<Rightarrow> u32" where
  "ramdisk_get_block_count d = RAMDISK_BLOCKS"

definition ramdisk_init :: "ramdisk \<Rightarrow> ramdisk" where
  "ramdisk_init d = \<lparr>rd_storage = (\<lambda>_. zero_bytes FS_BLOCK_SIZE), rd_initialized = True\<rparr>"

definition ramdisk_ops :: "ramdisk block_device" where
  "ramdisk_ops = \<lparr>bd_read = ramdisk_read, bd_write = ramdisk_write, bd_erase = Some ramdisk_erase,
     bd_sync = Some ramdisk_sync, bd_get_block_count = ramdisk_get_block_count\<rparr>"

definition ramdisk_get_device :: "ramdisk \<Rightarrow> ramdisk block_device \<times> ramdisk" where
  "ramdisk_get_device d = (ramdisk_ops, if \<not> rd_initialized d then ramdisk_init d else d)"

definition ramdisk_ok :: "ramdisk \<Rightarrow> bool" where
  "ramdisk_ok d \<longleftrightarrow> rd_initialized d \<and> (\<forall>i < 256. length (rd_storage d i) = FS_BLOCK_SIZE)"

text \<open>The range check accepts exactly the ranges inside the disk.\<close>

lemma ramdisk_bad_range_iff: "ramdisk_bad_range b n \<longleftrightarrow> 256 < unat b + unat n"
proof (cases "unat n \<le> 256")
  case True
  then have "unat (RAMDISK_BLOCKS - n) = 256 - unat n" by (simp add: RAMDISK_BLOCKS_def unat_sub word_le_nat_alt)
  then show ?thesis using True by (auto simp: ramdisk_bad_range_def RAMDISK_BLOCKS_def word_less_nat_alt)
next
  case False
  then show ?thesis by (simp add: ramdisk_bad_range_def RAMDISK_BLOCKS_def word_less_nat_alt)
qed

interpretation rd: block_storage ramdisk_ops ramdisk_ok
proof unfold_locales
  fix d :: ramdisk and b :: u32 and x :: block
  assume ok: "ramdisk_ok d" and b: "b < bd_get_block_count ramdisk_ops d"
  have b': "unat b < 256" using b by (simp add: ramdisk_ops_def ramdisk_get_block_count_def RAMDISK_BLOCKS_def word_less_nat_alt)
  have rd: "bd_read ramdisk_ops c 1 e = (if unat c < 256 then Some (rd_storage e (unat c)) else None)" if "rd_initialized e" for c e
    using that by (auto simp: ramdisk_ops_def ramdisk_read_def ramdisk_bad_range_iff)
  have cnt: "bd_get_block_count ramdisk_ops e = RAMDISK_BLOCKS" for e by (simp add: ramdisk_ops_def ramdisk_get_block_count_def)
  show "\<exists>x. bd_read ramdisk_ops b 1 d = Some x \<and> length x = FS_BLOCK_SIZE"
    using ok b' by (simp add: rd ramdisk_ok_def)
  assume x: "length x = FS_BLOCK_SIZE"
  have "bd_write ramdisk_ops b x 1 d = (True, d\<lparr>rd_storage := (rd_storage d)(unat b := x)\<rparr>)"
    using ok b' x by (simp add: ramdisk_ops_def ramdisk_write_def ramdisk_bad_range_iff ramdisk_ok_def)
  then show "\<exists>d'. bd_write ramdisk_ops b x 1 d = (True, d') \<and> ramdisk_ok d' \<and>
      bd_get_block_count ramdisk_ops d' = bd_get_block_count ramdisk_ops d \<and>
      bd_read ramdisk_ops b 1 d' = Some x \<and> (\<forall>c. c \<noteq> b \<longrightarrow> bd_read ramdisk_ops c 1 d' = bd_read ramdisk_ops c 1 d)"
    using ok b' x cnt by (auto simp: rd ramdisk_ok_def word_unat_eq_iff)
qed

end
