(* ===== verification/Bytes.thy ===== *)
theory Bytes
  imports Prelude
begin

text \<open>
  Integers as bytes, in the little-endian order of the target and in the big-endian order of
  the network, and the bytes of buffers.
\<close>

section \<open>Definitions\<close>

definition le16 :: "u16 \<Rightarrow> u8 list" where
  "le16 w = [ucast w, ucast (drop_bit 8 w)]"

definition le32 :: "u32 \<Rightarrow> u8 list" where
  "le32 w = [ucast w, ucast (drop_bit 8 w), ucast (drop_bit 16 w), ucast (drop_bit 24 w)]"

definition get16 :: "nat \<Rightarrow> u8 list \<Rightarrow> u16" where
  "get16 i bs = ucast (bs ! i) OR push_bit 8 (ucast (bs ! (i + 1)))"

definition get32 :: "nat \<Rightarrow> u8 list \<Rightarrow> u32" where
  "get32 i bs = ucast (bs ! i) OR push_bit 8 (ucast (bs ! (i + 1))) OR push_bit 16 (ucast (bs ! (i + 2))) OR
     push_bit 24 (ucast (bs ! (i + 3)))"

text \<open>\<^verbatim>\<open>memcpy(buffer + off, bs, length)\<close>\<close>

definition splice :: "nat \<Rightarrow> u8 list \<Rightarrow> u8 list \<Rightarrow> u8 list" where
  "splice off bs buf = take off buf @ bs @ drop (off + length bs) buf"

text \<open>Network byte order: \<^verbatim>\<open>htons\<close> and \<^verbatim>\<open>htonl\<close> followed by a store.\<close>

definition be16 :: "u16 \<Rightarrow> u8 list" where
  "be16 w = [ucast (drop_bit 8 w), ucast w]"

definition be32 :: "u32 \<Rightarrow> u8 list" where
  "be32 w = [ucast (drop_bit 24 w), ucast (drop_bit 16 w), ucast (drop_bit 8 w), ucast w]"

definition getbe16 :: "nat \<Rightarrow> u8 list \<Rightarrow> u16" where
  "getbe16 i bs = push_bit 8 (ucast (bs ! i)) OR ucast (bs ! (i + 1))"

definition getbe32 :: "nat \<Rightarrow> u8 list \<Rightarrow> u32" where
  "getbe32 i bs = push_bit 24 (ucast (bs ! i)) OR push_bit 16 (ucast (bs ! (i + 1))) OR push_bit 8 (ucast (bs ! (i + 2))) OR
     ucast (bs ! (i + 3))"

section \<open>Reading back\<close>

lemma get32_le32 [simp]: "get32 (length xs) (xs @ le32 w @ ys) = w"
proof (rule bit_word_eqI)
  fix n assume "n < LENGTH(32)"
  then have "n < 8 \<or> (8 \<le> n \<and> n < 16) \<or> (16 \<le> n \<and> n < 24) \<or> (24 \<le> n \<and> n < 32)" by auto
  then show "bit (get32 (length xs) (xs @ le32 w @ ys)) n = bit w n"
    by (auto simp: get32_def le32_def nth_append bit_or_iff bit_push_bit_iff bit_ucast_iff bit_drop_bit_eq)
qed

lemma get16_le16 [simp]: "get16 (length xs) (xs @ le16 w @ ys) = w"
proof (rule bit_word_eqI)
  fix n assume "n < LENGTH(16)"
  then have "n < 8 \<or> (8 \<le> n \<and> n < 16)" by auto
  then show "bit (get16 (length xs) (xs @ le16 w @ ys)) n = bit w n"
    by (auto simp: get16_def le16_def nth_append bit_or_iff bit_push_bit_iff bit_ucast_iff bit_drop_bit_eq)
qed

lemma length_le [simp]: "length (le32 w) = 4" "length (le16 v) = 2"
  by (simp_all add: le32_def le16_def)

text \<open>The same at a given position.\<close>

lemma get32_at: "i = length xs \<Longrightarrow> bs = xs @ le32 w @ ys \<Longrightarrow> get32 i bs = w"
  by simp

lemma get32_append: "i + 4 \<le> length xs \<Longrightarrow> get32 i (xs @ ys) = get32 i xs"
  by (simp add: get32_def nth_append)

lemma get32_concat:
  "i < length ws \<Longrightarrow> get32 (length xs + 4 * i) (xs @ concat (map le32 ws) @ ys) = ws ! i"
proof (induction ws arbitrary: xs i)
  case (Cons w ws)
  show ?case
  proof (cases i)
    case 0
    then show ?thesis by (simp del: get32_le32) (metis append.assoc get32_le32)
  next
    case (Suc j)
    have "get32 (length (xs @ le32 w) + 4 * j) ((xs @ le32 w) @ concat (map le32 ws) @ ys) = ws ! j"
      using Cons.prems Suc by (intro Cons.IH) simp
    then show ?thesis using Suc by (simp add: algebra_simps)
  qed
qed simp

lemma getbe32_be32 [simp]: "getbe32 (length xs) (xs @ be32 w @ ys) = w"
proof (rule bit_word_eqI)
  fix n assume "n < LENGTH(32)"
  then have "n < 8 \<or> (8 \<le> n \<and> n < 16) \<or> (16 \<le> n \<and> n < 24) \<or> (24 \<le> n \<and> n < 32)" by auto
  then show "bit (getbe32 (length xs) (xs @ be32 w @ ys)) n = bit w n"
    by (auto simp: getbe32_def be32_def nth_append bit_or_iff bit_push_bit_iff bit_ucast_iff bit_drop_bit_eq)
qed

lemma getbe16_be16 [simp]: "getbe16 (length xs) (xs @ be16 w @ ys) = w"
proof (rule bit_word_eqI)
  fix n assume "n < LENGTH(16)"
  then have "n < 8 \<or> (8 \<le> n \<and> n < 16)" by auto
  then show "bit (getbe16 (length xs) (xs @ be16 w @ ys)) n = bit w n"
    by (auto simp: getbe16_def be16_def nth_append bit_or_iff bit_push_bit_iff bit_ucast_iff bit_drop_bit_eq)
qed

lemma length_be [simp]: "length (be32 w) = 4" "length (be16 v) = 2"
  by (simp_all add: be32_def be16_def)

lemma getbe16_at: "i = length xs \<Longrightarrow> bs = xs @ be16 w @ ys \<Longrightarrow> getbe16 i bs = w"
  by simp

lemma getbe32_at: "i = length xs \<Longrightarrow> bs = xs @ be32 w @ ys \<Longrightarrow> getbe32 i bs = w"
  by simp

section \<open>Parts of buffers\<close>

lemma length_splice [simp]: "off + length bs \<le> length buf \<Longrightarrow> length (splice off bs buf) = length buf"
  by (simp add: splice_def)

lemma splice_inside: "off + length bs \<le> length buf \<Longrightarrow> take (length bs) (drop off (splice off bs buf)) = bs"
  by (simp add: splice_def)

lemma nth_splice:
  assumes "off + length bs \<le> length buf" and "i < length buf"
  shows "splice off bs buf ! i = (if off \<le> i \<and> i < off + length bs then bs ! (i - off) else buf ! i)"
  using assms by (auto simp: splice_def nth_append min_def)

lemma splice_outside:
  assumes "off + length bs \<le> length buf" and "k + n \<le> off \<or> off + length bs \<le> k" and "k + n \<le> length buf"
  shows "take n (drop k (splice off bs buf)) = take n (drop k buf)"
  using assms by (intro nth_equalityI) (auto simp: nth_splice)

end
