(* ===== verification/FS_Blocks.thy ===== *)
theory FS_Blocks
  imports Block_Device Tasks Bytes
begin

text \<open>
  The lower half of \<^verbatim>\<open>src/filesystem.c\<close>: the structures on the storage and their byte layout
  (little-endian, as on the target), the cache of one block, the allocation bitmap and the
  inode table.

  A C function that fills a buffer of its caller takes the old content of the buffer as an
  argument and returns the new one, which is the old one when the function fails. \<open>None\<close> is an
  access to \<^verbatim>\<open>block_bitmap\<close> outside of its 128 bytes, which the code makes for blocks from 1024 on.
\<close>

section \<open>Layout\<close>

record fs_inode =
  in_type :: u8
  in_flags :: u8
  in_reserved :: u16
  in_size :: u32
  in_blocks :: "u32 list"
  in_mtime :: u32
  in_ctime :: u32

definition INODE_SIZE :: nat where "INODE_SIZE = 40"

definition encode_inode :: "fs_inode \<Rightarrow> u8 list" where
  "encode_inode n = [in_type n, in_flags n] @ le16 (in_reserved n) @ le32 (in_size n) @
     concat (map le32 (in_blocks n)) @ le32 (in_mtime n) @ le32 (in_ctime n)"

definition decode_inode :: "u8 list \<Rightarrow> fs_inode" where
  "decode_inode bs = \<lparr>in_type = bs ! 0, in_flags = bs ! 1, in_reserved = get16 2 bs, in_size = get32 4 bs,
     in_blocks = map (\<lambda>i. get32 (8 + 4 * i) bs) [0..<6], in_mtime = get32 32 bs, in_ctime = get32 36 bs\<rparr>"

definition zero_inode :: fs_inode where
  "zero_inode = \<lparr>in_type = 0, in_flags = 0, in_reserved = 0, in_size = 0, in_blocks = replicate 6 0, in_mtime = 0, in_ctime = 0\<rparr>"

record fs_superblock =
  sb_magic :: u32
  sb_version :: u32
  sb_block_size :: u32
  sb_total_blocks :: u32
  sb_free_blocks :: u32
  sb_total_inodes :: u32
  sb_free_inodes :: u32
  sb_first_data_block :: u32
  sb_inode_table_block :: u32
  sb_root_inode :: u32
  sb_reserved :: "u8 list"

definition FS_MAGIC :: u32 where "FS_MAGIC = 0x544E5946"
definition FS_VERSION :: u32 where "FS_VERSION = 0x00010000"

definition encode_superblock :: "fs_superblock \<Rightarrow> block" where
  "encode_superblock sb = le32 (sb_magic sb) @ le32 (sb_version sb) @ le32 (sb_block_size sb) @ le32 (sb_total_blocks sb) @
     le32 (sb_free_blocks sb) @ le32 (sb_total_inodes sb) @ le32 (sb_free_inodes sb) @ le32 (sb_first_data_block sb) @
     le32 (sb_inode_table_block sb) @ le32 (sb_root_inode sb) @ sb_reserved sb"

definition decode_superblock :: "block \<Rightarrow> fs_superblock" where
  "decode_superblock bs = \<lparr>sb_magic = get32 0 bs, sb_version = get32 4 bs, sb_block_size = get32 8 bs, sb_total_blocks = get32 12 bs,
     sb_free_blocks = get32 16 bs, sb_total_inodes = get32 20 bs, sb_free_inodes = get32 24 bs, sb_first_data_block = get32 28 bs,
     sb_inode_table_block = get32 32 bs, sb_root_inode = get32 36 bs, sb_reserved = drop 40 bs\<rparr>"

definition zero_superblock :: fs_superblock where
  "zero_superblock = \<lparr>sb_magic = 0, sb_version = 0, sb_block_size = 0, sb_total_blocks = 0, sb_free_blocks = 0, sb_total_inodes = 0,
     sb_free_inodes = 0, sb_first_data_block = 0, sb_inode_table_block = 0, sb_root_inode = 0, sb_reserved = zero_bytes 472\<rparr>"

section \<open>State\<close>

record fs_file_handle =
  fh_in_use :: bool
  fh_inode :: u32
  fh_flags :: u32
  fh_position :: u32
  fh_size :: u32

record fs_dir =
  dh_in_use :: bool
  dh_inode :: u32
  dh_position :: u32

text \<open>
  \<^verbatim>\<open>fs_state\<close> and \<^verbatim>\<open>block_bitmap\<close>: \<open>fm_bitmap i\<close> is byte \<open>i\<close> of the latter, for \<open>i < 128\<close>. An access of
  the code to a byte behind the array gives \<open>None\<close>. \<open>fm_device\<close> tells whether \<^verbatim>\<open>fs_state.device\<close> is set,
  \<open>fm_store\<close> is the state of the driver.
\<close>

definition BITMAP_BYTES :: nat where "BITMAP_BYTES = 128"

record 'd fs =
  fm_mounted :: bool
  fm_device :: bool
  fm_superblock :: fs_superblock
  fm_files :: "nat \<Rightarrow> fs_file_handle"
  fm_dirs :: "nat \<Rightarrow> fs_dir"
  fm_block_cache :: block
  fm_cached_block :: u32
  fm_cache_dirty :: bool
  fm_bitmap :: "nat \<Rightarrow> u8"
  fm_store :: 'd

text \<open>
  What the code gets from its surroundings: the driver, and the content of uninitialised local
  variables. \<^verbatim>\<open>fs_format\<close>, \<^verbatim>\<open>fs_mount\<close> and \<^verbatim>\<open>fs_unmount\<close> transfer a whole block of 512 bytes from and to the
  128 bytes of \<^verbatim>\<open>block_bitmap\<close>; which static variables follow the array is decided by the linker. The
  384 bytes that a transfer to the storage picks up there are \<open>behind_read s\<close>, and \<open>behind_write bs s\<close> is
  the state after a transfer from the storage has replaced them by \<open>bs\<close>, \<open>None\<close> if the system does not survive it.
\<close>

record 'd fs_env =
  fs_dev :: "'d block_device"
  junk_block :: block
  junk_inode :: fs_inode
  behind_read :: "'d fs \<Rightarrow> u8 list"
  behind_write :: "u8 list \<Rightarrow> 'd fs \<Rightarrow> 'd fs option"

section \<open>The block cache\<close>

definition fs_sync_cache :: "'d fs_env \<Rightarrow> 'd fs \<Rightarrow> os_error \<times> 'd fs" where
  "fs_sync_cache E s =
    (if fm_cache_dirty s \<and> fm_cached_block s \<noteq> 0xFFFFFFFF
     then let (ok, d) = bd_write (fs_dev E) (fm_cached_block s) (fm_block_cache s) 1 (fm_store s);
              s = s\<lparr>fm_store := d\<rparr>
          in if \<not> ok then (OS_ERROR, s) else (OS_OK, s\<lparr>fm_cache_dirty := False\<rparr>)
     else (OS_OK, s))"

definition fs_read_block :: "'d fs_env \<Rightarrow> u32 \<Rightarrow> block \<Rightarrow> 'd fs \<Rightarrow> os_error \<times> block \<times> 'd fs" where
  "fs_read_block E b buffer s =
    (if \<not> fm_mounted s then (OS_ERROR, buffer, s)
     else if b = fm_cached_block s then (OS_OK, fm_block_cache s, s)
     else case bd_read (fs_dev E) b 1 (fm_store s) of
       None \<Rightarrow> (OS_ERROR, buffer, s)
     | Some x \<Rightarrow>
        let s = (if fm_cache_dirty s then snd (fs_sync_cache E s) else s)
        in (OS_OK, x, s\<lparr>fm_block_cache := x, fm_cached_block := b, fm_cache_dirty := False\<rparr>))"

definition fs_write_block :: "'d fs_env \<Rightarrow> u32 \<Rightarrow> block \<Rightarrow> 'd fs \<Rightarrow> os_error \<times> 'd fs" where
  "fs_write_block E b buffer s =
    (if \<not> fm_mounted s then (OS_ERROR, s)
     else if b = fm_cached_block s then (OS_OK, s\<lparr>fm_block_cache := buffer, fm_cache_dirty := True\<rparr>)
     else let (ok, d) = bd_write (fs_dev E) b buffer 1 (fm_store s);
              s = s\<lparr>fm_store := d\<rparr>
          in if \<not> ok then (OS_ERROR, s) else (OS_OK, s))"

section \<open>The bitmap\<close>

text \<open>The bit of block \<open>i\<close>, whose byte has to be one of the array; the functions below check this.\<close>

definition in_bitmap :: "nat \<Rightarrow> bool" where
  "in_bitmap i \<longleftrightarrow> i div 8 < BITMAP_BYTES"

definition block_used :: "'d fs \<Rightarrow> nat \<Rightarrow> bool" where
  "block_used s i \<longleftrightarrow> fm_bitmap s (i div 8) AND push_bit (i mod 8) 1 \<noteq> 0"

definition mark_block :: "nat \<Rightarrow> (nat \<Rightarrow> u8) \<Rightarrow> nat \<Rightarrow> u8" where
  "mark_block i bm = bm(i div 8 := bm (i div 8) OR push_bit (i mod 8) 1)"

definition unmark_block :: "nat \<Rightarrow> (nat \<Rightarrow> u8) \<Rightarrow> nat \<Rightarrow> u8" where
  "unmark_block i bm = bm(i div 8 := bm (i div 8) AND NOT (push_bit (i mod 8) 1))"

text \<open>The search loop of \<^verbatim>\<open>fs_alloc_block\<close> from block \<open>i\<close> on: \<open>Some None\<close> when no block is free.\<close>

function find_free_block :: "'d fs \<Rightarrow> nat \<Rightarrow> nat option option" where
  "find_free_block s i =
    (if i < unat (sb_total_blocks (fm_superblock s))
     then if \<not> in_bitmap i then None
          else if \<not> block_used s i then Some (Some i) else find_free_block s (Suc i)
     else Some None)"
  by auto
termination by (relation "measure (\<lambda>(s, i). unat (sb_total_blocks (fm_superblock s)) - i)") auto

declare find_free_block.simps [simp del]

definition upd_super :: "(fs_superblock \<Rightarrow> fs_superblock) \<Rightarrow> 'd fs \<Rightarrow> 'd fs" where
  "upd_super f s = s\<lparr>fm_superblock := f (fm_superblock s)\<rparr>"

definition fs_alloc_block :: "'d fs \<Rightarrow> (u32 \<times> 'd fs) option" where
  "fs_alloc_block s =
    (case find_free_block s (unat (sb_first_data_block (fm_superblock s))) of
       None \<Rightarrow> None
     | Some None \<Rightarrow> Some (0xFFFFFFFF, s)
     | Some (Some i) \<Rightarrow> Some (of_nat i, upd_super (\<lambda>sb. sb\<lparr>sb_free_blocks := sb_free_blocks sb - 1\<rparr>)
                                          (s\<lparr>fm_bitmap := mark_block i (fm_bitmap s)\<rparr>)))"

definition fs_free_block :: "u32 \<Rightarrow> 'd fs \<Rightarrow> (os_error \<times> 'd fs) option" where
  "fs_free_block b s =
    (if b \<ge> sb_total_blocks (fm_superblock s) then Some (OS_ERROR_INVALID_PARAM, s)
     else if \<not> in_bitmap (unat b) then None
     else Some (OS_OK, upd_super (\<lambda>sb. sb\<lparr>sb_free_blocks := sb_free_blocks sb + 1\<rparr>)
                         (s\<lparr>fm_bitmap := unmark_block (unat b) (fm_bitmap s)\<rparr>)))"

section \<open>Inodes\<close>

definition inodes_per_block :: u32 where
  "inodes_per_block = of_nat (FS_BLOCK_SIZE div INODE_SIZE)"

definition inode_block :: "u32 \<Rightarrow> 'd fs \<Rightarrow> u32" where
  "inode_block n s = sb_inode_table_block (fm_superblock s) + n div inodes_per_block"

definition inode_offset :: "u32 \<Rightarrow> nat" where
  "inode_offset n = unat (n mod inodes_per_block * of_nat INODE_SIZE)"

definition fs_read_inode :: "'d fs_env \<Rightarrow> u32 \<Rightarrow> fs_inode \<Rightarrow> 'd fs \<Rightarrow> os_error \<times> fs_inode \<times> 'd fs" where
  "fs_read_inode E n inode_data s =
    (if n \<ge> sb_total_inodes (fm_superblock s) then (OS_ERROR_INVALID_PARAM, inode_data, s)
     else case fs_read_block E (inode_block n s) (junk_block E) s of
       (e, buffer, s) \<Rightarrow>
         if e \<noteq> OS_OK then (OS_ERROR, inode_data, s)
         else (OS_OK, decode_inode (take INODE_SIZE (drop (inode_offset n) buffer)), s))"

definition fs_write_inode :: "'d fs_env \<Rightarrow> u32 \<Rightarrow> fs_inode \<Rightarrow> 'd fs \<Rightarrow> os_error \<times> 'd fs" where
  "fs_write_inode E n inode_data s =
    (if n \<ge> sb_total_inodes (fm_superblock s) then (OS_ERROR_INVALID_PARAM, s)
     else case fs_read_block E (inode_block n s) (junk_block E) s of
       (e, buffer, s) \<Rightarrow>
         if e \<noteq> OS_OK then (OS_ERROR, s)
         else fs_write_block E (inode_block n s) (splice (inode_offset n) (encode_inode inode_data) buffer) s)"

text \<open>The search loop of \<^verbatim>\<open>fs_alloc_inode\<close> from inode \<open>i\<close> on.\<close>

function find_free_inode :: "'d fs_env \<Rightarrow> nat \<Rightarrow> 'd fs \<Rightarrow> u32 \<times> 'd fs" where
  "find_free_inode E i s =
    (if i < unat (sb_total_inodes (fm_superblock s))
     then case fs_read_inode E (of_nat i) (junk_inode E) s of
       (e, inode, s) \<Rightarrow>
         if e = OS_OK \<and> in_type inode = 0
         then (of_nat i, upd_super (\<lambda>sb. sb\<lparr>sb_free_inodes := sb_free_inodes sb - 1\<rparr>) s)
         else find_free_inode E (Suc i) s
     else (0xFFFFFFFF, s))"
  by auto
termination
proof (relation "measure (\<lambda>(E, i, s). 4294967296 - i)", goal_cases)
  case (2 E i s)
  then have "i < 4294967296" using unat_u32_less [of "sb_total_inodes (fm_superblock s)"] by linarith
  then show ?case by simp
qed simp

declare find_free_inode.simps [simp del]

definition fs_alloc_inode :: "'d fs_env \<Rightarrow> 'd fs \<Rightarrow> u32 \<times> 'd fs" where
  "fs_alloc_inode E s = find_free_inode E 0 s"

text \<open>Freeing the blocks of an inode.\<close>

fun fs_free_blocks :: "u32 list \<Rightarrow> 'd fs \<Rightarrow> 'd fs option" where
  "fs_free_blocks [] s = Some s"
| "fs_free_blocks (b # bs) s =
    (if b \<noteq> 0 then do { (_, s) \<leftarrow> fs_free_block b s; fs_free_blocks bs s } else fs_free_blocks bs s)"

definition fs_free_inode :: "'d fs_env \<Rightarrow> u32 \<Rightarrow> 'd fs \<Rightarrow> (os_error \<times> 'd fs) option" where
  "fs_free_inode E n s =
    (case fs_read_inode E n (junk_inode E) s of
       (e, old_inode, s) \<Rightarrow> do {
         s \<leftarrow> (if e = OS_OK then fs_free_blocks (in_blocks old_inode) s else Some s);
         let s = upd_super (\<lambda>sb. sb\<lparr>sb_free_inodes := sb_free_inodes sb + 1\<rparr>) s;
         Some (fs_write_inode E n zero_inode s) })"

end
