(* ===== verification/FileSystem.thy ===== *)
theory FileSystem
  imports FS_Blocks Sync
begin

text \<open>
  The upper half of \<^verbatim>\<open>src/filesystem.c\<close>: formatting and mounting, the root directory, open files.

  The work of an operation is a function on \<^verbatim>\<open>fs_state\<close>, the record \<open>fs\<close>; \<open>now\<close> is the value of
  \<^verbatim>\<open>os_get_tick_count\<close>. The operations themselves run on the whole system state, which extends
  the one of the synchronisation primitives: they lock a mutex, with the waiting and task
  switching that this may involve, do the work, and unlock it. Like the code they ignore
  whether the lock was obtained. Integer results are \<open>int\<close>, file descriptors too. \<open>None\<close> is a call
  that does not complete, or that leaves the array of the bitmap.
\<close>

section \<open>Constants\<close>

definition FS_MAX_OPEN_FILES :: nat where "FS_MAX_OPEN_FILES = 8"
definition FS_MAX_FILENAME_LENGTH :: nat where "FS_MAX_FILENAME_LENGTH = 32"
definition FS_O_RDONLY :: u32 where "FS_O_RDONLY = 0x01"
definition FS_O_WRONLY :: u32 where "FS_O_WRONLY = 0x02"
definition FS_O_CREAT :: u32 where "FS_O_CREAT = 0x04"
definition FS_O_TRUNC :: u32 where "FS_O_TRUNC = 0x08"
definition FS_O_APPEND :: u32 where "FS_O_APPEND = 0x10"
definition FS_SEEK_SET :: int where "FS_SEEK_SET = 0"
definition FS_SEEK_CUR :: int where "FS_SEEK_CUR = 1"
definition FS_SEEK_END :: int where "FS_SEEK_END = 2"
definition FS_TYPE_REGULAR :: u8 where "FS_TYPE_REGULAR = 1"
definition FS_TYPE_DIRECTORY :: u8 where "FS_TYPE_DIRECTORY = 2"
definition DENTRY_SIZE :: nat where "DENTRY_SIZE = 64"

section \<open>Formatting and mounting\<close>

definition zero_file :: fs_file_handle where
  "zero_file = \<lparr>fh_in_use = False, fh_inode = 0, fh_flags = 0, fh_position = 0, fh_size = 0\<rparr>"

definition zero_dir :: fs_dir where
  "zero_dir = \<lparr>dh_in_use = False, dh_inode = 0, dh_position = 0\<rparr>"

definition fs_init_state :: "'d fs \<Rightarrow> 'd fs" where
  "fs_init_state s = s\<lparr>fm_mounted := False, fm_device := False, fm_superblock := zero_superblock,
     fm_files := (\<lambda>_. zero_file), fm_dirs := (\<lambda>_. zero_dir), fm_block_cache := zero_bytes FS_BLOCK_SIZE,
     fm_cached_block := 0xFFFFFFFF, fm_cache_dirty := False\<rparr>"

definition format_superblock :: "u32 \<Rightarrow> fs_superblock" where
  "format_superblock cnt =
    (let sb = zero_superblock\<lparr>sb_magic := FS_MAGIC, sb_version := FS_VERSION, sb_block_size := of_nat FS_BLOCK_SIZE,
                sb_total_blocks := cnt, sb_total_inodes := 128, sb_inode_table_block := 2\<rparr>;
         sb = sb\<lparr>sb_first_data_block := sb_inode_table_block sb +
                (sb_total_inodes sb * of_nat INODE_SIZE + of_nat FS_BLOCK_SIZE - 1) div of_nat FS_BLOCK_SIZE\<rparr>
     in sb\<lparr>sb_free_blocks := sb_total_blocks sb - sb_first_data_block sb,
           sb_free_inodes := sb_total_inodes sb - 1, sb_root_inode := 0\<rparr>)"

text \<open>The block that is written from \<^verbatim>\<open>block_bitmap\<close>: the bitmap and what follows it in memory.\<close>

definition bitmap_block :: "'d fs_env \<Rightarrow> 'd fs \<Rightarrow> block" where
  "bitmap_block E s = map (fm_bitmap s) [0..<BITMAP_BYTES] @ behind_read E s"

text \<open>
  \<open>\<^verbatim>\<open>memset(block_bitmap, 0, sizeof(block_bitmap))\<close>\<close>, then the reserved blocks are marked. These are the
  twelve blocks in front of \<^verbatim>\<open>first_data_block\<close>, which \<open>format_superblock\<close> fixes.
\<close>

definition format_bitmap :: "u32 \<Rightarrow> (nat \<Rightarrow> u8) \<Rightarrow> nat \<Rightarrow> u8" where
  "format_bitmap first bm = fold mark_block [0..<unat first] (\<lambda>i. if i < BITMAP_BYTES then 0 else bm i)"

definition fs_format :: "'d fs_env \<Rightarrow> bool \<Rightarrow> u32 \<Rightarrow> 'd fs \<Rightarrow> os_error \<times> 'd fs" where
  "fs_format E given now s =
    (if \<not> given then (OS_ERROR_INVALID_PARAM, s)
     else
       let dev = fs_dev E;
           d = fm_store s;
           sb = format_superblock (bd_get_block_count dev d);
           d = (case bd_erase dev of None \<Rightarrow> d | Some erase \<Rightarrow> snd (erase 0 (sb_total_blocks sb) d));
           d = snd (bd_write dev 0 (encode_superblock sb) 1 d);
           bm = format_bitmap (sb_first_data_block sb) (fm_bitmap s);
           d = snd (bd_write dev 1 (bitmap_block E (s\<lparr>fm_bitmap := bm\<rparr>)) 1 d);
           root = zero_inode\<lparr>in_type := FS_TYPE_DIRECTORY, in_ctime := now, in_mtime := now\<rparr>;
           d = snd (bd_write dev (sb_inode_table_block sb) (splice 0 (encode_inode root) (zero_bytes FS_BLOCK_SIZE)) 1 d);
           d = (case bd_sync dev of None \<Rightarrow> d | Some sync \<Rightarrow> sync d)
       in (OS_OK, s\<lparr>fm_bitmap := bm, fm_store := d\<rparr>))"

text \<open>
  The read of the bitmap fills a whole block from the start of \<^verbatim>\<open>block_bitmap\<close> on: the first 128 bytes are
  the bitmap, the others replace what follows it in memory.
\<close>

definition load_bitmap :: "'d fs_env \<Rightarrow> 'd fs \<Rightarrow> 'd fs option" where
  "load_bitmap E s =
    (case bd_read (fs_dev E) 1 1 (fm_store s) of
       None \<Rightarrow> Some s
     | Some x \<Rightarrow> behind_write E (drop BITMAP_BYTES x)
                  (s\<lparr>fm_bitmap := (\<lambda>i. if i < BITMAP_BYTES then x ! i else fm_bitmap s i)\<rparr>))"

definition mount_work :: "'d fs_env \<Rightarrow> 'd fs \<Rightarrow> (os_error \<times> 'd fs) option" where
  "mount_work E s =
    (if fm_mounted s then Some (OS_ERROR, s)
     else case bd_read (fs_dev E) 0 1 (fm_store s) of
       None \<Rightarrow> Some (OS_ERROR, s)
     | Some x \<Rightarrow>
        let s = s\<lparr>fm_superblock := decode_superblock x\<rparr>
        in if sb_magic (fm_superblock s) \<noteq> FS_MAGIC then Some (OS_ERROR, s)
           else do {
             s \<leftarrow> load_bitmap E s;
             Some (OS_OK, s\<lparr>fm_device := True, fm_mounted := True\<rparr>) })"

definition unmount_work :: "'d fs_env \<Rightarrow> 'd fs \<Rightarrow> os_error \<times> 'd fs" where
  "unmount_work E s =
    (if \<not> fm_mounted s then (OS_ERROR, s)
     else
       let s = snd (fs_sync_cache E s);
           s = s\<lparr>fm_store := snd (bd_write (fs_dev E) 1 (bitmap_block E s) 1 (fm_store s))\<rparr>;
           s = (case bd_sync (fs_dev E) of None \<Rightarrow> s | Some sync \<Rightarrow> s\<lparr>fm_store := sync (fm_store s)\<rparr>)
       in (OS_OK, s\<lparr>fm_mounted := False, fm_device := False\<rparr>))"

definition fs_is_mounted :: "'d fs \<Rightarrow> bool" where
  "fs_is_mounted s = fm_mounted s"

section \<open>Directory entries\<close>

text \<open>C strings: the bytes before the first NUL. A path is given without its terminating NUL.\<close>

definition cstr :: "u8 list \<Rightarrow> u8 list" where
  "cstr bs = takeWhile (\<lambda>b. b \<noteq> 0) bs"

definition strip_slash :: "u8 list \<Rightarrow> u8 list" where
  "strip_slash name = (case name of [] \<Rightarrow> [] | c # cs \<Rightarrow> if c = 47 then cs else name)"

text \<open>\<^verbatim>\<open>strncpy(dst, src, FS_MAX_FILENAME_LENGTH - 1)\<close> and the final NUL.\<close>

definition name_field :: "u8 list \<Rightarrow> u8 list" where
  "name_field n = take 31 n @ zero_bytes (32 - length (take 31 n))"

definition dentry_name :: "block \<Rightarrow> nat \<Rightarrow> u8 list" where
  "dentry_name buf i = cstr (drop (DENTRY_SIZE * i) buf)"

definition dentry_inode :: "block \<Rightarrow> nat \<Rightarrow> u32" where
  "dentry_inode buf i = get32 (DENTRY_SIZE * i + 32) buf"

definition dentry_type :: "block \<Rightarrow> nat \<Rightarrow> u8" where
  "dentry_type buf i = buf ! (DENTRY_SIZE * i + 36)"

text \<open>The first of the eight entries of a block that satisfies a condition.\<close>

definition find_dentry :: "(nat \<Rightarrow> bool) \<Rightarrow> nat option" where
  "find_dentry P = List.find P [0..<FS_BLOCK_SIZE div DENTRY_SIZE]"

definition set_dentry :: "nat \<Rightarrow> u8 list \<Rightarrow> u32 \<Rightarrow> u8 \<Rightarrow> block \<Rightarrow> block" where
  "set_dentry i name inode type buf =
    splice (DENTRY_SIZE * i + 36) [type] (splice (DENTRY_SIZE * i + 32) (le32 inode) (splice (DENTRY_SIZE * i) (name_field name) buf))"

definition clear_dentry :: "nat \<Rightarrow> block \<Rightarrow> block" where
  "clear_dentry i buf = splice (DENTRY_SIZE * i) (zero_bytes DENTRY_SIZE) buf"

definition rename_dentry :: "u8 list \<Rightarrow> nat \<Rightarrow> block \<Rightarrow> block" where
  "rename_dentry name i buf = splice (DENTRY_SIZE * i) (name_field name) buf"

text \<open>The loop over the blocks of a directory in \<^verbatim>\<open>fs_find_in_dir\<close>.\<close>

fun find_in_blocks :: "'d fs_env \<Rightarrow> u8 list \<Rightarrow> u32 list \<Rightarrow> block \<Rightarrow> 'd fs \<Rightarrow> int \<times> 'd fs" where
  "find_in_blocks E name [] buffer s = (-1, s)"
| "find_in_blocks E name (b # bs) buffer s =
    (if b = 0 then (-1, s)
     else case fs_read_block E b buffer s of
       (e, buffer, s) \<Rightarrow>
         if e \<noteq> OS_OK then find_in_blocks E name bs buffer s
         else case find_dentry (\<lambda>i. dentry_inode buffer i \<noteq> 0 \<and> dentry_name buffer i = name) of
           Some i \<Rightarrow> (sint (dentry_inode buffer i), s)
         | None \<Rightarrow> find_in_blocks E name bs buffer s)"

definition fs_find_in_dir :: "'d fs_env \<Rightarrow> u32 \<Rightarrow> u8 list \<Rightarrow> 'd fs \<Rightarrow> int \<times> 'd fs" where
  "fs_find_in_dir E dir_inode name s =
    (case fs_read_inode E dir_inode (junk_inode E) s of
       (e, inode, s) \<Rightarrow>
         if e \<noteq> OS_OK then (-1, s)
         else if in_type inode \<noteq> FS_TYPE_DIRECTORY then (-1, s)
         else find_in_blocks E name (in_blocks inode) (junk_block E) s)"

definition find_in_root :: "'d fs_env \<Rightarrow> u8 list \<Rightarrow> 'd fs \<Rightarrow> int \<times> 'd fs" where
  "find_in_root E name s = fs_find_in_dir E (sb_root_inode (fm_superblock s)) name s"

text \<open>
  The loop of \<^verbatim>\<open>fs_remove\<close>, \<^verbatim>\<open>fs_rename\<close> and \<^verbatim>\<open>fs_rmdir\<close>: the first entry with the given inode is
  changed by \<open>f\<close> and its block written back; the result tells whether there is one. A failed
  read leaves the buffer as it was.
\<close>

fun change_dentry :: "'d fs_env \<Rightarrow> u32 \<Rightarrow> (nat \<Rightarrow> block \<Rightarrow> block) \<Rightarrow> u32 list \<Rightarrow> block \<Rightarrow> 'd fs \<Rightarrow> bool \<times> 'd fs" where
  "change_dentry E n f [] buffer s = (False, s)"
| "change_dentry E n f (b # bs) buffer s =
    (if b = 0 then (False, s)
     else case fs_read_block E b buffer s of
       (_, buffer, s) \<Rightarrow>
         case find_dentry (\<lambda>i. dentry_inode buffer i = n) of
           Some i \<Rightarrow> (True, snd (fs_write_block E b (f i buffer) s))
         | None \<Rightarrow> change_dentry E n f bs buffer s)"

definition change_root :: "'d fs_env \<Rightarrow> u32 \<Rightarrow> (nat \<Rightarrow> block \<Rightarrow> block) \<Rightarrow> 'd fs \<Rightarrow> bool \<times> 'd fs" where
  "change_root E n f s =
    (case fs_read_inode E (sb_root_inode (fm_superblock s)) (junk_inode E) s of
       (_, dir_inode, s) \<Rightarrow> change_dentry E n f (in_blocks dir_inode) (junk_block E) s)"

text \<open>The first block of the root directory, allocated and zeroed when there is none.\<close>

definition root_block :: "'d fs_env \<Rightarrow> 'd fs \<Rightarrow> (fs_inode \<times> 'd fs) option" where
  "root_block E s =
    (case fs_read_inode E (sb_root_inode (fm_superblock s)) (junk_inode E) s of
       (_, dir_inode, s) \<Rightarrow>
         if in_blocks dir_inode ! 0 = 0
         then do {
                (b, s) \<leftarrow> fs_alloc_block s;
                Some (dir_inode\<lparr>in_blocks := (in_blocks dir_inode)[0 := b]\<rparr>,
                      snd (fs_write_block E b (zero_bytes FS_BLOCK_SIZE) s)) }
         else Some (dir_inode, s))"

section \<open>Opening files\<close>

definition new_inode :: "u8 \<Rightarrow> u32 \<Rightarrow> fs_inode" where
  "new_inode type now = zero_inode\<lparr>in_type := type, in_ctime := now, in_mtime := now\<rparr>"

text \<open>\<^verbatim>\<open>fs_open\<close> with \<^verbatim>\<open>FS_O_CREAT\<close> for a file that does not exist.\<close>

definition create_file :: "'d fs_env \<Rightarrow> u32 \<Rightarrow> u8 list \<Rightarrow> 'd fs \<Rightarrow> (int \<times> 'd fs) option" where
  "create_file E now filename s =
    (case fs_alloc_inode E s of
       (n, s) \<Rightarrow>
         if sint n < 0 then Some (-1, s)
         else do {
           (dir_inode, s) \<leftarrow> root_block E (snd (fs_write_inode E n (new_inode FS_TYPE_REGULAR now) s));
           let b = in_blocks dir_inode ! 0;
           let (_, dir_buffer, s) = fs_read_block E b (junk_block E) s;
           let dir_buffer = (case find_dentry (\<lambda>i. dentry_inode dir_buffer i = 0) of
                               None \<Rightarrow> dir_buffer
                             | Some i \<Rightarrow> set_dentry i filename n FS_TYPE_REGULAR dir_buffer);
           let s = snd (fs_write_block E b dir_buffer s);
           let s = snd (fs_write_inode E (sb_root_inode (fm_superblock s))
                     (dir_inode\<lparr>in_size := in_size dir_inode + of_nat DENTRY_SIZE\<rparr>) s);
           Some (sint n, s) })"

definition open_existing :: "'d fs_env \<Rightarrow> nat \<Rightarrow> u32 \<Rightarrow> u32 \<Rightarrow> 'd fs \<Rightarrow> (int \<times> 'd fs) option" where
  "open_existing E fd n flags s =
    (case fs_read_inode E n (junk_inode E) s of
       (_, inode, s) \<Rightarrow> do {
         (inode, s) \<leftarrow>
           (if flags AND FS_O_TRUNC \<noteq> 0 \<and> in_size inode > 0
            then do {
              s \<leftarrow> fs_free_blocks (in_blocks inode) s;
              let inode = inode\<lparr>in_blocks := replicate 6 0, in_size := 0\<rparr>;
              Some (inode, snd (fs_write_inode E n inode s)) }
            else Some (inode, s));
         Some (int fd, s\<lparr>fm_files := (fm_files s)(fd := \<lparr>fh_in_use = True, fh_inode = n, fh_flags = flags,
           fh_position = (if flags AND FS_O_APPEND \<noteq> 0 then in_size inode else 0), fh_size = in_size inode\<rparr>)\<rparr>) })"

definition free_fd :: "'d fs \<Rightarrow> nat option" where
  "free_fd s = List.find (\<lambda>i. \<not> fh_in_use (fm_files s i)) [0..<FS_MAX_OPEN_FILES]"

definition open_work :: "'d fs_env \<Rightarrow> u32 \<Rightarrow> u8 list \<Rightarrow> u32 \<Rightarrow> 'd fs \<Rightarrow> (int \<times> 'd fs) option" where
  "open_work E now name flags s =
    (case free_fd s of
       None \<Rightarrow> Some (-1, s)
     | Some fd \<Rightarrow>
        let filename = strip_slash name;
            (inode_num, s) = find_in_root E filename s
        in if inode_num < 0
           then if flags AND FS_O_CREAT \<noteq> 0
                then do {
                  (inode_num, s) \<leftarrow> create_file E now filename s;
                  if inode_num < 0 then Some (-1, s) else open_existing E fd (of_int inode_num) flags s }
                else Some (-1, s)
           else open_existing E fd (of_int inode_num) flags s)"

definition bad_fd :: "int \<Rightarrow> 'd fs \<Rightarrow> bool" where
  "bad_fd fd s \<longleftrightarrow> fd < 0 \<or> fd \<ge> int FS_MAX_OPEN_FILES \<or> \<not> fh_in_use (fm_files s (nat fd))"

definition upd_file :: "nat \<Rightarrow> (fs_file_handle \<Rightarrow> fs_file_handle) \<Rightarrow> 'd fs \<Rightarrow> 'd fs" where
  "upd_file fd f s = s\<lparr>fm_files := (fm_files s)(fd := f (fm_files s fd))\<rparr>"

section \<open>Reading and writing\<close>

text \<open>The part of a block that is moved in one round: its index, offset and length.\<close>

definition chunk_of :: "u32 \<Rightarrow> u32 \<Rightarrow> u32" where
  "chunk_of pos left =
    (let offset = pos mod of_nat FS_BLOCK_SIZE;
         chunk = of_nat FS_BLOCK_SIZE - offset
     in if chunk > left then left else chunk)"

lemma chunk_of_bounds:
  assumes "left > 0"
  shows "chunk_of pos left > 0" and "chunk_of pos left \<le> left"
    and "unat (chunk_of pos left) = min (512 - unat pos mod 512) (unat left)"
proof -
  have m: "unat (pos mod 512) = unat pos mod 512" by (simp add: unat_mod)
  have "unat (512 - pos mod 512) = 512 - unat pos mod 512"
  proof -
    have "pos mod 512 \<le> 512" by (simp add: word_le_nat_alt m less_imp_le)
    then have "unat (512 - pos mod 512) = unat (512 :: u32) - unat (pos mod 512)" by (rule unat_sub)
    then show ?thesis by (simp add: m)
  qed
  then show c: "unat (chunk_of pos left) = min (512 - unat pos mod 512) (unat left)"
    by (auto simp: chunk_of_def Let_def FS_BLOCK_SIZE_def word_less_nat_alt min_def)
  have "0 < unat left" using assms by (simp add: word_less_nat_alt)
  then show "chunk_of pos left > 0" "chunk_of pos left \<le> left"
    using c by (auto simp: word_less_nat_alt word_le_nat_alt)
qed

lemma chunk_advance:
  assumes "got < tot"
  shows "unat (got + chunk_of pos (tot - got)) = unat got + unat (chunk_of pos (tot - got))"
    and "unat got < unat (got + chunk_of pos (tot - got))"
    and "unat (got + chunk_of pos (tot - got)) \<le> unat tot"
proof -
  have d: "unat (tot - got) = unat tot - unat got" using assms by (simp add: unat_sub word_less_nat_alt word_le_nat_alt)
  have "0 < tot - got" using d assms by (simp add: word_less_nat_alt)
  note c = chunk_of_bounds [OF this, of pos]
  have "unat got + unat (chunk_of pos (tot - got)) \<le> unat tot"
    using c(2) d assms by (simp add: word_le_nat_alt word_less_nat_alt)
  moreover have "unat tot < 4294967296" by (rule unat_u32_less)
  ultimately show eq: "unat (got + chunk_of pos (tot - got)) = unat got + unat (chunk_of pos (tot - got))"
    by (intro unat_add_u32) linarith
  show "unat got < unat (got + chunk_of pos (tot - got))" using eq c(1) by (simp add: word_less_nat_alt)
  show "unat (got + chunk_of pos (tot - got)) \<le> unat tot"
    using eq \<open>unat got + unat (chunk_of pos (tot - got)) \<le> unat tot\<close> by simp
qed

text \<open>The loop of \<^verbatim>\<open>fs_read\<close>: \<open>out\<close> is what has been stored in the buffer of the caller.\<close>

function read_loop ::
    "'d fs_env \<Rightarrow> u32 list \<Rightarrow> u32 \<Rightarrow> u32 \<Rightarrow> u32 \<Rightarrow> block \<Rightarrow> u8 list \<Rightarrow> 'd fs \<Rightarrow> u32 \<times> u32 \<times> u8 list \<times> 'd fs" where
  "read_loop E blocks to_read bytes_read pos block_buffer out s =
    (if bytes_read < to_read
     then let block_idx = unat (pos div of_nat FS_BLOCK_SIZE);
              offset = unat (pos mod of_nat FS_BLOCK_SIZE);
              chunk = chunk_of pos (to_read - bytes_read)
          in if block_idx \<ge> 6 \<or> blocks ! block_idx = 0 then (bytes_read, pos, out, s)
             else case fs_read_block E (blocks ! block_idx) block_buffer s of
               (_, block_buffer, s) \<Rightarrow>
                 read_loop E blocks to_read (bytes_read + chunk) (pos + chunk) block_buffer
                   (out @ take (unat chunk) (drop offset block_buffer)) s
     else (bytes_read, pos, out, s))"
  by auto
termination
  by (relation "measure (\<lambda>(E, bl, tr, br, pos, bb, out, s). unat tr - unat br)")
    (use chunk_advance(2,3) in \<open>auto simp: word_less_nat_alt intro!: diff_less_mono2\<close>)

declare read_loop.simps [simp del]

definition read_work :: "'d fs_env \<Rightarrow> nat \<Rightarrow> u32 \<Rightarrow> 'd fs \<Rightarrow> (int \<times> u8 list) \<times> 'd fs" where
  "read_work E fd sz s =
    (case fs_read_inode E (fh_inode (fm_files s fd)) (junk_inode E) s of
       (_, inode, s) \<Rightarrow>
         let pos = fh_position (fm_files s fd);
             remaining = (if in_size inode > pos then in_size inode - pos else 0);
             to_read = (if sz < remaining then sz else remaining);
             (bytes_read, pos, out, s) = read_loop E (in_blocks inode) to_read 0 pos (junk_block E) [] s
         in ((sint bytes_read, out), upd_file fd (\<lambda>h. h\<lparr>fh_position := pos\<rparr>) s))"

text \<open>
  The loop of \<^verbatim>\<open>fs_write\<close>. The round that finds no free block has stored \<^verbatim>\<open>0xFFFFFFFF\<close> in the local
  copy of the inode when it leaves the loop.
\<close>

function write_loop ::
    "'d fs_env \<Rightarrow> u8 list \<Rightarrow> u32 \<Rightarrow> u32 list \<Rightarrow> u32 \<Rightarrow> u32 \<Rightarrow> block \<Rightarrow> 'd fs \<Rightarrow> (u32 \<times> u32 \<times> u32 list \<times> 'd fs) option" where
  "write_loop E data sz blocks bytes_written pos block_buffer s =
    (if bytes_written < sz
     then let block_idx = unat (pos div of_nat FS_BLOCK_SIZE);
              offset = unat (pos mod of_nat FS_BLOCK_SIZE);
              chunk = chunk_of pos (sz - bytes_written)
          in if block_idx \<ge> 6 then Some (bytes_written, pos, blocks, s)
             else case (if blocks ! block_idx = 0 then fs_alloc_block s else Some (blocks ! block_idx, s)) of
               None \<Rightarrow> None
             | Some (b, s) \<Rightarrow>
               let fresh = (blocks ! block_idx = 0);
                   blocks = blocks[block_idx := b]
               in if fresh \<and> b = 0xFFFFFFFF then Some (bytes_written, pos, blocks, s)
                  else
                    let block_buffer = (if fresh then zero_bytes FS_BLOCK_SIZE else block_buffer);
                        s = (if fresh then snd (fs_write_block E b block_buffer s) else s);
                        (_, block_buffer, s) = fs_read_block E b block_buffer s;
                        block_buffer = splice offset (take (unat chunk) (drop (unat bytes_written) data)) block_buffer;
                        s = snd (fs_write_block E b block_buffer s)
                    in write_loop E data sz blocks (bytes_written + chunk) (pos + chunk) block_buffer s
     else Some (bytes_written, pos, blocks, s))"
  by auto
termination
  by (relation "measure (\<lambda>(E, d, tw, bl, bw, pos, bb, s). unat tw - unat bw)")
    (use chunk_advance(2,3) in \<open>auto simp: word_less_nat_alt intro!: diff_less_mono2\<close>)

declare write_loop.simps [simp del]

definition write_work :: "'d fs_env \<Rightarrow> u32 \<Rightarrow> nat \<Rightarrow> u8 list \<Rightarrow> 'd fs \<Rightarrow> (int \<times> 'd fs) option" where
  "write_work E now fd data s =
    (case fs_read_inode E (fh_inode (fm_files s fd)) (junk_inode E) s of
       (_, inode, s) \<Rightarrow> do {
         (bytes_written, pos, blocks, s) \<leftarrow>
           write_loop E data (of_nat (length data)) (in_blocks inode) 0 (fh_position (fm_files s fd)) (junk_block E) s;
         let inode = inode\<lparr>in_blocks := blocks\<rparr>;
         let s = (if pos > in_size inode
                  then let inode = inode\<lparr>in_size := pos, in_mtime := now\<rparr>;
                           s = snd (fs_write_inode E (fh_inode (fm_files s fd)) inode s)
                       in upd_file fd (\<lambda>h. h\<lparr>fh_size := in_size inode\<rparr>) s
                  else s);
         Some (sint bytes_written, upd_file fd (\<lambda>h. h\<lparr>fh_position := pos\<rparr>) s) })"

definition seek_work :: "nat \<Rightarrow> int \<Rightarrow> int \<Rightarrow> 'd fs \<Rightarrow> int \<times> 'd fs" where
  "seek_work fd offset whence s =
    (let h = fm_files s fd;
         target = (if whence = FS_SEEK_SET then Some (of_int offset)
                   else if whence = FS_SEEK_CUR then Some (fh_position h + of_int offset)
                   else if whence = FS_SEEK_END then Some (fh_size h + of_int offset)
                   else None)
     in case target of
          None \<Rightarrow> (-1, s)
        | Some (p :: u32) \<Rightarrow>
           let new_pos = (if sint p < 0 then 0 else sint p)
           in (new_pos, upd_file fd (\<lambda>h. h\<lparr>fh_position := of_int new_pos\<rparr>) s))"

definition truncate_work :: "'d fs_env \<Rightarrow> u32 \<Rightarrow> nat \<Rightarrow> u32 \<Rightarrow> 'd fs \<Rightarrow> (os_error \<times> 'd fs) option" where
  "truncate_work E now fd sz s =
    (case fs_read_inode E (fh_inode (fm_files s fd)) (junk_inode E) s of
       (_, inode, s) \<Rightarrow> do {
         (blocks, s) \<leftarrow>
           (if sz < in_size inode
            then do {
              let new_blocks = unat ((sz + of_nat FS_BLOCK_SIZE - 1) div of_nat FS_BLOCK_SIZE);
              s \<leftarrow> fs_free_blocks (drop new_blocks (in_blocks inode)) s;
              Some (take new_blocks (in_blocks inode) @ replicate (6 - new_blocks) 0, s) }
            else Some (in_blocks inode, s));
         let inode = inode\<lparr>in_blocks := blocks, in_size := sz, in_mtime := now\<rparr>;
         let s = snd (fs_write_inode E (fh_inode (fm_files s fd)) inode s);
         Some (OS_OK, upd_file fd (\<lambda>h. h\<lparr>fh_size := sz\<rparr>) s) })"

section \<open>Operations without a lock\<close>

definition fs_tell :: "int \<Rightarrow> 'd fs \<Rightarrow> int" where
  "fs_tell fd s = (if bad_fd fd s then -1 else sint (fh_position (fm_files s (nat fd))))"

definition fs_size :: "int \<Rightarrow> 'd fs \<Rightarrow> int" where
  "fs_size fd s = (if bad_fd fd s then -1 else sint (fh_size (fm_files s (nat fd))))"

definition fs_remove :: "'d fs_env \<Rightarrow> u8 list option \<Rightarrow> 'd fs \<Rightarrow> (os_error \<times> 'd fs) option" where
  "fs_remove E name s =
    (case name of
       None \<Rightarrow> Some (OS_ERROR_INVALID_PARAM, s)
     | Some p \<Rightarrow>
        if \<not> fm_mounted s then Some (OS_ERROR_INVALID_PARAM, s)
        else
          let (inode_num, s) = find_in_root E (strip_slash p) s
          in if inode_num < 0 then Some (OS_ERROR, s)
             else do {
               (_, s) \<leftarrow> fs_free_inode E (of_int inode_num) s;
               Some (OS_OK, snd (change_root E (of_int inode_num) clear_dentry s)) })"

record fs_stat_data =
  fa_type :: u8
  fa_size :: u32
  fa_blocks :: u32
  fa_mtime :: u32
  fa_ctime :: u32

definition fs_stat :: "'d fs_env \<Rightarrow> u8 list option \<Rightarrow> bool \<Rightarrow> 'd fs \<Rightarrow> os_error \<times> fs_stat_data option \<times> 'd fs" where
  "fs_stat E name given s =
    (case name of
       None \<Rightarrow> (OS_ERROR_INVALID_PARAM, None, s)
     | Some p \<Rightarrow>
        if \<not> fm_mounted s \<or> \<not> given then (OS_ERROR_INVALID_PARAM, None, s)
        else
          let (inode_num, s) = find_in_root E (strip_slash p) s
          in if inode_num < 0 then (OS_ERROR, None, s)
             else case fs_read_inode E (of_int inode_num) (junk_inode E) s of
               (e, inode, s) \<Rightarrow>
                 if e \<noteq> OS_OK then (OS_ERROR, None, s)
                 else (OS_OK, Some \<lparr>fa_type = in_type inode, fa_size = in_size inode,
                         fa_blocks = of_nat (length (filter (\<lambda>b. b \<noteq> 0) (in_blocks inode))),
                         fa_mtime = in_mtime inode, fa_ctime = in_ctime inode\<rparr>, s))"

record fs_stats =
  fb_total_blocks :: u32
  fb_used_blocks :: u32
  fb_free_blocks :: u32
  fb_total_files :: u32
  fb_total_dirs :: u32
  fb_block_size :: u32

definition fs_get_stats :: "bool \<Rightarrow> 'd fs \<Rightarrow> os_error \<times> fs_stats option" where
  "fs_get_stats given s =
    (if \<not> fm_mounted s \<or> \<not> given then (OS_ERROR_INVALID_PARAM, None)
     else let sb = fm_superblock s
          in (OS_OK, Some \<lparr>fb_total_blocks = sb_total_blocks sb, fb_used_blocks = sb_total_blocks sb - sb_free_blocks sb,
                fb_free_blocks = sb_free_blocks sb, fb_total_files = sb_total_inodes sb - sb_free_inodes sb,
                fb_total_dirs = 1, fb_block_size = sb_block_size sb\<rparr>))"

definition fs_get_free_space :: "'d fs \<Rightarrow> u32" where
  "fs_get_free_space s =
    (if \<not> fm_mounted s then 0 else sb_free_blocks (fm_superblock s) * sb_block_size (fm_superblock s))"

definition fs_get_total_space :: "'d fs \<Rightarrow> u32" where
  "fs_get_total_space s =
    (if \<not> fm_mounted s then 0 else sb_total_blocks (fm_superblock s) * sb_block_size (fm_superblock s))"

definition fs_rename :: "'d fs_env \<Rightarrow> u8 list option \<Rightarrow> u8 list option \<Rightarrow> 'd fs \<Rightarrow> os_error \<times> 'd fs" where
  "fs_rename E old_path new_path s =
    (case (old_path, new_path) of
       (Some old, Some new) \<Rightarrow>
         if \<not> fm_mounted s then (OS_ERROR_INVALID_PARAM, s)
         else
           let (inode_num, s) = find_in_root E (strip_slash old) s
           in if inode_num < 0 then (OS_ERROR, s)
              else
                let (other, s) = find_in_root E (strip_slash new) s
                in if other \<ge> 0 then (OS_ERROR, s)
                   else
                     let (found, s) = change_root E (of_int inode_num) (rename_dentry (strip_slash new)) s
                     in (if found then OS_OK else OS_ERROR, s)
     | _ \<Rightarrow> (OS_ERROR_INVALID_PARAM, s))"

definition fs_mkdir :: "'d fs_env \<Rightarrow> u32 \<Rightarrow> u8 list option \<Rightarrow> 'd fs \<Rightarrow> (os_error \<times> 'd fs) option" where
  "fs_mkdir E now name s =
    (case name of
       None \<Rightarrow> Some (OS_ERROR_INVALID_PARAM, s)
     | Some p \<Rightarrow>
        if \<not> fm_mounted s then Some (OS_ERROR_INVALID_PARAM, s)
        else
          let (other, s) = find_in_root E (strip_slash p) s
          in if other \<ge> 0 then Some (OS_ERROR, s)
             else
               let (n, s) = fs_alloc_inode E s
               in if n = 0xFFFFFFFF then Some (OS_ERROR_NO_MEMORY, s)
                  else do {
                    (dir_inode, s) \<leftarrow> root_block E (snd (fs_write_inode E n (new_inode FS_TYPE_DIRECTORY now) s));
                    let b = in_blocks dir_inode ! 0;
                    let (_, dir_buffer, s) = fs_read_block E b (junk_block E) s;
                    case find_dentry (\<lambda>i. dentry_inode dir_buffer i = 0) of
                      None \<Rightarrow> do {
                        (_, s) \<leftarrow> fs_free_inode E n s;
                        Some (OS_ERROR_NO_MEMORY, s) }
                    | Some i \<Rightarrow>
                       let s = snd (fs_write_block E b (set_dentry i (strip_slash p) n FS_TYPE_DIRECTORY dir_buffer) s)
                       in Some (OS_OK, snd (fs_write_inode E (sb_root_inode (fm_superblock s))
                            (dir_inode\<lparr>in_size := in_size dir_inode + of_nat DENTRY_SIZE\<rparr>) s)) })"

definition fs_rmdir :: "'d fs_env \<Rightarrow> u8 list option \<Rightarrow> 'd fs \<Rightarrow> (os_error \<times> 'd fs) option" where
  "fs_rmdir E name s =
    (case name of
       None \<Rightarrow> Some (OS_ERROR_INVALID_PARAM, s)
     | Some p \<Rightarrow>
        if \<not> fm_mounted s then Some (OS_ERROR_INVALID_PARAM, s)
        else
          let (inode_num, s) = find_in_root E (strip_slash p) s
          in if inode_num < 0 then Some (OS_ERROR, s)
             else case fs_read_inode E (of_int inode_num) (junk_inode E) s of
               (_, inode, s) \<Rightarrow>
                 if in_type inode \<noteq> FS_TYPE_DIRECTORY then Some (OS_ERROR, s)
                 else if in_size inode > 0 then Some (OS_ERROR, s)
                 else do {
                   (_, s) \<leftarrow> fs_free_inode E (of_int inode_num) s;
                   Some (OS_OK, snd (change_root E (of_int inode_num) clear_dentry s)) })"

text \<open>Directory handles are indices into \<^verbatim>\<open>fs_state.dirs\<close>.\<close>

definition fs_opendir :: "'d fs_env \<Rightarrow> u8 list option \<Rightarrow> 'd fs \<Rightarrow> nat option \<times> 'd fs" where
  "fs_opendir E name s =
    (case name of
       None \<Rightarrow> (None, s)
     | Some p \<Rightarrow>
        if \<not> fm_mounted s then (None, s)
        else case List.find (\<lambda>i. \<not> dh_in_use (fm_dirs s i)) [0..<4] of
          None \<Rightarrow> (None, s)
        | Some dir \<Rightarrow>
           let (dir_inode, s) =
                 (if p \<noteq> [] \<and> p \<noteq> [47]
                  then let (inode_num, s) = find_in_root E (strip_slash p) s
                       in if inode_num < 0 then (None, s)
                          else case fs_read_inode E (of_int inode_num) (junk_inode E) s of
                            (_, inode, s) \<Rightarrow>
                              if in_type inode \<noteq> FS_TYPE_DIRECTORY then (None, s) else (Some (of_int inode_num), s)
                  else (Some (sb_root_inode (fm_superblock s)), s))
           in case dir_inode of
                None \<Rightarrow> (None, s)
              | Some n \<Rightarrow> (Some dir, s\<lparr>fm_dirs := (fm_dirs s)(dir := \<lparr>dh_in_use = True, dh_inode = n, dh_position = 0\<rparr>)\<rparr>))"

record fs_dirent =
  di_name :: "u8 list"
  di_type :: u8
  di_size :: u32
  di_mtime :: u32

text \<open>The entries in use of one block, and the loop over the blocks that counts them up to \<open>position\<close>.\<close>

definition used_dentries :: "block \<Rightarrow> nat list" where
  "used_dentries buf = filter (\<lambda>i. dentry_inode buf i \<noteq> 0) [0..<FS_BLOCK_SIZE div DENTRY_SIZE]"

fun nth_dentry :: "'d fs_env \<Rightarrow> nat \<Rightarrow> u32 list \<Rightarrow> block \<Rightarrow> 'd fs \<Rightarrow> (block \<times> nat) option \<times> 'd fs" where
  "nth_dentry E k [] buffer s = (None, s)"
| "nth_dentry E k (b # bs) buffer s =
    (if b = 0 then (None, s)
     else case fs_read_block E b buffer s of
       (_, buffer, s) \<Rightarrow>
         if k < length (used_dentries buffer) then (Some (buffer, used_dentries buffer ! k), s)
         else nth_dentry E (k - length (used_dentries buffer)) bs buffer s)"

definition fs_readdir :: "'d fs_env \<Rightarrow> nat option \<Rightarrow> bool \<Rightarrow> 'd fs \<Rightarrow> os_error \<times> fs_dirent option \<times> 'd fs" where
  "fs_readdir E dir given s =
    (case dir of
       None \<Rightarrow> (OS_ERROR_INVALID_PARAM, None, s)
     | Some d \<Rightarrow>
        if \<not> dh_in_use (fm_dirs s d) \<or> \<not> given then (OS_ERROR_INVALID_PARAM, None, s)
        else case fs_read_inode E (dh_inode (fm_dirs s d)) (junk_inode E) s of
          (_, inode, s) \<Rightarrow>
            if in_type inode \<noteq> FS_TYPE_DIRECTORY then (OS_ERROR, None, s)
            else case nth_dentry E (unat (dh_position (fm_dirs s d))) (in_blocks inode) (junk_block E) s of
              (None, s) \<Rightarrow> (OS_ERROR, None, s)
            | (Some (buffer, i), s) \<Rightarrow>
               (case fs_read_inode E (dentry_inode buffer i) (junk_inode E) s of
                  (_, file_inode, s) \<Rightarrow>
                    (OS_OK, Some \<lparr>di_name = take 31 (dentry_name buffer i), di_type = dentry_type buffer i,
                       di_size = in_size file_inode, di_mtime = in_mtime file_inode\<rparr>,
                     s\<lparr>fm_dirs := (fm_dirs s)(d := (fm_dirs s d)\<lparr>dh_position := dh_position (fm_dirs s d) + 1\<rparr>)\<rparr>)))"

definition fs_closedir :: "nat option \<Rightarrow> 'd fs \<Rightarrow> os_error \<times> 'd fs" where
  "fs_closedir dir s =
    (case dir of
       None \<Rightarrow> (OS_ERROR_INVALID_PARAM, s)
     | Some d \<Rightarrow>
        if \<not> dh_in_use (fm_dirs s d) then (OS_ERROR_INVALID_PARAM, s)
        else (OS_OK, s\<lparr>fm_dirs := (fm_dirs s)(d := (fm_dirs s d)\<lparr>dh_in_use := False\<rparr>)\<rparr>))"

section \<open>Operations under a lock\<close>

record 'd fsys = sync +
  fs_st :: "'d fs"

text \<open>The addresses of \<^verbatim>\<open>fs_state.fs_lock\<close> and of the locks of the file handles.\<close>

definition FS_LOCK :: mutex_loc where "FS_LOCK = MutexVar 256"
definition FILE_LOCK :: "nat \<Rightarrow> mutex_loc" where "FILE_LOCK fd = MutexVar (257 + fd)"

definition fs_init :: "('d, 'a) fsys_scheme \<Rightarrow> os_error \<times> ('d, 'a) fsys_scheme" where
  "fs_init s =
    (let s = s\<lparr>fs_st := fs_init_state (fs_st s)\<rparr>;
         s = os_mutex_init (Some FS_LOCK) s;
         s = fold (\<lambda>i. os_mutex_init (Some (FILE_LOCK i))) [0..<FS_MAX_OPEN_FILES] s
     in (OS_OK, s))"

definition fs_locked ::
    "('d, 'a) fsys_ext sswitch \<Rightarrow> mutex_loc \<Rightarrow> (u32 \<Rightarrow> 'd fs \<Rightarrow> ('r \<times> 'd fs) option) \<Rightarrow> ('d, 'a) fsys_scheme \<Rightarrow> ('r \<times> ('d, 'a) fsys_scheme) option" where
  "fs_locked cs m work s = do {
     (_, s) \<leftarrow> os_mutex_lock cs (Some m) 1000 s;
     (r, x) \<leftarrow> work (os_get_tick_count s) (fs_st s);
     (_, s) \<leftarrow> os_mutex_unlock cs (Some m) (s\<lparr>fs_st := x\<rparr>);
     Some (r, s) }"

definition fs_mount ::
    "('d, 'a) fsys_ext sswitch \<Rightarrow> 'd fs_env \<Rightarrow> bool \<Rightarrow> ('d, 'a) fsys_scheme \<Rightarrow> (os_error \<times> ('d, 'a) fsys_scheme) option" where
  "fs_mount cs E given s =
    (if \<not> given then Some (OS_ERROR_INVALID_PARAM, s) else fs_locked cs FS_LOCK (\<lambda>_. mount_work E) s)"

definition fs_unmount ::
    "('d, 'a) fsys_ext sswitch \<Rightarrow> 'd fs_env \<Rightarrow> ('d, 'a) fsys_scheme \<Rightarrow> (os_error \<times> ('d, 'a) fsys_scheme) option" where
  "fs_unmount cs E s = fs_locked cs FS_LOCK (\<lambda>_ x. Some (unmount_work E x)) s"

definition fs_open ::
    "('d, 'a) fsys_ext sswitch \<Rightarrow> 'd fs_env \<Rightarrow> u8 list option \<Rightarrow> u32 \<Rightarrow> ('d, 'a) fsys_scheme \<Rightarrow> (int \<times> ('d, 'a) fsys_scheme) option" where
  "fs_open cs E name flags s =
    (case name of
       None \<Rightarrow> Some (-1, s)
     | Some p \<Rightarrow>
        if \<not> fm_mounted (fs_st s) then Some (-1, s)
        else fs_locked cs FS_LOCK (\<lambda>now. open_work E now p flags) s)"

text \<open>A dirty cache is written through \<^verbatim>\<open>fs_state.device\<close> without a check; \<open>None\<close> is the access through NULL.\<close>

definition sync_cache_checked :: "'d fs_env \<Rightarrow> 'd fs \<Rightarrow> 'd fs option" where
  "sync_cache_checked E s =
    (if fm_cache_dirty s \<and> fm_cached_block s \<noteq> 0xFFFFFFFF \<and> \<not> fm_device s then None else Some (snd (fs_sync_cache E s)))"

definition fs_close ::
    "('d, 'a) fsys_ext sswitch \<Rightarrow> 'd fs_env \<Rightarrow> int \<Rightarrow> ('d, 'a) fsys_scheme \<Rightarrow> (os_error \<times> ('d, 'a) fsys_scheme) option" where
  "fs_close cs E fd s =
    (if bad_fd fd (fs_st s) then Some (OS_ERROR_INVALID_PARAM, s)
     else do {
       (_, s) \<leftarrow> os_mutex_lock cs (Some (FILE_LOCK (nat fd))) 1000 s;
       x \<leftarrow> sync_cache_checked E (fs_st s);
       (_, s) \<leftarrow> os_mutex_unlock cs (Some (FILE_LOCK (nat fd)))
                 (s\<lparr>fs_st := upd_file (nat fd) (\<lambda>h. h\<lparr>fh_in_use := False\<rparr>) x\<rparr>);
       Some (OS_OK, s) })"

definition fs_read ::
    "('d, 'a) fsys_ext sswitch \<Rightarrow> 'd fs_env \<Rightarrow> int \<Rightarrow> u32 \<Rightarrow> ('d, 'a) fsys_scheme \<Rightarrow> ((int \<times> u8 list) \<times> ('d, 'a) fsys_scheme) option" where
  "fs_read cs E fd sz s =
    (if bad_fd fd (fs_st s) then Some ((-1, []), s)
     else if fh_flags (fm_files (fs_st s) (nat fd)) AND FS_O_RDONLY = 0 then Some ((-1, []), s)
     else fs_locked cs (FILE_LOCK (nat fd)) (\<lambda>_ x. Some (read_work E (nat fd) sz x)) s)"

definition fs_write ::
    "('d, 'a) fsys_ext sswitch \<Rightarrow> 'd fs_env \<Rightarrow> int \<Rightarrow> u8 list \<Rightarrow> ('d, 'a) fsys_scheme \<Rightarrow> (int \<times> ('d, 'a) fsys_scheme) option" where
  "fs_write cs E fd data s =
    (if bad_fd fd (fs_st s) then Some (-1, s)
     else if fh_flags (fm_files (fs_st s) (nat fd)) AND FS_O_WRONLY = 0 then Some (-1, s)
     else fs_locked cs (FILE_LOCK (nat fd)) (\<lambda>now. write_work E now (nat fd) data) s)"

definition fs_seek ::
    "('d, 'a) fsys_ext sswitch \<Rightarrow> int \<Rightarrow> int \<Rightarrow> int \<Rightarrow> ('d, 'a) fsys_scheme \<Rightarrow> (int \<times> ('d, 'a) fsys_scheme) option" where
  "fs_seek cs fd offset whence s =
    (if bad_fd fd (fs_st s) then Some (-1, s)
     else fs_locked cs (FILE_LOCK (nat fd)) (\<lambda>_ x. Some (seek_work (nat fd) offset whence x)) s)"

definition fs_truncate ::
    "('d, 'a) fsys_ext sswitch \<Rightarrow> 'd fs_env \<Rightarrow> int \<Rightarrow> u32 \<Rightarrow> ('d, 'a) fsys_scheme \<Rightarrow> (os_error \<times> ('d, 'a) fsys_scheme) option" where
  "fs_truncate cs E fd sz s =
    (if bad_fd fd (fs_st s) then Some (OS_ERROR_INVALID_PARAM, s)
     else fs_locked cs (FILE_LOCK (nat fd)) (\<lambda>now. truncate_work E now (nat fd) sz) s)"

definition fs_sync :: "'d fs_env \<Rightarrow> int \<Rightarrow> 'd fs \<Rightarrow> (os_error \<times> 'd fs) option" where
  "fs_sync E fd s =
    (if bad_fd fd s then Some (OS_ERROR_INVALID_PARAM, s)
     else do {
       s \<leftarrow> sync_cache_checked E s;
       Some (OS_OK, if fm_device s
                    then case bd_sync (fs_dev E) of None \<Rightarrow> s | Some sync \<Rightarrow> s\<lparr>fm_store := sync (fm_store s)\<rparr>
                    else s) })"

end
