(* ===== verification/FS_Disk.thy ===== *)
theory FS_Disk
  imports FS_Lemmas
begin

text \<open>
  The file system over a storage driver that keeps the contract \<open>block_storage\<close>: seen through
  the cache the storage is an array of blocks (\<open>fs_disk\<close>), and the block and inode functions
  read and update that array. The results hold for every such driver and are instantiated
  for the RAM disk.
\<close>

section \<open>The array behind the cache\<close>

definition fs_disk :: "'d fs_env \<Rightarrow> 'd fs \<Rightarrow> u32 \<Rightarrow> block" where
  "fs_disk E s b = (if b = fm_cached_block s then fm_block_cache s
     else case bd_read (fs_dev E) b 1 (fm_store s) of Some x \<Rightarrow> x | None \<Rightarrow> [])"

definition fs_count :: "'d fs_env \<Rightarrow> 'd fs \<Rightarrow> u32" where
  "fs_count E s = bd_get_block_count (fs_dev E) (fm_store s)"

text \<open>A cached block that is not dirty agrees with the storage.\<close>

definition cache_ok :: "'d fs_env \<Rightarrow> ('d \<Rightarrow> bool) \<Rightarrow> 'd fs \<Rightarrow> bool" where
  "cache_ok E ok s \<longleftrightarrow> fm_mounted s \<and> ok (fm_store s) \<and> length (fm_block_cache s) = FS_BLOCK_SIZE \<and>
     (fm_cached_block s = 0xFFFFFFFF \<or>
      fm_cached_block s < fs_count E s \<and>
        (fm_cache_dirty s \<or> bd_read (fs_dev E) (fm_cached_block s) 1 (fm_store s) = Some (fm_block_cache s)))"

text \<open>What the block functions leave alone: everything but the cache and the storage.\<close>

definition same_rest :: "'d fs \<Rightarrow> 'd fs \<Rightarrow> bool" where
  "same_rest s s' \<longleftrightarrow> fm_mounted s' = fm_mounted s \<and> fm_device s' = fm_device s \<and> fm_superblock s' = fm_superblock s \<and>
     fm_files s' = fm_files s \<and> fm_dirs s' = fm_dirs s \<and> fm_bitmap s' = fm_bitmap s"

lemma same_rest_refl [simp, intro]: "same_rest s s"
  by (simp add: same_rest_def)

lemma same_rest_trans [trans]: "same_rest s t \<Longrightarrow> same_rest t u \<Longrightarrow> same_rest s u"
  by (simp add: same_rest_def)

lemma not_last_block: "b < (n :: u32) \<Longrightarrow> b \<noteq> 0xFFFFFFFF"
  using word_not_simps(1) by (auto simp: word_less_nat_alt) (use unat_u32_less [of n] in linarith)

section \<open>Sequences of block operations\<close>

datatype block_op = ReadOp u32 | WriteOp u32 block | SyncOp

text \<open>Each operation answers with its error code, and the block that was read.\<close>

fun fs_run :: "'d fs_env \<Rightarrow> block_op list \<Rightarrow> 'd fs \<Rightarrow> (os_error \<times> block) list \<times> 'd fs" where
  "fs_run E [] s = ([], s)"
| "fs_run E (op # ops) s =
    (let (e, x, s) = (case op of
           ReadOp b \<Rightarrow> fs_read_block E b (junk_block E) s
         | WriteOp b y \<Rightarrow> (case fs_write_block E b y s of (e, s) \<Rightarrow> (e, [], s))
         | SyncOp \<Rightarrow> (case fs_sync_cache E s of (e, s) \<Rightarrow> (e, [], s)));
         (r, s) = fs_run E ops s
     in ((e, x) # r, s))"

text \<open>The same on an array of blocks.\<close>

fun array_run :: "block_op list \<Rightarrow> (u32 \<Rightarrow> block) \<Rightarrow> (os_error \<times> block) list \<times> (u32 \<Rightarrow> block)" where
  "array_run [] d = ([], d)"
| "array_run (op # ops) d =
    (let (x, d) = (case op of ReadOp b \<Rightarrow> (d b, d) | WriteOp b y \<Rightarrow> ([], d(b := y)) | SyncOp \<Rightarrow> ([], d));
         (r, d) = array_run ops d
     in ((OS_OK, x) # r, d))"

fun op_ok :: "u32 \<Rightarrow> block_op \<Rightarrow> bool" where
  "op_ok n (ReadOp b) \<longleftrightarrow> b < n"
| "op_ok n (WriteOp b y) \<longleftrightarrow> b < n \<and> length y = FS_BLOCK_SIZE"
| "op_ok n SyncOp \<longleftrightarrow> True"

locale fs_storage = block_storage dev ok for dev :: "'d block_device" and ok +
  fixes E :: "'d fs_env"
  assumes dev: "fs_dev E = dev"
    and small: "ok d \<Longrightarrow> bd_get_block_count dev d \<le> 1024"
begin

lemma disk_length: "cache_ok E ok s \<Longrightarrow> b < fs_count E s \<Longrightarrow> length (fs_disk E s b) = FS_BLOCK_SIZE"
  using read_ok [of "fm_store s" b] by (auto simp: cache_ok_def fs_disk_def fs_count_def dev)

text \<open>Writing back changes nothing seen through the cache, and leaves the storage up to date.\<close>

lemma sync_ok:
  assumes ok: "cache_ok E ok s"
  obtains s' where "fs_sync_cache E s = (OS_OK, s')" "cache_ok E ok s'" "same_rest s s'" "fs_count E s' = fs_count E s"
    "fm_cached_block s' = fm_cached_block s" "fm_block_cache s' = fm_block_cache s"
    "fm_cached_block s < fs_count E s \<Longrightarrow> \<not> fm_cache_dirty s'" "fs_disk E s' = fs_disk E s"
    "\<And>b. b < fs_count E s \<Longrightarrow> bd_read dev b 1 (fm_store s') = Some (fs_disk E s b)"
proof (cases "fm_cache_dirty s \<and> fm_cached_block s \<noteq> 0xFFFFFFFF")
  case True
  then have c: "fm_cached_block s < fs_count E s" using ok by (simp add: cache_ok_def)
  obtain d' where d: "bd_write dev (fm_cached_block s) (fm_block_cache s) 1 (fm_store s) = (True, d')" "ok d'"
      "bd_get_block_count dev d' = bd_get_block_count dev (fm_store s)" "bd_read dev (fm_cached_block s) 1 d' = Some (fm_block_cache s)"
      "\<forall>c. c \<noteq> fm_cached_block s \<longrightarrow> bd_read dev c 1 d' = bd_read dev c 1 (fm_store s)"
    using write_ok [of "fm_store s" "fm_cached_block s" "fm_block_cache s"] ok c by (auto simp: cache_ok_def fs_count_def dev)
  let ?s = "s\<lparr>fm_store := d', fm_cache_dirty := False\<rparr>"
  show ?thesis
  proof (rule that [of ?s])
    show "fs_sync_cache E s = (OS_OK, ?s)" using True d by (simp add: fs_sync_cache_def dev)
    show "cache_ok E ok ?s" using ok c d by (simp add: cache_ok_def fs_count_def dev)
    show "fs_disk E ?s = fs_disk E s" using d by (auto simp: fs_disk_def dev fun_eq_iff)
    show "bd_read dev b 1 (fm_store ?s) = Some (fs_disk E s b)" if "b < fs_count E s" for b
      using d read_ok [of "fm_store s" b] ok that by (auto simp: fs_disk_def dev cache_ok_def fs_count_def)
  qed (use d in \<open>simp_all add: same_rest_def fs_count_def dev\<close>)
next
  case False
  show ?thesis
  proof (rule that [of s])
    show "bd_read dev b 1 (fm_store s) = Some (fs_disk E s b)" if "b < fs_count E s" for b
      using read_ok [of "fm_store s" b] ok that False not_last_block [OF that]
      by (auto simp: fs_disk_def dev cache_ok_def fs_count_def)
  qed (use False ok in \<open>auto simp: fs_sync_cache_def dest: not_last_block\<close>)
qed

lemma read_block_ok:
  assumes ok: "cache_ok E ok s" and b: "b < fs_count E s"
  obtains s' where "fs_read_block E b buf s = (OS_OK, fs_disk E s b, s')" "cache_ok E ok s'" "same_rest s s'"
    "fs_count E s' = fs_count E s" "\<And>c. c < fs_count E s \<Longrightarrow> fs_disk E s' c = fs_disk E s c"
proof (cases "b = fm_cached_block s")
  case True
  then show ?thesis using ok by (intro that [of s]) (auto simp: fs_read_block_def fs_disk_def cache_ok_def)
next
  case False
  obtain t where t: "fs_sync_cache E s = (OS_OK, t)" "cache_ok E ok t" "same_rest s t" "fs_count E t = fs_count E s"
      "fm_cached_block t = fm_cached_block s" "fm_block_cache t = fm_block_cache s"
      "fs_disk E t = fs_disk E s" and read: "\<And>b. b < fs_count E s \<Longrightarrow> bd_read dev b 1 (fm_store t) = Some (fs_disk E s b)"
    using sync_ok [OF ok] by metis
  have x: "bd_read dev b 1 (fm_store s) = Some (fs_disk E s b)"
    using False read_ok [of "fm_store s" b] ok b by (auto simp: fs_disk_def dev cache_ok_def fs_count_def)
  define u where "u = (if fm_cache_dirty s then t else s)"
  have u: "cache_ok E ok u" "same_rest s u" "fs_count E u = fs_count E s"
    using t ok by (simp_all add: u_def)
  have ur: "bd_read dev c 1 (fm_store u) = Some (fs_disk E s c)" if "c < fs_count E s" for c
    using read that read_ok [of "fm_store s" c] ok not_last_block [OF that]
    by (auto simp: u_def fs_disk_def dev cache_ok_def fs_count_def)
  let ?s = "u\<lparr>fm_block_cache := fs_disk E s b, fm_cached_block := b, fm_cache_dirty := False\<rparr>"
  show ?thesis
  proof (rule that [of ?s])
    show "fs_read_block E b buf s = (OS_OK, fs_disk E s b, ?s)"
      using False x t(1) ok by (simp add: fs_read_block_def dev u_def cache_ok_def)
    show "cache_ok E ok ?s"
      using u disk_length [OF ok b] ur [OF b] b by (simp add: cache_ok_def fs_count_def dev)
    show "fs_disk E ?s c = fs_disk E s c" if "c < fs_count E s" for c
      using ur [OF that] by (simp add: fs_disk_def [of E ?s] dev)
  qed (use u in \<open>simp_all add: same_rest_def fs_count_def dev\<close>)
qed

lemma write_block_ok:
  assumes ok: "cache_ok E ok s" and b: "b < fs_count E s" and x: "length x = FS_BLOCK_SIZE"
  obtains s' where "fs_write_block E b x s = (OS_OK, s')" "cache_ok E ok s'" "same_rest s s'"
    "fs_count E s' = fs_count E s" "fs_disk E s' = (fs_disk E s)(b := x)"
proof (cases "b = fm_cached_block s")
  case True
  then show ?thesis using ok b x
    by (intro that [of "s\<lparr>fm_block_cache := x, fm_cache_dirty := True\<rparr>"])
      (auto simp: fs_write_block_def fs_disk_def cache_ok_def fs_count_def same_rest_def fun_eq_iff)
next
  case False
  obtain d' where d: "bd_write dev b x 1 (fm_store s) = (True, d')" "ok d'"
      "bd_get_block_count dev d' = bd_get_block_count dev (fm_store s)" "bd_read dev b 1 d' = Some x"
      "\<forall>c. c \<noteq> b \<longrightarrow> bd_read dev c 1 d' = bd_read dev c 1 (fm_store s)"
    using write_ok [of "fm_store s" b x] ok b x by (auto simp: cache_ok_def fs_count_def dev)
  show ?thesis using ok b x d False
    by (intro that [of "s\<lparr>fm_store := d'\<rparr>"])
      (auto simp: fs_write_block_def fs_disk_def cache_ok_def fs_count_def same_rest_def dev fun_eq_iff)
qed

text \<open>Whatever the sequence, the answers are those of the array, and so are the blocks afterwards.\<close>

lemma step_refines:
  assumes ok: "cache_ok E ok s" and op: "op_ok (fs_count E s) op" and d: "\<And>b. b < fs_count E s \<Longrightarrow> d b = fs_disk E s b"
  obtains x s' d' where "(case op of ReadOp b \<Rightarrow> fs_read_block E b (junk_block E) s
         | WriteOp b y \<Rightarrow> (case fs_write_block E b y s of (e, s) \<Rightarrow> (e, [], s))
         | SyncOp \<Rightarrow> (case fs_sync_cache E s of (e, s) \<Rightarrow> (e, [], s))) = (OS_OK, x, s')"
    "(case op of ReadOp b \<Rightarrow> (d b, d) | WriteOp b y \<Rightarrow> ([], d(b := y)) | SyncOp \<Rightarrow> ([], d)) = (x, d')"
    "cache_ok E ok s'" "fs_count E s' = fs_count E s" "\<And>b. b < fs_count E s \<Longrightarrow> d' b = fs_disk E s' b"
proof (cases op)
  case (ReadOp b)
  then have b: "b < fs_count E s" using op by simp
  obtain s' where "fs_read_block E b (junk_block E) s = (OS_OK, fs_disk E s b, s')" "cache_ok E ok s'"
      "fs_count E s' = fs_count E s" "\<And>c. c < fs_count E s \<Longrightarrow> fs_disk E s' c = fs_disk E s c"
    by (rule read_block_ok [OF ok b, of "junk_block E"]) (rule that)
  then show ?thesis using ReadOp b d by (intro that [of "fs_disk E s b" s' d]) simp_all
next
  case (WriteOp b y)
  then have b: "b < fs_count E s" "length y = FS_BLOCK_SIZE" using op by simp_all
  obtain s' where "fs_write_block E b y s = (OS_OK, s')" "cache_ok E ok s'" "fs_count E s' = fs_count E s"
      "fs_disk E s' = (fs_disk E s)(b := y)"
    by (rule write_block_ok [OF ok b]) (rule that)
  then show ?thesis using WriteOp d by (intro that [of "[]" s' "d(b := y)"]) simp_all
next
  case SyncOp
  obtain s' where "fs_sync_cache E s = (OS_OK, s')" "cache_ok E ok s'" "fs_count E s' = fs_count E s" "fs_disk E s' = fs_disk E s"
    by (rule sync_ok [OF ok]) (rule that)
  then show ?thesis using SyncOp d by (intro that [of "[]" s' d]) simp_all
qed

lemma run_refines:
  assumes "cache_ok E ok s" and "list_all (op_ok (fs_count E s)) ops" and "\<And>b. b < fs_count E s \<Longrightarrow> d b = fs_disk E s b"
  shows "\<exists>r s' d'. fs_run E ops s = (r, s') \<and> array_run ops d = (r, d') \<and> cache_ok E ok s' \<and>
    fs_count E s' = fs_count E s \<and> (\<forall>b < fs_count E s. d' b = fs_disk E s' b)"
  using assms
proof (induction ops arbitrary: s d)
  case (Cons op ops)
  have op: "op_ok (fs_count E s) op" using Cons.prems(2) by simp
  obtain x t d1 where t: "(case op of ReadOp b \<Rightarrow> fs_read_block E b (junk_block E) s
         | WriteOp b y \<Rightarrow> (case fs_write_block E b y s of (e, s) \<Rightarrow> (e, [], s))
         | SyncOp \<Rightarrow> (case fs_sync_cache E s of (e, s) \<Rightarrow> (e, [], s))) = (OS_OK, x, t)"
      "(case op of ReadOp b \<Rightarrow> (d b, d) | WriteOp b y \<Rightarrow> ([], d(b := y)) | SyncOp \<Rightarrow> ([], d)) = (x, d1)"
      "cache_ok E ok t" "fs_count E t = fs_count E s" "\<And>b. b < fs_count E s \<Longrightarrow> d1 b = fs_disk E t b"
    by (rule step_refines [where d = d, OF Cons.prems(1) op]) (rule Cons.prems(3), assumption, rule that)
  obtain r s' d' where "fs_run E ops t = (r, s')" "array_run ops d1 = (r, d')" "cache_ok E ok s'"
      "fs_count E s' = fs_count E t" "\<forall>b < fs_count E t. d' b = fs_disk E s' b"
    using Cons.IH [of t d1] Cons.prems(2) t(3-5) by auto
  then show ?case using t by simp
qed simp

end

end
