(* ===== verification/FS_Inodes.thy ===== *)
theory FS_Inodes
  imports FS_Disk
begin

text \<open>
  The inode table and the bitmap: an inode that is written is the only one that changes, and
  a block that is allocated was free before.
\<close>

section \<open>Inodes\<close>

definition disk_inode :: "'d fs_env \<Rightarrow> 'd fs \<Rightarrow> u32 \<Rightarrow> fs_inode" where
  "disk_inode E s n = decode_inode (take INODE_SIZE (drop (inode_offset n) (fs_disk E s (inode_block n s))))"

text \<open>The inode number is below the limit and its block is on the storage.\<close>

definition inode_valid :: "'d fs_env \<Rightarrow> 'd fs \<Rightarrow> u32 \<Rightarrow> bool" where
  "inode_valid E s n \<longleftrightarrow> n < sb_total_inodes (fm_superblock s) \<and> inode_block n s < fs_count E s"

lemma inodes_per_block_12: "inodes_per_block = 12"
  by (simp add: inodes_per_block_def FS_BLOCK_SIZE_def INODE_SIZE_def)

lemma inode_offset_nat: "inode_offset n = unat n mod 12 * 40"
proof -
  have "unat n mod 12 < 12" by simp
  then have "unat n mod 12 * 40 < 4294967296" by linarith
  then show ?thesis by (simp add: inode_offset_def inodes_per_block_12 INODE_SIZE_def unat_mult_lem [THEN iffD1] unat_mod_distrib unat_word_ariths)
qed

lemma inode_offset_le: "inode_offset n + INODE_SIZE \<le> FS_BLOCK_SIZE"
proof -
  have "unat n mod 12 < 12" by simp
  then have "unat n mod 12 \<le> 11" by linarith
  then show ?thesis by (simp add: inode_offset_nat INODE_SIZE_def FS_BLOCK_SIZE_def)
qed

lemma inode_offset_apart:
  assumes "inode_block m s = inode_block n s" and "m \<noteq> n"
  shows "inode_offset m + INODE_SIZE \<le> inode_offset n \<or> inode_offset n + INODE_SIZE \<le> inode_offset m"
proof -
  have "m div 12 = n div 12" using assms(1) by (simp add: inode_block_def inodes_per_block_12)
  then have "unat m div 12 = unat n div 12" by (simp add: word_unat_eq_iff unat_div_distrib)
  moreover have "unat m \<noteq> unat n" using assms(2) by (simp add: word_unat_eq_iff)
  ultimately have "unat m mod 12 \<noteq> unat n mod 12" by (metis div_mult_mod_eq)
  then show ?thesis unfolding inode_offset_nat INODE_SIZE_def by linarith
qed

lemma inode_block_same: "same_rest s s' \<Longrightarrow> inode_block n s' = inode_block n s"
  by (simp add: same_rest_def inode_block_def)

lemma length_disk_inode [simp]: "length (in_blocks (disk_inode E s n)) = 6"
  by (simp add: disk_inode_def decode_inode_def)

context fs_storage
begin

lemma disk_inode_cong:
  assumes "same_rest s s'" and "fs_disk E s' (inode_block n s) = fs_disk E s (inode_block n s)"
  shows "disk_inode E s' n = disk_inode E s n"
  using assms by (simp add: disk_inode_def inode_block_same)

lemma read_inode_ok:
  assumes ok: "cache_ok E ok s" and n: "inode_valid E s n"
  obtains s' where "fs_read_inode E n i s = (OS_OK, disk_inode E s n, s')" "cache_ok E ok s'" "same_rest s s'"
    "fs_count E s' = fs_count E s" "\<And>c. c < fs_count E s \<Longrightarrow> fs_disk E s' c = fs_disk E s c"
    "\<And>m. inode_valid E s m \<Longrightarrow> disk_inode E s' m = disk_inode E s m"
proof -
  have b: "inode_block n s < fs_count E s" using n by (simp add: inode_valid_def)
  obtain s' where s': "fs_read_block E (inode_block n s) (junk_block E) s = (OS_OK, fs_disk E s (inode_block n s), s')"
      "cache_ok E ok s'" "same_rest s s'" "fs_count E s' = fs_count E s"
    and d: "\<And>c. c < fs_count E s \<Longrightarrow> fs_disk E s' c = fs_disk E s c"
    using read_block_ok [OF ok b, of "junk_block E"] by blast
  show ?thesis
  proof (rule that [OF _ s'(2-4) d])
    show "fs_read_inode E n i s = (OS_OK, disk_inode E s n, s')"
      using s'(1) n by (simp add: fs_read_inode_def inode_valid_def disk_inode_def not_le [symmetric])
    show "disk_inode E s' m = disk_inode E s m" if "inode_valid E s m" for m
      using that s'(3) d by (intro disk_inode_cong) (simp_all add: inode_valid_def)
  qed
qed

lemma write_inode_ok:
  assumes ok: "cache_ok E ok s" and n: "inode_valid E s n" and x: "length (in_blocks x) = 6"
  obtains s' where "fs_write_inode E n x s = (OS_OK, s')" "cache_ok E ok s'" "same_rest s s'"
    "fs_count E s' = fs_count E s" "\<And>c. c < fs_count E s \<Longrightarrow> c \<noteq> inode_block n s \<Longrightarrow> fs_disk E s' c = fs_disk E s c"
    "\<And>m. inode_valid E s m \<Longrightarrow> disk_inode E s' m = (if m = n then x else disk_inode E s m)"
proof -
  let ?b = "inode_block n s"
  let ?y = "splice (inode_offset n) (encode_inode x) (fs_disk E s ?b)"
  have b: "?b < fs_count E s" using n by (simp add: inode_valid_def)
  obtain t where t: "fs_read_block E ?b (junk_block E) s = (OS_OK, fs_disk E s ?b, t)"
      "cache_ok E ok t" "same_rest s t" "fs_count E t = fs_count E s"
    and d: "\<And>c. c < fs_count E s \<Longrightarrow> fs_disk E t c = fs_disk E s c"
    using read_block_ok [OF ok b, of "junk_block E"] by blast
  have len: "length (fs_disk E s ?b) = FS_BLOCK_SIZE" by (rule disk_length [OF ok b])
  have fit: "inode_offset n + length (encode_inode x) \<le> length (fs_disk E s ?b)"
    using inode_offset_le [of n] x len by simp
  obtain s' where s': "fs_write_block E ?b ?y t = (OS_OK, s')" "cache_ok E ok s'" "same_rest t s'"
      "fs_count E s' = fs_count E t" and d': "fs_disk E s' = (fs_disk E t)(?b := ?y)"
    using write_block_ok [OF t(2), of ?b ?y] b t(4) fit len by auto
  have rest: "same_rest s s'" using t(3) s'(3) by (rule same_rest_trans)
  show ?thesis
  proof (rule that [OF _ s'(2) rest])
    show "fs_write_inode E n x s = (OS_OK, s')"
      using n t(1) s'(1) by (simp add: fs_write_inode_def inode_valid_def inode_block_same [OF t(3)] not_le [symmetric])
    show "fs_disk E s' c = fs_disk E s c" if "c < fs_count E s" "c \<noteq> ?b" for c using that d d' by simp
    show "fs_count E s' = fs_count E s" using s'(4) t(4) by simp
    fix m assume m: "inode_valid E s m"
    have "disk_inode E s' m = decode_inode (take INODE_SIZE (drop (inode_offset m) (fs_disk E s' (inode_block m s))))"
      by (simp add: disk_inode_def inode_block_same [OF rest])
    also have "\<dots> = (if m = n then x else disk_inode E s m)"
    proof (cases "inode_block m s = ?b")
      case False
      then show ?thesis using d' d m by (auto simp: disk_inode_def inode_valid_def)
    next
      case True
      show ?thesis
      proof (cases "m = n")
        case eq: True
        then show ?thesis using splice_inside [OF fit] d' x by (simp add: decode_encode_inode)
      next
        case ne: False
        have "take INODE_SIZE (drop (inode_offset m) ?y) = take INODE_SIZE (drop (inode_offset m) (fs_disk E s ?b))"
          using inode_offset_apart [OF True ne] inode_offset_le [of m] len x fit by (intro splice_outside) auto
        then show ?thesis using ne True d' by (simp add: disk_inode_def)
      qed
    qed
    finally show "disk_inode E s' m = (if m = n then x else disk_inode E s m)" .
  qed
qed

end

section \<open>The bitmap\<close>

lemma bit_mark: "(v :: u8) AND push_bit k 1 \<noteq> 0 \<longleftrightarrow> bit v k"
  by (simp add: bit_iff_and_push_bit_not_eq_0)

lemma same_bit_position: "(i :: nat) div 8 = j div 8 \<and> i mod 8 = j mod 8 \<longleftrightarrow> i = j"
  by (metis div_mult_mod_eq)

lemma used_mark:
  "block_used (s\<lparr>fm_bitmap := mark_block i (fm_bitmap s)\<rparr>) j \<longleftrightarrow> j = i \<or> block_used s j"
  using same_bit_position [of i j] unfolding block_used_def bit_mark
  by (auto simp: mark_block_def bit_or_iff bit_push_bit_iff bit_1_iff bit_exp_iff)

lemma used_unmark:
  "block_used (s\<lparr>fm_bitmap := unmark_block i (fm_bitmap s)\<rparr>) j \<longleftrightarrow> j \<noteq> i \<and> block_used s j"
  using same_bit_position [of i j] unfolding block_used_def bit_mark
  by (auto simp: unmark_block_def bit_and_iff bit_not_iff bit_push_bit_iff bit_1_iff bit_exp_iff dest: bit_imp_le_length)

lemma in_bitmap_iff: "in_bitmap i \<longleftrightarrow> i < 1024"
  by (auto simp: in_bitmap_def BITMAP_BYTES_def)

text \<open>The three ways in which the search ends: with a free block, at the last block, and behind the bitmap.\<close>

lemma find_free_block_Some:
  "find_free_block s i = Some (Some j) \<Longrightarrow> i \<le> j \<and> j < unat (sb_total_blocks (fm_superblock s)) \<and> j < 1024 \<and>
     \<not> block_used s j \<and> (\<forall>k. i \<le> k \<and> k < j \<longrightarrow> block_used s k)"
proof (induction s i rule: find_free_block.induct)
  case (1 s i)
  show ?case
  proof (cases "block_used s i")
    case True
    then have "find_free_block s (Suc i) = Some (Some j)" "i < unat (sb_total_blocks (fm_superblock s))" "in_bitmap i"
      using "1.prems" by (auto simp: find_free_block.simps [of s i] split: if_splits)
    then have "Suc i \<le> j \<and> j < unat (sb_total_blocks (fm_superblock s)) \<and> j < 1024 \<and> \<not> block_used s j \<and>
        (\<forall>k. Suc i \<le> k \<and> k < j \<longrightarrow> block_used s k)"
      using "1.IH" True by blast
    then show ?thesis using True by (auto simp: Suc_le_eq) (metis le_eq_less_or_eq)
  qed (use "1.prems" in \<open>auto simp: find_free_block.simps [of s i] in_bitmap_iff split: if_splits\<close>)
qed

lemma find_free_block_end:
  "find_free_block s i = Some None \<longleftrightarrow>
     (\<forall>k. i \<le> k \<and> k < unat (sb_total_blocks (fm_superblock s)) \<longrightarrow> k < 1024 \<and> block_used s k)"
proof (induction s i rule: find_free_block.induct)
  case (1 s i)
  show ?case
    using "1.IH" by (subst find_free_block.simps) (auto simp: in_bitmap_iff Suc_le_eq, metis le_eq_less_or_eq)
qed

lemma find_free_block_None:
  "find_free_block s i = None \<Longrightarrow> i \<le> k \<Longrightarrow> k < unat (sb_total_blocks (fm_superblock s)) \<Longrightarrow> k < 1024 \<Longrightarrow> block_used s k"
proof (induction s i rule: find_free_block.induct)
  case (1 s i)
  show ?case
  proof (cases "k = i")
    case True
    then show ?thesis using "1.prems" by (auto simp: find_free_block.simps [of s i] in_bitmap_iff split: if_splits)
  next
    case False
    then have "find_free_block s (Suc i) = None" "block_used s i"
      using "1.prems" by (auto simp: find_free_block.simps [of s i] in_bitmap_iff split: if_splits)
    then show ?thesis using "1.IH" "1.prems" False by (auto simp: in_bitmap_iff)
  qed
qed

lemma unat_of_nat_below: "k < unat (w :: u32) \<Longrightarrow> unat (of_nat k :: u32) = k"
proof -
  assume "k < unat w"
  then have "k < 4294967296" using unat_u32_less [of w] by linarith
  then show ?thesis by (simp add: unat_of_nat)
qed

text \<open>The blocks that can be allocated.\<close>

definition free_set :: "'d fs \<Rightarrow> u32 set" where
  "free_set s = {b. sb_first_data_block (fm_superblock s) \<le> b \<and> b < sb_total_blocks (fm_superblock s) \<and> \<not> block_used s (unat b)}"

lemma finite_free_set [simp]: "finite (free_set s)"
  by (rule finite)

text \<open>Those that the bitmap covers.\<close>

definition bitmap_free :: "'d fs \<Rightarrow> u32 set" where
  "bitmap_free s = {b \<in> free_set s. b < 1024}"

lemma bitmap_free_small: "sb_total_blocks (fm_superblock s) \<le> 1024 \<Longrightarrow> bitmap_free s = free_set s"
  by (auto simp: bitmap_free_def free_set_def intro: less_le_trans)

lemma alloc_block_ok:
  assumes "bitmap_free s \<noteq> {}"
  obtains b s' where "fs_alloc_block s = Some (b, s')" "b \<in> bitmap_free s" "free_set s' = free_set s - {b}"
    "\<And>k. block_used s' k \<longleftrightarrow> k = unat b \<or> block_used s k"
    "s' = s\<lparr>fm_bitmap := mark_block (unat b) (fm_bitmap s),
            fm_superblock := (fm_superblock s)\<lparr>sb_free_blocks := sb_free_blocks (fm_superblock s) - 1\<rparr>\<rparr>"
    "\<And>c. c \<in> free_set s \<Longrightarrow> b \<le> c"
proof -
  let ?f = "unat (sb_first_data_block (fm_superblock s))"
  obtain a where a: "a \<in> bitmap_free s" using assms by auto
  then have ua: "?f \<le> unat a" "unat a < unat (sb_total_blocks (fm_superblock s))" "unat a < 1024" "\<not> block_used s (unat a)"
    by (simp_all add: bitmap_free_def free_set_def word_le_nat_alt word_less_nat_alt)
  then have "find_free_block s ?f \<noteq> None" "find_free_block s ?f \<noteq> Some None"
    using find_free_block_None [of s ?f "unat a"] by (auto simp: find_free_block_end)
  then obtain j where j: "find_free_block s ?f = Some (Some j)" by auto
  note fj = find_free_block_Some [OF j]
  have uj: "unat (of_nat j :: u32) = j"
    using fj by (blast intro: unat_of_nat_below)
  let ?s = "s\<lparr>fm_bitmap := mark_block (unat (of_nat j :: u32)) (fm_bitmap s),
            fm_superblock := (fm_superblock s)\<lparr>sb_free_blocks := sb_free_blocks (fm_superblock s) - 1\<rparr>\<rparr>"
  have used: "block_used ?s k \<longleftrightarrow> k = unat (of_nat j :: u32) \<or> block_used s k" for k
    using used_mark [where s = s and i = j and j = k] by (simp add: block_used_def uj)
  show ?thesis
  proof (rule that [of "of_nat j" ?s, OF _ _ _ used refl])
    show "fs_alloc_block s = Some (of_nat j, ?s)" using j uj by (simp add: fs_alloc_block_def upd_super_def)
    show "of_nat j \<in> bitmap_free s" using fj uj by (simp add: bitmap_free_def free_set_def word_le_nat_alt word_less_nat_alt)
    show "free_set ?s = free_set s - {of_nat j}"
      unfolding free_set_def used by (auto simp: uj word_unat_eq_iff)
    show "(of_nat j :: u32) \<le> c" if "c \<in> free_set s" for c
      using that fj uj by (auto simp: free_set_def word_le_nat_alt word_less_nat_alt not_le [symmetric])
  qed
qed

lemma alloc_block_none:
  assumes e: "bitmap_free s = {}"
  shows "fs_alloc_block s = (if sb_total_blocks (fm_superblock s) \<le> 1024 \<or>
      sb_total_blocks (fm_superblock s) \<le> sb_first_data_block (fm_superblock s) then Some (0xFFFFFFFF, s) else None)"
proof -
  let ?f = "unat (sb_first_data_block (fm_superblock s))" and ?t = "unat (sb_total_blocks (fm_superblock s))"
  have used: "block_used s k" if "?f \<le> k" "k < ?t" "k < 1024" for k
  proof -
    have "unat (of_nat k :: u32) = k" using that(2) by (rule unat_of_nat_below)
    then show ?thesis
      using e that by (auto simp: bitmap_free_def free_set_def word_le_nat_alt word_less_nat_alt dest!: spec [of _ "of_nat k"])
  qed
  have "find_free_block s ?f \<noteq> Some (Some j)" for j
    using find_free_block_Some [of s ?f j] used by blast
  moreover have "find_free_block s ?f = Some None \<longleftrightarrow> ?t \<le> 1024 \<or> ?t \<le> ?f"
  proof
    assume "find_free_block s ?f = Some None"
    then have "\<forall>k. ?f \<le> k \<and> k < ?t \<longrightarrow> k < 1024" by (simp add: find_free_block_end)
    then show "?t \<le> 1024 \<or> ?t \<le> ?f" by (auto dest!: spec [of _ "?t - 1"])
  qed (use used in \<open>auto simp: find_free_block_end\<close>)
  ultimately have "find_free_block s ?f = (if ?t \<le> 1024 \<or> ?t \<le> ?f then Some None else None)"
    by (cases "find_free_block s ?f") (auto split: if_splits)
  then show ?thesis by (simp add: fs_alloc_block_def word_le_nat_alt)
qed

end
