(* ===== verification/FS_Files.thy ===== *)
theory FS_Files
  imports FS_Inodes
begin

text \<open>
  The loops of \<^verbatim>\<open>fs_read\<close> and \<^verbatim>\<open>fs_write\<close> against the file as an array of 3072 bytes
  (\<open>file_byte\<close>): reading returns a segment of it, writing replaces one, and no block outside
  the file changes.
\<close>

section \<open>The file as an array\<close>

definition file_byte :: "'d fs_env \<Rightarrow> 'd fs \<Rightarrow> u32 list \<Rightarrow> nat \<Rightarrow> u8" where
  "file_byte E s blocks q =
    (if blocks ! (q div FS_BLOCK_SIZE) = 0 then 0 else fs_disk E s (blocks ! (q div FS_BLOCK_SIZE)) ! (q mod FS_BLOCK_SIZE))"

definition layout_ok :: "'d fs_env \<Rightarrow> 'd fs \<Rightarrow> bool" where
  "layout_ok E s \<longleftrightarrow> 0 < sb_first_data_block (fm_superblock s) \<and> sb_total_blocks (fm_superblock s) \<le> fs_count E s"

text \<open>Every block of a file is an allocated data block, and no block occurs twice.\<close>

definition blocks_ok :: "'d fs \<Rightarrow> u32 list \<Rightarrow> bool" where
  "blocks_ok s blocks \<longleftrightarrow> length blocks = 6 \<and>
     (\<forall>i < 6. blocks ! i \<noteq> 0 \<longrightarrow> sb_first_data_block (fm_superblock s) \<le> blocks ! i \<and>
        blocks ! i < sb_total_blocks (fm_superblock s) \<and> block_used s (unat (blocks ! i))) \<and>
     (\<forall>i < 6. \<forall>j < 6. i \<noteq> j \<longrightarrow> blocks ! i \<noteq> 0 \<longrightarrow> blocks ! i \<noteq> blocks ! j)"

definition missing :: "u32 list \<Rightarrow> nat set" where
  "missing blocks = {i. i < 6 \<and> blocks ! i = 0}"

text \<open>There are free blocks for all entries of the file that have none.\<close>

definition room :: "'d fs \<Rightarrow> u32 list \<Rightarrow> bool" where
  "room s blocks \<longleftrightarrow> card (missing blocks) \<le> card (free_set s)"

text \<open>What a write to the file with blocks \<open>bl\<close> leaves alone.\<close>

definition file_frame :: "'d fs_env \<Rightarrow> u32 list \<Rightarrow> 'd fs \<Rightarrow> 'd fs \<Rightarrow> bool" where
  "file_frame E bl s s' \<longleftrightarrow> fm_mounted s' = fm_mounted s \<and> fm_device s' = fm_device s \<and>
     fm_files s' = fm_files s \<and> fm_dirs s' = fm_dirs s \<and>
     (\<exists>n. fm_superblock s' = (fm_superblock s)\<lparr>sb_free_blocks := n\<rparr>) \<and> fs_count E s' = fs_count E s \<and>
     (\<forall>c < fs_count E s. c = 0 \<or> c \<notin> set bl \<longrightarrow> fs_disk E s' c = fs_disk E s c) \<and>
     (\<forall>k. block_used s k \<longrightarrow> block_used s' k)"

lemma file_frame_trans:
  assumes "file_frame E bl s t" and "file_frame E bl' t u" and "set bl - {0} \<subseteq> set bl'"
  shows "file_frame E bl' s u"
  using assms unfolding file_frame_def by (auto 0 3)

lemma same_rest_super: "same_rest s s' \<Longrightarrow> fm_superblock s' = fm_superblock s"
  by (simp add: same_rest_def)

lemma used_same_rest: "same_rest s s' \<Longrightarrow> block_used s' = block_used s"
  by (simp add: same_rest_def block_used_def fun_eq_iff)

lemma same_rest_blocks_ok: "same_rest s s' \<Longrightarrow> blocks_ok s' bl = blocks_ok s bl"
  by (simp add: blocks_ok_def used_same_rest same_rest_super)

lemma same_rest_free_set: "same_rest s s' \<Longrightarrow> free_set s' = free_set s"
  by (simp add: free_set_def used_same_rest same_rest_super)

lemma same_rest_layout: "same_rest s s' \<Longrightarrow> fs_count E s' = fs_count E s \<Longrightarrow> layout_ok E s' = layout_ok E s"
  by (simp add: layout_ok_def same_rest_super)

lemma same_rest_frame:
  assumes "same_rest s s'" and "fs_count E s' = fs_count E s" and "\<And>c. c < fs_count E s \<Longrightarrow> c = 0 \<or> c \<notin> set bl \<Longrightarrow> fs_disk E s' c = fs_disk E s c"
  shows "file_frame E bl s s'"
proof -
  have "\<exists>n. fm_superblock s' = (fm_superblock s)\<lparr>sb_free_blocks := n\<rparr>"
    using assms(1) by (intro exI [of _ "sb_free_blocks (fm_superblock s)"]) (simp add: same_rest_def)
  then show ?thesis unfolding file_frame_def using assms by (simp add: same_rest_def block_used_def)
qed

lemma blocks_ok_count:
  "blocks_ok s bl \<Longrightarrow> layout_ok E s \<Longrightarrow> i < 6 \<Longrightarrow> bl ! i \<noteq> 0 \<Longrightarrow> bl ! i < fs_count E s"
  by (auto simp: blocks_ok_def layout_ok_def intro: less_le_trans)

lemma within_block: "(p :: nat) mod 512 + i < 512 \<Longrightarrow> (p + i) div 512 = p div 512 \<and> (p + i) mod 512 = p mod 512 + i"
proof -
  assume a: "p mod 512 + i < 512"
  have "p + i = (p mod 512 + i) + 512 * (p div 512)" by simp
  then show ?thesis
    using a div_mult_self2 [of 512 "p mod 512 + i" "p div 512"] mod_mult_self2 [of "p mod 512 + i" 512 "p div 512"] by simp
qed

lemma file_byte_segment:
  assumes "bl ! (p div 512) \<noteq> 0" and "p mod 512 + k \<le> 512" and "length (fs_disk E s (bl ! (p div 512))) = FS_BLOCK_SIZE"
  shows "take k (drop (p mod 512) (fs_disk E s (bl ! (p div 512)))) = map (file_byte E s bl) [p..<p + k]"
proof (rule nth_equalityI)
  fix i assume "i < length (take k (drop (p mod 512) (fs_disk E s (bl ! (p div 512)))))"
  then have i: "i < k" using assms(3) by simp
  then have "(p + i) div 512 = p div 512" "(p + i) mod 512 = p mod 512 + i" using assms(2) within_block [of p i] by simp_all
  then show "take k (drop (p mod 512) (fs_disk E s (bl ! (p div 512)))) ! i = map (file_byte E s bl) [p..<p + k] ! i"
    using i assms by (simp add: file_byte_def FS_BLOCK_SIZE_def)
qed (use assms in \<open>simp add: FS_BLOCK_SIZE_def\<close>)

text \<open>The arithmetic of one round of either loop.\<close>

lemma round:
  assumes "got < tot" and "unat pos + (unat tot - unat got) \<le> 3072"
  defines "k \<equiv> chunk_of pos (tot - got)"
  shows "unat (pos div of_nat FS_BLOCK_SIZE) = unat pos div 512" and "unat (pos mod of_nat FS_BLOCK_SIZE) = unat pos mod 512"
    and "unat pos div 512 < 6" and "unat pos mod 512 + unat k \<le> 512" and "unat (pos + k) = unat pos + unat k"
    and "unat (got + k) = unat got + unat k" and "unat got + unat k \<le> unat tot" and "0 < unat k"
proof -
  have d: "unat (tot - got) = unat tot - unat got" using assms(1) by (simp add: unat_sub word_less_nat_alt word_le_nat_alt)
  have lt: "unat got < unat tot" using assms(1) by (simp add: word_less_nat_alt)
  have "0 < tot - got" using d lt by (simp add: word_less_nat_alt)
  note c = chunk_of_bounds [OF this, of pos]
  show "unat (pos div of_nat FS_BLOCK_SIZE) = unat pos div 512" "unat (pos mod of_nat FS_BLOCK_SIZE) = unat pos mod 512"
    by (simp_all add: FS_BLOCK_SIZE_def unat_div unat_mod)
  have p: "unat pos < 3072" using assms(2) lt by linarith
  then show "unat pos div 512 < 6" by simp
  have "unat pos mod 512 < 512" by simp
  then show "unat pos mod 512 + unat k \<le> 512" using c(3) unfolding k_def by linarith
  have k: "unat k \<le> unat tot - unat got" using c(3) d unfolding k_def by linarith
  then show "unat (pos + k) = unat pos + unat k" using p assms(2) by (intro unat_add_u32) linarith
  show "unat (got + k) = unat got + unat k" unfolding k_def by (rule chunk_advance(1) [OF assms(1)])
  show "unat got + unat k \<le> unat tot" using k lt by linarith
  show "0 < unat k" using c(1) unfolding k_def by (simp add: word_less_nat_alt)
qed

lemma upt_split: "p + m \<le> r \<Longrightarrow> [p..<p + m] @ [p + m..<r] = [p..<r]"
  using upt_add_eq_append [of p "p + m" "r - (p + m)"] by simp

text \<open>
  The bytes \<open>xs\<close> have been written at position \<open>p\<close> of the file: the file has them there and is
  otherwise unchanged, it has kept its blocks, and new ones are only in the range written.
\<close>

definition file_written :: "'d fs_env \<Rightarrow> u8 list \<Rightarrow> nat \<Rightarrow> u32 list \<Rightarrow> u32 list \<Rightarrow> 'd fs \<Rightarrow> 'd fs \<Rightarrow> bool" where
  "file_written E xs p bl bl' s s' \<longleftrightarrow> file_frame E bl' s s' \<and> (\<forall>i. bl ! i \<noteq> 0 \<longrightarrow> bl' ! i = bl ! i) \<and>
     (\<forall>i. bl' ! i = bl ! i \<or> (\<exists>q. p \<le> q \<and> q < p + length xs \<and> i = q div 512)) \<and>
     (\<forall>q. p \<le> q \<and> q < p + length xs \<longrightarrow> bl' ! (q div 512) \<noteq> 0) \<and>
     (\<forall>q < 3072. file_byte E s' bl' q = (if p \<le> q \<and> q < p + length xs then xs ! (q - p) else file_byte E s bl q))"

lemma file_written_refl: "file_written E [] p bl bl s s"
  by (auto simp: file_written_def intro: same_rest_frame)

lemma file_written_append:
  assumes xs: "file_written E xs p bl bl1 s t" and ys: "file_written E ys (p + length xs) bl1 bl2 t u"
    and len: "blocks_ok t bl1" "blocks_ok u bl2"
  shows "file_written E (xs @ ys) p bl bl2 s u"
  unfolding file_written_def
proof (intro conjI allI impI)
  have keep: "bl2 ! j = bl1 ! j" if "bl1 ! j \<noteq> 0" for j using ys that by (simp add: file_written_def)
  have "set bl1 - {0} \<subseteq> set bl2"
  proof
    fix c assume "c \<in> set bl1 - {0}"
    then obtain j where "j < length bl1" "bl1 ! j = c" "c \<noteq> 0" by (auto simp: in_set_conv_nth)
    then have "j < length bl2" "bl2 ! j = c" using len keep [of j] by (simp_all add: blocks_ok_def)
    then show "c \<in> set bl2" by auto
  qed
  then show "file_frame E bl2 s u" using xs ys by (auto simp: file_written_def intro: file_frame_trans)
  show "bl2 ! j = bl ! j" if "bl ! j \<noteq> 0" for j using xs keep that by (simp add: file_written_def)
  show "bl2 ! j = bl ! j \<or> (\<exists>q. p \<le> q \<and> q < p + length (xs @ ys) \<and> j = q div 512)" for j
  proof -
    have "bl1 ! j = bl ! j \<or> (\<exists>q. p \<le> q \<and> q < p + length xs \<and> j = q div 512)"
      "bl2 ! j = bl1 ! j \<or> (\<exists>q. p + length xs \<le> q \<and> q < p + length xs + length ys \<and> j = q div 512)"
      using xs ys by (simp_all add: file_written_def)
    then show ?thesis by (auto intro: add_leD1 trans_less_add1)
  qed
  show "bl2 ! (q div 512) \<noteq> 0" if "p \<le> q \<and> q < p + length (xs @ ys)" for q
    using xs ys keep [of "q div 512"] that by (cases "q < p + length xs") (auto simp: file_written_def)
  show "file_byte E u bl2 q = (if p \<le> q \<and> q < p + length (xs @ ys) then (xs @ ys) ! (q - p) else file_byte E s bl q)"
    if "q < 3072" for q
    using xs ys that by (auto simp: file_written_def nth_append)
qed

context fs_storage
begin

lemma file_byte_cong:
  assumes "layout_ok E s" and "blocks_ok s bl" and "q < 3072"
    and "\<And>c. c < fs_count E s \<Longrightarrow> fs_disk E s' c = fs_disk E s c"
  shows "file_byte E s' bl q = file_byte E s bl q"
proof -
  have "q div 512 < 6" using assms(3) by simp
  then show ?thesis using blocks_ok_count [OF assms(2,1)] assms(4) by (auto simp: file_byte_def FS_BLOCK_SIZE_def)
qed

section \<open>Reading\<close>

lemma read_loop_ok:
  assumes "cache_ok E ok s" and "layout_ok E s" and "blocks_ok s bl"
    and "got \<le> tot" and "unat pos + (unat tot - unat got) \<le> 3072"
    and "\<And>q. unat pos \<le> q \<Longrightarrow> q < unat pos + (unat tot - unat got) \<Longrightarrow> bl ! (q div 512) \<noteq> 0"
  shows "\<exists>s'. read_loop E bl tot got pos buf out s =
      (tot, pos + (tot - got), out @ map (file_byte E s bl) [unat pos..<unat pos + (unat tot - unat got)], s') \<and>
      cache_ok E ok s' \<and> same_rest s s' \<and> fs_count E s' = fs_count E s \<and> (\<forall>c < fs_count E s. fs_disk E s' c = fs_disk E s c)"
  using assms
proof (induction "unat tot - unat got" arbitrary: got pos buf out s rule: less_induct)
  case less
  show ?case
  proof (cases "got < tot")
    case False
    then have "got = tot" using less.prems(4) by simp
    then show ?thesis using less.prems(1) by (auto simp: read_loop.simps [of E bl tot])
  next
    case True
    define k where "k = chunk_of pos (tot - got)"
    define b where "b = bl ! (unat pos div 512)"
    note r = round [OF True less.prems(5), folded k_def]
    have b0: "b \<noteq> 0" using less.prems(6) [of "unat pos"] True by (simp add: b_def word_less_nat_alt)
    have bc: "b < fs_count E s" using blocks_ok_count [OF less.prems(3,2) r(3)] b0 by (simp add: b_def)
    obtain t where t: "fs_read_block E b buf s = (OS_OK, fs_disk E s b, t)" "cache_ok E ok t" "same_rest s t"
        "fs_count E t = fs_count E s" and d: "\<And>c. c < fs_count E s \<Longrightarrow> fs_disk E t c = fs_disk E s c"
      using read_block_ok [OF less.prems(1) bc, of buf] by blast
    have seg: "take (unat k) (drop (unat pos mod 512) (fs_disk E s b)) = map (file_byte E s bl) [unat pos..<unat pos + unat k]"
      unfolding b_def using b0 r(4) disk_length [OF less.prems(1) bc] by (intro file_byte_segment) (simp_all add: b_def)
    have step: "read_loop E bl tot got pos buf out s =
        read_loop E bl tot (got + k) (pos + k) (fs_disk E s b) (out @ map (file_byte E s bl) [unat pos..<unat pos + unat k]) t"
      using True r(3) b0 t(1) seg
      by (subst read_loop.simps) (simp add: Let_def r(1,2) b_def [symmetric] k_def [symmetric])
    have left: "unat tot - unat (got + k) = unat tot - unat got - unat k" using r(6) by simp
    have "unat tot - unat (got + k) < unat tot - unat got" using r(6-8) by linarith
    moreover have "got + k \<le> tot" using r(6,7) by (simp add: word_le_nat_alt)
    moreover have le: "unat (pos + k) + (unat tot - unat (got + k)) = unat pos + (unat tot - unat got)"
      using r(5,6,7) by linarith
    moreover have "bl ! (q div 512) \<noteq> 0" if "unat (pos + k) \<le> q" "q < unat (pos + k) + (unat tot - unat (got + k))" for q
      using that less.prems(6) [of q] unfolding le using r(5) by linarith
    ultimately obtain s' where s': "read_loop E bl tot (got + k) (pos + k) (fs_disk E s b)
          (out @ map (file_byte E s bl) [unat pos..<unat pos + unat k]) t =
        (tot, pos + k + (tot - (got + k)), (out @ map (file_byte E s bl) [unat pos..<unat pos + unat k]) @
          map (file_byte E t bl) [unat (pos + k)..<unat (pos + k) + (unat tot - unat (got + k))], s')"
        "cache_ok E ok s'" "same_rest t s'" "fs_count E s' = fs_count E t" "\<forall>c < fs_count E t. fs_disk E s' c = fs_disk E t c"
      using less.hyps [of "got + k" t "pos + k" "fs_disk E s b"
          "out @ map (file_byte E s bl) [unat pos..<unat pos + unat k]"] t(2-4) less.prems(2,3,5)
        same_rest_layout [OF t(3,4)] same_rest_blocks_ok [OF t(3)] by auto
    have "map (file_byte E t bl) [unat (pos + k)..<unat (pos + k) + (unat tot - unat (got + k))] =
        map (file_byte E s bl) [unat pos + unat k..<unat pos + (unat tot - unat got)]"
      unfolding le unfolding r(5) using less.prems(5) by (intro map_cong refl file_byte_cong less.prems d) auto
    then have "read_loop E bl tot got pos buf out s =
        (tot, pos + (tot - got), out @ map (file_byte E s bl) [unat pos..<unat pos + (unat tot - unat got)], s')"
      using r(7) unfolding step s'(1) by (simp add: map_append [symmetric] upt_split del: map_append)
    moreover have "same_rest s s'" using t(3) s'(3) by (rule same_rest_trans)
    ultimately show ?thesis using s' t(4) d by auto
  qed
qed

section \<open>Writing\<close>

text \<open>The round's block exists, newly allocated and zeroed if need be.\<close>

lemma prepare:
  assumes ok: "cache_ok E ok s" and lay: "layout_ok E s" and bl: "blocks_ok s bl" and room: "room s bl" and i: "i < 6"
  obtains b t u where "(if bl ! i = 0 then fs_alloc_block s else Some (bl ! i, s)) = Some (b, t)" "b \<noteq> 0xFFFFFFFF" "b \<noteq> 0"
    "(if bl ! i = 0 then snd (fs_write_block E b (zero_bytes FS_BLOCK_SIZE) t) else t) = u"
    "cache_ok E ok u" "layout_ok E u" "blocks_ok u (bl[i := b])" "room u (bl[i := b])" "file_frame E (bl[i := b]) s u"
    "\<And>j. bl ! j \<noteq> 0 \<Longrightarrow> bl[i := b] ! j = bl ! j"
    "\<And>q. q < 3072 \<Longrightarrow> file_byte E u (bl[i := b]) q = file_byte E s bl q"
proof (cases "bl ! i = 0")
  case False
  have "bl ! i < fs_count E s" by (rule blocks_ok_count [OF bl lay i False])
  then have "bl ! i \<noteq> 0xFFFFFFFF" by (rule not_last_block)
  then show ?thesis using False assms by (intro that [of "bl ! i" s s]) (auto intro: same_rest_frame)
next
  case True
  have len: "length bl = 6" using bl by (simp add: blocks_ok_def)
  have fin: "finite (missing bl)" by (simp add: missing_def)
  have im: "i \<in> missing bl" using True i by (simp add: missing_def)
  then have "0 < card (free_set s)" using room fin by (auto simp: room_def card_gt_0_iff)
  then have "free_set s \<noteq> {}" by auto
  moreover have total_small: "sb_total_blocks (fm_superblock s) \<le> 1024"
    using lay ok small [of "fm_store s"] by (auto simp: layout_ok_def cache_ok_def fs_count_def dev intro: order_trans)
  ultimately have "bitmap_free s \<noteq> {}" by (simp add: bitmap_free_small)
  then obtain b t where alloc: "fs_alloc_block s = Some (b, t)" and "b \<in> bitmap_free s" and fs: "free_set t = free_set s - {b}"
      and used: "\<And>k. block_used t k \<longleftrightarrow> k = unat b \<or> block_used s k"
      and t: "t = s\<lparr>fm_bitmap := mark_block (unat b) (fm_bitmap s),
            fm_superblock := (fm_superblock s)\<lparr>sb_free_blocks := sb_free_blocks (fm_superblock s) - 1\<rparr>\<rparr>"
    by (rule alloc_block_ok) (rule that)
  then have b: "b \<in> free_set s" by (simp add: bitmap_free_small total_small)
  have bd: "b < fs_count E s" "b \<noteq> 0" "b \<noteq> 0xFFFFFFFF"
    using b lay by (auto simp: free_set_def layout_ok_def dest: not_last_block)
  have tt: "fs_count E t = fs_count E s" "fs_disk E t = fs_disk E s" "cache_ok E ok t" "layout_ok E t"
    using ok lay by (simp_all add: t fs_count_def fs_disk_def fun_eq_iff cache_ok_def layout_ok_def)
  obtain u where u: "fs_write_block E b (zero_bytes FS_BLOCK_SIZE) t = (OS_OK, u)" "cache_ok E ok u" "same_rest t u"
      "fs_count E u = fs_count E t" and d: "fs_disk E u = (fs_disk E t)(b := zero_bytes FS_BLOCK_SIZE)"
    using write_block_ok [OF tt(3), of b "zero_bytes FS_BLOCK_SIZE"] bd tt(1) by (auto simp: zero_bytes_def)
  have other: "bl ! j \<noteq> b" if "j < 6" for j
    using that bl b bd by (cases "bl ! j = 0") (auto simp: blocks_ok_def free_set_def)
  have upd: "bl[i := b] ! j = (if j = i then b else bl ! j)" for j using len i by (auto simp: nth_list_update)
  have sb: "sb_first_data_block (fm_superblock t) = sb_first_data_block (fm_superblock s)"
      "sb_total_blocks (fm_superblock t) = sb_total_blocks (fm_superblock s)" by (simp_all add: t)
  show ?thesis
  proof (rule that [of b t u])
    show "blocks_ok u (bl[i := b])"
      unfolding same_rest_blocks_ok [OF u(3)] using bl b other [THEN not_sym] other used len
      by (auto simp: blocks_ok_def upd free_set_def sb)
    have "missing (bl[i := b]) = missing bl - {i}" using bd by (auto simp: missing_def upd)
    then show "room u (bl[i := b])"
      using room im fin b by (simp add: room_def same_rest_free_set [OF u(3)] fs card_Diff_singleton)
    have bset: "b \<in> set (bl[i := b])" using len i by (simp add: set_update_memI)
    have "file_frame E (bl[i := b]) s t"
      using tt(1,2) used by (auto simp: file_frame_def t)
    moreover have "file_frame E (bl[i := b]) t u"
      using u(3,4) d bset bd by (intro same_rest_frame) auto
    ultimately show "file_frame E (bl[i := b]) s u" by (rule file_frame_trans) auto
    show "file_byte E u (bl[i := b]) q = file_byte E s bl q" if "q < 3072" for q
    proof -
      have "q div 512 < 6" "q mod 512 < 512" using that by auto
      then show ?thesis using other True len bd(2) d tt(2)
        by (auto simp: file_byte_def upd FS_BLOCK_SIZE_def zero_bytes_def)
    qed
  qed (use True alloc bd u tt same_rest_layout [OF u(3,4)] in \<open>auto simp: upd\<close>)
qed

text \<open>A segment inside one block is replaced.\<close>

lemma store_segment:
  assumes ok: "cache_ok E ok s" and lay: "layout_ok E s" and bl: "blocks_ok s bl" and i: "p div 512 < 6"
    and b: "b = bl ! (p div 512)" and b0: "b \<noteq> 0" and x: "p mod 512 + length x \<le> 512"
  obtains t u where "fs_read_block E b buf s = (OS_OK, fs_disk E s b, t)"
    "fs_write_block E b (splice (p mod 512) x (fs_disk E s b)) t = (OS_OK, u)"
    "cache_ok E ok u" "same_rest s u" "fs_count E u = fs_count E s" "file_frame E bl s u"
    "\<And>q. q < 3072 \<Longrightarrow> file_byte E u bl q = (if p \<le> q \<and> q < p + length x then x ! (q - p) else file_byte E s bl q)"
proof -
  have bc: "b < fs_count E s" using blocks_ok_count [OF bl lay i] b b0 by simp
  have len: "length (fs_disk E s b) = 512" using disk_length [OF ok bc] by (simp add: FS_BLOCK_SIZE_def)
  obtain t where t: "fs_read_block E b buf s = (OS_OK, fs_disk E s b, t)" "cache_ok E ok t" "same_rest s t"
      "fs_count E t = fs_count E s" and d: "\<And>c. c < fs_count E s \<Longrightarrow> fs_disk E t c = fs_disk E s c"
    using read_block_ok [OF ok bc, of buf] by blast
  let ?y = "splice (p mod 512) x (fs_disk E s b)"
  obtain u where u: "fs_write_block E b ?y t = (OS_OK, u)" "cache_ok E ok u" "same_rest t u" "fs_count E u = fs_count E t"
      and d': "fs_disk E u = (fs_disk E t)(b := ?y)"
    using write_block_ok [OF t(2), of b ?y] bc t(4) x len by (auto simp: FS_BLOCK_SIZE_def)
  have rest: "same_rest s u" using t(3) u(3) by (rule same_rest_trans)
  have bset: "b \<in> set bl" using b i bl by (simp add: blocks_ok_def)
  show ?thesis
  proof (rule that [OF t(1) u(1,2) rest])
    show "fs_count E u = fs_count E s" using u(4) t(4) by simp
    then show "file_frame E bl s u" using rest d d' bset b0 by (intro same_rest_frame) auto
    fix q :: nat assume q: "q < 3072"
    then have q6: "q div 512 < 6" by simp
    show "file_byte E u bl q = (if p \<le> q \<and> q < p + length x then x ! (q - p) else file_byte E s bl q)"
    proof (cases "q div 512 = p div 512")
      case True
      note pq = div_mult_mod_eq [of p 512] div_mult_mod_eq [of q 512, unfolded True]
      have "file_byte E u bl q = ?y ! (q mod 512)" using True b b0 d' by (simp add: file_byte_def FS_BLOCK_SIZE_def)
      also have "\<dots> = (if p mod 512 \<le> q mod 512 \<and> q mod 512 < p mod 512 + length x then x ! (q mod 512 - p mod 512)
          else fs_disk E s b ! (q mod 512))"
        using x len by (intro nth_splice) auto
      also have "\<dots> = (if p \<le> q \<and> q < p + length x then x ! (q - p) else file_byte E s bl q)"
      proof -
        have "p mod 512 \<le> q mod 512 \<longleftrightarrow> p \<le> q" "q mod 512 < p mod 512 + length x \<longleftrightarrow> q < p + length x"
          "q mod 512 - p mod 512 = q - p" using pq by linarith+
        moreover have "fs_disk E s b ! (q mod 512) = file_byte E s bl q" using True b b0 by (simp add: file_byte_def FS_BLOCK_SIZE_def)
        ultimately show ?thesis by simp
      qed
      finally show ?thesis .
    next
      case False
      then have "bl ! (q div 512) \<noteq> b" using bl i q6 b b0 unfolding blocks_ok_def by metis
      then have "file_byte E u bl q = file_byte E s bl q"
        using d' d blocks_ok_count [OF bl lay q6] by (auto simp: file_byte_def FS_BLOCK_SIZE_def)
      moreover have "\<not> (p \<le> q \<and> q < p + length x)"
      proof
        assume in_x: "p \<le> q \<and> q < p + length x"
        then have "p mod 512 + (q - p) < 512" using x by linarith
        then show False using within_block [of p "q - p"] in_x False by simp
      qed
      ultimately show ?thesis by auto
    qed
  qed
qed

lemma write_round:
  assumes ok: "cache_ok E ok s" and lay: "layout_ok E s" and bl: "blocks_ok s bl" and rm: "room s bl"
    and lt: "got < tot" and len: "unat tot = length data" and fits: "unat pos + (unat tot - unat got) \<le> 3072"
  defines "k \<equiv> chunk_of pos (tot - got)"
  obtains bl' buf' s' where "write_loop E data tot bl got pos buf s = write_loop E data tot bl' (got + k) (pos + k) buf' s'"
    "cache_ok E ok s'" "layout_ok E s'" "blocks_ok s' bl'" "room s' bl'"
    "file_written E (take (unat k) (drop (unat got) data)) (unat pos) bl bl' s s'"
proof -
  define i where "i = unat pos div 512"
  define x where "x = take (unat k) (drop (unat got) data)"
  note r = round [OF lt fits, folded k_def]
  have i: "i < 6" using r(3) by (simp add: i_def)
  have lenx: "length x = unat k" using r(7) len by (simp add: x_def)
  obtain b t u where p: "(if bl ! i = 0 then fs_alloc_block s else Some (bl ! i, s)) = Some (b, t)" "b \<noteq> 0xFFFFFFFF" "b \<noteq> 0"
      "(if bl ! i = 0 then snd (fs_write_block E b (zero_bytes FS_BLOCK_SIZE) t) else t) = u"
      "cache_ok E ok u" "layout_ok E u" "blocks_ok u (bl[i := b])" "room u (bl[i := b])" "file_frame E (bl[i := b]) s u"
    and keep: "\<And>j. bl ! j \<noteq> 0 \<Longrightarrow> bl[i := b] ! j = bl ! j"
    and same: "\<And>q. q < 3072 \<Longrightarrow> file_byte E u (bl[i := b]) q = file_byte E s bl q"
    by (rule prepare [OF ok lay bl rm i]) (rule that)
  let ?bl = "bl[i := b]" and ?buf = "if bl ! i = 0 then zero_bytes FS_BLOCK_SIZE else buf"
  have bi: "b = ?bl ! (unat pos div 512)" using i bl by (simp add: i_def blocks_ok_def)
  obtain v w where v: "fs_read_block E b ?buf u = (OS_OK, fs_disk E u b, v)"
      "fs_write_block E b (splice (unat pos mod 512) x (fs_disk E u b)) v = (OS_OK, w)"
      "cache_ok E ok w" "same_rest u w" "fs_count E w = fs_count E u" "file_frame E ?bl u w"
    and byte: "\<And>q. q < 3072 \<Longrightarrow> file_byte E w ?bl q =
        (if unat pos \<le> q \<and> q < unat pos + length x then x ! (q - unat pos) else file_byte E u ?bl q)"
    using store_segment [OF p(5-7) r(3) bi p(3), of x ?buf] r(4) unfolding lenx by blast
  have at_i: "q div 512 = i" if "unat pos \<le> q" "q < unat pos + length x" for q
    using within_block [of "unat pos" "q - unat pos"] that r(4) by (simp add: lenx i_def)
  show ?thesis
  proof (rule that [of ?bl "splice (unat pos mod 512) x (fs_disk E u b)" w])
    show "write_loop E data tot bl got pos buf s =
        write_loop E data tot ?bl (got + k) (pos + k) (splice (unat pos mod 512) x (fs_disk E u b)) w"
      using lt i p(1-4) v(1,2)
      by (subst write_loop.simps) (simp add: Let_def r(1,2) i_def [symmetric] k_def [symmetric] x_def [symmetric] split: if_splits)
    show "layout_ok E w" "blocks_ok w ?bl" "room w ?bl"
      using p(6-8) same_rest_layout [OF v(4,5)] same_rest_blocks_ok [OF v(4)] same_rest_free_set [OF v(4)]
      by (simp_all add: room_def)
    show "file_written E (take (unat k) (drop (unat got) data)) (unat pos) bl ?bl s w"
      unfolding file_written_def x_def [symmetric]
    proof (intro conjI allI impI)
      show "file_frame E ?bl s w" using p(9) v(6) by (rule file_frame_trans) auto
      show "?bl ! j = bl ! j \<or> (\<exists>q. unat pos \<le> q \<and> q < unat pos + length x \<and> j = q div 512)" for j
        using r(8) lenx i_def by (cases "j = i") (auto intro: exI [of _ "unat pos"])
    qed (use keep byte same at_i bi p(3) in \<open>auto simp: i_def\<close>)
  qed (rule v(3))
qed

lemma write_loop_ok:
  assumes "cache_ok E ok s" and "layout_ok E s" and "blocks_ok s bl" and "room s bl"
    and "got \<le> tot" and "unat tot = length data" and "unat pos + (unat tot - unat got) \<le> 3072"
  shows "\<exists>bl' s'. write_loop E data tot bl got pos buf s = Some (tot, pos + (tot - got), bl', s') \<and>
      cache_ok E ok s' \<and> layout_ok E s' \<and> blocks_ok s' bl' \<and> room s' bl' \<and>
      file_written E (drop (unat got) data) (unat pos) bl bl' s s'"
  using assms
proof (induction "unat tot - unat got" arbitrary: got pos buf bl s rule: less_induct)
  case less
  show ?case
  proof (cases "got < tot")
    case False
    then have "got = tot" using less.prems(5) by simp
    then show ?thesis using less.prems
      by (intro exI [of _ bl] exI [of _ s]) (auto simp: write_loop.simps [of E data tot] file_written_refl)
  next
    case True
    define k where "k = chunk_of pos (tot - got)"
    note r = round [OF True less.prems(7), folded k_def]
    let ?x = "take (unat k) (drop (unat got) data)"
    obtain bl1 buf1 s1 where s1: "write_loop E data tot bl got pos buf s = write_loop E data tot bl1 (got + k) (pos + k) buf1 s1"
        "cache_ok E ok s1" "layout_ok E s1" "blocks_ok s1 bl1" "room s1 bl1" "file_written E ?x (unat pos) bl bl1 s s1"
      by (rule write_round [OF less.prems(1-4) True less.prems(6,7), folded k_def])
    have "unat tot - unat (got + k) < unat tot - unat got" "got + k \<le> tot"
        "unat (pos + k) + (unat tot - unat (got + k)) \<le> 3072"
      using r(5-8) less.prems(7) by (simp_all add: word_le_nat_alt)
    from less.hyps [OF this(1) s1(2-5) this(2) less.prems(6) this(3)] obtain bl' s' where
        s': "write_loop E data tot bl1 (got + k) (pos + k) buf1 s1 = Some (tot, pos + k + (tot - (got + k)), bl', s')"
        "cache_ok E ok s'" "layout_ok E s'" "blocks_ok s' bl'" "room s' bl'"
        "file_written E (drop (unat (got + k)) data) (unat (pos + k)) bl1 bl' s1 s'" by blast
    have "?x @ drop (unat (got + k)) data = drop (unat got) data"
      using append_take_drop_id [of "unat k" "drop (unat got) data"] by (simp add: r(6) add.commute)
    moreover have "length ?x = unat k" using r(7) less.prems(6) by simp
    ultimately have "file_written E (drop (unat got) data) (unat pos) bl bl' s s'"
      using file_written_append [OF s1(6) _ s1(4) s'(4), of "drop (unat (got + k)) data"] s'(6) by (simp add: r(5))
    then show ?thesis using s1(1) s' by auto
  qed
qed

end

end
