(* ===== verification/FS_Work.thy ===== *)
theory FS_Work
  imports FS_Files
begin

text \<open>
  Reading from and writing to an open file, between the locks: the work of \<^verbatim>\<open>fs_read\<close> and
  \<^verbatim>\<open>fs_write\<close> on the handle, the inode and the blocks.
\<close>

section \<open>Open files\<close>

text \<open>
  The inode of an open file is on the storage, in front of the data blocks, and the blocks of
  the file are allocated data blocks.
\<close>

definition file_ok :: "'d fs_env \<Rightarrow> ('d \<Rightarrow> bool) \<Rightarrow> nat \<Rightarrow> 'd fs \<Rightarrow> bool" where
  "file_ok E ok fd s \<longleftrightarrow> cache_ok E ok s \<and> layout_ok E s \<and>
     inode_valid E s (fh_inode (fm_files s fd)) \<and>
     inode_block (fh_inode (fm_files s fd)) s < sb_first_data_block (fm_superblock s) \<and>
     blocks_ok s (in_blocks (disk_inode E s (fh_inode (fm_files s fd))))"

abbreviation file_inode :: "'d fs_env \<Rightarrow> nat \<Rightarrow> 'd fs \<Rightarrow> fs_inode" where
  "file_inode E fd s \<equiv> disk_inode E s (fh_inode (fm_files s fd))"

text \<open>The content of the file from \<open>p\<close> on, \<open>n\<close> bytes long.\<close>

definition file_bytes :: "'d fs_env \<Rightarrow> nat \<Rightarrow> 'd fs \<Rightarrow> nat \<Rightarrow> nat \<Rightarrow> u8 list" where
  "file_bytes E fd s p n = map (file_byte E s (in_blocks (file_inode E fd s))) [p..<p + n]"

lemma upd_file_views [simp]:
  "fs_disk E (upd_file fd f s) = fs_disk E s" "fs_count E (upd_file fd f s) = fs_count E s"
  "fm_superblock (upd_file fd f s) = fm_superblock s" "cache_ok E ok (upd_file fd f s) = cache_ok E ok s"
  "layout_ok E (upd_file fd f s) = layout_ok E s" "inode_block n (upd_file fd f s) = inode_block n s"
  "blocks_ok (upd_file fd f s) bl = blocks_ok s bl" "disk_inode E (upd_file fd f s) n = disk_inode E s n"
  "inode_valid E (upd_file fd f s) n = inode_valid E s n" "file_byte E (upd_file fd f s) bl q = file_byte E s bl q"
  "fm_files (upd_file fd f s) = (fm_files s)(fd := f (fm_files s fd))" "fm_mounted (upd_file fd f s) = fm_mounted s"
  by (simp_all add: upd_file_def fs_disk_def fs_count_def cache_ok_def layout_ok_def inode_block_def blocks_ok_def
      block_used_def disk_inode_def inode_valid_def file_byte_def fun_eq_iff)

lemma file_frame_super:
  assumes "file_frame E bl s s'"
  shows "sb_total_inodes (fm_superblock s') = sb_total_inodes (fm_superblock s)"
    "sb_first_data_block (fm_superblock s') = sb_first_data_block (fm_superblock s)"
    "sb_inode_table_block (fm_superblock s') = sb_inode_table_block (fm_superblock s)"
    "inode_block n s' = inode_block n s" "inode_valid E s' n = inode_valid E s n"
proof -
  obtain m where "fm_superblock s' = (fm_superblock s)\<lparr>sb_free_blocks := m\<rparr>" "fs_count E s' = fs_count E s"
    using assms by (auto simp: file_frame_def)
  then show "sb_total_inodes (fm_superblock s') = sb_total_inodes (fm_superblock s)"
    "sb_first_data_block (fm_superblock s') = sb_first_data_block (fm_superblock s)"
    "sb_inode_table_block (fm_superblock s') = sb_inode_table_block (fm_superblock s)"
    "inode_block n s' = inode_block n s" "inode_valid E s' n = inode_valid E s n"
    by (simp_all add: inode_block_def inode_valid_def)
qed

lemma file_frame_inode:
  assumes fr: "file_frame E bl s s'" and bl: "blocks_ok s' bl" and n: "inode_valid E s n"
    and front: "inode_block n s < sb_first_data_block (fm_superblock s)"
  shows "disk_inode E s' n = disk_inode E s n"
proof -
  have "c = 0 \<or> sb_first_data_block (fm_superblock s) \<le> c" if "c \<in> set bl" for c
    using that bl file_frame_super(2) [OF fr] by (auto simp: blocks_ok_def in_set_conv_nth)
  then have "inode_block n s = 0 \<or> inode_block n s \<notin> set bl" using front by (metis leD)
  then have "fs_disk E s' (inode_block n s) = fs_disk E s (inode_block n s)"
    using fr n by (auto simp: file_frame_def inode_valid_def)
  then show ?thesis using file_frame_super(4) [OF fr] by (simp add: disk_inode_def)
qed

lemma sint_small: "n < 2147483648 \<Longrightarrow> sint (of_nat n :: u32) = int n"
  by (simp add: signed_of_nat signed_take_bit_int_eq_self)

text \<open>The write reaches past the end of the file, or into blocks that the file has.\<close>

definition write_lands :: "fs_inode \<Rightarrow> nat \<Rightarrow> nat \<Rightarrow> bool" where
  "write_lands i p n \<longleftrightarrow> unat (in_size i) < p + n \<or> (\<forall>q. p \<le> q \<and> q < p + n \<longrightarrow> in_blocks i ! (q div 512) \<noteq> 0)"

context fs_storage
begin

lemma read_work_ok:
  assumes f: "file_ok E ok fd s" and p: "p = unat (fh_position (fm_files s fd))"
    and n: "n = min (unat sz) (unat (in_size (file_inode E fd s)) - p)" and fits: "p + n \<le> 3072"
    and nz: "\<And>q. p \<le> q \<Longrightarrow> q < p + n \<Longrightarrow> in_blocks (file_inode E fd s) ! (q div 512) \<noteq> 0"
  obtains s' where "read_work E fd sz s = ((int n, file_bytes E fd s p n), upd_file fd (\<lambda>h. h\<lparr>fh_position := of_nat (p + n)\<rparr>) s')"
    "cache_ok E ok s'" "same_rest s s'" "fs_count E s' = fs_count E s"
    "\<And>c. c < fs_count E s \<Longrightarrow> fs_disk E s' c = fs_disk E s c"
proof -
  let ?n = "fh_inode (fm_files s fd)" and ?pos = "fh_position (fm_files s fd)"
  let ?i = "file_inode E fd s"
  let ?tr = "of_nat n :: u32"
  have un: "unat ?tr = n" using fits by (simp add: unat_of_nat)
  obtain t where t: "fs_read_inode E ?n (junk_inode E) s = (OS_OK, ?i, t)" "cache_ok E ok t" "same_rest s t"
      "fs_count E t = fs_count E s" and d: "\<And>c. c < fs_count E s \<Longrightarrow> fs_disk E t c = fs_disk E s c"
    using read_inode_ok [of s ?n] f unfolding file_ok_def by metis
  have lay: "layout_ok E t" and bl: "blocks_ok t (in_blocks ?i)"
    using f same_rest_layout [OF t(3,4)] same_rest_blocks_ok [OF t(3)] by (simp_all add: file_ok_def)
  have tr: "(if sz < (if in_size ?i > ?pos then in_size ?i - ?pos else 0) then sz
      else (if in_size ?i > ?pos then in_size ?i - ?pos else 0)) = ?tr"
  proof -
    have "unat (if in_size ?i > ?pos then in_size ?i - ?pos else 0) = unat (in_size ?i) - p"
      by (auto simp: p unat_sub word_less_nat_alt word_le_nat_alt)
    then show ?thesis using un by (auto simp: word_unat_eq_iff word_less_nat_alt n min_def)
  qed
  obtain s' where s': "read_loop E (in_blocks ?i) ?tr 0 ?pos (junk_block E) [] t =
      (?tr, ?pos + ?tr, map (file_byte E t (in_blocks ?i)) [p..<p + n], s')"
      "cache_ok E ok s'" "same_rest t s'" "fs_count E s' = fs_count E t" "\<forall>c < fs_count E t. fs_disk E s' c = fs_disk E t c"
    using read_loop_ok [OF t(2) lay bl, of 0 ?tr ?pos "junk_block E" "[]"] un fits nz by (auto simp: p)
  have fb: "map (file_byte E t (in_blocks ?i)) [p..<p + n] = file_bytes E fd s p n"
    unfolding file_bytes_def using f fits d by (intro map_cong refl file_byte_cong) (auto simp: file_ok_def)
  have pos: "?pos + ?tr = of_nat (p + n)" by (simp add: p)
  have si: "sint ?tr = int n" using fits by (intro sint_small) simp
  have ft: "fm_files t = fm_files s" using t(3) by (simp add: same_rest_def)
  have work: "read_work E fd sz s = ((int n, file_bytes E fd s p n), upd_file fd (\<lambda>h. h\<lparr>fh_position := of_nat (p + n)\<rparr>) s')"
    by (simp only: read_work_def t(1) prod.case Let_def ft tr s'(1) fb pos si)
  have rest: "same_rest s s'" using t(3) s'(3) by (rule same_rest_trans)
  show ?thesis by (rule that [OF work s'(2) rest]) (use s'(4,5) t(4) d in simp_all)
qed

lemma write_blocks:
  assumes f: "file_ok E ok fd s" and p: "p = unat (fh_position (fm_files s fd))" and rm: "room s (in_blocks (file_inode E fd s))"
    and fits: "p + length data \<le> 3072"
  obtains t u bl where "fs_read_inode E (fh_inode (fm_files s fd)) (junk_inode E) s = (OS_OK, file_inode E fd s, t)" "fm_files t = fm_files s"
    "write_loop E data (of_nat (length data)) (in_blocks (file_inode E fd s)) 0 (fh_position (fm_files s fd)) (junk_block E) t =
       Some (of_nat (length data), of_nat (p + length data), bl, u)"
    "cache_ok E ok u" "layout_ok E u" "blocks_ok u bl" "inode_valid E u (fh_inode (fm_files s fd))"
    "inode_block (fh_inode (fm_files s fd)) u < sb_first_data_block (fm_superblock u)"
    "disk_inode E u (fh_inode (fm_files s fd)) = file_inode E fd s" "fm_files u = fm_files s" "fm_mounted u = fm_mounted s"
    "\<And>i. bl ! i = in_blocks (file_inode E fd s) ! i \<or> in_blocks (file_inode E fd s) ! i = 0 \<and> (\<exists>q. p \<le> q \<and> q < p + length data \<and> i = q div 512)"
    "\<And>q. p \<le> q \<Longrightarrow> q < p + length data \<Longrightarrow> bl ! (q div 512) \<noteq> 0"
    "\<And>q. q < 3072 \<Longrightarrow> file_byte E u bl q = (if p \<le> q \<and> q < p + length data then data ! (q - p)
       else file_byte E s (in_blocks (file_inode E fd s)) q)"
proof -
  let ?n = "fh_inode (fm_files s fd)" and ?pos = "fh_position (fm_files s fd)" and ?len = "of_nat (length data) :: u32"
  let ?i = "file_inode E fd s"
  have un: "unat ?len = length data" using fits by (simp add: unat_of_nat)
  have ok: "cache_ok E ok s" and valid: "inode_valid E s ?n" using f by (simp_all add: file_ok_def)
  obtain t where t: "fs_read_inode E ?n (junk_inode E) s = (OS_OK, ?i, t)" "cache_ok E ok t" "same_rest s t"
      "fs_count E t = fs_count E s" and d: "\<And>c. c < fs_count E s \<Longrightarrow> fs_disk E t c = fs_disk E s c"
      and dt: "\<And>m. inode_valid E s m \<Longrightarrow> disk_inode E t m = disk_inode E s m"
    by (rule read_inode_ok [OF ok valid]) (rule that)
  have lay: "layout_ok E t" and bl: "blocks_ok t (in_blocks ?i)" and rt: "room t (in_blocks ?i)"
    using f rm same_rest_layout [OF t(3,4)] same_rest_blocks_ok [OF t(3)] same_rest_free_set [OF t(3)]
    by (simp_all add: file_ok_def room_def)
  have iv: "inode_valid E t ?n" "inode_block ?n t < sb_first_data_block (fm_superblock t)"
    using f t(4) by (simp_all add: file_ok_def inode_valid_def inode_block_same [OF t(3)] same_rest_super [OF t(3)])
  obtain bl' u where u: "write_loop E data ?len (in_blocks ?i) 0 ?pos (junk_block E) t = Some (?len, ?pos + ?len, bl', u)"
      "cache_ok E ok u" "layout_ok E u" "blocks_ok u bl'" "file_written E data p (in_blocks ?i) bl' t u"
    using write_loop_ok [OF t(2) lay bl rt, of 0 ?len data ?pos "junk_block E"] un fits by (auto simp: p)
  have fr: "file_frame E bl' t u" using u(5) by (simp add: file_written_def)
  have iu: "inode_valid E u ?n" "inode_block ?n u < sb_first_data_block (fm_superblock u)" "disk_inode E u ?n = ?i"
    using iv file_frame_super [OF fr] file_frame_inode [OF fr u(4) iv] dt f by (simp_all add: file_ok_def)
  have fu: "fm_files u = fm_files s" "fm_mounted u = fm_mounted s" using fr t(3) by (simp_all add: file_frame_def same_rest_def)
  have byte: "file_byte E u bl' q = (if p \<le> q \<and> q < p + length data then data ! (q - p)
       else file_byte E s (in_blocks ?i) q)" if "q < 3072" for q
    using u(5) that f d by (auto simp: file_written_def file_ok_def intro!: file_byte_cong)
  have nz: "bl' ! (q div 512) \<noteq> 0" if "p \<le> q" "q < p + length data" for q using u(5) that by (simp add: file_written_def)
  have pos: "?pos + ?len = of_nat (p + length data)" by (simp add: p)
  have new: "bl' ! j = in_blocks ?i ! j \<or> in_blocks ?i ! j = 0 \<and> (\<exists>q. p \<le> q \<and> q < p + length data \<and> j = q div 512)" for j
    using u(5) unfolding file_written_def by metis
  have ft: "fm_files t = fm_files s" using t(3) by (simp add: same_rest_def)
  show ?thesis by (rule that [OF t(1) ft u(1) [unfolded pos] u(2-4) iu fu new nz byte])
qed

lemma write_work_ok:
  assumes f: "file_ok E ok fd s" and p: "p = unat (fh_position (fm_files s fd))" and rm: "room s (in_blocks (file_inode E fd s))"
    and fits: "p + length data \<le> 3072" and lands: "write_lands (file_inode E fd s) p (length data)"
  obtains s' bl where "write_work E now fd data s = Some (int (length data), s')" "file_ok E ok fd s'"
    "fm_files s' = (fm_files s)(fd := (fm_files s fd)\<lparr>fh_position := of_nat (p + length data),
       fh_size := if unat (in_size (file_inode E fd s)) < p + length data then of_nat (p + length data) else fh_size (fm_files s fd)\<rparr>)"
    "file_inode E fd s' = (if unat (in_size (file_inode E fd s)) < p + length data
       then (file_inode E fd s)\<lparr>in_blocks := bl, in_size := of_nat (p + length data), in_mtime := now\<rparr> else file_inode E fd s)"
    "in_blocks (file_inode E fd s') = bl" "fm_mounted s' = fm_mounted s"
    "\<And>q. p \<le> q \<Longrightarrow> q < p + length data \<Longrightarrow> bl ! (q div 512) \<noteq> 0"
    "\<And>q. q < 3072 \<Longrightarrow> file_byte E s' bl q = (if p \<le> q \<and> q < p + length data then data ! (q - p)
       else file_byte E s (in_blocks (file_inode E fd s)) q)"
proof -
  let ?n = "fh_inode (fm_files s fd)" and ?i = "file_inode E fd s"
  obtain t u bl' where t: "fs_read_inode E ?n (junk_inode E) s = (OS_OK, ?i, t)" "fm_files t = fm_files s"
      and loop: "write_loop E data (of_nat (length data)) (in_blocks ?i) 0 (fh_position (fm_files s fd)) (junk_block E) t =
        Some (of_nat (length data), of_nat (p + length data), bl', u)"
      and u: "cache_ok E ok u" "layout_ok E u" "blocks_ok u bl'"
      and iu: "inode_valid E u ?n" "inode_block ?n u < sb_first_data_block (fm_superblock u)" "disk_inode E u ?n = ?i"
      and fu: "fm_files u = fm_files s" "fm_mounted u = fm_mounted s"
      and new: "\<And>j. bl' ! j = in_blocks ?i ! j \<or> in_blocks ?i ! j = 0 \<and> (\<exists>q. p \<le> q \<and> q < p + length data \<and> j = q div 512)"
      and nz: "\<And>q. p \<le> q \<Longrightarrow> q < p + length data \<Longrightarrow> bl' ! (q div 512) \<noteq> 0"
      and byte: "\<And>q. q < 3072 \<Longrightarrow> file_byte E u bl' q = (if p \<le> q \<and> q < p + length data then data ! (q - p) else file_byte E s (in_blocks ?i) q)"
    by (rule write_blocks [OF f p rm fits]) (rule that)
  have up: "unat (of_nat (p + length data) :: u32) = p + length data" unfolding unat_of_nat using fits by simp
  have gt: "of_nat (p + length data) > in_size ?i \<longleftrightarrow> unat (in_size ?i) < p + length data" using up by (simp add: word_less_nat_alt)
  have si: "sint (of_nat (length data) :: u32) = int (length data)" using fits by (intro sint_small) simp
  show ?thesis
  proof (cases "unat (in_size ?i) < p + length data")
    case True
    let ?i' = "?i\<lparr>in_blocks := bl', in_size := of_nat (p + length data), in_mtime := now\<rparr>"
    have "length (in_blocks ?i') = 6" using u(3) by (simp add: blocks_ok_def)
    then obtain v where v: "fs_write_inode E ?n ?i' u = (OS_OK, v)" "cache_ok E ok v" "same_rest u v" "fs_count E v = fs_count E u"
        and dv: "\<And>c. c < fs_count E u \<Longrightarrow> c \<noteq> inode_block ?n u \<Longrightarrow> fs_disk E v c = fs_disk E u c"
        and iw: "disk_inode E v ?n = ?i'"
      using write_inode_ok [OF u(1) iu(1), of ?i'] iu(1) by metis
    have bv: "file_byte E v bl' q = file_byte E u bl' q" if "q < 3072" for q
    proof -
      have "q div 512 < 6" using that by simp
      then have "bl' ! (q div 512) \<noteq> 0 \<Longrightarrow> bl' ! (q div 512) < fs_count E u \<and> bl' ! (q div 512) \<noteq> inode_block ?n u"
        using blocks_ok_count [OF u(3,2)] u(3) iu(2) by (auto simp: blocks_ok_def)
      then show ?thesis using dv by (auto simp: file_byte_def FS_BLOCK_SIZE_def)
    qed
    let ?s = "upd_file fd (\<lambda>h. h\<lparr>fh_position := of_nat (p + length data)\<rparr>)
      (upd_file fd (\<lambda>h. h\<lparr>fh_size := of_nat (p + length data)\<rparr>) v)"
    have fv: "fm_files v = fm_files s" "fm_mounted v = fm_mounted s" using v(3) fu by (simp_all add: same_rest_def)
    have "write_work E now fd data s = Some (int (length data), ?s)"
      using True gt by (simp add: write_work_def t Let_def loop fu v(1) si del: of_nat_add)
    moreover have "file_ok E ok fd ?s"
      using v u iu iw same_rest_layout [OF v(3,4)] same_rest_blocks_ok [OF v(3)] inode_block_same [OF v(3)] same_rest_super [OF v(3)] fv
      by (simp add: file_ok_def inode_valid_def)
    ultimately show ?thesis
      using iw True nz byte bv fv by (intro that [of ?s bl']) (auto simp del: of_nat_add)
  next
    case False
    have same: "bl' = in_blocks ?i"
    proof (rule nth_equalityI)
      fix j assume "j < length bl'"
      show "bl' ! j = in_blocks ?i ! j"
        using new [of j] lands False by (auto simp: write_lands_def)
    qed (use u(3) in \<open>simp add: blocks_ok_def\<close>)
    let ?s = "upd_file fd (\<lambda>h. h\<lparr>fh_position := of_nat (p + length data)\<rparr>) u"
    have "write_work E now fd data s = Some (int (length data), ?s)"
      using False gt by (simp add: write_work_def t Let_def loop si del: of_nat_add)
    moreover have "file_ok E ok fd ?s" using u iu fu same by (simp add: file_ok_def)
    ultimately show ?thesis
      using iu False nz byte fu same by (intro that [of ?s bl']) (auto simp del: of_nat_add)
  qed
qed

text \<open>Write, seek back, and read.\<close>

lemma write_seek_read:
  assumes f: "file_ok E ok fd s" and p: "p = unat (fh_position (fm_files s fd))" and rm: "room s (in_blocks (file_inode E fd s))"
    and fits: "p + length data \<le> 3072" and lands: "write_lands (file_inode E fd s) p (length data)"
  obtains t u v where "write_work E now fd data s = Some (int (length data), t)" "seek_work fd (int p) FS_SEEK_SET t = (int p, u)"
    "read_work E fd (of_nat (length data)) u = ((int (length data), data), v)"
    "fh_in_use (fm_files t fd) = fh_in_use (fm_files s fd)" "fh_in_use (fm_files u fd) = fh_in_use (fm_files s fd)"
    "fh_flags (fm_files u fd) = fh_flags (fm_files s fd)"
proof -
  obtain t bl where w: "write_work E now fd data s = Some (int (length data), t)" and t: "file_ok E ok fd t"
      and tf: "fm_files t = (fm_files s)(fd := (fm_files s fd)\<lparr>fh_position := of_nat (p + length data),
         fh_size := if unat (in_size (file_inode E fd s)) < p + length data then of_nat (p + length data) else fh_size (fm_files s fd)\<rparr>)"
      and ti: "file_inode E fd t = (if unat (in_size (file_inode E fd s)) < p + length data
         then (file_inode E fd s)\<lparr>in_blocks := bl, in_size := of_nat (p + length data), in_mtime := now\<rparr> else file_inode E fd s)"
      and tb: "in_blocks (file_inode E fd t) = bl" and "fm_mounted t = fm_mounted s"
      and nz: "\<And>q. p \<le> q \<Longrightarrow> q < p + length data \<Longrightarrow> bl ! (q div 512) \<noteq> 0"
      and byte: "\<And>q. q < 3072 \<Longrightarrow> file_byte E t bl q = (if p \<le> q \<and> q < p + length data then data ! (q - p)
         else file_byte E s (in_blocks (file_inode E fd s)) q)"
    by (rule write_work_ok [OF f p rm fits lands, of now]) (rule that)
  let ?u = "upd_file fd (\<lambda>h. h\<lparr>fh_position := of_nat p\<rparr>) t"
  have up: "unat (of_nat p :: u32) = p" "unat (of_nat (length data) :: u32) = length data" using fits unfolding unat_of_nat by simp_all
  have "sint (of_nat p :: u32) = int p" using fits by (intro sint_small) simp
  then have seek: "seek_work fd (int p) FS_SEEK_SET t = (int p, ?u)" by (simp add: seek_work_def FS_SEEK_SET_def)
  have "unat (in_size (file_inode E fd t)) \<ge> p + length data"
    using fits by (auto simp: ti unat_of_nat simp del: of_nat_add split: if_splits)
  then have n: "length data = min (unat (of_nat (length data) :: u32)) (unat (in_size (file_inode E fd ?u)) - p)"
    unfolding up(2) by (auto simp: min_def)
  have u: "file_ok E ok fd ?u" using t by (simp add: file_ok_def)
  obtain v where r: "read_work E fd (of_nat (length data)) ?u = ((int (length data), file_bytes E fd ?u p (length data)), v)"
    by (rule read_work_ok [OF u _ n fits]) (use up tb nz in auto)
  have bytes: "file_bytes E fd ?u p (length data) = data"
    unfolding file_bytes_def using tb byte fits by (intro nth_equalityI) simp_all
  show ?thesis by (rule that [OF w seek]) (use r bytes tf in simp_all)
qed

text \<open>
  A write that neither grows the file nor finds its first block is accepted and lost: the block
  it allocates is entered in the local copy of the inode only.
\<close>

lemma write_hole:
  assumes f: "file_ok E ok fd s" and p: "p = unat (fh_position (fm_files s fd))" and rm: "room s (in_blocks (file_inode E fd s))"
    and fits: "p + length data \<le> 3072" and "data \<noteq> []" and inside: "p + length data \<le> unat (in_size (file_inode E fd s))"
    and hole: "in_blocks (file_inode E fd s) ! (p div 512) = 0"
  obtains t u v where "write_work E now fd data s = Some (int (length data), t)" "seek_work fd (int p) FS_SEEK_SET t = (int p, u)"
    "read_work E fd (of_nat (length data)) u = ((0, []), v)" "file_inode E fd t = file_inode E fd s"
proof -
  let ?n = "fh_inode (fm_files s fd)" and ?i = "file_inode E fd s"
  obtain t u bl where t: "fs_read_inode E ?n (junk_inode E) s = (OS_OK, ?i, t)" "fm_files t = fm_files s"
      and loop: "write_loop E data (of_nat (length data)) (in_blocks ?i) 0 (fh_position (fm_files s fd)) (junk_block E) t =
        Some (of_nat (length data), of_nat (p + length data), bl, u)"
      and u: "cache_ok E ok u" and iu: "inode_valid E u ?n" "disk_inode E u ?n = ?i" and fu: "fm_files u = fm_files s"
    by (rule write_blocks [OF f p rm fits]) (rule that)
  have up: "unat (of_nat (p + length data) :: u32) = p + length data" "unat (of_nat p :: u32) = p"
      "unat (of_nat (length data) :: u32) = length data" unfolding unat_of_nat using fits by simp_all
  have gt: "\<not> of_nat (p + length data) > in_size ?i" using up(1) inside by (simp add: word_less_nat_alt)
  have si: "sint (of_nat (length data) :: u32) = int (length data)" "sint (of_nat p :: u32) = int p"
    using fits by (simp_all add: sint_small)
  let ?t = "upd_file fd (\<lambda>h. h\<lparr>fh_position := of_nat (p + length data)\<rparr>) u"
  let ?u = "upd_file fd (\<lambda>h. h\<lparr>fh_position := of_nat p\<rparr>) ?t"
  have w: "write_work E now fd data s = Some (int (length data), ?t)"
    using gt by (simp add: write_work_def t Let_def loop si del: of_nat_add)
  have seek: "seek_work fd (int p) FS_SEEK_SET ?t = (int p, ?u)" using si by (simp add: seek_work_def FS_SEEK_SET_def)
  have "cache_ok E ok ?u" "inode_valid E ?u ?n" using u iu by simp_all
  then obtain v where v: "fs_read_inode E ?n (junk_inode E) ?u = (OS_OK, disk_inode E ?u ?n, v)" "same_rest ?u v"
    by (rule read_inode_ok)
  have fv: "fm_files v = fm_files ?u" using v(2) by (simp add: same_rest_def)
  have pos: "0 < length data" using assms(5) by simp
  have "p < unat (in_size ?i)" using inside pos by linarith
  then have "of_nat p < in_size ?i" by (simp only: word_less_nat_alt up)
  moreover have "(0 :: u32) < of_nat (length data)" using pos by (simp only: word_less_nat_alt up unat_0)
  ultimately have lt: "of_nat p < in_size ?i" "(0 :: u32) < of_nat (length data)" "in_size ?i - of_nat p \<noteq> 0" by auto
  have stop: "read_loop E (in_blocks ?i) tr 0 (of_nat p) (junk_block E) [] v = (0, of_nat p, [], v)" if "0 < tr" for tr
    using that hole up(2) by (subst read_loop.simps) (simp add: Let_def FS_BLOCK_SIZE_def unat_div)
  have "read_work E fd (of_nat (length data)) ?u = ((0, []), upd_file fd (\<lambda>h. h\<lparr>fh_position := of_nat p\<rparr>) v)"
    using v(1) lt iu fu fv by (simp add: read_work_def Let_def stop word_greater_zero_iff)
  then show ?thesis using that w seek iu fu by simp
qed

end

end
