(* ===== verification/FS_Spec.thy ===== *)
theory FS_Spec
  imports FS_Work Sync_Spec
begin

text \<open>
  What the file system promises, on the RAM disk: the cache is transparent, inodes and blocks
  are kept apart, and what is written to an open file is read back, through the locks.
\<close>

section \<open>The RAM disk\<close>

text \<open>The RAM disk under the file system, in any surroundings; its 256 blocks fit into the bitmap.\<close>

definition ramdisk_env ::
    "block \<Rightarrow> fs_inode \<Rightarrow> (ramdisk fs \<Rightarrow> u8 list) \<Rightarrow> (u8 list \<Rightarrow> ramdisk fs \<Rightarrow> ramdisk fs option) \<Rightarrow> ramdisk fs_env" where
  "ramdisk_env jb ji br bw =
    \<lparr>fs_dev = ramdisk_ops, junk_block = jb, junk_inode = ji, behind_read = br, behind_write = bw\<rparr>"

interpretation rdfs: fs_storage ramdisk_ops ramdisk_ok "ramdisk_env jb ji br bw" for jb ji br bw
  by unfold_locales (simp_all add: ramdisk_env_def ramdisk_ops_def ramdisk_get_block_count_def RAMDISK_BLOCKS_def)

section \<open>Through the locks\<close>

text \<open>Other tasks use neither the file system nor the lock while the caller is switched out.\<close>

definition leaves_fs :: "mutex_loc \<Rightarrow> ('d, 'a) fsys_ext sswitch \<Rightarrow> bool" where
  "leaves_fs m cs \<longleftrightarrow> (\<forall>old new s. fs_st (cs old new s) = fs_st s \<and> mutex_at m (cs old new s) = mutex_at m s)"

lemma fs_st_updates [simp]:
  "fs_st (upd_mutex m f s) = fs_st s" "fs_st (mutex_acquire m c s) = fs_st s"
proof -
  show *: "fs_st (upd_mutex m f s) = fs_st s" for f and s :: "('a, 'b) fsys_scheme" by (cases m) simp_all
  show "fs_st (mutex_acquire m c s) = fs_st s" by (simp add: mutex_acquire_def Let_def *)
qed

lemma fs_view_stable:
  fixes cs :: "('d, 'a) fsys_ext sswitch"
  assumes "leaves_fs m cs"
  shows "obj_stable (\<lambda>s. fs_st s = x \<and> mutex_at m s = y) cs"
  unfolding obj_stable_def
proof (intro conjI allI impI)
  fix s s' :: "('d, 'a) fsys_scheme"
  assume more: "kernel.more s = kernel.more s'" and "fs_st s = x \<and> mutex_at m s = y"
  moreover have "fs_st s' = fs_st s" using more by (cases s; cases s') simp
  ultimately show "fs_st s' = x" "mutex_at m s' = y" using more_objects(7) [of s s' m] by simp_all
qed (use assms in \<open>simp_all add: leaves_fs_def\<close>)

text \<open>With the lock free, an operation is its work.\<close>

lemma fs_locked_at_once:
  fixes s :: "('d, 'a) fsys_scheme"
  assumes on: "on_cpu c s" and cs: "resumes cs" and lv: "leaves_fs m cs" and free: "\<not> m_locked (mutex_at m s)"
    and total: "\<And>now. work now (fs_st s) \<noteq> None"
  obtains s' now r where "fs_locked cs m work s = Some (r, s')" "work now (fs_st s) = Some (r, fs_st s')"
    "on_cpu c s'" "\<not> m_locked (mutex_at m s')"
proof -
  define s0 where "s0 = (mutex_acquire m c (s\<lparr>k_primask := 1\<rparr>))\<lparr>k_primask := k_primask s\<rparr>"
  have cur: "k_current_task s = Some c" using on by (simp add: on_cpu_def)
  have attempt: "mutex_try cs m (Some c) s = Some (Some (), s0)"
    using free by (cases m) (simp_all add: mutex_try_def critical_defs s0_def)
  have lock: "os_mutex_lock cs (Some m) 1000 s = Some (OS_OK, s0)"
    using mx.poll_at_once [OF attempt] cur by (simp add: os_mutex_lock_def os_task_get_current_def wait_result_def)
  obtain r x where w: "work (os_get_tick_count s0) (fs_st s) = Some (r, x)" using total by fastforce
  have fs0: "fs_st s0 = fs_st s" by (simp add: s0_def)
  let ?w = "s0\<lparr>fs_st := x\<rparr>"
  have "on_cpu c ?w \<longleftrightarrow> on_cpu c s0" by (rule on_cpu_kernel; simp add: sched_rel_def nexts_def [abs_def])
  then have on0: "on_cpu c ?w" using on by (simp add: s0_def)
  have "m_owner (mutex_at m s0) = Some c" by (cases m) (simp_all add: s0_def mutex_acquire_def Let_def)
  then have own: "m_owner (mutex_at m ?w) = Some c" by (cases m) simp_all
  let ?y = "(mutex_at m ?w)\<lparr>m_locked := False, m_owner := None\<rparr>"
  have rel: "fs_st (upd_mutex m (\<lambda>x. x\<lparr>m_locked := False, m_owner := None\<rparr>) t) = x \<and>
      mutex_at m (upd_mutex m (\<lambda>x. x\<lparr>m_locked := False, m_owner := None\<rparr>) t) = ?y"
    if "fs_st t = x \<and> mutex_at m t = mutex_at m ?w" for t :: "('d, 'a) fsys_scheme"
    using that by (cases m) simp_all
  obtain s' where s': "os_mutex_unlock cs (Some m) ?w = Some (OS_OK, s')" "on_cpu c s'" "fs_st s' = x" "mutex_at m s' = ?y"
    using unlock_law [of c ?w cs m "\<lambda>s. fs_st s = x \<and> mutex_at m s = mutex_at m ?w" "\<lambda>s. fs_st s = x \<and> mutex_at m s = ?y",
        OF on0 cs own fs_view_stable [OF lv] _ fs_view_stable [OF lv] rel] by auto
  show ?thesis
    by (rule that [of r s' "os_get_tick_count s0"]) (use lock w s' fs0 in \<open>simp_all add: fs_locked_def\<close>)
qed

section \<open>A formatted disk\<close>

lemma ramdisk_write_one:
  "rd_initialized d \<Longrightarrow> unat b < 256 \<Longrightarrow> length x = FS_BLOCK_SIZE \<Longrightarrow>
    bd_write ramdisk_ops b x 1 d = (True, d\<lparr>rd_storage := (rd_storage d)(unat b := x)\<rparr>)"
  by (simp add: ramdisk_ops_def ramdisk_write_def ramdisk_bad_range_iff)

lemma ramdisk_read_one:
  "rd_initialized d \<Longrightarrow> bd_read ramdisk_ops b 1 d = (if unat b < 256 then Some (rd_storage d (unat b)) else None)"
  by (simp add: ramdisk_ops_def ramdisk_read_def ramdisk_bad_range_iff)

lemma format_superblock_256:
  "sb_total_blocks (format_superblock 256) = 256" "sb_first_data_block (format_superblock 256) = 12"
  "sb_inode_table_block (format_superblock 256) = 2" "sb_total_inodes (format_superblock 256) = 128"
  "sb_magic (format_superblock 256) = FS_MAGIC" "length (encode_superblock (format_superblock 256)) = FS_BLOCK_SIZE"
  by (simp_all add: format_superblock_def zero_superblock_def Let_def INODE_SIZE_def FS_BLOCK_SIZE_def
      encode_superblock_def zero_bytes_def)

lemma used_fold_mark:
  "block_used (s\<lparr>fm_bitmap := fold mark_block xs bm\<rparr>) j \<longleftrightarrow> j \<in> set xs \<or> block_used (s\<lparr>fm_bitmap := bm\<rparr>) j"
proof (induction xs arbitrary: bm)
  case (Cons x xs)
  then show ?case using used_mark [where s = "s\<lparr>fm_bitmap := bm\<rparr>" and i = x and j = j] by auto
qed simp

lemma fs_count_ramdisk [simp]: "fs_count (ramdisk_env jb ji br bw) s = 256"
  by (simp add: fs_count_def ramdisk_env_def ramdisk_ops_def ramdisk_get_block_count_def RAMDISK_BLOCKS_def)

text \<open>The state \<^verbatim>\<open>fs_format\<close> leaves on the RAM disk.\<close>

definition formatted_store :: "u32 \<Rightarrow> (nat \<Rightarrow> u8) \<Rightarrow> ramdisk \<Rightarrow> bool" where
  "formatted_store now bm d \<longleftrightarrow> rd_initialized d \<and> rd_storage d 0 = encode_superblock (format_superblock 256) \<and>
     length (rd_storage d 1) = FS_BLOCK_SIZE \<and> take BITMAP_BYTES (rd_storage d 1) = map (format_bitmap 12 bm) [0..<BITMAP_BYTES] \<and>
     rd_storage d 2 = splice 0 (encode_inode (zero_inode\<lparr>in_type := FS_TYPE_DIRECTORY, in_ctime := now, in_mtime := now\<rparr>))
       (zero_bytes FS_BLOCK_SIZE) \<and> (\<forall>i. 2 < i \<and> i < 256 \<longrightarrow> rd_storage d i = zero_bytes FS_BLOCK_SIZE)"

lemma length_root_block:
  "length (splice 0 (encode_inode (zero_inode\<lparr>in_type := t, in_ctime := a, in_mtime := b\<rparr>)) (zero_bytes FS_BLOCK_SIZE)) = FS_BLOCK_SIZE"
  by (subst length_splice) (simp_all add: zero_inode_def zero_bytes_def INODE_SIZE_def FS_BLOCK_SIZE_def)

lemma format_ok:
  assumes "ramdisk_ok (fm_store s)" and br: "\<And>t. length (br t) = 384"
  obtains d where "fs_format (ramdisk_env jb ji br bw) True now s =
      (OS_OK, s\<lparr>fm_bitmap := format_bitmap 12 (fm_bitmap s), fm_store := d\<rparr>)" "formatted_store now (fm_bitmap s) d"
proof -
  let ?bm = "format_bitmap 12 (fm_bitmap s)"
  let ?root = "splice 0 (encode_inode (zero_inode\<lparr>in_type := FS_TYPE_DIRECTORY, in_ctime := now, in_mtime := now\<rparr>)) (zero_bytes FS_BLOCK_SIZE)"
  let ?bb = "bitmap_block (ramdisk_env jb ji br bw) (s\<lparr>fm_bitmap := ?bm\<rparr>)"
  let ?e = "(fm_store s)\<lparr>rd_storage := (\<lambda>i. if i < 256 then zero_bytes FS_BLOCK_SIZE else rd_storage (fm_store s) i)\<rparr>"
  let ?d = "?e\<lparr>rd_storage := (rd_storage ?e)(0 := encode_superblock (format_superblock 256), 1 := ?bb, 2 := ?root)\<rparr>"
  have i: "rd_initialized (fm_store s)" using assms by (simp add: ramdisk_ok_def)
  have cnt: "bd_get_block_count ramdisk_ops (fm_store s) = 256"
    by (simp add: ramdisk_ops_def ramdisk_get_block_count_def RAMDISK_BLOCKS_def)
  have erase: "bd_erase ramdisk_ops = Some ramdisk_erase" "bd_sync ramdisk_ops = Some ramdisk_sync" "ramdisk_sync d = d" for d
    by (simp_all add: ramdisk_ops_def ramdisk_sync_def)
  have er: "ramdisk_erase 0 256 (fm_store s) = (True, ?e)"
    using i by (simp add: ramdisk_erase_def ramdisk_bad_range_iff)
  have bl: "length ?bb = FS_BLOCK_SIZE" "take BITMAP_BYTES ?bb = map ?bm [0..<BITMAP_BYTES]"
    by (simp_all add: bitmap_block_def ramdisk_env_def br BITMAP_BYTES_def FS_BLOCK_SIZE_def)
  have dv: "fs_dev (ramdisk_env jb ji br bw) = ramdisk_ops" by (simp add: ramdisk_env_def)
  have "fs_format (ramdisk_env jb ji br bw) True now s = (OS_OK, s\<lparr>fm_bitmap := ?bm, fm_store := ?d\<rparr>)"
    using i bl length_root_block [where t = FS_TYPE_DIRECTORY and a = now and b = now]
    by (simp add: fs_format_def dv cnt Let_def erase er format_superblock_256 ramdisk_write_one)
  moreover have "formatted_store now (fm_bitmap s) ?d" using i bl by (simp add: formatted_store_def)
  ultimately show ?thesis by (rule that)
qed

text \<open>A disk that has been formatted.\<close>

lemma formatted_ok:
  assumes d: "formatted_store now bm d"
  shows "ramdisk_ok d"
proof -
  have "length (rd_storage d i) = FS_BLOCK_SIZE" if "i < 256" for i
  proof -
    consider "i = 0" | "i = 1" | "i = 2" | "2 < i" by linarith
    then show ?thesis
      using d that format_superblock_256(6) length_root_block [where t = FS_TYPE_DIRECTORY and a = now and b = now]
      by cases (simp_all add: formatted_store_def zero_bytes_def)
  qed
  then show ?thesis using d by (simp add: ramdisk_ok_def formatted_store_def)
qed

lemma decode_zero_inode:
  assumes "n + INODE_SIZE \<le> FS_BLOCK_SIZE"
  shows "decode_inode (take INODE_SIZE (drop n (zero_bytes FS_BLOCK_SIZE))) = zero_inode"
proof -
  have z: "take INODE_SIZE (drop n (zero_bytes FS_BLOCK_SIZE)) = replicate 40 0"
    using assms by (simp add: zero_bytes_def INODE_SIZE_def FS_BLOCK_SIZE_def min_def)
  have g: "get32 i (replicate 40 0) = 0" if "i \<le> 36" for i using that by (simp add: get32_def)
  have "map (\<lambda>i. get32 (8 + 4 * i) (replicate 40 0)) [0..<6] = replicate 6 (0 :: u32)"
    by (rule nth_equalityI) (simp_all add: g)
  then show ?thesis unfolding z by (simp add: decode_inode_def zero_inode_def g get16_def)
qed

lemma mount_ok:
  assumes d: "formatted_store now bm (fm_store s)" and "\<not> fm_mounted s" and "length (fm_block_cache s) = FS_BLOCK_SIZE"
    and "fm_cached_block s = 0xFFFFFFFF" and bw: "\<And>bs t. bw bs t = Some t"
  obtains s' where "mount_work (ramdisk_env jb ji br bw) s = Some (OS_OK, s')" "cache_ok (ramdisk_env jb ji br bw) ramdisk_ok s'"
    "fm_superblock s' = format_superblock 256" "fm_store s' = fm_store s" "fm_mounted s'" "fm_cached_block s' = 0xFFFFFFFF"
    "\<And>k. k < 256 \<Longrightarrow> block_used s' k \<longleftrightarrow> k < 12"
proof -
  let ?bm = "format_bitmap 12 bm"
  let ?s = "s\<lparr>fm_superblock := format_superblock 256, fm_bitmap := (\<lambda>i. if i < BITMAP_BYTES then ?bm i else fm_bitmap s i),
    fm_device := True, fm_mounted := True\<rparr>"
  have i: "rd_initialized (fm_store s)" and st: "rd_storage (fm_store s) 0 = encode_superblock (format_superblock 256)"
      "take BITMAP_BYTES (rd_storage (fm_store s) 1) = map ?bm [0..<BITMAP_BYTES]" using d by (simp_all add: formatted_store_def)
  have nth: "rd_storage (fm_store s) 1 ! j = ?bm j" if "j < BITMAP_BYTES" for j
    using that st(2) nth_take [of j BITMAP_BYTES "rd_storage (fm_store s) 1"] by simp
  have "mount_work (ramdisk_env jb ji br bw) s = Some (OS_OK, ?s)"
    using assms(2) i st(1) nth by (simp cong: if_cong add: mount_work_def load_bitmap_def ramdisk_env_def ramdisk_read_one decode_encode_superblock
        format_superblock_256 Let_def bw)
  moreover have "block_used ?s k \<longleftrightarrow> k < 12" if "k < 256" for k
  proof -
    have k: "k div 8 < BITMAP_BYTES" using that by (simp add: BITMAP_BYTES_def less_mult_imp_div_less)
    have "block_used ?s k \<longleftrightarrow> block_used (s\<lparr>fm_bitmap := ?bm\<rparr>) k"
      using k by (simp add: block_used_def)
    also have "\<dots> \<longleftrightarrow> k \<in> set [0..<12] \<or> block_used (s\<lparr>fm_bitmap := (\<lambda>i. if i < BITMAP_BYTES then 0 else bm i)\<rparr>) k"
      unfolding format_bitmap_def used_fold_mark by simp
    also have "\<dots> \<longleftrightarrow> k < 12" using k by (simp add: block_used_def)
    finally show ?thesis .
  qed
  ultimately show ?thesis
    using assms(3,4) formatted_ok [OF d] by (intro that [of ?s]) (simp_all add: cache_ok_def)
qed

section \<open>Properties\<close>

text \<open>C7. The block cache is transparent: any sequence of block reads, block writes and cache
  write-backs on the mounted RAM disk answers as an array of 256 blocks does, without errors,
  and once the cache is written back the disk itself holds that array.\<close>

theorem fs_cache_transparent:
  assumes "cache_ok (ramdisk_env jb ji br bw) ramdisk_ok s" and "list_all (op_ok 256) ops"
  shows "\<exists>s'. fs_run (ramdisk_env jb ji br bw) (ops @ [SyncOp]) s =
      (fst (array_run (ops @ [SyncOp]) (fs_disk (ramdisk_env jb ji br bw) s)), s') \<and>
    (\<forall>b < 256. ramdisk_read b 1 (fm_store s') = Some (snd (array_run ops (fs_disk (ramdisk_env jb ji br bw) s)) b))"
proof -
  let ?E = "ramdisk_env jb ji br bw"
  have split: "fs_run ?E (ops @ [SyncOp]) s = (let (r, s) = fs_run ?E ops s; (e, s) = fs_sync_cache ?E s in (r @ [(e, [])], s))" for ops s
    by (induction ops arbitrary: s) (auto simp: Let_def split: prod.splits)
  have asplit: "array_run (ops @ [SyncOp]) d = (let (r, d) = array_run ops d in (r @ [(OS_OK, [])], d))" for ops d
    by (induction ops arbitrary: d) (auto simp: Let_def split: prod.splits)
  obtain r t d where t: "fs_run ?E ops s = (r, t)" "array_run ops (fs_disk ?E s) = (r, d)" "cache_ok ?E ramdisk_ok t"
      "\<forall>b < 256. d b = fs_disk ?E t b"
    using rdfs.run_refines [OF assms(1), of ops "fs_disk ?E s"] assms(2) by auto
  obtain s' where "fs_sync_cache ?E t = (OS_OK, s')" "\<And>b. b < 256 \<Longrightarrow> bd_read ramdisk_ops b 1 (fm_store s') = Some (fs_disk ?E t b)"
    by (rule rdfs.sync_ok [OF t(3)]) (rule that, auto)
  then show ?thesis using t split [of ops s] asplit [of ops "fs_disk ?E s"] by (simp add: ramdisk_ops_def)
qed

text \<open>Writing an inode and reading it back returns it, on every position of the inode table
  that lies on the disk, and no other inode is changed by the write.\<close>

theorem inode_write_read:
  assumes "cache_ok (ramdisk_env jb ji br bw) ramdisk_ok s" and "inode_valid (ramdisk_env jb ji br bw) s n" and "length (in_blocks x) = 6"
  shows "\<exists>s'. fs_write_inode (ramdisk_env jb ji br bw) n x s = (OS_OK, s') \<and>
    (\<forall>m i. inode_valid (ramdisk_env jb ji br bw) s m \<longrightarrow>
       (\<exists>t. fs_read_inode (ramdisk_env jb ji br bw) m i s' = (OS_OK, if m = n then x else disk_inode (ramdisk_env jb ji br bw) s m, t)))"
proof -
  let ?E = "ramdisk_env jb ji br bw"
  obtain s' where s': "fs_write_inode ?E n x s = (OS_OK, s')" "cache_ok ?E ramdisk_ok s'" "same_rest s s'"
      "\<And>m. inode_valid ?E s m \<Longrightarrow> disk_inode ?E s' m = (if m = n then x else disk_inode ?E s m)"
    by (rule rdfs.write_inode_ok [OF assms]) (rule that)
  have "\<exists>t. fs_read_inode ?E m i s' = (OS_OK, if m = n then x else disk_inode ?E s m, t)" if "inode_valid ?E s m" for m i
  proof -
    have "inode_valid ?E s' m" using that by (simp add: inode_valid_def inode_block_same [OF s'(3)] same_rest_super [OF s'(3)])
    then obtain t where "fs_read_inode ?E m i s' = (OS_OK, disk_inode ?E s' m, t)" by (rule rdfs.read_inode_ok [OF s'(2)])
    then show ?thesis using s'(4) [OF that] by auto
  qed
  then show ?thesis using s'(1) by blast
qed

text \<open>C21. Allocation of blocks, with the 128 bytes of the bitmap: when a data block below 1024 is free
  the first one is returned, it is marked and nothing else is, the count goes down by one, and
  freeing the block brings back the bitmap and the count. When none is free and the file system
  has at most 1024 blocks, the answer is \<^verbatim>\<open>0xFFFFFFFF\<close> and nothing changes. When it has more, which the
  code does not exclude, the search runs on behind the bitmap (\<open>None\<close>).\<close>

theorem block_allocation:
  "if bitmap_free s = {}
    then fs_alloc_block s = (if sb_total_blocks (fm_superblock s) \<le> 1024 \<or>
      sb_total_blocks (fm_superblock s) \<le> sb_first_data_block (fm_superblock s) then Some (0xFFFFFFFF, s) else None)
    else \<exists>b s' s''. fs_alloc_block s = Some (b, s') \<and> b \<in> bitmap_free s \<and> (\<forall>c \<in> free_set s. b \<le> c) \<and>
      (\<forall>k. block_used s' k \<longleftrightarrow> k = unat b \<or> block_used s k) \<and>
      sb_free_blocks (fm_superblock s') = sb_free_blocks (fm_superblock s) - 1 \<and>
      fs_free_block b s' = Some (OS_OK, s'') \<and> block_used s'' = block_used s \<and> fm_superblock s'' = fm_superblock s"
proof (cases "bitmap_free s = {}")
  case False
  obtain b s' where a: "fs_alloc_block s = Some (b, s')" "b \<in> bitmap_free s" "\<And>k. block_used s' k \<longleftrightarrow> k = unat b \<or> block_used s k"
      "s' = s\<lparr>fm_bitmap := mark_block (unat b) (fm_bitmap s),
            fm_superblock := (fm_superblock s)\<lparr>sb_free_blocks := sb_free_blocks (fm_superblock s) - 1\<rparr>\<rparr>"
      "\<And>c. c \<in> free_set s \<Longrightarrow> b \<le> c"
    by (rule alloc_block_ok [OF False]) (rule that)
  let ?s = "upd_super (\<lambda>sb. sb\<lparr>sb_free_blocks := sb_free_blocks sb + 1\<rparr>) (s'\<lparr>fm_bitmap := unmark_block (unat b) (fm_bitmap s')\<rparr>)"
  have b: "b < sb_total_blocks (fm_superblock s)" "\<not> block_used s (unat b)" "in_bitmap (unat b)"
    using a(2) by (simp_all add: bitmap_free_def free_set_def in_bitmap_iff word_less_nat_alt)
  have "fs_free_block b s' = Some (OS_OK, ?s)" using b(1,3) by (simp add: fs_free_block_def a(4) not_le)
  moreover have "block_used ?s k = block_used s k" for k
  proof -
    have "block_used ?s k \<longleftrightarrow> block_used (s'\<lparr>fm_bitmap := unmark_block (unat b) (fm_bitmap s')\<rparr>) k"
      by (simp add: block_used_def upd_super_def)
    then show ?thesis using used_unmark [where s = s' and i = "unat b" and j = k] a(3) b(2) by auto
  qed
  moreover have "fm_superblock ?s = fm_superblock s" by (simp add: upd_super_def a(4))
  ultimately show ?thesis using False a by (auto simp: fun_eq_iff)
qed (simp add: alloc_block_none)

text \<open>When nothing that the file system uses follows the bitmap in memory, formatting and mounting the
  RAM disk succeeds and gives a consistent file system: the
  cache is coherent, exactly the blocks from 12 to 255 are free, inode 0 is the root
  directory, and the inodes in front of the data blocks are unused.\<close>

theorem fs_format_mounts:
  assumes "ramdisk_ok (fm_store s)" and "\<not> fm_mounted s" and "length (fm_block_cache s) = FS_BLOCK_SIZE"
    and "fm_cached_block s = 0xFFFFFFFF" and "\<And>t. length (br t) = 384" and "\<And>bs t. bw bs t = Some t"
  shows "\<exists>t s'. fs_format (ramdisk_env jb ji br bw) True now s = (OS_OK, t) \<and> mount_work (ramdisk_env jb ji br bw) t = Some (OS_OK, s') \<and>
    cache_ok (ramdisk_env jb ji br bw) ramdisk_ok s' \<and> layout_ok (ramdisk_env jb ji br bw) s' \<and> free_set s' = {b. 12 \<le> b \<and> b < 256} \<and>
    disk_inode (ramdisk_env jb ji br bw) s' 0 = zero_inode\<lparr>in_type := FS_TYPE_DIRECTORY, in_ctime := now, in_mtime := now\<rparr> \<and>
    (\<forall>n. 0 < n \<and> n < 120 \<longrightarrow> disk_inode (ramdisk_env jb ji br bw) s' n = zero_inode)"
proof -
  let ?E = "ramdisk_env jb ji br bw" and ?root = "zero_inode\<lparr>in_type := FS_TYPE_DIRECTORY, in_ctime := now, in_mtime := now\<rparr>"
  obtain d where fmt: "fs_format ?E True now s = (OS_OK, s\<lparr>fm_bitmap := format_bitmap 12 (fm_bitmap s), fm_store := d\<rparr>)"
      and d: "formatted_store now (fm_bitmap s) d"
    by (rule format_ok [OF assms(1,5)])
  let ?t = "s\<lparr>fm_bitmap := format_bitmap 12 (fm_bitmap s), fm_store := d\<rparr>"
  obtain s' where mount: "mount_work ?E ?t = Some (OS_OK, s')" and s': "cache_ok ?E ramdisk_ok s'"
      "fm_superblock s' = format_superblock 256" "fm_store s' = d" "fm_cached_block s' = 0xFFFFFFFF"
      and used: "\<And>k. k < 256 \<Longrightarrow> block_used s' k \<longleftrightarrow> k < 12"
    by (rule mount_ok [of now "fm_bitmap s" ?t bw jb ji br]) (use d assms in simp_all)
  have lay: "layout_ok ?E s'" by (simp add: layout_ok_def s'(2) format_superblock_256)
  have free: "free_set s' = {b. 12 \<le> b \<and> b < 256}"
    using used by (auto simp: free_set_def s'(2) format_superblock_256 word_less_nat_alt word_le_nat_alt)
  have disk: "fs_disk ?E s' b = rd_storage d (unat b)" if "unat b < 256" for b
    using that d s'(3,4) by (auto simp: fs_disk_def ramdisk_env_def ramdisk_read_one formatted_store_def)
  have blk: "inode_block n s' = 2 + n div 12" for n by (simp add: inode_block_def s'(2) format_superblock_256 inodes_per_block_12)
  have fit: "0 + length (encode_inode ?root) \<le> length (zero_bytes FS_BLOCK_SIZE)"
    by (simp add: zero_inode_def zero_bytes_def INODE_SIZE_def FS_BLOCK_SIZE_def)
  have root: "disk_inode ?E s' 0 = ?root"
    using disk [of 2] d splice_inside [OF fit] decode_encode_inode [of ?root]
    by (simp add: disk_inode_def blk formatted_store_def inode_offset_nat zero_inode_def)
  have rest: "disk_inode ?E s' n = zero_inode" if n: "0 < n \<and> n < 120" for n
  proof -
    have un: "0 < unat n" "unat n < 120" using n by (auto simp: word_less_nat_alt)
    have ub: "unat (2 + n div 12) = 2 + unat n div 12" using un by (subst unat_add_u32) (auto simp: unat_div)
    have off: "inode_offset n + INODE_SIZE \<le> FS_BLOCK_SIZE" by (rule inode_offset_le)
    show ?thesis
    proof (cases "unat n < 12")
      case True
      then have "40 \<le> inode_offset n" using un by (simp add: inode_offset_nat)
      then have "take INODE_SIZE (drop (inode_offset n) (rd_storage d 2)) =
          take INODE_SIZE (drop (inode_offset n) (zero_bytes FS_BLOCK_SIZE))"
        using d off fit by (simp add: formatted_store_def splice_outside zero_inode_def INODE_SIZE_def zero_bytes_def)
      then show ?thesis using True ub disk [of "2 + n div 12"] decode_zero_inode [OF off] by (simp add: disk_inode_def blk)
    next
      case False
      then have "1 \<le> unat n div 12" "unat n div 12 < 10" using un by (auto simp: less_mult_imp_div_less)
      then have "rd_storage d (unat (2 + n div 12)) = zero_bytes FS_BLOCK_SIZE" "unat (2 + n div 12) < 256"
        using d ub by (simp_all add: formatted_store_def)
      then show ?thesis using disk decode_zero_inode [OF off] by (simp add: disk_inode_def blk)
    qed
  qed
  show ?thesis using fmt mount s'(1) lay free root rest by blast
qed

text \<open>C3. What is written to an open file is read back, through the handlers and their locks: with
  the lock of the file free, \<^verbatim>\<open>fs_write\<close> accepts all bytes that fit into the six blocks of the
  file, and after \<^verbatim>\<open>fs_seek\<close> to where they were written \<^verbatim>\<open>fs_read\<close> returns exactly these bytes;
  all three calls return. The write has to grow the file or stay within its blocks.\<close>

theorem fs_write_read:
  fixes s :: "(ramdisk, 'a) fsys_scheme"
  assumes on: "on_cpu c s" and cs: "resumes cs" and lv: "leaves_fs (FILE_LOCK (nat fd)) cs"
    and free: "\<not> m_locked (mutex_at (FILE_LOCK (nat fd)) s)" and fd: "\<not> bad_fd fd (fs_st s)"
    and flags: "fh_flags (fm_files (fs_st s) (nat fd)) = 3" and f: "file_ok (ramdisk_env jb ji br bw) ramdisk_ok (nat fd) (fs_st s)"
    and rm: "room (fs_st s) (in_blocks (file_inode (ramdisk_env jb ji br bw) (nat fd) (fs_st s)))"
    and p: "p = unat (fh_position (fm_files (fs_st s) (nat fd)))" and fits: "p + length data \<le> 3072"
    and lands: "write_lands (file_inode (ramdisk_env jb ji br bw) (nat fd) (fs_st s)) p (length data)"
  shows "\<exists>s1 s2 s3. fs_write cs (ramdisk_env jb ji br bw) fd data s = Some (int (length data), s1) \<and>
    fs_seek cs fd (int p) FS_SEEK_SET s1 = Some (int p, s2) \<and>
    fs_read cs (ramdisk_env jb ji br bw) fd (of_nat (length data)) s2 = Some ((int (length data), data), s3)"
proof -
  let ?E = "ramdisk_env jb ji br bw" and ?n = "nat fd" and ?L = "FILE_LOCK (nat fd)"
  have rw: "(3 :: u32) AND FS_O_RDONLY \<noteq> 0" "(3 :: u32) AND FS_O_WRONLY \<noteq> 0" by (simp_all add: FS_O_RDONLY_def FS_O_WRONLY_def)
  have "write_work ?E now ?n data (fs_st s) \<noteq> None" for now
    by (rule rdfs.write_seek_read [OF f p rm fits lands, of now]) simp
  then obtain s1 now r where s1: "fs_locked cs ?L (\<lambda>now. write_work ?E now ?n data) s = Some (r, s1)"
      "write_work ?E now ?n data (fs_st s) = Some (r, fs_st s1)" "on_cpu c s1" "\<not> m_locked (mutex_at ?L s1)"
    by (rule fs_locked_at_once [OF on cs lv free, of "\<lambda>now. write_work ?E now ?n data"])
  obtain t u v where w: "write_work ?E now ?n data (fs_st s) = Some (int (length data), t)" "seek_work ?n (int p) FS_SEEK_SET t = (int p, u)"
      "read_work ?E ?n (of_nat (length data)) u = ((int (length data), data), v)"
      and h: "fh_in_use (fm_files t ?n) = fh_in_use (fm_files (fs_st s) ?n)" "fh_in_use (fm_files u ?n) = fh_in_use (fm_files (fs_st s) ?n)"
      "fh_flags (fm_files u ?n) = fh_flags (fm_files (fs_st s) ?n)"
    by (rule rdfs.write_seek_read [OF f p rm fits lands, of now])
  have fs1: "fs_st s1 = t" "r = int (length data)" using s1(2) w(1) by simp_all
  let ?seek = "\<lambda>_ x. Some (seek_work ?n (int p) FS_SEEK_SET x)" and ?read = "\<lambda>_ x. Some (read_work ?E ?n (of_nat (length data)) x)"
  obtain s2 now2 r2 where s2: "fs_locked cs ?L ?seek s1 = Some (r2, s2)" "Some (seek_work ?n (int p) FS_SEEK_SET (fs_st s1)) = Some (r2, fs_st s2)"
      "on_cpu c s2" "\<not> m_locked (mutex_at ?L s2)"
    by (rule fs_locked_at_once [OF s1(3) cs lv s1(4), of ?seek]) simp_all
  have fs2: "fs_st s2 = u" "r2 = int p" using s2(2) fs1 w(2) by simp_all
  obtain s3 now3 r3 where s3: "fs_locked cs ?L ?read s2 = Some (r3, s3)"
      "Some (read_work ?E ?n (of_nat (length data)) (fs_st s2)) = Some (r3, fs_st s3)"
    by (rule fs_locked_at_once [OF s2(3) cs lv s2(4), of ?read]) simp_all
  have fd1: "\<not> bad_fd fd t" "\<not> bad_fd fd u" using fd h by (simp_all add: bad_fd_def)
  have "fs_write cs ?E fd data s = Some (int (length data), s1)" using fd flags rw s1(1) fs1 by (simp add: fs_write_def)
  moreover have "fs_seek cs fd (int p) FS_SEEK_SET s1 = Some (int p, s2)" using fd1 fs1 fs2 s2(1) by (simp add: fs_seek_def)
  moreover have "fs_read cs ?E fd (of_nat (length data)) s2 = Some ((int (length data), data), s3)"
    using fd1 fs2 s3 w(3) flags rw h by (simp add: fs_read_def)
  ultimately show ?thesis by blast
qed

text \<open>C28. A write into a hole is lost: when the file is already longer than the range written and
  has no block at its start (as after \<^verbatim>\<open>fs_truncate\<close> to a greater length), \<^verbatim>\<open>fs_write\<close> reports all
  bytes written, yet the inode stays as it was and reading the range back gives nothing.\<close>

theorem fs_write_hole_lost:
  assumes "file_ok (ramdisk_env jb ji br bw) ramdisk_ok fd s" and "p = unat (fh_position (fm_files s fd))"
    and "room s (in_blocks (file_inode (ramdisk_env jb ji br bw) fd s))" and "p + length data \<le> 3072" and "data \<noteq> []"
    and "p + length data \<le> unat (in_size (file_inode (ramdisk_env jb ji br bw) fd s))"
    and "in_blocks (file_inode (ramdisk_env jb ji br bw) fd s) ! (p div 512) = 0"
  shows "\<exists>t u v. write_work (ramdisk_env jb ji br bw) now fd data s = Some (int (length data), t) \<and>
    seek_work fd (int p) FS_SEEK_SET t = (int p, u) \<and>
    read_work (ramdisk_env jb ji br bw) fd (of_nat (length data)) u = ((0, []), v) \<and>
    file_inode (ramdisk_env jb ji br bw) fd t = file_inode (ramdisk_env jb ji br bw) fd s"
  by (rule rdfs.write_hole [OF assms, of now]) blast

section \<open>A concrete file system\<close>

definition demo_fs :: "ramdisk fs" where
  "demo_fs = \<lparr>fm_mounted = True, fm_device = True, fm_superblock = format_superblock 256,
     fm_files = (\<lambda>_. \<lparr>fh_in_use = True, fh_inode = 1, fh_flags = 3, fh_position = 0, fh_size = 0\<rparr>),
     fm_dirs = (\<lambda>_. \<lparr>dh_in_use = False, dh_inode = 0, dh_position = 0\<rparr>),
     fm_block_cache = zero_bytes FS_BLOCK_SIZE, fm_cached_block = 0xFFFFFFFF, fm_cache_dirty = False,
     fm_bitmap = (\<lambda>_. 0)(0 := 0xFF, 1 := 0x0F), fm_store = ramdisk_init undefined\<rparr>"

abbreviation "demo_env \<equiv> ramdisk_env (zero_bytes FS_BLOCK_SIZE) zero_inode (\<lambda>_. zero_bytes 384) (\<lambda>_. Some)"

definition demo_fsys :: "ramdisk fsys" where
  "demo_fsys = sync.extend demo_sync (fsys.fields demo_fs)"

lemma demo_cache_ok: "cache_ok (ramdisk_env jb ji br bw) ramdisk_ok demo_fs"
  by (simp add: cache_ok_def demo_fs_def ramdisk_ok_def ramdisk_init_def zero_bytes_def)

lemma demo_inode_valid: "n < 120 \<Longrightarrow> inode_valid (ramdisk_env jb ji br bw) demo_fs n"
proof -
  assume "n < 120"
  then have "unat n < 120" by (simp add: word_less_nat_alt)
  moreover have "unat (2 + n div 12) = 2 + unat n div 12" using \<open>unat n < 120\<close> by (subst unat_add_u32) (auto simp: unat_div)
  ultimately show ?thesis
    by (auto simp: inode_valid_def demo_fs_def format_superblock_256 inode_block_def inodes_per_block_12 word_less_nat_alt)
qed

lemma demo_disk: "b < 256 \<Longrightarrow> fs_disk (ramdisk_env jb ji br bw) demo_fs b = zero_bytes FS_BLOCK_SIZE"
  by (simp add: fs_disk_def demo_fs_def ramdisk_env_def ramdisk_read_one ramdisk_init_def word_less_nat_alt)

lemma demo_inode: "disk_inode (ramdisk_env jb ji br bw) demo_fs 1 = zero_inode"
proof -
  have "inode_block 1 demo_fs = 2" by (simp add: inode_block_def demo_fs_def format_superblock_256 inodes_per_block_12)
  then show ?thesis using decode_zero_inode [OF inode_offset_le] demo_disk [of 2] by (simp add: disk_inode_def)
qed

lemma demo_free: "{12, 13, 14, 15, 16, 17} \<subseteq> free_set demo_fs"
  by (simp add: free_set_def demo_fs_def format_superblock_256 block_used_def)

lemma demo_blocks:
  "blocks_ok demo_fs (replicate 6 0)" "room demo_fs (replicate 6 0)"
proof -
  show "blocks_ok demo_fs (replicate 6 0)" by (simp add: blocks_ok_def)
  have "card (missing (replicate 6 0)) \<le> card {0..<6 :: nat}" by (intro card_mono) (auto simp: missing_def)
  also have "\<dots> = card {12, 13, 14, 15, 16, 17 :: u32}" by simp
  also have "\<dots> \<le> card (free_set demo_fs)" using demo_free by (intro card_mono) simp_all
  finally show "room demo_fs (replicate 6 0)" by (simp add: room_def)
qed

lemma demo_file_ok: "file_ok (ramdisk_env jb ji br bw) ramdisk_ok fd demo_fs"
proof -
  have "fh_inode (fm_files demo_fs fd) = 1" by (simp add: demo_fs_def)
  moreover have "layout_ok (ramdisk_env jb ji br bw) demo_fs" by (simp add: layout_ok_def) (simp add: demo_fs_def format_superblock_256)
  moreover have "inode_block 1 demo_fs < sb_first_data_block (fm_superblock demo_fs)"
    by (simp add: inode_block_def demo_fs_def format_superblock_256 inodes_per_block_12)
  ultimately show ?thesis
    using demo_cache_ok demo_inode_valid [of 1] demo_inode demo_blocks(1) by (simp add: file_ok_def zero_inode_def)
qed

theorem fs_cache_transparent_witness:
  "\<exists>s'. fs_run demo_env [WriteOp 20 (replicate 512 7), ReadOp 20, SyncOp] demo_fs =
      ([(OS_OK, []), (OS_OK, replicate 512 7), (OS_OK, [])], s') \<and>
    ramdisk_read 20 1 (fm_store s') = Some (replicate 512 7)"
  using fs_cache_transparent [OF demo_cache_ok, of "[WriteOp 20 (replicate 512 7), ReadOp 20]"
      "zero_bytes FS_BLOCK_SIZE" zero_inode "\<lambda>_. zero_bytes 384" "\<lambda>_. Some"]
  by (simp add: FS_BLOCK_SIZE_def del: fs_run.simps) (elim exE conjE, intro exI conjI, assumption, drule spec [of _ 20], simp)

theorem inode_write_read_witness:
  "\<exists>s' t. fs_write_inode demo_env 5 (zero_inode\<lparr>in_size := 7\<rparr>) demo_fs = (OS_OK, s') \<and>
    fs_read_inode demo_env 5 zero_inode s' = (OS_OK, zero_inode\<lparr>in_size := 7\<rparr>, t)"
  using inode_write_read [OF demo_cache_ok demo_inode_valid, where n = 5 and x = "zero_inode\<lparr>in_size := 7\<rparr>" and
      jb = "zero_bytes FS_BLOCK_SIZE" and ji = zero_inode and br = "\<lambda>_. zero_bytes 384" and bw = "\<lambda>_. Some"]
    demo_inode_valid [of 5 "zero_bytes FS_BLOCK_SIZE" zero_inode "\<lambda>_. zero_bytes 384" "\<lambda>_. Some"] by (fastforce simp: zero_inode_def)

theorem block_allocation_witness:
  "\<exists>s' s''. fs_alloc_block demo_fs = Some (12, s') \<and> block_used s' 12 \<and> fs_free_block 12 s' = Some (OS_OK, s'') \<and> \<not> block_used s'' 12"
proof -
  have 12: "12 \<in> bitmap_free demo_fs" "12 \<in> free_set demo_fs" "\<not> block_used demo_fs 12"
    using demo_free by (simp_all add: bitmap_free_def block_used_def demo_fs_def)
  then obtain b s' s'' where a: "fs_alloc_block demo_fs = Some (b, s')" "b \<in> bitmap_free demo_fs" "b \<le> 12"
      "\<forall>k. block_used s' k \<longleftrightarrow> k = unat b \<or> block_used demo_fs k" "fs_free_block b s' = Some (OS_OK, s'')" "block_used s'' = block_used demo_fs"
    using block_allocation [of demo_fs] by (metis empty_iff)
  have "12 \<le> b" using a(2) by (simp add: bitmap_free_def free_set_def demo_fs_def format_superblock_256)
  then have "b = 12" using a(3) by simp
  then show ?thesis using a 12 by simp
qed

theorem fs_format_mounts_witness:
  "\<exists>t s'. fs_format demo_env True 0 (demo_fs\<lparr>fm_mounted := False\<rparr>) = (OS_OK, t) \<and> mount_work demo_env t = Some (OS_OK, s') \<and>
    free_set s' = {b. 12 \<le> b \<and> b < 256}"
  using fs_format_mounts [where s = "demo_fs\<lparr>fm_mounted := False\<rparr>" and now = 0 and
      jb = "zero_bytes FS_BLOCK_SIZE" and ji = zero_inode and br = "\<lambda>_. zero_bytes 384" and bw = "\<lambda>_. Some"]
  by (auto simp: demo_fs_def ramdisk_ok_def ramdisk_init_def zero_bytes_def)

lemma demo_fsys_views: "fs_st demo_fsys = demo_fs" "\<not> m_locked (mutex_at (FILE_LOCK n) demo_fsys)" "on_cpu 3 demo_fsys"
proof -
  show "fs_st demo_fsys = demo_fs" by (simp add: demo_fsys_def sync.defs fsys.defs)
  have "sy_mutex demo_fsys = sy_mutex demo_sync" by (simp add: demo_fsys_def sync.defs fsys.defs)
  then show "\<not> m_locked (mutex_at (FILE_LOCK n) demo_fsys)" by (simp add: FILE_LOCK_def free_mutex_def)
  have "on_cpu 3 demo_fsys \<longleftrightarrow> on_cpu 3 demo_sync"
    by (rule on_cpu_kernel [of demo_fsys demo_sync]) (simp_all add: demo_fsys_def sync.defs fsys.defs sched_rel_def nexts_def [abs_def])
  then show "on_cpu 3 demo_fsys" using demo_sync_on_cpu by simp
qed

theorem fs_write_read_witness:
  "\<exists>s1 s2 s3. fs_write cs_back demo_env 0 [72, 105] demo_fsys = Some (2, s1) \<and> fs_seek cs_back 0 0 FS_SEEK_SET s1 = Some (0, s2) \<and>
    fs_read cs_back demo_env 0 2 s2 = Some ((2, [72, 105]), s3)"
proof -
  have lv: "leaves_fs (FILE_LOCK (nat 0)) (cs_back :: (ramdisk, unit) fsys_ext sswitch)"
    by (simp add: leaves_fs_def cs_back_def FILE_LOCK_def)
  have i: "file_inode demo_env (nat 0) (fs_st demo_fsys) = zero_inode" using demo_inode by (simp add: demo_fsys_views demo_fs_def)
  have h: "\<not> bad_fd 0 (fs_st demo_fsys)" "fh_flags (fm_files (fs_st demo_fsys) (nat 0)) = 3"
      "0 = unat (fh_position (fm_files (fs_st demo_fsys) (nat 0)))"
    by (simp_all add: demo_fsys_views demo_fs_def bad_fd_def FS_MAX_OPEN_FILES_def)
  have "room (fs_st demo_fsys) (in_blocks (file_inode demo_env (nat 0) (fs_st demo_fsys)))"
    unfolding i using demo_blocks(2) by (simp add: demo_fsys_views zero_inode_def)
  from fs_write_read [OF demo_fsys_views(3) cs_back_resumes lv demo_fsys_views(2) h(1,2) demo_file_ok [folded demo_fsys_views(1)]
      this h(3), of "[72, 105]"]
  show ?thesis unfolding i by (simp add: write_lands_def zero_inode_def)
qed

theorem fs_write_hole_lost_witness:
  "let s = snd (fs_write_inode demo_env 1 (zero_inode\<lparr>in_size := 1024\<rparr>) demo_fs) in
   \<exists>t u v. write_work demo_env 0 0 [72, 105] s = Some (2, t) \<and> seek_work 0 0 FS_SEEK_SET t = (0, u) \<and>
     read_work demo_env 0 2 u = ((0, []), v)"
proof -
  let ?x = "zero_inode\<lparr>in_size := 1024\<rparr>"
  have x: "length (in_blocks ?x) = 6" and v: "inode_valid demo_env demo_fs 1"
    by (simp_all add: zero_inode_def demo_inode_valid)
  obtain s where s: "fs_write_inode demo_env 1 ?x demo_fs = (OS_OK, s)" "cache_ok demo_env ramdisk_ok s" "same_rest demo_fs s"
      and i: "\<And>m. inode_valid demo_env demo_fs m \<Longrightarrow> disk_inode demo_env s m = (if m = 1 then ?x else disk_inode demo_env demo_fs m)"
    by (rule rdfs.write_inode_ok [OF demo_cache_ok v x]) (rule that)
  have fn: "fm_files s = fm_files demo_fs" "fh_inode (fm_files demo_fs 0) = 1" "fh_position (fm_files demo_fs 0) = 0"
    using s(3) by (simp_all add: same_rest_def demo_fs_def)
  have fi: "file_inode demo_env 0 s = ?x" using i [OF v] fn by simp
  have "file_ok demo_env ramdisk_ok 0 s"
    using demo_file_ok [of "zero_bytes FS_BLOCK_SIZE" zero_inode "\<lambda>_. zero_bytes 384" "\<lambda>_. Some" 0] s(2) fi demo_blocks(1) same_rest_layout [OF s(3)]
    by (simp add: file_ok_def fn inode_valid_def inode_block_same [OF s(3)] same_rest_super [OF s(3)] same_rest_blocks_ok [OF s(3)]
        zero_inode_def)
  moreover have "room s (in_blocks (file_inode demo_env 0 s))"
    using demo_blocks(2) unfolding fi by (simp add: room_def same_rest_free_set [OF s(3)] zero_inode_def)
  ultimately show ?thesis
    using fs_write_hole_lost [of "zero_bytes FS_BLOCK_SIZE" zero_inode "\<lambda>_. zero_bytes 384" "\<lambda>_. Some" 0 s 0 "[72, 105]" 0] s(1) fn unfolding fi
    by (auto simp: zero_inode_def)
qed

end
