(* ===== verification/Flash.thy ===== *)
theory Flash
  imports Memory Bytes
begin

text \<open>
  The flash driver \<^verbatim>\<open>drivers/flash.c\<close> with its simulated memory of 512 KB. The hooks
  \<^verbatim>\<open>platform_flash_*\<close> are the weak functions of the file, which decline every request. \<^verbatim>\<open>size_t\<close>
  has 32 bits. Buffers of a caller are lists of bytes, \<open>None\<close> for NULL; \<^verbatim>\<open>flash_write_verify\<close>
  works with a buffer from the heap of \<^verbatim>\<open>src/memory.c\<close>.
\<close>

section \<open>Data\<close>

definition FLASH_PAGE_SIZE :: u32 where "FLASH_PAGE_SIZE = 512"
definition FLASH_SECTOR_SIZE :: u32 where "FLASH_SECTOR_SIZE = 4096"
definition FLASH_TOTAL_SIZE :: u32 where "FLASH_TOTAL_SIZE = 512 * 1024"
definition FLASH_BOOTLOADER_START :: u32 where "FLASH_BOOTLOADER_START = 0"
definition FLASH_BOOTLOADER_SIZE :: u32 where "FLASH_BOOTLOADER_SIZE = 16 * 1024"
definition FLASH_APP_A_START :: u32 where "FLASH_APP_A_START = 0x00004000"
definition FLASH_APP_A_SIZE :: u32 where "FLASH_APP_A_SIZE = 240 * 1024"
definition FLASH_APP_B_START :: u32 where "FLASH_APP_B_START = 0x00040000"
definition FLASH_APP_B_SIZE :: u32 where "FLASH_APP_B_SIZE = 240 * 1024"
definition FLASH_DATA_START :: u32 where "FLASH_DATA_START = 0x0007C000"
definition FLASH_DATA_SIZE :: u32 where "FLASH_DATA_SIZE = 16 * 1024"

lemmas flash_consts = FLASH_PAGE_SIZE_def FLASH_SECTOR_SIZE_def FLASH_TOTAL_SIZE_def FLASH_BOOTLOADER_START_def
  FLASH_BOOTLOADER_SIZE_def FLASH_APP_A_START_def FLASH_APP_A_SIZE_def FLASH_APP_B_START_def FLASH_APP_B_SIZE_def
  FLASH_DATA_START_def FLASH_DATA_SIZE_def

datatype flash_error = FLASH_OK | FLASH_ERROR_INVALID_PARAM | FLASH_ERROR_NOT_ALIGNED | FLASH_ERROR_OUT_OF_RANGE
  | FLASH_ERROR_WRITE_PROTECTED | FLASH_ERROR_ERASE_FAILED | FLASH_ERROR_WRITE_FAILED | FLASH_ERROR_VERIFY_FAILED
  | FLASH_ERROR_BUSY | FLASH_ERROR_TIMEOUT

record flash_info =
  fi_total_size :: u32
  fi_page_size :: u32
  fi_sector_size :: u32
  fi_write_alignment :: u32
  fi_write_protection_enabled :: bool

text \<open>The static variables of the driver, next to the kernel and the heap.\<close>

record flash = memory +
  simulated_flash :: "nat \<Rightarrow> u8"
  flash_initialized :: bool
  write_protection_enabled :: bool
  protected_start :: u32
  protected_size :: u32

definition flash_bytes :: "nat \<Rightarrow> nat \<Rightarrow> 'a flash_scheme \<Rightarrow> u8 list" where
  "flash_bytes a n s = map (simulated_flash s) [a..<a + n]"

text \<open>\<^verbatim>\<open>memcpy(&simulated_flash[a], bs, n)\<close>\<close>

definition put_bytes :: "nat \<Rightarrow> u8 list \<Rightarrow> (nat \<Rightarrow> u8) \<Rightarrow> nat \<Rightarrow> u8" where
  "put_bytes a bs m = (\<lambda>i. if a \<le> i \<and> i < a + length bs then bs ! (i - a) else m i)"

section \<open>Helper functions\<close>

definition is_address_valid :: "u32 \<Rightarrow> u32 \<Rightarrow> bool" where
  "is_address_valid address n \<longleftrightarrow> n \<le> FLASH_TOTAL_SIZE \<and> address \<le> FLASH_TOTAL_SIZE - n"

definition is_sector_aligned :: "u32 \<Rightarrow> bool" where
  "is_sector_aligned address \<longleftrightarrow> address mod FLASH_SECTOR_SIZE = 0"

definition is_write_protected_range :: "u32 \<Rightarrow> u32 \<Rightarrow> 'a flash_scheme \<Rightarrow> bool" where
  "is_write_protected_range address n s =
    (if \<not> write_protection_enabled s then False
     else let finish = address + n;
              protected_end = protected_start s + protected_size s
          in \<not> (finish \<le> protected_start s \<or> address \<ge> protected_end))"

section \<open>Hooks of the platform\<close>

definition platform_flash_init :: flash_error where
  "platform_flash_init = FLASH_OK"

definition platform_flash_read :: "u32 \<Rightarrow> u32 \<Rightarrow> flash_error \<times> u8 list" where
  "platform_flash_read address n = (FLASH_ERROR_INVALID_PARAM, [])"

definition platform_flash_write :: "u32 \<Rightarrow> u8 list \<Rightarrow> u32 \<Rightarrow> flash_error" where
  "platform_flash_write address buffer n = FLASH_ERROR_INVALID_PARAM"

definition platform_flash_erase_sector :: "u32 \<Rightarrow> flash_error" where
  "platform_flash_erase_sector address = FLASH_ERROR_INVALID_PARAM"

section \<open>Operations\<close>

definition flash_init :: "'a flash_scheme \<Rightarrow> flash_error \<times> 'a flash_scheme" where
  "flash_init s =
    (if flash_initialized s then (FLASH_OK, s)
     else let s = s\<lparr>simulated_flash := (\<lambda>i. if i < unat FLASH_TOTAL_SIZE then 0xFF else simulated_flash s i)\<rparr>;
              err = platform_flash_init
          in if err \<noteq> FLASH_OK then (err, s) else (FLASH_OK, s\<lparr>flash_initialized := True\<rparr>))"

definition flash_get_info :: "bool \<Rightarrow> 'a flash_scheme \<Rightarrow> flash_error \<times> flash_info option" where
  "flash_get_info given s =
    (if \<not> given then (FLASH_ERROR_INVALID_PARAM, None)
     else (FLASH_OK, Some \<lparr>fi_total_size = FLASH_TOTAL_SIZE, fi_page_size = FLASH_PAGE_SIZE, fi_sector_size = FLASH_SECTOR_SIZE,
       fi_write_alignment = 4, fi_write_protection_enabled = write_protection_enabled s\<rparr>))"

text \<open>The second result is what is stored in the buffer, if anything is.\<close>

definition flash_read :: "u32 \<Rightarrow> bool \<Rightarrow> u32 \<Rightarrow> 'a flash_scheme \<Rightarrow> flash_error \<times> u8 list option" where
  "flash_read address given n s =
    (if \<not> given \<or> n = 0 then (FLASH_ERROR_INVALID_PARAM, None)
     else if \<not> flash_initialized s then (FLASH_ERROR_INVALID_PARAM, None)
     else if \<not> is_address_valid address n then (FLASH_ERROR_OUT_OF_RANGE, None)
     else let (err, bs) = platform_flash_read address n
          in if err = FLASH_OK then (FLASH_OK, Some bs)
             else (FLASH_OK, Some (flash_bytes (unat address) (unat n) s)))"

definition flash_read_byte :: "u32 \<Rightarrow> bool \<Rightarrow> 'a flash_scheme \<Rightarrow> flash_error \<times> u8 list option" where
  "flash_read_byte address given s = flash_read address given 1 s"

definition flash_read_word :: "u32 \<Rightarrow> bool \<Rightarrow> 'a flash_scheme \<Rightarrow> flash_error \<times> u8 list option" where
  "flash_read_word address given s =
    (if address mod 4 \<noteq> 0 then (FLASH_ERROR_NOT_ALIGNED, None) else flash_read address given 4 s)"

text \<open>The size of a buffer that is written is its length.\<close>

definition flash_write :: "u32 \<Rightarrow> u8 list option \<Rightarrow> 'a flash_scheme \<Rightarrow> flash_error \<times> 'a flash_scheme" where
  "flash_write address buffer s =
    (case buffer of
       None \<Rightarrow> (FLASH_ERROR_INVALID_PARAM, s)
     | Some bs \<Rightarrow>
        let n = of_nat (length bs)
        in if n = 0 then (FLASH_ERROR_INVALID_PARAM, s)
           else if \<not> flash_initialized s then (FLASH_ERROR_INVALID_PARAM, s)
           else if \<not> is_address_valid address n then (FLASH_ERROR_OUT_OF_RANGE, s)
           else if is_write_protected_range address n s then (FLASH_ERROR_WRITE_PROTECTED, s)
           else let err = platform_flash_write address bs n
                in if err = FLASH_OK then (FLASH_OK, s)
                   else (FLASH_OK, s\<lparr>simulated_flash := put_bytes (unat address) bs (simulated_flash s)\<rparr>))"

definition flash_write_byte :: "u32 \<Rightarrow> u8 \<Rightarrow> 'a flash_scheme \<Rightarrow> flash_error \<times> 'a flash_scheme" where
  "flash_write_byte address v s = flash_write address (Some [v]) s"

definition flash_write_word :: "u32 \<Rightarrow> u32 \<Rightarrow> 'a flash_scheme \<Rightarrow> flash_error \<times> 'a flash_scheme" where
  "flash_write_word address v s =
    (if address mod 4 \<noteq> 0 then (FLASH_ERROR_NOT_ALIGNED, s) else flash_write address (Some (le32 v)) s)"

text \<open>
  What bytes stored at \<open>a\<close> do to the block headers the allocator may later read there: the
  header has the bytes of \<^verbatim>\<open>next\<close>, \<^verbatim>\<open>allocated\<close>, three bytes of padding, and \<^verbatim>\<open>size\<close>.
\<close>

definition header_bytes :: "memory_block \<Rightarrow> u8 list" where
  "header_bytes b = le32 (case mb_next b of None \<Rightarrow> 0 | Some p \<Rightarrow> of_nat p) @ [if mb_allocated b then 1 else 0, 0, 0, 0] @ le32 (mb_size b)"

definition header_of :: "u8 list \<Rightarrow> memory_block" where
  "header_of bs = \<lparr>mb_next = (if get32 0 bs = 0 then None else Some (unat (get32 0 bs))), mb_allocated = (bs ! 4 \<noteq> 0),
     mb_size = get32 8 bs\<rparr>"

definition heap_store :: "addr \<Rightarrow> u8 list \<Rightarrow> 'a memory_scheme \<Rightarrow> 'a memory_scheme" where
  "heap_store a bs s = s\<lparr>mp_hdr := (\<lambda>x.
     if x + 12 \<le> a \<or> a + length bs \<le> x then mp_hdr s x
     else header_of (map (\<lambda>i. if a \<le> x + i \<and> x + i < a + length bs then bs ! (x + i - a) else header_bytes (mp_hdr s x) ! i) [0..<12]))\<rparr>"

definition flash_write_verify :: "u32 \<Rightarrow> u8 list option \<Rightarrow> 'a flash_scheme \<Rightarrow> (flash_error \<times> 'a flash_scheme) option" where
  "flash_write_verify address buffer s =
    (let (err, s) = flash_write address buffer s
     in if err \<noteq> FLASH_OK then Some (err, s)
        else
          let n = of_nat (length (the buffer)) in do {
            (p, s) \<leftarrow> os_malloc n s;
            (case p of
               None \<Rightarrow> Some (FLASH_ERROR_VERIFY_FAILED, s)
             | Some a \<Rightarrow>
                (case flash_read address True n s of
                   (err, bs) \<Rightarrow> do {
                     let s = (case bs of None \<Rightarrow> s | Some x \<Rightarrow> heap_store a x s);
                     s \<leftarrow> os_free p s;
                     Some (if err \<noteq> FLASH_OK then err
                           else if bs \<noteq> buffer then FLASH_ERROR_VERIFY_FAILED else FLASH_OK, s) })) })"

definition flash_erase_sector :: "u32 \<Rightarrow> 'a flash_scheme \<Rightarrow> flash_error \<times> 'a flash_scheme" where
  "flash_erase_sector address s =
    (if \<not> flash_initialized s then (FLASH_ERROR_INVALID_PARAM, s)
     else let sector_address = address div FLASH_SECTOR_SIZE * FLASH_SECTOR_SIZE
          in if \<not> is_address_valid sector_address FLASH_SECTOR_SIZE then (FLASH_ERROR_OUT_OF_RANGE, s)
             else if is_write_protected_range sector_address FLASH_SECTOR_SIZE s then (FLASH_ERROR_WRITE_PROTECTED, s)
             else let err = platform_flash_erase_sector sector_address
                  in if err = FLASH_OK then (FLASH_OK, s)
                     else (FLASH_OK, s\<lparr>simulated_flash :=
                       put_bytes (unat sector_address) (replicate (unat FLASH_SECTOR_SIZE) 0xFF) (simulated_flash s)\<rparr>))"

lemma is_address_valid_iff: "is_address_valid a n \<longleftrightarrow> unat a + unat n \<le> 524288"
proof (cases "unat n \<le> 524288")
  case True
  then have "unat (FLASH_TOTAL_SIZE - n) = 524288 - unat n" by (simp add: FLASH_TOTAL_SIZE_def unat_sub word_le_nat_alt)
  then show ?thesis using True by (auto simp: is_address_valid_def FLASH_TOTAL_SIZE_def word_le_nat_alt)
next
  case False
  then show ?thesis by (simp add: is_address_valid_def FLASH_TOTAL_SIZE_def word_le_nat_alt)
qed

lemma unat_sector: "unat (a div FLASH_SECTOR_SIZE * FLASH_SECTOR_SIZE) = unat a div 4096 * 4096"
proof -
  have "unat a div 4096 * 4096 \<le> unat a" by simp
  then have "unat a div 4096 * 4096 < 4294967296" using unat_u32_less [of a] by linarith
  then show ?thesis by (simp add: FLASH_SECTOR_SIZE_def unat_word_ariths unat_div)
qed

lemma erase_sector_ok_range:
  assumes "flash_erase_sector a s = (FLASH_OK, s')"
  shows "unat a < 524288"
proof -
  have "is_address_valid (a div FLASH_SECTOR_SIZE * FLASH_SECTOR_SIZE) FLASH_SECTOR_SIZE"
    using assms by (auto simp: flash_erase_sector_def Let_def split: if_splits)
  then have "unat a div 4096 * 4096 + 4096 \<le> 524288" unfolding is_address_valid_iff unat_sector by (simp add: FLASH_SECTOR_SIZE_def)
  moreover have "unat a < unat a div 4096 * 4096 + 4096" using div_mult_mod_eq [of "unat a" 4096] by (metis add_less_cancel_left mod_less_divisor zero_less_numeral)
  ultimately show ?thesis by linarith
qed

text \<open>The loop of \<^verbatim>\<open>flash_erase_range\<close>.\<close>

function erase_sectors :: "u32 \<Rightarrow> u32 \<Rightarrow> 'a flash_scheme \<Rightarrow> flash_error \<times> 'a flash_scheme" where
  "erase_sectors addr end_sector s =
    (if addr < end_sector
     then case flash_erase_sector addr s of
       (err, s) \<Rightarrow> if err \<noteq> FLASH_OK then (err, s) else erase_sectors (addr + FLASH_SECTOR_SIZE) end_sector s
     else (FLASH_OK, s))"
  by auto
termination
proof (relation "measure (\<lambda>(addr, _, _). 4294967296 - unat addr)", goal_cases)
  case (2 addr e s err s')
  then have "flash_erase_sector addr s = (FLASH_OK, s')" by auto
  then have "unat addr < 524288" by (rule erase_sector_ok_range)
  then have "unat (addr + FLASH_SECTOR_SIZE) = unat addr + 4096"
    by (subst unat_add_u32) (simp_all add: FLASH_SECTOR_SIZE_def)
  then show ?case using \<open>unat addr < 524288\<close> by simp
qed simp

declare erase_sectors.simps [simp del]

definition flash_erase_range :: "u32 \<Rightarrow> u32 \<Rightarrow> 'a flash_scheme \<Rightarrow> flash_error \<times> 'a flash_scheme" where
  "flash_erase_range start_address n s =
    (if \<not> flash_initialized s then (FLASH_ERROR_INVALID_PARAM, s)
     else let start_sector = start_address div FLASH_SECTOR_SIZE * FLASH_SECTOR_SIZE;
              end_address = start_address + n;
              end_sector = (end_address + FLASH_SECTOR_SIZE - 1) div FLASH_SECTOR_SIZE * FLASH_SECTOR_SIZE
          in erase_sectors start_sector end_sector s)"

definition flash_erase_chip :: "'a flash_scheme \<Rightarrow> flash_error \<times> 'a flash_scheme" where
  "flash_erase_chip s =
    (if \<not> flash_initialized s then (FLASH_ERROR_INVALID_PARAM, s)
     else if write_protection_enabled s then (FLASH_ERROR_WRITE_PROTECTED, s)
     else (FLASH_OK, s\<lparr>simulated_flash := (\<lambda>i. if i < unat FLASH_TOTAL_SIZE then 0xFF else simulated_flash s i)\<rparr>))"

definition flash_enable_write_protection :: "u32 \<Rightarrow> u32 \<Rightarrow> 'a flash_scheme \<Rightarrow> flash_error \<times> 'a flash_scheme" where
  "flash_enable_write_protection start_address n s =
    (if \<not> is_address_valid start_address n then (FLASH_ERROR_OUT_OF_RANGE, s)
     else (FLASH_OK, s\<lparr>protected_start := start_address, protected_size := n, write_protection_enabled := True\<rparr>))"

definition flash_disable_write_protection :: "'a flash_scheme \<Rightarrow> flash_error \<times> 'a flash_scheme" where
  "flash_disable_write_protection s =
    (FLASH_OK, s\<lparr>write_protection_enabled := False, protected_start := 0, protected_size := 0\<rparr>)"

definition flash_is_write_protected :: "u32 \<Rightarrow> 'a flash_scheme \<Rightarrow> bool" where
  "flash_is_write_protected address s =
    (if \<not> write_protection_enabled s then False
     else address \<ge> protected_start s \<and> address < protected_start s + protected_size s)"

definition flash_is_busy :: bool where
  "flash_is_busy = False"

definition flash_wait_ready :: "u32 \<Rightarrow> flash_error" where
  "flash_wait_ready timeout_ms = FLASH_OK"

primrec flash_error_to_string :: "flash_error \<Rightarrow> string" where
  "flash_error_to_string FLASH_OK = ''OK''"
| "flash_error_to_string FLASH_ERROR_INVALID_PARAM = ''Invalid parameter''"
| "flash_error_to_string FLASH_ERROR_NOT_ALIGNED = ''Not aligned''"
| "flash_error_to_string FLASH_ERROR_OUT_OF_RANGE = ''Out of range''"
| "flash_error_to_string FLASH_ERROR_WRITE_PROTECTED = ''Write protected''"
| "flash_error_to_string FLASH_ERROR_ERASE_FAILED = ''Erase failed''"
| "flash_error_to_string FLASH_ERROR_WRITE_FAILED = ''Write failed''"
| "flash_error_to_string FLASH_ERROR_VERIFY_FAILED = ''Verify failed''"
| "flash_error_to_string FLASH_ERROR_BUSY = ''Busy''"
| "flash_error_to_string FLASH_ERROR_TIMEOUT = ''Timeout''"

end
