(* ===== verification/OTA.thy ===== *)
theory OTA
  imports Flash
begin

text \<open>
  Firmware updates, \<^verbatim>\<open>src/ota.c\<close>: the partition table, the record of what to boot in the data
  partition, and the operations that write an image to the partition that is not running.

  The structures on the flash have the layout of the target's ABI, where an enumeration with
  few values takes one byte: \<^verbatim>\<open>boot_info_t\<close> has 24 bytes, with two bytes of padding before
  \<^verbatim>\<open>boot_count\<close> and before \<^verbatim>\<open>crc32\<close>. The callback of the application and the HTTP client are
  arguments (\<open>ota_env\<close>).
\<close>

section \<open>Data\<close>

datatype ota_error = OTA_OK | OTA_ERROR_INVALID_PARAM | OTA_ERROR_NOT_INITIALIZED | OTA_ERROR_FLASH_ERROR
  | OTA_ERROR_DOWNLOAD_FAILED | OTA_ERROR_VERIFICATION_FAILED | OTA_ERROR_NO_SPACE | OTA_ERROR_INVALID_IMAGE
  | OTA_ERROR_ROLLBACK_FAILED | OTA_ERROR_TIMEOUT | OTA_ERROR_NETWORK | OTA_ERROR_BUSY

definition OTA_PARTITION_BOOTLOADER :: u8 where "OTA_PARTITION_BOOTLOADER = 0"
definition OTA_PARTITION_APP_A :: u8 where "OTA_PARTITION_APP_A = 1"
definition OTA_PARTITION_APP_B :: u8 where "OTA_PARTITION_APP_B = 2"
definition OTA_PARTITION_DATA :: u8 where "OTA_PARTITION_DATA = 3"
definition OTA_PARTITION_MAX :: u8 where "OTA_PARTITION_MAX = 4"

lemmas ota_partitions = OTA_PARTITION_BOOTLOADER_def OTA_PARTITION_APP_A_def OTA_PARTITION_APP_B_def
  OTA_PARTITION_DATA_def OTA_PARTITION_MAX_def

datatype ota_partition_state = OTA_PARTITION_STATE_INVALID | OTA_PARTITION_STATE_VALID | OTA_PARTITION_STATE_PENDING
  | OTA_PARTITION_STATE_ACTIVE | OTA_PARTITION_STATE_FAILED

datatype ota_state_t = OTA_STATE_IDLE | OTA_STATE_DOWNLOADING | OTA_STATE_VERIFYING | OTA_STATE_WRITING
  | OTA_STATE_COMPLETE | OTA_STATE_FAILED | OTA_STATE_ROLLING_BACK

record ota_image_header =
  ih_magic :: u32
  ih_version :: u32
  ih_version_string :: "u8 list"
  ih_image_size :: u32
  ih_crc32 :: u32
  ih_signature :: "u8 list"
  ih_timestamp :: u32
  ih_flags :: u32
  ih_reserved :: "u32 list"

definition IMAGE_HEADER_SIZE :: nat where "IMAGE_HEADER_SIZE = 104"

definition decode_image_header :: "u8 list \<Rightarrow> ota_image_header" where
  "decode_image_header bs = \<lparr>ih_magic = get32 0 bs, ih_version = get32 4 bs, ih_version_string = take 32 (drop 8 bs),
     ih_image_size = get32 40 bs, ih_crc32 = get32 44 bs, ih_signature = take 32 (drop 48 bs), ih_timestamp = get32 80 bs,
     ih_flags = get32 84 bs, ih_reserved = map (\<lambda>i. get32 (88 + 4 * i) bs) [0..<4]\<rparr>"

record ota_partition_info =
  pi_type :: u8
  pi_start_address :: u32
  pi_size :: u32
  pi_state :: ota_partition_state
  pi_version :: u32
  pi_boot_count :: u32
  pi_last_boot_timestamp :: u32

record ota_config =
  oc_server_url :: ptr
  oc_firmware_path :: ptr
  oc_timeout_ms :: u32
  oc_retry_count :: u32
  oc_verify_signature :: bool
  oc_auto_rollback :: bool
  oc_signature_key :: ptr
  oc_signature_key_len :: u16

record ota_progress =
  op_state :: ota_state_t
  op_total_bytes :: u32
  op_downloaded_bytes :: u32
  op_written_bytes :: u32
  op_progress_percent :: u8
  op_last_error :: ota_error

definition OTA_MAGIC_NUMBER :: u32 where "OTA_MAGIC_NUMBER = 0x544F5346"
definition OTA_MAX_DOWNLOAD_SIZE :: u32 where "OTA_MAX_DOWNLOAD_SIZE = 240 * 1024"
definition OTA_BOOTINFO_MAGIC :: u32 where "OTA_BOOTINFO_MAGIC = 0x424F4F54"

text \<open>The booleans are the bytes on the flash, true when they are not 0.\<close>

record boot_info =
  bi_magic :: u32
  bi_active_partition :: u8
  bi_pending_partition :: u8
  bi_pad1 :: u16
  bi_boot_count :: u32
  bi_rollback_count :: u32
  bi_rollback_enabled :: u8
  bi_boot_confirmed :: u8
  bi_pad2 :: u16
  bi_crc32 :: u32

definition BOOT_INFO_SIZE :: nat where "BOOT_INFO_SIZE = 24"

definition encode_boot_info :: "boot_info \<Rightarrow> u8 list" where
  "encode_boot_info b = le32 (bi_magic b) @ [bi_active_partition b, bi_pending_partition b] @ le16 (bi_pad1 b) @ le32 (bi_boot_count b) @
     le32 (bi_rollback_count b) @ [bi_rollback_enabled b, bi_boot_confirmed b] @ le16 (bi_pad2 b) @ le32 (bi_crc32 b)"

definition decode_boot_info :: "u8 list \<Rightarrow> boot_info" where
  "decode_boot_info bs = \<lparr>bi_magic = get32 0 bs, bi_active_partition = bs ! 4, bi_pending_partition = bs ! 5, bi_pad1 = get16 6 bs,
     bi_boot_count = get32 8 bs, bi_rollback_count = get32 12 bs, bi_rollback_enabled = bs ! 16, bi_boot_confirmed = bs ! 17,
     bi_pad2 = get16 18 bs, bi_crc32 = get32 20 bs\<rparr>"

definition zero_boot_info :: boot_info where
  "zero_boot_info = \<lparr>bi_magic = 0, bi_active_partition = 0, bi_pending_partition = 0, bi_pad1 = 0, bi_boot_count = 0,
     bi_rollback_count = 0, bi_rollback_enabled = 0, bi_boot_confirmed = 0, bi_pad2 = 0, bi_crc32 = 0\<rparr>"

definition partition_table :: "ota_partition_info list" where
  "partition_table =
    [\<lparr>pi_type = OTA_PARTITION_BOOTLOADER, pi_start_address = FLASH_BOOTLOADER_START, pi_size = FLASH_BOOTLOADER_SIZE,
       pi_state = OTA_PARTITION_STATE_VALID, pi_version = 0, pi_boot_count = 0, pi_last_boot_timestamp = 0\<rparr>,
     \<lparr>pi_type = OTA_PARTITION_APP_A, pi_start_address = FLASH_APP_A_START, pi_size = FLASH_APP_A_SIZE,
       pi_state = OTA_PARTITION_STATE_ACTIVE, pi_version = 0, pi_boot_count = 0, pi_last_boot_timestamp = 0\<rparr>,
     \<lparr>pi_type = OTA_PARTITION_APP_B, pi_start_address = FLASH_APP_B_START, pi_size = FLASH_APP_B_SIZE,
       pi_state = OTA_PARTITION_STATE_INVALID, pi_version = 0, pi_boot_count = 0, pi_last_boot_timestamp = 0\<rparr>,
     \<lparr>pi_type = OTA_PARTITION_DATA, pi_start_address = FLASH_DATA_START, pi_size = FLASH_DATA_SIZE,
       pi_state = OTA_PARTITION_STATE_VALID, pi_version = 0, pi_boot_count = 0, pi_last_boot_timestamp = 0\<rparr>]"

text \<open>\<^verbatim>\<open>ota_state\<close> and the CRC table, next to the flash driver.\<close>

record ota = flash +
  ot_initialized :: bool
  ot_config :: ota_config
  ot_progress :: ota_progress
  ot_callback :: ptr
  ot_callback_user_data :: ptr
  ot_running_partition :: u8
  ot_update_partition :: u8
  ot_boot_info :: boot_info
  ot_download_offset :: u32
  ot_current_header :: ota_image_header
  crc32_table :: "nat \<Rightarrow> u32"
  crc32_table_initialized :: bool

text \<open>
  The application's callback; \<^verbatim>\<open>net_http_get\<close>, which gives the body of the response unless it is
  NULL; and \<^verbatim>\<open>net_http_free_response\<close>.
\<close>

record 'a ota_env =
  ota_call :: "addr \<Rightarrow> ota_progress \<Rightarrow> ptr \<Rightarrow> 'a ota_scheme \<Rightarrow> 'a ota_scheme"
  ota_http_get :: "string \<Rightarrow> u32 \<Rightarrow> 'a ota_scheme \<Rightarrow> os_error \<times> u8 list option \<times> 'a ota_scheme"
  ota_http_free :: "'a ota_scheme \<Rightarrow> 'a ota_scheme"

section \<open>CRC-32\<close>

definition crc_bit :: "u32 \<Rightarrow> u32" where
  "crc_bit crc = (if crc AND 1 \<noteq> 0 then drop_bit 1 crc XOR 0xEDB88320 else drop_bit 1 crc)"

definition crc32_init_table :: "'a ota_scheme \<Rightarrow> 'a ota_scheme" where
  "crc32_init_table s =
    (if crc32_table_initialized s then s
     else s\<lparr>crc32_table := (\<lambda>i. if i < 256 then (crc_bit ^^ 8) (of_nat i) else crc32_table s i), crc32_table_initialized := True\<rparr>)"

definition crc32_step :: "(nat \<Rightarrow> u32) \<Rightarrow> u8 \<Rightarrow> u32 \<Rightarrow> u32" where
  "crc32_step table byte crc = drop_bit 8 crc XOR table (unat ((crc XOR ucast byte) AND 0xFF))"

definition crc32_calculate :: "u8 list \<Rightarrow> 'a ota_scheme \<Rightarrow> u32 \<times> 'a ota_scheme" where
  "crc32_calculate data s =
    (let s = crc32_init_table s in (NOT (fold (crc32_step (crc32_table s)) data 0xFFFFFFFF), s))"

section \<open>Boot information\<close>

definition save_boot_info :: "'a ota_scheme \<Rightarrow> ota_error \<times> 'a ota_scheme" where
  "save_boot_info s =
    (let (crc, s) = crc32_calculate (take (BOOT_INFO_SIZE - 4) (encode_boot_info (ot_boot_info s))) s;
         s = s\<lparr>ot_boot_info := (ot_boot_info s)\<lparr>bi_crc32 := crc\<rparr>\<rparr>;
         (err, s) = flash_erase_sector FLASH_DATA_START s
     in if err \<noteq> FLASH_OK then (OTA_ERROR_FLASH_ERROR, s)
        else let (err, s) = flash_write FLASH_DATA_START (Some (encode_boot_info (ot_boot_info s))) s
             in if err \<noteq> FLASH_OK then (OTA_ERROR_FLASH_ERROR, s) else (OTA_OK, s))"

definition load_boot_info :: "'a ota_scheme \<Rightarrow> ota_error \<times> 'a ota_scheme" where
  "load_boot_info s =
    (let (err, bs) = flash_read FLASH_DATA_START True (of_nat BOOT_INFO_SIZE) s;
         s = (case bs of None \<Rightarrow> s | Some x \<Rightarrow> s\<lparr>ot_boot_info := decode_boot_info x\<rparr>)
     in if err \<noteq> FLASH_OK then (OTA_ERROR_FLASH_ERROR, s)
        else if bi_magic (ot_boot_info s) \<noteq> OTA_BOOTINFO_MAGIC
        then save_boot_info (s\<lparr>ot_boot_info := zero_boot_info\<lparr>bi_magic := OTA_BOOTINFO_MAGIC,
               bi_active_partition := OTA_PARTITION_APP_A, bi_pending_partition := OTA_PARTITION_APP_A,
               bi_rollback_enabled := 1, bi_boot_confirmed := 1\<rparr>\<rparr>)
        else (OTA_OK, s))"

section \<open>Initialisation and configuration\<close>

definition default_config :: ota_config where
  "default_config = \<lparr>oc_server_url = None, oc_firmware_path = None, oc_timeout_ms = 30000, oc_retry_count = 3,
     oc_verify_signature = True, oc_auto_rollback = True, oc_signature_key = None, oc_signature_key_len = 0\<rparr>"

definition other_app :: "u8 \<Rightarrow> u8" where
  "other_app p = (if p = OTA_PARTITION_APP_A then OTA_PARTITION_APP_B else OTA_PARTITION_APP_A)"

definition ota_init :: "ota_config option \<Rightarrow> 'a ota_scheme \<Rightarrow> ota_error \<times> 'a ota_scheme" where
  "ota_init config s =
    (if ot_initialized s then (OTA_OK, s)
     else
       let (flash_err, s) = flash_init s
       in if flash_err \<noteq> FLASH_OK then (OTA_ERROR_FLASH_ERROR, s)
          else
            let s = s\<lparr>ot_config := (case config of None \<Rightarrow> default_config | Some c \<Rightarrow> c)\<rparr>;
                (err, s) = load_boot_info s
            in if err \<noteq> OTA_OK then (err, s)
               else
                 let s = s\<lparr>ot_running_partition := bi_active_partition (ot_boot_info s)\<rparr>;
                     s = s\<lparr>ot_update_partition := other_app (ot_running_partition s)\<rparr>
                 in (OTA_OK, s\<lparr>ot_progress := \<lparr>op_state = OTA_STATE_IDLE, op_total_bytes = 0, op_downloaded_bytes = 0,
                       op_written_bytes = 0, op_progress_percent = 0, op_last_error = OTA_OK\<rparr>, ot_initialized := True\<rparr>))"

definition ota_get_config :: "bool \<Rightarrow> 'a ota_scheme \<Rightarrow> ota_error \<times> ota_config option" where
  "ota_get_config given s =
    (if \<not> ot_initialized s \<or> \<not> given then (OTA_ERROR_INVALID_PARAM, None) else (OTA_OK, Some (ot_config s)))"

definition ota_set_config :: "ota_config option \<Rightarrow> 'a ota_scheme \<Rightarrow> ota_error \<times> 'a ota_scheme" where
  "ota_set_config config s =
    (if \<not> ot_initialized s \<or> config = None then (OTA_ERROR_INVALID_PARAM, s)
     else (OTA_OK, s\<lparr>ot_config := the config\<rparr>))"

section \<open>Partitions\<close>

definition ota_get_partition_info :: "u8 \<Rightarrow> bool \<Rightarrow> ota_error \<times> ota_partition_info option" where
  "ota_get_partition_info typ given =
    (if typ \<ge> OTA_PARTITION_MAX \<or> \<not> given then (OTA_ERROR_INVALID_PARAM, None)
     else (OTA_OK, Some (partition_table ! unat typ)))"

definition ota_get_running_partition :: "'a ota_scheme \<Rightarrow> u8" where
  "ota_get_running_partition s = ot_running_partition s"

definition ota_get_update_partition :: "'a ota_scheme \<Rightarrow> u8" where
  "ota_get_update_partition s = ot_update_partition s"

definition ota_mark_partition_valid :: "u8 \<Rightarrow> ota_error" where
  "ota_mark_partition_valid typ = (if typ \<ge> OTA_PARTITION_MAX then OTA_ERROR_INVALID_PARAM else OTA_OK)"

definition ota_mark_partition_invalid :: "u8 \<Rightarrow> ota_error" where
  "ota_mark_partition_invalid typ = (if typ \<ge> OTA_PARTITION_MAX then OTA_ERROR_INVALID_PARAM else OTA_OK)"

section \<open>Verification\<close>

definition ota_verify_image_header :: "ota_image_header option \<Rightarrow> ota_error" where
  "ota_verify_image_header header =
    (case header of
       None \<Rightarrow> OTA_ERROR_INVALID_PARAM
     | Some h \<Rightarrow>
        if ih_magic h \<noteq> OTA_MAGIC_NUMBER then OTA_ERROR_INVALID_IMAGE
        else if ih_image_size h = 0 \<or> ih_image_size h > OTA_MAX_DOWNLOAD_SIZE then OTA_ERROR_INVALID_IMAGE
        else OTA_OK)"

definition ota_verify_partition :: "u8 \<Rightarrow> 'a ota_scheme \<Rightarrow> ota_error" where
  "ota_verify_partition typ s =
    (if typ \<ge> OTA_PARTITION_MAX then OTA_ERROR_INVALID_PARAM
     else
       let partition_info = the (snd (ota_get_partition_info typ True));
           (flash_err, bs) = flash_read (pi_start_address partition_info) True (of_nat IMAGE_HEADER_SIZE) s
       in if flash_err \<noteq> FLASH_OK then OTA_ERROR_FLASH_ERROR
          else ota_verify_image_header (Some (decode_image_header (the bs))))"

text \<open>The loop of \<^verbatim>\<open>ota_compute_crc32\<close>, with the buffer at \<open>buffer\<close>; \<open>Inl\<close> when a read fails.\<close>

function crc_chunks :: "u32 \<Rightarrow> addr \<Rightarrow> u32 \<Rightarrow> u32 \<Rightarrow> u32 \<Rightarrow> 'a ota_scheme \<Rightarrow> (unit + u32) \<times> 'a ota_scheme" where
  "crc_chunks start buffer remaining offset computed_crc s =
    (if remaining > 0
     then let chunk_size = (if remaining < 4096 then remaining else 4096);
              (flash_err, bs) = flash_read (start + offset) True chunk_size s
          in if flash_err \<noteq> FLASH_OK then (Inl (), s)
             else let s = heap_store buffer (the bs) s;
                      crc = fold (crc32_step (crc32_table s)) (the bs) computed_crc
                  in crc_chunks start buffer (remaining - chunk_size) (offset + chunk_size) crc s
     else (Inr computed_crc, s))"
  by auto
termination
proof (relation "measure (\<lambda>(start, b, r, off, c, s). unat r)", goal_cases)
  case (2 start b r off c s chunk)
  then have le: "chunk \<le> r" "0 < chunk" by (auto simp: word_le_nat_alt word_less_nat_alt split: if_splits)
  then have "unat (r - chunk) = unat r - unat chunk" by (simp add: unat_sub)
  then show ?case using le 2(1) by (simp add: word_less_nat_alt)
qed simp

declare crc_chunks.simps [simp del]

definition ota_compute_crc32 :: "u8 \<Rightarrow> bool \<Rightarrow> 'a ota_scheme \<Rightarrow> ((ota_error \<times> u32 option) \<times> 'a ota_scheme) option" where
  "ota_compute_crc32 typ given s =
    (if typ \<ge> OTA_PARTITION_MAX \<or> \<not> given then Some ((OTA_ERROR_INVALID_PARAM, None), s)
     else
       let partition_info = the (snd (ota_get_partition_info typ True)) in do {
         (p, s) \<leftarrow> os_malloc 4096 s;
         (case p of
            None \<Rightarrow> Some ((OTA_ERROR_FLASH_ERROR, None), s)
          | Some buffer \<Rightarrow>
             let s = crc32_init_table s
             in (case crc_chunks (pi_start_address partition_info) buffer (pi_size partition_info) 0 0xFFFFFFFF s of
                   (r, s) \<Rightarrow> do {
                     s \<leftarrow> os_free p s;
                     Some ((case r of Inl _ \<Rightarrow> (OTA_ERROR_FLASH_ERROR, None) | Inr crc \<Rightarrow> (OTA_OK, Some (NOT crc))), s) })) })"

definition ota_verify_signature :: "u8 \<Rightarrow> ptr \<Rightarrow> u16 \<Rightarrow> ota_error" where
  "ota_verify_signature typ public_key key_len = OTA_OK"

section \<open>Updates\<close>

definition report_progress :: "'a ota_env \<Rightarrow> 'a ota_scheme \<Rightarrow> 'a ota_scheme" where
  "report_progress E s =
    (case ot_callback s of None \<Rightarrow> s | Some f \<Rightarrow> ota_call E f (ot_progress s) (ot_callback_user_data s) s)"

definition upd_progress :: "(ota_progress \<Rightarrow> ota_progress) \<Rightarrow> 'a ota_scheme \<Rightarrow> 'a ota_scheme" where
  "upd_progress f s = s\<lparr>ot_progress := f (ot_progress s)\<rparr>"

text \<open>The error exit of the update functions.\<close>

definition update_failed :: "'a ota_env \<Rightarrow> ota_error \<Rightarrow> 'a ota_scheme \<Rightarrow> ota_error \<times> 'a ota_scheme" where
  "update_failed E err s =
    (err, report_progress E (upd_progress (\<lambda>p. p\<lparr>op_state := OTA_STATE_FAILED, op_last_error := err\<rparr>) s))"

text \<open>From the erasure of the update partition on.\<close>

definition install_image :: "'a ota_env \<Rightarrow> u8 list \<Rightarrow> 'a ota_scheme \<Rightarrow> ota_error \<times> 'a ota_scheme" where
  "install_image E data s =
    (let partition_info = the (snd (ota_get_partition_info (ot_update_partition s) True));
         (flash_err, s) = flash_erase_range (pi_start_address partition_info) (pi_size partition_info) s
     in if flash_err \<noteq> FLASH_OK then update_failed E OTA_ERROR_FLASH_ERROR s
        else
          let (flash_err, s) = flash_write (pi_start_address partition_info) (Some data) s
          in if flash_err \<noteq> FLASH_OK then update_failed E OTA_ERROR_FLASH_ERROR s
             else
               let s = report_progress E (upd_progress (\<lambda>p. p\<lparr>op_written_bytes := of_nat (length data),
                         op_progress_percent := 100, op_state := OTA_STATE_VERIFYING\<rparr>) s);
                   err = ota_verify_partition (ot_update_partition s) s
               in if err \<noteq> OTA_OK then update_failed E err s
                  else
                    let s = s\<lparr>ot_boot_info := (ot_boot_info s)\<lparr>bi_pending_partition := ot_update_partition s, bi_boot_confirmed := 0\<rparr>\<rparr>;
                        s = snd (save_boot_info s)
                    in (OTA_OK, report_progress E (upd_progress (\<lambda>p. p\<lparr>op_state := OTA_STATE_COMPLETE\<rparr>) s)))"

definition ota_start_update_from_buffer ::
    "'a ota_env \<Rightarrow> u8 list option \<Rightarrow> ptr \<Rightarrow> ptr \<Rightarrow> 'a ota_scheme \<Rightarrow> ota_error \<times> 'a ota_scheme" where
  "ota_start_update_from_buffer E firmware_data callback user_data s =
    (case firmware_data of
       None \<Rightarrow> (OTA_ERROR_INVALID_PARAM, s)
     | Some data \<Rightarrow>
        let n = of_nat (length data)
        in if \<not> ot_initialized s \<or> n = 0 then (OTA_ERROR_INVALID_PARAM, s)
           else if n > OTA_MAX_DOWNLOAD_SIZE then (OTA_ERROR_NO_SPACE, s)
           else
             let s = s\<lparr>ot_callback := callback, ot_callback_user_data := user_data\<rparr>
             in if n < of_nat IMAGE_HEADER_SIZE then update_failed E OTA_ERROR_INVALID_IMAGE s
                else
                  let s = s\<lparr>ot_current_header := decode_image_header (take IMAGE_HEADER_SIZE data)\<rparr>;
                      err = ota_verify_image_header (Some (ot_current_header s))
                  in if err \<noteq> OTA_OK then update_failed E err s
                     else install_image E data (report_progress E (upd_progress
                            (\<lambda>p. p\<lparr>op_state := OTA_STATE_WRITING, op_total_bytes := n, op_downloaded_bytes := n\<rparr>) s)))"

definition ota_start_update :: "'a ota_env \<Rightarrow> string option \<Rightarrow> ptr \<Rightarrow> ptr \<Rightarrow> 'a ota_scheme \<Rightarrow> ota_error \<times> 'a ota_scheme" where
  "ota_start_update E url callback user_data s =
    (if \<not> ot_initialized s \<or> url = None then (OTA_ERROR_INVALID_PARAM, s)
     else if op_state (ot_progress s) \<noteq> OTA_STATE_IDLE then (OTA_ERROR_BUSY, s)
     else
       let s = s\<lparr>ot_callback := callback, ot_callback_user_data := user_data, ot_download_offset := 0\<rparr>;
           s = report_progress E (upd_progress (\<lambda>p. p\<lparr>op_state := OTA_STATE_DOWNLOADING, op_downloaded_bytes := 0,
                 op_written_bytes := 0, op_progress_percent := 0\<rparr>) s);
           (net_err, body, s) = ota_http_get E (the url) (oc_timeout_ms (ot_config s)) s
       in if net_err \<noteq> OS_OK then update_failed E OTA_ERROR_DOWNLOAD_FAILED s
          else let (err, s) = ota_start_update_from_buffer E body callback user_data s in (err, ota_http_free E s))"

definition ota_write_chunk :: "'a ota_env \<Rightarrow> u8 list option \<Rightarrow> u32 \<Rightarrow> 'a ota_scheme \<Rightarrow> ota_error \<times> 'a ota_scheme" where
  "ota_write_chunk E data offset s =
    (if \<not> ot_initialized s \<or> data = None then (OTA_ERROR_INVALID_PARAM, s)
     else
       let n = of_nat (length (the data));
           partition_info = the (snd (ota_get_partition_info (ot_update_partition s) True))
       in if offset + n > pi_size partition_info then (OTA_ERROR_NO_SPACE, s)
          else
            let (flash_err, s) = flash_write (pi_start_address partition_info + offset) data s
            in if flash_err \<noteq> FLASH_OK then (OTA_ERROR_FLASH_ERROR, s)
               else
                 let s = upd_progress (\<lambda>p. p\<lparr>op_written_bytes := op_written_bytes p + n\<rparr>) s;
                     s = (if op_total_bytes (ot_progress s) > 0
                          then upd_progress (\<lambda>p. p\<lparr>op_progress_percent := ucast (op_written_bytes p * 100 div op_total_bytes p)\<rparr>) s
                          else s)
                 in (OTA_OK, report_progress E s))"

definition ota_set_boot_partition :: "u8 \<Rightarrow> 'a ota_scheme \<Rightarrow> ota_error \<times> 'a ota_scheme" where
  "ota_set_boot_partition typ s =
    (if typ \<ge> OTA_PARTITION_MAX then (OTA_ERROR_INVALID_PARAM, s)
     else save_boot_info (s\<lparr>ot_boot_info := (ot_boot_info s)\<lparr>bi_pending_partition := typ, bi_boot_confirmed := 0\<rparr>\<rparr>))"

definition ota_finalize_update :: "'a ota_scheme \<Rightarrow> ota_error \<times> 'a ota_scheme" where
  "ota_finalize_update s =
    (if \<not> ot_initialized s then (OTA_ERROR_NOT_INITIALIZED, s)
     else if op_state (ot_progress s) \<noteq> OTA_STATE_COMPLETE then (OTA_ERROR_INVALID_PARAM, s)
     else ota_set_boot_partition (ot_update_partition s) s)"

definition ota_abort_update :: "'a ota_scheme \<Rightarrow> ota_error \<times> 'a ota_scheme" where
  "ota_abort_update s =
    (if \<not> ot_initialized s then (OTA_ERROR_NOT_INITIALIZED, s)
     else (OTA_OK, upd_progress (\<lambda>p. p\<lparr>op_state := OTA_STATE_IDLE, op_total_bytes := 0, op_downloaded_bytes := 0,
             op_written_bytes := 0, op_progress_percent := 0\<rparr>) s))"

definition ota_get_progress :: "bool \<Rightarrow> 'a ota_scheme \<Rightarrow> ota_error \<times> ota_progress option" where
  "ota_get_progress given s =
    (if \<not> ot_initialized s \<or> \<not> given then (OTA_ERROR_INVALID_PARAM, None) else (OTA_OK, Some (ot_progress s)))"

section \<open>Boot control\<close>

definition ota_reboot :: ota_error where
  "ota_reboot = OTA_OK"

definition ota_rollback :: "'a ota_scheme \<Rightarrow> ota_error \<times> 'a ota_scheme" where
  "ota_rollback s =
    (if \<not> ot_initialized s then (OTA_ERROR_NOT_INITIALIZED, s)
     else
       let rollback_partition = other_app (ot_running_partition s);
           s = s\<lparr>ot_boot_info := (ot_boot_info s)\<lparr>bi_active_partition := rollback_partition, bi_pending_partition := rollback_partition,
                 bi_boot_confirmed := 1, bi_rollback_count := bi_rollback_count (ot_boot_info s) + 1\<rparr>\<rparr>;
           s = snd (save_boot_info s)
       in (ota_reboot, s))"

definition ota_confirm_boot :: "'a ota_scheme \<Rightarrow> ota_error \<times> 'a ota_scheme" where
  "ota_confirm_boot s =
    (if \<not> ot_initialized s then (OTA_ERROR_NOT_INITIALIZED, s)
     else save_boot_info (s\<lparr>ot_boot_info := (ot_boot_info s)\<lparr>bi_boot_confirmed := 1,
            bi_active_partition := ot_running_partition s\<rparr>\<rparr>))"

definition ota_is_rollback_needed :: "'a ota_scheme \<Rightarrow> bool" where
  "ota_is_rollback_needed s =
    (if \<not> ot_initialized s then False
     else bi_boot_confirmed (ot_boot_info s) = 0 \<and> bi_rollback_enabled (ot_boot_info s) \<noteq> 0)"

section \<open>Versions and texts\<close>

definition ota_get_running_version :: "'a ota_scheme \<Rightarrow> u32" where
  "ota_get_running_version s = ih_version (ot_current_header s)"

text \<open>The bytes \<^verbatim>\<open>snprintf\<close> stores; \<open>None\<close> when the version string is not terminated within its member.\<close>

definition ota_get_running_version_string :: "bool \<Rightarrow> u32 \<Rightarrow> 'a ota_scheme \<Rightarrow> (ota_error \<times> u8 list) option" where
  "ota_get_running_version_string given n s =
    (if \<not> given \<or> n = 0 then Some (OTA_ERROR_INVALID_PARAM, [])
     else if 0 \<notin> set (ih_version_string (ot_current_header s)) then None
     else Some (OTA_OK, take (unat n - 1) (takeWhile (\<lambda>c. c \<noteq> 0) (ih_version_string (ot_current_header s))) @ [0]))"

definition ota_get_partition_version :: "u8 \<Rightarrow> 'a ota_scheme \<Rightarrow> u32" where
  "ota_get_partition_version typ s =
    (if typ \<ge> OTA_PARTITION_MAX then 0
     else
       let partition_info = the (snd (ota_get_partition_info typ True));
           (flash_err, bs) = flash_read (pi_start_address partition_info) True (of_nat IMAGE_HEADER_SIZE) s
       in if flash_err \<noteq> FLASH_OK then 0
          else if ih_magic (decode_image_header (the bs)) \<noteq> OTA_MAGIC_NUMBER then 0
          else ih_version (decode_image_header (the bs)))"

definition ota_compare_versions :: "u32 \<Rightarrow> u32 \<Rightarrow> int" where
  "ota_compare_versions version1 version2 =
    (if version1 < version2 then -1 else if version1 > version2 then 1 else 0)"

primrec ota_error_to_string :: "ota_error \<Rightarrow> string" where
  "ota_error_to_string OTA_OK = ''OK''"
| "ota_error_to_string OTA_ERROR_INVALID_PARAM = ''Invalid parameter''"
| "ota_error_to_string OTA_ERROR_NOT_INITIALIZED = ''Not initialized''"
| "ota_error_to_string OTA_ERROR_FLASH_ERROR = ''Flash error''"
| "ota_error_to_string OTA_ERROR_DOWNLOAD_FAILED = ''Download failed''"
| "ota_error_to_string OTA_ERROR_VERIFICATION_FAILED = ''Verification failed''"
| "ota_error_to_string OTA_ERROR_NO_SPACE = ''No space''"
| "ota_error_to_string OTA_ERROR_INVALID_IMAGE = ''Invalid image''"
| "ota_error_to_string OTA_ERROR_ROLLBACK_FAILED = ''Rollback failed''"
| "ota_error_to_string OTA_ERROR_TIMEOUT = ''Timeout''"
| "ota_error_to_string OTA_ERROR_NETWORK = ''Network error''"
| "ota_error_to_string OTA_ERROR_BUSY = ''Busy''"

primrec ota_state_to_string :: "ota_state_t \<Rightarrow> string" where
  "ota_state_to_string OTA_STATE_IDLE = ''Idle''"
| "ota_state_to_string OTA_STATE_DOWNLOADING = ''Downloading''"
| "ota_state_to_string OTA_STATE_VERIFYING = ''Verifying''"
| "ota_state_to_string OTA_STATE_WRITING = ''Writing''"
| "ota_state_to_string OTA_STATE_COMPLETE = ''Complete''"
| "ota_state_to_string OTA_STATE_FAILED = ''Failed''"
| "ota_state_to_string OTA_STATE_ROLLING_BACK = ''Rolling back''"

end
