(* ===== verification/Bootloader.thy ===== *)
theory Bootloader
  imports OTA
begin

text \<open>
  The boot loader, \<^verbatim>\<open>src/bootloader.c\<close>: it runs after a reset, on the flash alone, and ends with a
  jump to an application or without one. Its record \<^verbatim>\<open>bootloader_boot_info_t\<close> starts like
  \<^verbatim>\<open>boot_info_t\<close> of \<^verbatim>\<open>src/ota.c\<close> but has two more members before \<^verbatim>\<open>crc32\<close>.
\<close>

definition MAX_BOOT_ATTEMPTS :: u32 where "MAX_BOOT_ATTEMPTS = 3"

record bootloader_boot_info =
  bl_magic :: u32
  bl_active_partition :: u8
  bl_pending_partition :: u8
  bl_pad1 :: u16
  bl_boot_count :: u32
  bl_rollback_count :: u32
  bl_rollback_enabled :: u8
  bl_boot_confirmed :: u8
  bl_pad2 :: u16
  bl_boot_attempts :: u32
  bl_last_boot_timestamp :: u32
  bl_crc32 :: u32

definition BL_BOOT_INFO_SIZE :: nat where "BL_BOOT_INFO_SIZE = 32"

definition encode_bl_boot_info :: "bootloader_boot_info \<Rightarrow> u8 list" where
  "encode_bl_boot_info b = le32 (bl_magic b) @ [bl_active_partition b, bl_pending_partition b] @ le16 (bl_pad1 b) @ le32 (bl_boot_count b) @
     le32 (bl_rollback_count b) @ [bl_rollback_enabled b, bl_boot_confirmed b] @ le16 (bl_pad2 b) @ le32 (bl_boot_attempts b) @
     le32 (bl_last_boot_timestamp b) @ le32 (bl_crc32 b)"

definition decode_bl_boot_info :: "u8 list \<Rightarrow> bootloader_boot_info" where
  "decode_bl_boot_info bs = \<lparr>bl_magic = get32 0 bs, bl_active_partition = bs ! 4, bl_pending_partition = bs ! 5, bl_pad1 = get16 6 bs,
     bl_boot_count = get32 8 bs, bl_rollback_count = get32 12 bs, bl_rollback_enabled = bs ! 16, bl_boot_confirmed = bs ! 17,
     bl_pad2 = get16 18 bs, bl_boot_attempts = get32 20 bs, bl_last_boot_timestamp = get32 24 bs, bl_crc32 = get32 28 bs\<rparr>"

text \<open>\<open>None\<close> when the function returns \<^verbatim>\<open>false\<close>.\<close>

definition bootloader_read_boot_info :: "'a flash_scheme \<Rightarrow> bootloader_boot_info option" where
  "bootloader_read_boot_info s =
    (case flash_read FLASH_DATA_START True (of_nat BL_BOOT_INFO_SIZE) s of
       (err, bs) \<Rightarrow>
         if err \<noteq> FLASH_OK then None
         else let boot_info = decode_bl_boot_info (the bs)
              in if bl_magic boot_info \<noteq> 0x424F4F54 then None else Some boot_info)"

definition bootloader_write_boot_info :: "bootloader_boot_info \<Rightarrow> 'a flash_scheme \<Rightarrow> bool \<times> 'a flash_scheme" where
  "bootloader_write_boot_info boot_info s =
    (case flash_erase_sector FLASH_DATA_START s of
       (err, s) \<Rightarrow>
         if err \<noteq> FLASH_OK then (False, s)
         else case flash_write FLASH_DATA_START (Some (encode_bl_boot_info boot_info)) s of
           (err, s) \<Rightarrow> if err \<noteq> FLASH_OK then (False, s) else (True, s))"

definition bootloader_verify_partition :: "u8 \<Rightarrow> 'a flash_scheme \<Rightarrow> bool" where
  "bootloader_verify_partition part s =
    (case ota_get_partition_info part True of
       (err, info) \<Rightarrow>
         if err \<noteq> OTA_OK then False
         else case flash_read (pi_start_address (the info)) True (of_nat IMAGE_HEADER_SIZE) s of
           (flash_err, bs) \<Rightarrow>
             if flash_err \<noteq> FLASH_OK then False
             else let header = decode_image_header (the bs)
                  in if ih_magic header \<noteq> 0x544F5346 then False
                     else if ih_image_size header = 0 \<or> ih_image_size header > pi_size (the info) then False
                     else True)"

definition failed_over :: "bootloader_boot_info \<Rightarrow> bootloader_boot_info" where
  "failed_over b =
    (let part = other_app (bl_active_partition b)
     in b\<lparr>bl_rollback_count := bl_rollback_count b + 1, bl_active_partition := part, bl_pending_partition := part,
          bl_boot_confirmed := 1, bl_boot_attempts := 0\<rparr>)"

definition bootloader_handle_boot_failure ::
    "bootloader_boot_info \<Rightarrow> 'a flash_scheme \<Rightarrow> bootloader_boot_info \<times> 'a flash_scheme" where
  "bootloader_handle_boot_failure b s = (failed_over b, snd (bootloader_write_boot_info (failed_over b) s))"

definition default_boot_info :: bootloader_boot_info where
  "default_boot_info = \<lparr>bl_magic = 0x424F4F54, bl_active_partition = OTA_PARTITION_APP_A, bl_pending_partition = OTA_PARTITION_APP_A,
     bl_pad1 = 0, bl_boot_count = 0, bl_rollback_count = 0, bl_rollback_enabled = 1, bl_boot_confirmed = 1, bl_pad2 = 0,
     bl_boot_attempts = 0, bl_last_boot_timestamp = 0, bl_crc32 = 0\<rparr>"

text \<open>The pending update: which partition to boot.\<close>

definition bl_pending :: "bootloader_boot_info \<Rightarrow> 'a flash_scheme \<Rightarrow> u8 \<times> bootloader_boot_info \<times> 'a flash_scheme" where
  "bl_pending b s =
    (if bl_pending_partition b \<noteq> bl_active_partition b \<and> bl_boot_confirmed b = 0
     then
       let (part, b) =
             (if bootloader_verify_partition (bl_pending_partition b) s
              then (bl_pending_partition b, b\<lparr>bl_active_partition := bl_pending_partition b, bl_boot_attempts := 0\<rparr>)
              else (bl_active_partition b, b\<lparr>bl_pending_partition := bl_active_partition b, bl_boot_confirmed := 1\<rparr>))
       in (part, b, snd (bootloader_write_boot_info b s))
     else (bl_active_partition b, b, s))"

text \<open>The boot attempts; \<open>None\<close> when the boot loader gives up.\<close>

definition bl_attempts :: "u8 \<Rightarrow> bootloader_boot_info \<Rightarrow> 'a flash_scheme \<Rightarrow> (u8 \<times> bootloader_boot_info) option \<times> 'a flash_scheme" where
  "bl_attempts part b s =
    (if bl_boot_confirmed b = 0
     then
       let b = b\<lparr>bl_boot_attempts := bl_boot_attempts b + 1\<rparr>
       in if bl_boot_attempts b \<ge> MAX_BOOT_ATTEMPTS
          then if bl_rollback_enabled b \<noteq> 0
               then let (b, s) = bootloader_handle_boot_failure b s
                    in (Some (bl_active_partition b, b), snd (bootloader_write_boot_info b s))
               else (None, s)
          else (Some (part, b), snd (bootloader_write_boot_info b s))
     else (Some (part, b), s))"

text \<open>The verification of the selected partition.\<close>

definition bl_select :: "u8 \<Rightarrow> bootloader_boot_info \<Rightarrow> 'a flash_scheme \<Rightarrow> (u8 \<times> bootloader_boot_info) option \<times> 'a flash_scheme" where
  "bl_select part b s =
    (if \<not> bootloader_verify_partition part s
     then if bl_rollback_enabled b \<noteq> 0
          then let (b, s) = bootloader_handle_boot_failure b s
               in if \<not> bootloader_verify_partition (bl_active_partition b) s then (None, s)
                  else (Some (bl_active_partition b, b), s)
          else (None, s)
     else (Some (part, b), s))"

text \<open>The result is the address of the application that is started, if one is.\<close>

definition bootloader_main :: "'a flash_scheme \<Rightarrow> u32 option \<times> 'a flash_scheme" where
  "bootloader_main s =
    (let (flash_err, s) = flash_init s
     in if flash_err \<noteq> FLASH_OK then (None, s)
        else
          let (b, s) = (case bootloader_read_boot_info s of
                  Some b \<Rightarrow> (b, s)
                | None \<Rightarrow> (default_boot_info, snd (bootloader_write_boot_info default_boot_info s)));
              (part, b, s) = bl_pending b s
          in (case bl_attempts part b s of
                (None, s) \<Rightarrow> (None, s)
              | (Some (part, b), s) \<Rightarrow>
                 (case bl_select part b s of
                    (None, s) \<Rightarrow> (None, s)
                  | (Some (part, b), s) \<Rightarrow>
                     let b = b\<lparr>bl_boot_count := bl_boot_count b + 1\<rparr>;
                         s = snd (bootloader_write_boot_info b s);
                         (err, info) = ota_get_partition_info part True
                     in if err \<noteq> OTA_OK then (None, s) else (Some (pi_start_address (the info)), s))))"

definition bootloader_init :: "'a flash_scheme \<Rightarrow> 'a flash_scheme" where
  "bootloader_init s = snd (flash_init s)"

end
