(* ===== verification/OTA_Lemmas.thy ===== *)
theory OTA_Lemmas
  imports Bootloader
begin

text \<open>
  The CRC by bits and by table; the flash as an array of bytes; the boot information on the
  flash; and the boot loader as a function on the decoded boot information.
\<close>

section \<open>CRC-32\<close>

text \<open>The bit-serial definition: feed the bits of a byte from the least significant one on.\<close>

definition crc_feed :: "bool \<Rightarrow> u32 \<Rightarrow> u32" where
  "crc_feed d c = (if odd c \<noteq> d then drop_bit 1 c XOR 0xEDB88320 else drop_bit 1 c)"

definition byte_bits :: "u8 \<Rightarrow> bool list" where
  "byte_bits b = map (bit b) [0..<8]"

definition crc_serial :: "u8 list \<Rightarrow> u32" where
  "crc_serial data = NOT (fold crc_feed (concat (map byte_bits data)) 0xFFFFFFFF)"

lemma crc_bit_odd: "crc_bit c = (if odd c then drop_bit 1 c XOR 0xEDB88320 else drop_bit 1 c)"
  by (simp add: crc_bit_def and_one_eq odd_iff_mod_2_eq_one)

lemma crc_bit_xor: "crc_bit (x XOR y) = crc_bit x XOR crc_bit y"
proof -
  have o: "odd (x XOR y) \<longleftrightarrow> odd x \<noteq> odd y" by (simp add: even_xor_iff)
  have d: "drop_bit 1 (x XOR y) = drop_bit 1 x XOR drop_bit 1 y" by (rule drop_bit_xor)
  show ?thesis unfolding crc_bit_odd o d by (auto simp: xor.assoc xor.left_commute xor.commute)
qed

lemma crc_bits_xor: "(crc_bit ^^ n) (x XOR y) = (crc_bit ^^ n) x XOR (crc_bit ^^ n) y"
  by (induction n) (simp_all add: crc_bit_xor)

lemma crc_bits_low_zero: "take_bit n x = 0 \<Longrightarrow> (crc_bit ^^ n) x = drop_bit n x"
proof (induction n)
  case (Suc n)
  have low: "take_bit n x = 0"
    using arg_cong [OF Suc.prems, of "take_bit n"] by simp
  have "bit (take_bit (Suc n) x) n = bit x n" by (simp add: bit_take_bit_iff)
  then have "\<not> bit x n" using Suc.prems by simp
  then have "even (drop_bit n x)" by (simp add: even_drop_bit_iff_not_bit)
  then show ?case using Suc.IH [OF low] by (simp add: crc_bit_odd drop_bit_Suc flip: drop_bit_drop_bit [of 1 n])
qed simp

lemma crc_feed_bit: "crc_feed d c = crc_bit (c XOR of_bool d)"
  by (auto simp: crc_feed_def crc_bit_odd even_xor_iff drop_bit_xor)

lemma crc_feed_bits:
  assumes "n \<le> 31"
  shows "fold crc_feed (map (bit m) [0..<n]) c = (crc_bit ^^ n) (c XOR take_bit n m)"
  using assms
proof (induction n)
  case (Suc n)
  have "(crc_bit ^^ n) (2 ^ n) = drop_bit n (2 ^ n :: u32)"
    by (rule crc_bits_low_zero, rule bit_word_eqI) (auto simp: bit_take_bit_iff bit_exp_iff)
  also have "\<dots> = 1" using Suc.prems by (intro bit_word_eqI) (auto simp: bit_drop_bit_eq bit_exp_iff bit_1_iff)
  finally have top: "(crc_bit ^^ n) (of_bool (bit m n) * 2 ^ n) = of_bool (bit m n)" by (cases "bit m n") (simp_all add: crc_bits_low_zero)
  have "take_bit (Suc n) m = take_bit n m XOR (of_bool (bit m n) * 2 ^ n)"
    by (rule bit_word_eqI) (auto simp: bit_take_bit_iff bit_xor_iff bit_exp_iff less_Suc_eq)
  then have "(crc_bit ^^ n) (c XOR take_bit (Suc n) m) = (crc_bit ^^ n) (c XOR take_bit n m) XOR of_bool (bit m n)"
    using top by (simp add: crc_bits_xor xor.assoc [symmetric])
  then show ?case using Suc by (simp add: crc_feed_bit)
qed simp

definition crc_table_ok :: "(nat \<Rightarrow> u32) \<Rightarrow> bool" where
  "crc_table_ok table \<longleftrightarrow> (\<forall>i < 256. table i = (crc_bit ^^ 8) (of_nat i))"

lemma unat_low_byte: "unat (take_bit 8 (w :: u32)) < 256"
  by (simp add: take_bit_eq_mod unat_mod)

lemma xor_split: "(x :: u32) = y XOR (x XOR y)"
  by (rule bit_word_eqI) (auto simp: bit_xor_iff)

lemma crc32_step_serial:
  assumes "crc_table_ok table"
  shows "crc32_step table b c = fold crc_feed (byte_bits b) c"
proof -
  let ?b = "ucast b :: u32"
  let ?x = "c XOR ?b"
  let ?lo = "take_bit 8 ?x"
  let ?hi = "?x XOR ?lo"
  have lo: "?x AND 0xFF = ?lo" by (simp add: take_bit_eq_mask mask_eq_exp_minus_1)
  have "unat ?lo < 256" by (rule unat_low_byte)
  then have tab: "table (unat ?lo) = (crc_bit ^^ 8) ?lo" using assms by (simp add: crc_table_ok_def)
  have "take_bit 8 ?hi = 0" by (simp add: take_bit_xor)
  then have "(crc_bit ^^ 8) ?hi = drop_bit 8 ?hi" by (rule crc_bits_low_zero)
  also have "\<dots> = drop_bit 8 c"
    by (rule bit_word_eqI) (auto simp: bit_drop_bit_eq bit_xor_iff bit_take_bit_iff bit_ucast_iff dest: bit_imp_le_length)
  finally have hi: "(crc_bit ^^ 8) ?hi = drop_bit 8 c" .
  have x: "?x = ?lo XOR ?hi" by (rule xor_split)
  have "map (bit b) [0..<8] = map (bit ?b) [0..<8]" by (simp add: bit_ucast_iff)
  then have "fold crc_feed (byte_bits b) c = (crc_bit ^^ 8) (c XOR take_bit 8 ?b)"
    unfolding byte_bits_def by (simp only: crc_feed_bits)
  also have "take_bit 8 ?b = ?b" by (rule bit_word_eqI) (auto simp: bit_take_bit_iff bit_ucast_iff dest: bit_imp_le_length)
  also have "(crc_bit ^^ 8) ?x = (crc_bit ^^ 8) ?lo XOR (crc_bit ^^ 8) ?hi" by (subst x) (rule crc_bits_xor)
  finally show ?thesis using tab hi lo by (simp add: crc32_step_def xor.commute)
qed

lemma crc32_fold_serial:
  "crc_table_ok table \<Longrightarrow> fold (crc32_step table) data c = fold crc_feed (concat (map byte_bits data)) c"
  by (induction data arbitrary: c) (simp_all add: crc32_step_serial)

definition crc_state_ok :: "'a ota_scheme \<Rightarrow> bool" where
  "crc_state_ok s \<longleftrightarrow> (crc32_table_initialized s \<longrightarrow> crc_table_ok (crc32_table s))"

lemma crc32_init_table_ok: "crc_state_ok s \<Longrightarrow> crc_table_ok (crc32_table (crc32_init_table s)) \<and> crc_state_ok (crc32_init_table s)"
  by (auto simp: crc32_init_table_def crc_state_ok_def crc_table_ok_def)

lemma crc32_calculate_serial: "crc_state_ok s \<Longrightarrow> crc32_calculate data s = (crc_serial data, crc32_init_table s)"
  using crc32_init_table_ok [of s] by (simp add: crc32_calculate_def crc_serial_def crc32_fold_serial Let_def)

section \<open>The flash as an array\<close>

definition flash_ready :: "'a flash_scheme \<Rightarrow> bool" where
  "flash_ready s \<longleftrightarrow> flash_initialized s \<and> \<not> write_protection_enabled s"

lemma flash_ready_sim [simp]: "flash_ready (s\<lparr>simulated_flash := m\<rparr>) = flash_ready s"
  by (simp add: flash_ready_def)

lemma flash_write_ok:
  assumes "flash_ready s" and "bs \<noteq> []" and "unat a + length bs \<le> 524288"
  shows "flash_write a (Some bs) s = (FLASH_OK, s\<lparr>simulated_flash := put_bytes (unat a) bs (simulated_flash s)\<rparr>)"
proof -
  have n: "unat (of_nat (length bs) :: u32) = length bs" unfolding unat_of_nat using assms(3) by simp
  then have "(of_nat (length bs) :: u32) \<noteq> 0" using assms(2) by (metis length_0_conv unat_0)
  then show ?thesis
    using assms n by (simp add: flash_write_def flash_ready_def is_address_valid_iff is_write_protected_range_def platform_flash_write_def)
qed

lemma flash_read_ok:
  "flash_initialized s \<Longrightarrow> 0 < n \<Longrightarrow> unat a + unat n \<le> 524288 \<Longrightarrow>
    flash_read a True n s = (FLASH_OK, Some (flash_bytes (unat a) (unat n) s))"
  by (simp add: flash_read_def is_address_valid_iff platform_flash_read_def word_neq_0_conv)

lemma erase_sector_ok:
  assumes "flash_ready s" and "unat a < 524288"
  shows "flash_erase_sector a s =
    (FLASH_OK, s\<lparr>simulated_flash := put_bytes (unat a div 4096 * 4096) (replicate 4096 0xFF) (simulated_flash s)\<rparr>)"
proof -
  have "unat a div 4096 < 128" using assms(2) by (simp add: less_mult_imp_div_less)
  then have "unat a div 4096 * 4096 + 4096 \<le> 524288" by linarith
  then have "is_address_valid (a div FLASH_SECTOR_SIZE * FLASH_SECTOR_SIZE) FLASH_SECTOR_SIZE"
    unfolding is_address_valid_iff unat_sector by (simp add: FLASH_SECTOR_SIZE_def)
  then show ?thesis
    using assms(1) by (simp add: flash_erase_sector_def flash_ready_def is_write_protected_range_def unat_sector
        platform_flash_erase_sector_def FLASH_SECTOR_SIZE_def [THEN arg_cong, of unat])
qed

lemma put_bytes_append: "put_bytes (a + length xs) ys (put_bytes a xs m) = put_bytes a (xs @ ys) m"
  by (auto simp: put_bytes_def fun_eq_iff nth_append)

lemma put_bytes_Nil [simp]: "put_bytes a [] m = m"
  by (auto simp: put_bytes_def fun_eq_iff)

lemma erase_sectors_ok:
  assumes "flash_ready s" and "unat a mod 4096 = 0" and "unat e = unat a + k * 4096" and "unat e \<le> 524288"
  shows "erase_sectors a e s = (FLASH_OK, s\<lparr>simulated_flash := put_bytes (unat a) (replicate (k * 4096) 0xFF) (simulated_flash s)\<rparr>)"
  using assms
proof (induction k arbitrary: a s)
  case 0
  then have "\<not> a < e" by (simp add: word_less_nat_alt)
  then show ?case by (simp add: erase_sectors.simps)
next
  case (Suc k)
  have lt: "a < e" "unat a < 524288" using Suc.prems by (simp_all add: word_less_nat_alt)
  have al: "unat a div 4096 * 4096 = unat a" using Suc.prems(2) div_mult_mod_eq [of "unat a" 4096] by simp
  have next_a: "unat (a + FLASH_SECTOR_SIZE) = unat a + 4096"
    using lt(2) by (subst unat_add_u32) (simp_all add: FLASH_SECTOR_SIZE_def)
  let ?s = "s\<lparr>simulated_flash := put_bytes (unat a) (replicate 4096 0xFF) (simulated_flash s)\<rparr>"
  have "erase_sectors (a + FLASH_SECTOR_SIZE) e ?s = (FLASH_OK, ?s\<lparr>simulated_flash :=
      put_bytes (unat a + 4096) (replicate (k * 4096) 0xFF) (simulated_flash ?s)\<rparr>)"
    using Suc.IH [of ?s "a + FLASH_SECTOR_SIZE"] Suc.prems next_a by simp
  then show ?case
    using lt erase_sector_ok [OF Suc.prems(1) lt(2)] al put_bytes_append [of "unat a" "replicate 4096 0xFF" "replicate (k * 4096) 0xFF"]
    by (subst erase_sectors.simps) (simp add: replicate_add)
qed

lemma sector_round_up: "(m * 4096 + 4095) div 4096 * 4096 = m * (4096 :: nat)"
  by simp

lemma flash_erase_range_ok:
  assumes "flash_ready s" and "unat a mod 4096 = 0" and "unat n = k * 4096" and "unat a + unat n \<le> 524288"
  shows "flash_erase_range a n s = (FLASH_OK, s\<lparr>simulated_flash := put_bytes (unat a) (replicate (unat n) 0xFF) (simulated_flash s)\<rparr>)"
proof -
  have al: "a div FLASH_SECTOR_SIZE * FLASH_SECTOR_SIZE = a"
    using assms(2) div_mult_mod_eq [of "unat a" 4096] by (simp add: word_unat_eq_iff unat_sector)
  have s1: "unat (a + n) = unat a + k * 4096" using assms(3,4) by (subst unat_add_u32) simp_all
  have s2: "unat (a + n + FLASH_SECTOR_SIZE) = unat a + k * 4096 + 4096"
    using s1 assms(3,4) by (subst unat_add_u32) (simp_all add: FLASH_SECTOR_SIZE_def)
  then have s3: "unat (a + n + FLASH_SECTOR_SIZE - 1) = unat a + k * 4096 + 4095"
    by (subst unat_sub) (simp_all add: word_le_nat_alt)
  have "(unat a + k * 4096 + 4095) div 4096 * 4096 = unat a + k * 4096"
  proof -
    have m: "unat a + k * 4096 = (unat a div 4096 + k) * 4096"
      using assms(2) div_mult_mod_eq [of "unat a" 4096] by (simp add: algebra_simps)
    show ?thesis unfolding m by (rule sector_round_up)
  qed
  then have e: "unat ((a + n + FLASH_SECTOR_SIZE - 1) div FLASH_SECTOR_SIZE * FLASH_SECTOR_SIZE) = unat a + k * 4096"
    unfolding unat_sector s3 .
  show ?thesis
    using erase_sectors_ok [OF assms(1,2) e] e assms(1,3,4) al by (simp add: flash_erase_range_def flash_ready_def Let_def)
qed

lemma flash_bytes_put:
  assumes "a + n \<le> b \<or> b + length bs \<le> a"
  shows "flash_bytes a n (s\<lparr>simulated_flash := put_bytes b bs m\<rparr>) = flash_bytes a n (s\<lparr>simulated_flash := m\<rparr>)"
  using assms by (auto simp: flash_bytes_def put_bytes_def)

lemma flash_bytes_put_same:
  "n \<le> length bs \<Longrightarrow> flash_bytes a n (s\<lparr>simulated_flash := put_bytes a bs m\<rparr>) = take n bs"
  by (rule nth_equalityI) (simp_all add: flash_bytes_def put_bytes_def)

section \<open>The boot information\<close>

text \<open>Erase the first data sector and store a record there.\<close>

definition put_record :: "u8 list \<Rightarrow> (nat \<Rightarrow> u8) \<Rightarrow> nat \<Rightarrow> u8" where
  "put_record bs m = put_bytes 507904 (bs @ replicate (4096 - length bs) 0xFF) m"

lemma put_record_eq:
  assumes "length bs \<le> 4096"
  shows "put_bytes 507904 bs (put_bytes 507904 (replicate 4096 0xFF) m) = put_record bs m"
  using assms by (auto simp: put_record_def put_bytes_def fun_eq_iff nth_append)

lemma data_start: "unat FLASH_DATA_START = 507904"
  by (simp add: FLASH_DATA_START_def)

lemma length_encode_boot_info [simp]: "length (encode_boot_info b) = 24"
  by (simp add: encode_boot_info_def)

lemma length_encode_bl [simp]: "length (encode_bl_boot_info b) = 32"
  by (simp add: encode_bl_boot_info_def)

lemma decode_encode_boot_info: "decode_boot_info (encode_boot_info b @ ys) = b"
proof -
  note e = encode_boot_info_def [of b]
  have "get32 0 (encode_boot_info b @ ys) = bi_magic b" by (rule get32_at [of _ "[]"]) (simp_all add: e)
  moreover have "get16 6 (encode_boot_info b @ ys) = bi_pad1 b"
    using get16_le16 [of "le32 (bi_magic b) @ [bi_active_partition b, bi_pending_partition b]"] by (simp add: e)
  moreover have "get32 8 (encode_boot_info b @ ys) = bi_boot_count b"
    by (rule get32_at [of _ "le32 (bi_magic b) @ [bi_active_partition b, bi_pending_partition b] @ le16 (bi_pad1 b)"]) (simp_all add: e)
  moreover have "get32 12 (encode_boot_info b @ ys) = bi_rollback_count b"
    by (rule get32_at [of _ "le32 (bi_magic b) @ [bi_active_partition b, bi_pending_partition b] @ le16 (bi_pad1 b) @ le32 (bi_boot_count b)"])
      (simp_all add: e)
  moreover have "get16 18 (encode_boot_info b @ ys) = bi_pad2 b"
    using get16_le16 [of "le32 (bi_magic b) @ [bi_active_partition b, bi_pending_partition b] @ le16 (bi_pad1 b) @ le32 (bi_boot_count b) @
      le32 (bi_rollback_count b) @ [bi_rollback_enabled b, bi_boot_confirmed b]"] by (simp add: e)
  moreover have "get32 20 (encode_boot_info b @ ys) = bi_crc32 b"
    by (rule get32_at [of _ "le32 (bi_magic b) @ [bi_active_partition b, bi_pending_partition b] @ le16 (bi_pad1 b) @ le32 (bi_boot_count b) @
      le32 (bi_rollback_count b) @ [bi_rollback_enabled b, bi_boot_confirmed b] @ le16 (bi_pad2 b)"]) (simp_all add: e)
  moreover have "(encode_boot_info b @ ys) ! 4 = bi_active_partition b" "(encode_boot_info b @ ys) ! 5 = bi_pending_partition b"
    "(encode_boot_info b @ ys) ! 16 = bi_rollback_enabled b" "(encode_boot_info b @ ys) ! 17 = bi_boot_confirmed b"
    by (simp_all add: e le32_def le16_def)
  ultimately show ?thesis by (simp add: decode_boot_info_def)
qed

text \<open>The boot loader's record is the one of the update component with two members inserted before the CRC.\<close>

definition bl_view :: "boot_info \<Rightarrow> u32 \<Rightarrow> u32 \<Rightarrow> bootloader_boot_info" where
  "bl_view b ts crc = \<lparr>bl_magic = bi_magic b, bl_active_partition = bi_active_partition b, bl_pending_partition = bi_pending_partition b,
     bl_pad1 = bi_pad1 b, bl_boot_count = bi_boot_count b, bl_rollback_count = bi_rollback_count b,
     bl_rollback_enabled = bi_rollback_enabled b, bl_boot_confirmed = bi_boot_confirmed b, bl_pad2 = bi_pad2 b,
     bl_boot_attempts = bi_crc32 b, bl_last_boot_timestamp = ts, bl_crc32 = crc\<rparr>"

definition bi_view :: "bootloader_boot_info \<Rightarrow> boot_info" where
  "bi_view b = \<lparr>bi_magic = bl_magic b, bi_active_partition = bl_active_partition b, bi_pending_partition = bl_pending_partition b,
     bi_pad1 = bl_pad1 b, bi_boot_count = bl_boot_count b, bi_rollback_count = bl_rollback_count b,
     bi_rollback_enabled = bl_rollback_enabled b, bi_boot_confirmed = bl_boot_confirmed b, bi_pad2 = bl_pad2 b,
     bi_crc32 = bl_boot_attempts b\<rparr>"

lemma encode_bl_view: "encode_bl_boot_info b = encode_boot_info (bi_view b) @ le32 (bl_last_boot_timestamp b) @ le32 (bl_crc32 b)"
  by (simp add: encode_bl_boot_info_def encode_boot_info_def bi_view_def)

lemma decode_bl_view: "decode_bl_boot_info bs = bl_view (decode_boot_info bs) (get32 24 bs) (get32 28 bs)"
  by (simp add: decode_bl_boot_info_def bl_view_def decode_boot_info_def)

lemma bl_bi_view: "bl_view (bi_view b) (bl_last_boot_timestamp b) (bl_crc32 b) = b"
  by (simp add: bl_view_def bi_view_def)

lemma decode_encode_bl: "decode_bl_boot_info (encode_bl_boot_info b @ ys) = b"
proof -
  have "get32 24 (encode_bl_boot_info b @ ys) = bl_last_boot_timestamp b"
    by (rule get32_at [of _ "encode_boot_info (bi_view b)"]) (simp_all add: encode_bl_view)
  moreover have "get32 28 (encode_bl_boot_info b @ ys) = bl_crc32 b"
    by (rule get32_at [of _ "encode_boot_info (bi_view b) @ le32 (bl_last_boot_timestamp b)"]) (simp_all add: encode_bl_view)
  moreover have "decode_boot_info (encode_bl_boot_info b @ ys) = bi_view b"
    unfolding encode_bl_view append_assoc by (rule decode_encode_boot_info)
  ultimately show ?thesis by (simp add: decode_bl_view bl_bi_view)
qed

lemma record_bytes:
  assumes "length bs \<le> n" and "n \<le> 4096"
  shows "flash_bytes 507904 n (s\<lparr>simulated_flash := put_record bs m\<rparr>) = bs @ replicate (n - length bs) 0xFF"
  using assms flash_bytes_put_same [of n "bs @ replicate (4096 - length bs) 0xFF"] by (simp add: put_record_def)

lemma record_elsewhere:
  assumes "a + n \<le> 507904 \<or> 512000 \<le> a" and "length bs \<le> 4096"
  shows "flash_bytes a n (s\<lparr>simulated_flash := put_record bs m\<rparr>) = flash_bytes a n (s\<lparr>simulated_flash := m\<rparr>)"
  unfolding put_record_def using assms by (intro flash_bytes_put) auto

lemma bootloader_write_ok:
  assumes "flash_ready s"
  shows "bootloader_write_boot_info b s = (True, s\<lparr>simulated_flash := put_record (encode_bl_boot_info b) (simulated_flash s)\<rparr>)"
proof -
  let ?s = "s\<lparr>simulated_flash := put_bytes 507904 (replicate 4096 0xFF) (simulated_flash s)\<rparr>"
  have "flash_erase_sector FLASH_DATA_START s = (FLASH_OK, ?s)"
    using erase_sector_ok [OF assms, of FLASH_DATA_START] by (simp add: data_start)
  moreover have "encode_bl_boot_info b \<noteq> []" using length_encode_bl [of b] by force
  ultimately show ?thesis
    using flash_write_ok [of ?s "encode_bl_boot_info b" FLASH_DATA_START] assms
    by (simp add: bootloader_write_boot_info_def data_start put_record_eq)
qed

lemma bootloader_read_ok:
  assumes "flash_initialized s" and "bl_magic b = OTA_BOOTINFO_MAGIC"
  shows "bootloader_read_boot_info (s\<lparr>simulated_flash := put_record (encode_bl_boot_info b) m\<rparr>) = Some b"
proof -
  let ?s = "s\<lparr>simulated_flash := put_record (encode_bl_boot_info b) m\<rparr>"
  have bytes: "flash_bytes 507904 32 ?s = encode_bl_boot_info b"
    using record_bytes [where bs = "encode_bl_boot_info b" and n = 32 and s = s and m = m] by simp
  have "flash_read FLASH_DATA_START True 32 ?s = (FLASH_OK, Some (flash_bytes 507904 32 ?s))"
    using flash_read_ok [of ?s 32 FLASH_DATA_START] assms(1) by (simp add: data_start)
  then show ?thesis
    using assms(2) decode_encode_bl [of b "[]"] unfolding bytes
    by (simp add: bootloader_read_boot_info_def BL_BOOT_INFO_SIZE_def OTA_BOOTINFO_MAGIC_def)
qed

text \<open>What the boot loader sees of a record of the update component.\<close>

lemma replicate_8: "replicate 8 x = [x, x, x, x, x, x, x, x]"
  by (simp add: eval_nat_numeral)

lemma bootloader_reads_ota:
  assumes "flash_initialized s" and "bi_magic b = OTA_BOOTINFO_MAGIC"
  shows "bootloader_read_boot_info (s\<lparr>simulated_flash := put_record (encode_boot_info b) m\<rparr>) = Some (bl_view b 0xFFFFFFFF 0xFFFFFFFF)"
proof -
  have ff: "replicate 8 (0xFF :: u8) = le32 0xFFFFFFFF @ le32 0xFFFFFFFF"
    unfolding replicate_8 by (simp add: le32_def)
  let ?s = "s\<lparr>simulated_flash := put_record (encode_boot_info b) m\<rparr>"
  have bytes: "flash_bytes 507904 32 (s\<lparr>simulated_flash := put_record (encode_boot_info b) m\<rparr>) = encode_boot_info b @ le32 0xFFFFFFFF @ le32 0xFFFFFFFF"
    using record_bytes [where bs = "encode_boot_info b" and n = 32 and s = s and m = m] by (simp add: ff)
  have "get32 24 (encode_boot_info b @ le32 0xFFFFFFFF @ le32 0xFFFFFFFF) = 0xFFFFFFFF"
    by (rule get32_at [of _ "encode_boot_info b"]) simp_all
  moreover have "get32 28 (encode_boot_info b @ le32 0xFFFFFFFF @ le32 0xFFFFFFFF) = 0xFFFFFFFF"
    by (rule get32_at [of _ "encode_boot_info b @ le32 0xFFFFFFFF" _ _ "[]"]) simp_all
  ultimately have "decode_bl_boot_info (encode_boot_info b @ le32 0xFFFFFFFF @ le32 0xFFFFFFFF) = bl_view b 0xFFFFFFFF 0xFFFFFFFF"
    by (simp add: decode_bl_view decode_encode_boot_info)
  moreover have "flash_read FLASH_DATA_START True 32 ?s = (FLASH_OK, Some (flash_bytes 507904 32 ?s))"
    using flash_read_ok [of ?s 32 FLASH_DATA_START] assms(1) by (simp add: data_start)
  ultimately show ?thesis
    using assms(2) unfolding bytes by (simp add: bootloader_read_boot_info_def BL_BOOT_INFO_SIZE_def OTA_BOOTINFO_MAGIC_def bl_view_def)
qed

text \<open>A partition of an application is verified as before when a record is stored.\<close>

definition is_app :: "u8 \<Rightarrow> bool" where
  "is_app p \<longleftrightarrow> p = OTA_PARTITION_APP_A \<or> p = OTA_PARTITION_APP_B"

definition app_start :: "u8 \<Rightarrow> u32" where
  "app_start p = (if p = OTA_PARTITION_APP_A then FLASH_APP_A_START else FLASH_APP_B_START)"

lemma app_info:
  assumes "is_app p"
  shows "\<exists>i. ota_get_partition_info p True = (OTA_OK, Some i) \<and> pi_start_address i = app_start p \<and> pi_size i = FLASH_APP_A_SIZE"
  using assms by (auto simp: is_app_def ota_get_partition_info_def ota_partitions partition_table_def app_start_def flash_consts word_le_nat_alt)

lemma app_start_range: "unat (app_start p) + 245760 \<le> 507904" "0 < unat (app_start p)" "unat (app_start p) mod 4096 = 0"
  by (auto simp: app_start_def flash_consts)

lemma verify_after_record:
  assumes "is_app p" and "length bs \<le> 4096" and "flash_initialized s"
  shows "bootloader_verify_partition p (s\<lparr>simulated_flash := put_record bs m\<rparr>) = bootloader_verify_partition p (s\<lparr>simulated_flash := m\<rparr>)"
proof -
  obtain i where i: "ota_get_partition_info p True = (OTA_OK, Some i)" "pi_start_address i = app_start p"
    using app_info [OF assms(1)] by blast
  have "flash_bytes (unat (app_start p)) 104 (s\<lparr>simulated_flash := put_record bs m\<rparr>) = flash_bytes (unat (app_start p)) 104 (s\<lparr>simulated_flash := m\<rparr>)"
    using app_start_range(1) [of p] assms(2) by (intro record_elsewhere) auto
  moreover have "flash_read (app_start p) True 104 (s\<lparr>simulated_flash := m'\<rparr>) =
      (FLASH_OK, Some (flash_bytes (unat (app_start p)) 104 (s\<lparr>simulated_flash := m'\<rparr>)))" for m'
    using flash_read_ok [of "s\<lparr>simulated_flash := m'\<rparr>" 104 "app_start p"] assms(3) app_start_range(1) [of p] by simp
  ultimately show ?thesis using i by (simp add: bootloader_verify_partition_def IMAGE_HEADER_SIZE_def)
qed

end
