(* ===== verification/Bootloader_Spec.thy ===== *)
theory Bootloader_Spec
  imports OTA_Lemmas Memory_Spec
begin

text \<open>
  The boot loader as a state machine on the boot information, and what it boots: only an image
  that was verified, a pending update at most twice without confirmation, and a confirmed
  image again and again.
\<close>

section \<open>The state machine\<close>

text \<open>\<open>v p\<close> tells whether partition \<open>p\<close> holds an image that the boot loader accepts.\<close>

definition spec_pending :: "(u8 \<Rightarrow> bool) \<Rightarrow> bootloader_boot_info \<Rightarrow> bootloader_boot_info" where
  "spec_pending v b =
    (if bl_pending_partition b \<noteq> bl_active_partition b \<and> bl_boot_confirmed b = 0
     then if v (bl_pending_partition b) then b\<lparr>bl_active_partition := bl_pending_partition b, bl_boot_attempts := 0\<rparr>
          else b\<lparr>bl_pending_partition := bl_active_partition b, bl_boot_confirmed := 1\<rparr>
     else b)"

definition spec_attempts :: "bootloader_boot_info \<Rightarrow> bootloader_boot_info option" where
  "spec_attempts b =
    (if bl_boot_confirmed b \<noteq> 0 then Some b
     else if MAX_BOOT_ATTEMPTS \<le> bl_boot_attempts b + 1 then if bl_rollback_enabled b \<noteq> 0 then Some (failed_over b) else None
     else Some (b\<lparr>bl_boot_attempts := bl_boot_attempts b + 1\<rparr>))"

definition spec_select :: "(u8 \<Rightarrow> bool) \<Rightarrow> bootloader_boot_info \<Rightarrow> bool \<times> bootloader_boot_info" where
  "spec_select v b =
    (if v (bl_active_partition b) then (True, b)
     else if bl_rollback_enabled b \<noteq> 0 then (v (other_app (bl_active_partition b)), failed_over b)
     else (False, b))"

text \<open>The partition that is booted, if one is, and the boot information that is stored.\<close>

definition boot_spec :: "(u8 \<Rightarrow> bool) \<Rightarrow> bootloader_boot_info \<Rightarrow> u8 option \<times> bootloader_boot_info" where
  "boot_spec v b =
    (let b = spec_pending v b
     in case spec_attempts b of
          None \<Rightarrow> (None, b)
        | Some b \<Rightarrow> (case spec_select v b of
            (False, b) \<Rightarrow> (None, b)
          | (True, b) \<Rightarrow> (Some (bl_active_partition b), b\<lparr>bl_boot_count := bl_boot_count b + 1\<rparr>)))"

section \<open>Refinement\<close>

definition bl_ok :: "bootloader_boot_info \<Rightarrow> bool" where
  "bl_ok b \<longleftrightarrow> bl_magic b = OTA_BOOTINFO_MAGIC \<and> is_app (bl_active_partition b) \<and> is_app (bl_pending_partition b)"

definition same_apps :: "(nat \<Rightarrow> u8) \<Rightarrow> (nat \<Rightarrow> u8) \<Rightarrow> bool" where
  "same_apps m m' \<longleftrightarrow> (\<forall>i < 507904. m' i = m i)"

lemma same_apps_record [simp]: "same_apps m (put_record bs m') \<longleftrightarrow> same_apps m m'"
  by (simp add: same_apps_def put_record_def put_bytes_def)

text \<open>\<open>t\<close> is \<open>s\<close> with another content of the data partition, where \<open>b\<close> is stored.\<close>

definition bl_at :: "'a flash_scheme \<Rightarrow> bootloader_boot_info \<Rightarrow> 'a flash_scheme \<Rightarrow> bool" where
  "bl_at s b t \<longleftrightarrow> (\<exists>m. t = s\<lparr>simulated_flash := m\<rparr> \<and> same_apps (simulated_flash s) m) \<and> flash_ready s \<and>
     bootloader_read_boot_info t = Some b"

lemma is_app_other [simp]: "is_app (other_app p)"
  by (simp add: is_app_def other_app_def)

lemma bl_at_write:
  assumes "bl_at s b t" and "bl_magic c = OTA_BOOTINFO_MAGIC"
  shows "bl_at s c (snd (bootloader_write_boot_info c t))"
proof -
  obtain m where m: "t = s\<lparr>simulated_flash := m\<rparr>" "same_apps (simulated_flash s) m" "flash_ready s" using assms(1) by (auto simp: bl_at_def)
  then have "flash_ready t" "flash_initialized s" by (simp_all add: flash_ready_def)
  then have "snd (bootloader_write_boot_info c t) = s\<lparr>simulated_flash := put_record (encode_bl_boot_info c) m\<rparr>"
    using m(1) by (simp add: bootloader_write_ok)
  then show ?thesis
    using m \<open>flash_initialized s\<close> bootloader_read_ok [OF _ assms(2)] by (auto simp: bl_at_def)
qed

lemma bl_at_verify:
  assumes "bl_at s b t" and "is_app p"
  shows "bootloader_verify_partition p t = bootloader_verify_partition p s"
proof -
  obtain m where m: "t = s\<lparr>simulated_flash := m\<rparr>" "\<forall>i < 507904. m i = simulated_flash s i" "flash_initialized s"
    using assms(1) by (auto simp: bl_at_def same_apps_def flash_ready_def)
  obtain i where i: "ota_get_partition_info p True = (OTA_OK, Some i)" "pi_start_address i = app_start p"
    using app_info [OF assms(2)] by blast
  have "flash_bytes (unat (app_start p)) 104 t = flash_bytes (unat (app_start p)) 104 s"
    using m(1,2) app_start_range(1) [of p] by (auto simp: flash_bytes_def)
  moreover have "flash_read (app_start p) True 104 r = (FLASH_OK, Some (flash_bytes (unat (app_start p)) 104 r))"
      if "flash_initialized r" for r :: "'a flash_scheme"
    using flash_read_ok [OF that, of 104 "app_start p"] app_start_range(1) [of p] by simp
  ultimately show ?thesis using i m(1,3) by (simp add: bootloader_verify_partition_def IMAGE_HEADER_SIZE_def)
qed

lemma bl_ok_fail [simp]: "bl_magic b = OTA_BOOTINFO_MAGIC \<Longrightarrow> bl_ok (failed_over b)"
  by (simp add: bl_ok_def failed_over_def Let_def)

lemma pending_refines:
  assumes at: "bl_at s b t" and ok: "bl_ok b" and v: "v = (\<lambda>p. bootloader_verify_partition p s)"
  obtains t' where "bl_pending b t = (bl_active_partition (spec_pending v b), spec_pending v b, t')"
    "bl_at s (spec_pending v b) t'" "bl_ok (spec_pending v b)"
proof -
  have ver: "bootloader_verify_partition (bl_pending_partition b) t = v (bl_pending_partition b)"
    using bl_at_verify [OF at] ok v by (simp add: bl_ok_def)
  have okp: "bl_ok (spec_pending v b)" using ok by (auto simp: bl_ok_def spec_pending_def)
  show ?thesis
  proof (cases "bl_pending_partition b \<noteq> bl_active_partition b \<and> bl_boot_confirmed b = 0")
    case True
    have "bl_pending b t = (bl_active_partition (spec_pending v b), spec_pending v b, snd (bootloader_write_boot_info (spec_pending v b) t))"
      using True ver by (simp add: bl_pending_def spec_pending_def Let_def)
    then show ?thesis using bl_at_write [OF at] okp by (intro that) (auto simp: bl_ok_def)
  next
    case False
    then have "spec_pending v b = b" "bl_pending b t = (bl_active_partition b, b, t)" by (auto simp: spec_pending_def bl_pending_def)
    then show ?thesis using at ok by (intro that) simp_all
  qed
qed

lemma attempts_refines:
  assumes at: "bl_at s b t" and ok: "bl_ok b"
  obtains t' where "bl_attempts (bl_active_partition b) b t = (map_option (\<lambda>c. (bl_active_partition c, c)) (spec_attempts b), t')"
    "bl_at s (case spec_attempts b of None \<Rightarrow> b | Some c \<Rightarrow> c) t'" "case spec_attempts b of None \<Rightarrow> True | Some c \<Rightarrow> bl_ok c"
proof -
  let ?b = "b\<lparr>bl_boot_attempts := bl_boot_attempts b + 1\<rparr>"
  have magic: "bl_magic b = OTA_BOOTINFO_MAGIC" using ok by (simp add: bl_ok_def)
  have fo: "failed_over ?b = failed_over b" by (simp add: failed_over_def Let_def)
  have mf: "bl_magic (failed_over b) = OTA_BOOTINFO_MAGIC" using magic by (simp add: failed_over_def Let_def)
  note w1 = bl_at_write [OF at mf]
  note w2 = bl_at_write [OF w1 mf]
  have w3: "bl_at s ?b (snd (bootloader_write_boot_info ?b t))" using magic by (intro bl_at_write [OF at]) simp
  consider "bl_boot_confirmed b \<noteq> 0" | "bl_boot_confirmed b = 0" "\<not> MAX_BOOT_ATTEMPTS \<le> bl_boot_attempts b + 1"
    | "bl_boot_confirmed b = 0" "MAX_BOOT_ATTEMPTS \<le> bl_boot_attempts b + 1" "bl_rollback_enabled b \<noteq> 0"
    | "bl_boot_confirmed b = 0" "MAX_BOOT_ATTEMPTS \<le> bl_boot_attempts b + 1" "bl_rollback_enabled b = 0" by blast
  then show ?thesis
  proof cases
    case 1 then show ?thesis using at ok by (intro that [of t]) (simp_all add: bl_attempts_def spec_attempts_def)
  next
    case 2
    then show ?thesis using w3 ok
      by (intro that [of "snd (bootloader_write_boot_info ?b t)"]) (simp_all add: bl_attempts_def spec_attempts_def Let_def bl_ok_def)
  next
    case 3 then show ?thesis using w2 magic
      by (intro that [of "snd (bootloader_write_boot_info (failed_over b) (snd (bootloader_write_boot_info (failed_over b) t)))"])
        (simp_all add: bl_attempts_def spec_attempts_def Let_def bootloader_handle_boot_failure_def fo)
  next
    case 4 then show ?thesis using at by (intro that [of t]) (simp_all add: bl_attempts_def spec_attempts_def Let_def)
  qed
qed

lemma select_refines:
  assumes at: "bl_at s b t" and ok: "bl_ok b" and v: "v = (\<lambda>p. bootloader_verify_partition p s)"
  obtains t' where "bl_select (bl_active_partition b) b t =
      (if fst (spec_select v b) then Some (bl_active_partition (snd (spec_select v b)), snd (spec_select v b)) else None, t')"
    "bl_at s (snd (spec_select v b)) t'" "bl_ok (snd (spec_select v b))"
proof -
  have magic: "bl_magic b = OTA_BOOTINFO_MAGIC" and app: "is_app (bl_active_partition b)" using ok by (simp_all add: bl_ok_def)
  have mf: "bl_magic (failed_over b) = OTA_BOOTINFO_MAGIC" using magic by (simp add: failed_over_def Let_def)
  note w = bl_at_write [OF at mf]
  have act: "bl_active_partition (failed_over b) = other_app (bl_active_partition b)" by (simp add: failed_over_def Let_def)
  have ver: "bootloader_verify_partition (bl_active_partition b) t = v (bl_active_partition b)"
    using bl_at_verify [OF at app] v by simp
  have ver': "bootloader_verify_partition (other_app (bl_active_partition b)) (snd (bootloader_write_boot_info (failed_over b) t)) =
      v (other_app (bl_active_partition b))"
    using bl_at_verify [OF w is_app_other] v by simp
  consider "v (bl_active_partition b)" | "\<not> v (bl_active_partition b)" "bl_rollback_enabled b \<noteq> 0"
    | "\<not> v (bl_active_partition b)" "bl_rollback_enabled b = 0" by blast
  then show ?thesis
  proof cases
    case 1 then show ?thesis using at ok ver by (intro that [of t]) (simp_all add: bl_select_def spec_select_def)
  next
    case 2 then show ?thesis using w magic ver ver' act
      by (intro that [of "snd (bootloader_write_boot_info (failed_over b) t)"])
        (simp_all add: bl_select_def spec_select_def bootloader_handle_boot_failure_def)
  next
    case 3 then show ?thesis using at ok ver by (intro that [of t]) (simp_all add: bl_select_def spec_select_def)
  qed
qed

text \<open>One run of the boot loader is one step of the state machine.\<close>

lemma bootloader_refines:
  assumes at: "bl_at s b t" and ok: "bl_ok b" and v: "v = (\<lambda>p. bootloader_verify_partition p s)"
  obtains t' where "bootloader_main t = (map_option app_start (fst (boot_spec v b)), t')"
    "bl_at s (snd (boot_spec v b)) t'" "bl_ok (snd (boot_spec v b))"
proof -
  have init: "flash_init t = (FLASH_OK, t)" and rd: "bootloader_read_boot_info t = Some b"
    using at by (auto simp: bl_at_def flash_ready_def flash_init_def)
  obtain t1 where t1: "bl_pending b t = (bl_active_partition (spec_pending v b), spec_pending v b, t1)"
      "bl_at s (spec_pending v b) t1" "bl_ok (spec_pending v b)" by (rule pending_refines [OF at ok v])
  let ?b1 = "spec_pending v b"
  obtain t2 where t2: "bl_attempts (bl_active_partition ?b1) ?b1 t1 = (map_option (\<lambda>c. (bl_active_partition c, c)) (spec_attempts ?b1), t2)"
      "bl_at s (case spec_attempts ?b1 of None \<Rightarrow> ?b1 | Some c \<Rightarrow> c) t2" "case spec_attempts ?b1 of None \<Rightarrow> True | Some c \<Rightarrow> bl_ok c"
    by (rule attempts_refines [OF t1(2,3)])
  show ?thesis
  proof (cases "spec_attempts ?b1")
    case None
    then show ?thesis using t2 t1 init rd by (intro that [of t2]) (simp_all add: bootloader_main_def boot_spec_def Let_def)
  next
    case (Some b2)
    then have at2: "bl_at s b2 t2" "bl_ok b2" using t2 by simp_all
    obtain t3 where t3: "bl_select (bl_active_partition b2) b2 t2 =
        (if fst (spec_select v b2) then Some (bl_active_partition (snd (spec_select v b2)), snd (spec_select v b2)) else None, t3)"
        "bl_at s (snd (spec_select v b2)) t3" "bl_ok (snd (spec_select v b2))" by (rule select_refines [OF at2 v])
    obtain r b3 where b3: "spec_select v b2 = (r, b3)" by fastforce
    let ?b4 = "b3\<lparr>bl_boot_count := bl_boot_count b3 + 1\<rparr>"
    show ?thesis
    proof (cases r)
      case False
      then show ?thesis using b3 t3 t2 t1 Some init rd by (intro that [of t3]) (simp_all add: bootloader_main_def boot_spec_def Let_def)
    next
      case True
      have w: "bl_at s ?b4 (snd (bootloader_write_boot_info ?b4 t3))" "bl_ok ?b4"
        using t3(2,3) b3 bl_at_write [OF t3(2), of ?b4] by (simp_all add: bl_ok_def)
      obtain i where i: "ota_get_partition_info (bl_active_partition b3) True = (OTA_OK, Some i)"
          "pi_start_address i = app_start (bl_active_partition b3)"
        using app_info [of "bl_active_partition b3"] t3(3) b3 by (auto simp: bl_ok_def)
      show ?thesis
        using b3 t3(1) t2(1) t1(1) Some init rd i True w
        by (intro that [of "snd (bootloader_write_boot_info ?b4 t3)"]) (simp_all add: bootloader_main_def boot_spec_def Let_def)
    qed
  qed
qed

section \<open>Sequences of boots\<close>

text \<open>A sequence of resets: the boot loader runs again on the flash as it is. The memory of the flash
  and the static variable \<^verbatim>\<open>flash_initialized\<close> keep their values from one run to the next, as for a
  flash that holds its content. A reset that also cleared the static variables would make \<^verbatim>\<open>flash_init\<close>
  erase the simulated flash of \<^verbatim>\<open>drivers/flash.c\<close>, which is an array in RAM.\<close>

fun boots :: "nat \<Rightarrow> 'a flash_scheme \<Rightarrow> u32 option list \<times> 'a flash_scheme" where
  "boots 0 s = ([], s)"
| "boots (Suc n) s = (let (r, s) = bootloader_main s; (rs, s) = boots n s in (r # rs, s))"

fun spec_boots :: "nat \<Rightarrow> (u8 \<Rightarrow> bool) \<Rightarrow> bootloader_boot_info \<Rightarrow> u8 option list \<times> bootloader_boot_info" where
  "spec_boots 0 v b = ([], b)"
| "spec_boots (Suc n) v b = (let (r, b) = boot_spec v b; (rs, b) = spec_boots n v b in (r # rs, b))"

lemma boots_refine:
  assumes "bl_at s b t" and "bl_ok b" and v: "v = (\<lambda>p. bootloader_verify_partition p s)"
  shows "\<exists>t'. boots n t = (map (map_option app_start) (fst (spec_boots n v b)), t') \<and> bl_at s (snd (spec_boots n v b)) t' \<and>
    bl_ok (snd (spec_boots n v b))"
  using assms(1,2)
proof (induction n arbitrary: b t)
  case (Suc n)
  obtain t1 where t1: "bootloader_main t = (map_option app_start (fst (boot_spec v b)), t1)"
      "bl_at s (snd (boot_spec v b)) t1" "bl_ok (snd (boot_spec v b))" by (rule bootloader_refines [OF Suc.prems v])
  from Suc.IH [OF t1(2,3)] show ?case using t1(1) by (auto simp: Let_def split: prod.splits)
qed simp

lemma bl_at_self: "flash_ready s \<Longrightarrow> bootloader_read_boot_info s = Some b \<Longrightarrow> bl_at s b s"
  by (auto simp: bl_at_def same_apps_def intro: exI [of _ "simulated_flash s"])

lemma spec_confirmed:
  assumes "bl_boot_confirmed b \<noteq> 0" and "v (bl_active_partition b)"
  shows "boot_spec v b = (Some (bl_active_partition b), b\<lparr>bl_boot_count := bl_boot_count b + 1\<rparr>)"
  using assms by (simp add: boot_spec_def spec_pending_def spec_attempts_def spec_select_def)

lemma spec_boots_confirmed:
  "bl_boot_confirmed b \<noteq> 0 \<Longrightarrow> v (bl_active_partition b) \<Longrightarrow> fst (spec_boots n v b) = replicate n (Some (bl_active_partition b))"
  by (induction n arbitrary: b) (simp_all add: spec_confirmed Let_def split_beta)

text \<open>A new image that is never confirmed: two attempts, then the old one for good.\<close>

lemma spec_boots_pending:
  assumes "bl_pending_partition b \<noteq> bl_active_partition b" and "bl_boot_confirmed b = 0" and "bl_rollback_enabled b \<noteq> 0"
    and "is_app (bl_pending_partition b)" and "is_app (bl_active_partition b)"
    and "v (bl_pending_partition b)" and "v (bl_active_partition b)"
  shows "fst (spec_boots (Suc (Suc (Suc n))) v b) =
    [Some (bl_pending_partition b), Some (bl_pending_partition b)] @ replicate (Suc n) (Some (bl_active_partition b))"
proof -
  let ?p = "bl_pending_partition b" and ?a = "bl_active_partition b"
  have o: "other_app ?p = ?a" using assms(1,4,5) by (auto simp: is_app_def other_app_def)
  let ?b1 = "b\<lparr>bl_active_partition := ?p, bl_boot_attempts := 1, bl_boot_count := bl_boot_count b + 1\<rparr>"
  have s1: "boot_spec v b = (Some ?p, ?b1)"
    using assms by (simp add: boot_spec_def spec_pending_def spec_attempts_def spec_select_def MAX_BOOT_ATTEMPTS_def word_le_nat_alt)
  let ?b2 = "?b1\<lparr>bl_boot_attempts := 2, bl_boot_count := bl_boot_count b + 2\<rparr>"
  have s2: "boot_spec v ?b1 = (Some ?p, ?b2)"
    using assms by (simp add: boot_spec_def spec_pending_def spec_attempts_def spec_select_def MAX_BOOT_ATTEMPTS_def word_le_nat_alt)
  let ?b3 = "?b2\<lparr>bl_active_partition := ?a, bl_pending_partition := ?a, bl_boot_confirmed := 1, bl_boot_attempts := 0,
    bl_rollback_count := bl_rollback_count b + 1, bl_boot_count := bl_boot_count b + 3\<rparr>"
  have s3: "boot_spec v ?b2 = (Some ?a, ?b3)"
    using assms o by (simp add: boot_spec_def spec_pending_def spec_attempts_def spec_select_def MAX_BOOT_ATTEMPTS_def word_le_nat_alt
        failed_over_def Let_def)
  have "fst (spec_boots n v ?b3) = replicate n (Some ?a)" using assms(7) spec_boots_confirmed [of ?b3 v n] by simp
  then show ?thesis using s1 s2 s3 by (simp add: Let_def split_beta)
qed

lemma boots_spec:
  assumes "flash_ready s" and "bootloader_read_boot_info s = Some b" and "bl_ok b"
  shows "fst (boots n s) = map (map_option app_start) (fst (spec_boots n (\<lambda>p. bootloader_verify_partition p s) b))"
  using boots_refine [OF bl_at_self [OF assms(1,2)] assms(3) refl, of n] by auto

lemma boots_confirmed:
  assumes "flash_ready s" and "bootloader_read_boot_info s = Some b" and "bl_ok b"
    and "bl_boot_confirmed b \<noteq> 0" and "bootloader_verify_partition (bl_active_partition b) s"
  shows "fst (boots n s) = replicate n (Some (app_start (bl_active_partition b)))"
  unfolding boots_spec [OF assms(1-3)] using spec_boots_confirmed [of b _ n] assms(4,5) by simp

lemma boots_pending:
  assumes "flash_ready s" and "bootloader_read_boot_info s = Some b" and "bl_ok b" and "bl_rollback_enabled b \<noteq> 0"
    and "bl_boot_confirmed b = 0" and "bl_pending_partition b \<noteq> bl_active_partition b"
    and "bootloader_verify_partition (bl_active_partition b) s" and "bootloader_verify_partition (bl_pending_partition b) s"
  shows "fst (boots (Suc (Suc (Suc n))) s) =
    [Some (app_start (bl_pending_partition b)), Some (app_start (bl_pending_partition b))] @
    replicate (Suc n) (Some (app_start (bl_active_partition b)))"
  unfolding boots_spec [OF assms(1-3)]
  using spec_boots_pending [of b "\<lambda>p. bootloader_verify_partition p s" n] assms(3-8) by (simp add: bl_ok_def)

section \<open>What is started\<close>

text \<open>Independent of the boot information: a word of the flash, and what the boot loader leaves of it.
  It never turns the first word of the data partition into the magic number of an image.\<close>

definition flash_word :: "nat \<Rightarrow> 'a flash_scheme \<Rightarrow> u32" where
  "flash_word a s = get32 0 (flash_bytes a 4 s)"

definition keeps_images :: "'a flash_scheme \<Rightarrow> 'a flash_scheme \<Rightarrow> bool" where
  "keeps_images s t \<longleftrightarrow> same_apps (simulated_flash s) (simulated_flash t) \<and>
     (flash_word 507904 s \<noteq> 0x544F5346 \<longrightarrow> flash_word 507904 t \<noteq> 0x544F5346)"

lemma keeps_images_refl [simp]: "keeps_images s s"
  by (simp add: keeps_images_def same_apps_def)

lemma keeps_images_trans: "keeps_images s t \<Longrightarrow> keeps_images t u \<Longrightarrow> keeps_images s u"
  by (simp add: keeps_images_def same_apps_def)

lemma get32_flash: "i + 4 \<le> n \<Longrightarrow> get32 i (flash_bytes a n s) = flash_word (a + i) s"
  by (simp add: get32_def flash_bytes_def flash_word_def add.assoc)

lemma flash_word_apps: "keeps_images s t \<Longrightarrow> a + 4 \<le> 507904 \<Longrightarrow> flash_word a t = flash_word a s"
  by (simp add: get32_def flash_bytes_def flash_word_def keeps_images_def same_apps_def)

lemma flash_word_put: "4 \<le> length bs \<Longrightarrow> flash_word a (s\<lparr>simulated_flash := put_bytes a bs m\<rparr>) = get32 0 bs"
  by (auto simp: get32_def flash_bytes_def flash_word_def put_bytes_def numeral_2_eq_2)

lemma get32_encode_bl: "get32 0 (encode_bl_boot_info b) = bl_magic b"
  by (rule get32_at [of _ "[]"]) (simp_all add: encode_bl_boot_info_def)

lemma erase_data_sector:
  "snd (flash_erase_sector FLASH_DATA_START s) = s \<or>
   snd (flash_erase_sector FLASH_DATA_START s) = s\<lparr>simulated_flash := put_bytes 507904 (replicate 4096 0xFF) (simulated_flash s)\<rparr>"
  by (simp add: flash_erase_sector_def Let_def FLASH_DATA_START_def FLASH_SECTOR_SIZE_def platform_flash_erase_sector_def)

lemma write_data_sector:
  "snd (flash_write FLASH_DATA_START (Some bs) s) = s \<or>
   snd (flash_write FLASH_DATA_START (Some bs) s) = s\<lparr>simulated_flash := put_bytes 507904 bs (simulated_flash s)\<rparr>"
  by (simp add: flash_write_def Let_def FLASH_DATA_START_def platform_flash_write_def)

lemma write_keeps_images:
  assumes "bl_magic b = 0x424F4F54"
  shows "keeps_images s (snd (bootloader_write_boot_info b s))"
proof -
  let ?e = "snd (flash_erase_sector FLASH_DATA_START s)" and ?bs = "encode_bl_boot_info b"
  have ff: "get32 0 (replicate 4096 (0xFF :: u8)) \<noteq> 0x544F5346" by (simp add: get32_def)
  have "keeps_images s ?e"
    using erase_data_sector [of s] ff
    by (elim disjE) (simp_all add: keeps_images_def flash_word_put, simp_all add: same_apps_def put_bytes_def)
  moreover have "keeps_images ?e (snd (flash_write FLASH_DATA_START (Some ?bs) ?e))"
    using write_data_sector [of ?bs ?e] assms
    by (elim disjE) (simp_all add: keeps_images_def flash_word_put get32_encode_bl, simp_all add: same_apps_def put_bytes_def)
  ultimately have "keeps_images s (snd (flash_write FLASH_DATA_START (Some ?bs) ?e))" by (rule keeps_images_trans)
  then show ?thesis using \<open>keeps_images s ?e\<close> by (auto simp: bootloader_write_boot_info_def split: prod.splits)
qed

text \<open>The parts of \<^verbatim>\<open>bootloader_main\<close>: which partition they select.\<close>

lemma bl_pending_part:
  assumes "bl_pending b s = (part, c, t)" and "bl_magic b = 0x424F4F54"
  shows "part \<in> {bl_active_partition b, bl_pending_partition b} \<and> bl_magic c = 0x424F4F54 \<and> keeps_images s t"
  using assms by (auto simp: bl_pending_def Let_def write_keeps_images split: if_splits prod.splits)

lemma bl_attempts_part:
  assumes "bl_attempts part b s = (Some (part', c), t)" and "bl_magic b = 0x424F4F54"
  shows "part' \<in> {part, 1, 2} \<and> bl_magic c = 0x424F4F54 \<and> keeps_images s t"
proof -
  have w: "keeps_images s (snd (bootloader_write_boot_info (failed_over d) (snd (bootloader_write_boot_info (failed_over d) s))))"
    if "bl_magic d = 0x424F4F54" for d
    using write_keeps_images [of "failed_over d"] that by (auto simp: failed_over_def Let_def intro: keeps_images_trans)
  show ?thesis
    using assms w [of "b\<lparr>bl_boot_attempts := bl_boot_attempts b + 1\<rparr>"]
    by (auto simp: write_keeps_images bl_attempts_def bootloader_handle_boot_failure_def failed_over_def other_app_def ota_partitions Let_def split: if_splits)
qed

lemma bl_select_part:
  assumes "bl_select part b s = (Some (part', c), t)" and "bl_magic b = 0x424F4F54"
  shows "part' \<in> {part, 1, 2} \<and> bl_magic c = 0x424F4F54 \<and> keeps_images s t \<and> bootloader_verify_partition part' t"
  using assms write_keeps_images [of "failed_over b"]
  by (auto simp: bl_select_def bootloader_handle_boot_failure_def failed_over_def other_app_def ota_partitions Let_def split: if_splits)

text \<open>What an accepted partition holds, in terms of the flash.\<close>

lemma verify_raw:
  assumes "bootloader_verify_partition p s"
  shows "\<exists>a n i. (p, a, n) \<in> {(0, 0, 16384), (1, 16384, 245760), (2, 262144, 245760), (3, 507904, 16384)} \<and>
    ota_get_partition_info p True = (OTA_OK, Some i) \<and> unat (pi_start_address i) = a \<and> flash_word a s = 0x544F5346 \<and>
    0 < unat (flash_word (a + 40) s) \<and> unat (flash_word (a + 40) s) \<le> n"
proof -
  have lt: "p < 4" using assms by (auto simp: bootloader_verify_partition_def ota_get_partition_info_def ota_partitions split: if_splits)
  then have "p = 0 \<or> p = 1 \<or> p = 2 \<or> p = 3" by (simp add: word_less_nat_alt word_unat_eq_iff) linarith
  then obtain a n i where i: "(p, a, n) \<in> {(0, 0, 16384), (1, 16384, 245760), (2, 262144, 245760), (3, 507904, 16384)}"
      "ota_get_partition_info p True = (OTA_OK, Some i)" "unat (pi_start_address i) = a" "unat (pi_size i) = n"
    by (auto simp: ota_get_partition_info_def ota_partitions partition_table_def flash_consts word_le_nat_alt)
  obtain e bs where r: "flash_read (pi_start_address i) True 104 s = (e, bs)" by fastforce
  have "e = FLASH_OK" using assms i(2) r by (auto simp: bootloader_verify_partition_def IMAGE_HEADER_SIZE_def split: if_splits)
  then have bs: "bs = Some (flash_bytes a 104 s)" using r i(3) by (auto simp: flash_read_def platform_flash_read_def split: if_splits)
  have "get32 0 (flash_bytes a 104 s) = 0x544F5346" "get32 40 (flash_bytes a 104 s) \<noteq> 0" "get32 40 (flash_bytes a 104 s) \<le> pi_size i"
    using assms i(2) r bs \<open>e = FLASH_OK\<close>
    by (auto simp: bootloader_verify_partition_def IMAGE_HEADER_SIZE_def decode_image_header_def Let_def not_less split: if_splits)
  then show ?thesis using i
    by (intro exI [of _ a] exI [of _ n] exI [of _ i]) (simp add: get32_flash word_le_nat_alt unat_gt_0)
qed

lemma read_boot_info_magic: "bootloader_read_boot_info s = Some b \<Longrightarrow> bl_magic b = 0x424F4F54"
  by (auto simp: bootloader_read_boot_info_def Let_def split: prod.splits if_splits)

text \<open>Boot information can only be read from a flash that was initialised before.\<close>

lemma read_boot_info_raw:
  assumes "flash_init s = (FLASH_OK, t)" and "bootloader_read_boot_info t = Some b"
  shows "t = s \<and> flash_word 507904 s = 0x424F4F54 \<and> simulated_flash s 507908 = bl_active_partition b \<and>
    simulated_flash s 507909 = bl_pending_partition b"
proof -
  obtain e bs where r: "flash_read FLASH_DATA_START True 32 t = (e, bs)" by fastforce
  have "e = FLASH_OK" using assms(2) r by (auto simp: bootloader_read_boot_info_def BL_BOOT_INFO_SIZE_def split: if_splits)
  then have bs: "bs = Some (flash_bytes 507904 32 t)" using r by (auto simp: flash_read_def data_start platform_flash_read_def split: if_splits)
  have b: "b = decode_bl_boot_info (flash_bytes 507904 32 t)" "bl_magic b = 0x424F4F54"
    using assms(2) r bs \<open>e = FLASH_OK\<close> by (auto simp: bootloader_read_boot_info_def BL_BOOT_INFO_SIZE_def Let_def split: if_splits)
  have w: "flash_word 507904 t = 0x424F4F54" using b get32_flash [of 0 32 507904 t] by (simp add: decode_bl_boot_info_def)
  have "t = s"
  proof (rule ccontr)
    assume "t \<noteq> s"
    then have "simulated_flash t i = 0xFF" if "i < 524288" for i
      using assms(1) that by (auto simp: flash_init_def FLASH_TOTAL_SIZE_def Let_def split: if_splits)
    then have "flash_word 507904 t = 0xFFFFFFFF" by (simp add: flash_word_def flash_bytes_def get32_def upt_rec)
    then show False using w by simp
  qed
  moreover have "simulated_flash t 507908 = bl_active_partition b" "simulated_flash t 507909 = bl_pending_partition b"
    by (simp_all add: b(1) decode_bl_boot_info_def flash_bytes_def)
  ultimately show ?thesis using w by simp
qed

lemma bootloader_main_parts:
  assumes "bootloader_main s = (Some a, s')"
  obtains s0 b s1 part c s2 part2 c2 s3 part3 c3 s4 where "flash_init s = (FLASH_OK, s0)"
    and "(case bootloader_read_boot_info s0 of Some b \<Rightarrow> (b, s0) | None \<Rightarrow> (default_boot_info, snd (bootloader_write_boot_info default_boot_info s0))) = (b, s1)"
    and "bl_pending b s1 = (part, c, s2)" and "bl_attempts part c s2 = (Some (part2, c2), s3)" and "bl_select part2 c2 s3 = (Some (part3, c3), s4)"
    and "s' = snd (bootloader_write_boot_info (c3\<lparr>bl_boot_count := bl_boot_count c3 + 1\<rparr>) s4)"
    and "\<And>i. ota_get_partition_info part3 True = (OTA_OK, Some i) \<Longrightarrow> a = pi_start_address i"
proof -
  obtain e s0 where 1: "flash_init s = (e, s0)" by fastforce
  have e: "e = FLASH_OK" using assms 1 by (auto simp: bootloader_main_def split: if_splits)
  obtain b s1 where 2: "(case bootloader_read_boot_info s0 of Some b \<Rightarrow> (b, s0)
      | None \<Rightarrow> (default_boot_info, snd (bootloader_write_boot_info default_boot_info s0))) = (b, s1)" by fastforce
  obtain part c s2 where 3: "bl_pending b s1 = (part, c, s2)" by (metis prod_cases3)
  obtain r s3 where 4: "bl_attempts part c s2 = (r, s3)" by fastforce
  note main = assms [unfolded bootloader_main_def 1 e Let_def prod.case 2 3 4]
  obtain part2 c2 where r: "r = Some (part2, c2)" using main by (cases r) auto
  obtain q s4 where 5: "bl_select part2 c2 s3 = (q, s4)" by fastforce
  obtain part3 c3 where q: "q = Some (part3, c3)" using main by (cases q) (auto simp: r 5)
  show thesis
  proof (rule that)
    show "flash_init s = (FLASH_OK, s0)" "bl_attempts part c s2 = (Some (part2, c2), s3)" "bl_select part2 c2 s3 = (Some (part3, c3), s4)"
      using 1 4 5 e r q by simp_all
    show "s' = snd (bootloader_write_boot_info (c3\<lparr>bl_boot_count := bl_boot_count c3 + 1\<rparr>) s4)"
      using main by (auto simp: r 5 q split: prod.splits if_splits)
    show "a = pi_start_address i" if "ota_get_partition_info part3 True = (OTA_OK, Some i)" for i using main that by (simp add: r 5 q)
  qed (rule 2 3)+
qed

section \<open>A concrete flash\<close>

definition demo_header :: "u8 list" where
  "demo_header = le32 OTA_MAGIC_NUMBER @ le32 1 @ replicate 32 0 @ le32 104 @ replicate 60 0"

definition demo_flash :: "bootloader_boot_info \<Rightarrow> flash" where
  "demo_flash b = memory.extend boot_pool (flash.fields (put_record (encode_bl_boot_info b)
     (put_bytes 16384 demo_header (put_bytes 262144 demo_header (\<lambda>_. 0xFF)))) True False 0 0)"

definition demo_boot_info :: "u8 \<Rightarrow> u8 \<Rightarrow> u8 \<Rightarrow> bootloader_boot_info" where
  "demo_boot_info active pending confirmed = \<lparr>bl_magic = OTA_BOOTINFO_MAGIC, bl_active_partition = active,
     bl_pending_partition = pending, bl_pad1 = 0, bl_boot_count = 7, bl_rollback_count = 0, bl_rollback_enabled = 1,
     bl_boot_confirmed = confirmed, bl_pad2 = 0, bl_boot_attempts = 0, bl_last_boot_timestamp = 0, bl_crc32 = 0\<rparr>"

lemma length_demo_header [simp]: "length demo_header = 104"
  by (simp add: demo_header_def)

lemma demo_header_ok: "ih_magic (decode_image_header demo_header) = OTA_MAGIC_NUMBER" "ih_image_size (decode_image_header demo_header) = 104"
proof -
  have "get32 0 demo_header = OTA_MAGIC_NUMBER" by (rule get32_at [of _ "[]"]) (simp_all add: demo_header_def)
  moreover have "get32 40 demo_header = 104"
    by (rule get32_at [of _ "le32 OTA_MAGIC_NUMBER @ le32 1 @ replicate 32 0" _ _ "replicate 60 0"]) (simp_all add: demo_header_def)
  ultimately show "ih_magic (decode_image_header demo_header) = OTA_MAGIC_NUMBER" "ih_image_size (decode_image_header demo_header) = 104"
    by (simp_all add: decode_image_header_def)
qed

lemma verify_demo_header:
  assumes "is_app p" and "flash_initialized s" and h: "flash_bytes (unat (app_start p)) 104 s = demo_header"
  shows "bootloader_verify_partition p s"
proof -
  obtain i where i: "ota_get_partition_info p True = (OTA_OK, Some i)" "pi_start_address i = app_start p" "pi_size i = FLASH_APP_A_SIZE"
    using app_info [OF assms(1)] by blast
  have "flash_read (app_start p) True 104 s = (FLASH_OK, Some demo_header)"
    using flash_read_ok [of s 104 "app_start p"] h assms(2) app_start_range(1) [of p] by simp
  then show ?thesis using i demo_header_ok
    by (simp add: bootloader_verify_partition_def IMAGE_HEADER_SIZE_def OTA_MAGIC_NUMBER_def FLASH_APP_A_SIZE_def)
qed

lemma demo_flash_sim: "demo_flash b = (demo_flash b)\<lparr>simulated_flash := put_record (encode_bl_boot_info b)
    (put_bytes 16384 demo_header (put_bytes 262144 demo_header (\<lambda>_. 0xFF)))\<rparr>"
  by (simp add: demo_flash_def flash.defs memory.defs)

lemma demo_flash_ready: "flash_ready (demo_flash b)"
  by (simp add: demo_flash_def flash_ready_def flash.defs memory.defs)

lemma demo_flash_apps: "bootloader_verify_partition OTA_PARTITION_APP_A (demo_flash b)" "bootloader_verify_partition OTA_PARTITION_APP_B (demo_flash b)"
proof -
  have init: "flash_initialized (demo_flash b)" using demo_flash_ready by (simp add: flash_ready_def)
  have a: "flash_bytes 16384 104 (demo_flash b) = demo_header"
    by (subst demo_flash_sim) (simp add: record_elsewhere flash_bytes_put_same)
  have b: "flash_bytes 262144 104 (demo_flash b) = demo_header"
    by (subst demo_flash_sim) (simp add: record_elsewhere flash_bytes_put flash_bytes_put_same)
  show "bootloader_verify_partition OTA_PARTITION_APP_A (demo_flash b)"
    by (rule verify_demo_header) (use init a in \<open>simp_all add: is_app_def app_start_def flash_consts\<close>)
  show "bootloader_verify_partition OTA_PARTITION_APP_B (demo_flash b)"
    by (rule verify_demo_header) (use init b in \<open>simp_all add: is_app_def app_start_def flash_consts ota_partitions\<close>)
qed

lemma demo_flash_read:
  "bootloader_read_boot_info (demo_flash (demo_boot_info a p c)) = Some (demo_boot_info a p c)"
  using demo_flash_ready [of "demo_boot_info a p c"]
  by (subst demo_flash_sim) (rule bootloader_read_ok, simp_all add: flash_ready_def demo_boot_info_def)

lemma demo_boot_info_ok: "is_app a \<Longrightarrow> is_app p \<Longrightarrow> bl_ok (demo_boot_info a p c)"
  by (simp add: bl_ok_def demo_boot_info_def)

section \<open>Properties\<close>

text \<open>C17. What the boot loader starts: whenever it jumps to an address, from whatever content of the
  flash, this is the start of the boot loader's own partition or of an application partition, the
  flash there has the magic number of an image, and the size field of the image is not zero and
  fits the partition. The data partition is never started; the boot loader's own partition only if the
  boot information on the flash names it, which nothing in the code excludes.\<close>

theorem bootloader_boots_verified:
  assumes "bootloader_main s = (Some a, s')"
  shows "\<exists>n. (unat a, n) \<in> {(0, 16 * 1024), (0x4000, 240 * 1024), (0x40000, 240 * 1024)} \<and>
     flash_word (unat a) s' = 0x544F5346 \<and> 0 < unat (flash_word (unat a + 40) s') \<and> unat (flash_word (unat a + 40) s') \<le> n \<and>
     (a = 0 \<longrightarrow> flash_word 507904 s = 0x424F4F54 \<and> (simulated_flash s 507908 = 0 \<or> simulated_flash s 507909 = 0))"
proof -
  obtain s0 b s1 part c s2 part2 c2 s3 part3 c3 s4 where
      m: "flash_init s = (FLASH_OK, s0)"
      "(case bootloader_read_boot_info s0 of Some b \<Rightarrow> (b, s0) | None \<Rightarrow> (default_boot_info, snd (bootloader_write_boot_info default_boot_info s0))) = (b, s1)"
      "bl_pending b s1 = (part, c, s2)" "bl_attempts part c s2 = (Some (part2, c2), s3)" "bl_select part2 c2 s3 = (Some (part3, c3), s4)"
      "s' = snd (bootloader_write_boot_info (c3\<lparr>bl_boot_count := bl_boot_count c3 + 1\<rparr>) s4)"
      "ota_get_partition_info part3 True = (OTA_OK, Some i) \<Longrightarrow> a = pi_start_address i" for i
    using assms by (rule bootloader_main_parts) blast
  have magic: "bl_magic b = 0x424F4F54" using m(2) by (auto simp: default_boot_info_def dest: read_boot_info_magic split: option.splits)
  note p1 = bl_pending_part [OF m(3) magic]
  note p2 = bl_attempts_part [OF m(4)]
  note p3 = bl_select_part [OF m(5)]
  have k1: "keeps_images s1 s4" using p1 p2 p3 by (blast intro: keeps_images_trans)
  have k2: "keeps_images s4 s'" unfolding m(6) using p1 p2 p3 by (intro write_keeps_images) simp
  obtain q n i where v: "(part3, q, n) \<in> {(0, 0, 16384), (1, 16384, 245760), (2, 262144, 245760), (3, 507904, 16384)}"
      "ota_get_partition_info part3 True = (OTA_OK, Some i)" "unat (pi_start_address i) = q" "flash_word q s4 = 0x544F5346"
      "0 < unat (flash_word (q + 40) s4)" "unat (flash_word (q + 40) s4) \<le> n"
    using verify_raw [of part3 s4] p1 p2 p3 by blast
  have qa: "q = unat a" using m(7) [OF v(2)] v(3) by simp
  have ch: "part3 \<in> {bl_active_partition b, bl_pending_partition b, 1, 2}" using p1 p2 p3 by blast
  have raw: "flash_word 507904 s = 0x424F4F54 \<and> s1 = s \<and> simulated_flash s 507908 = bl_active_partition b \<and>
      simulated_flash s 507909 = bl_pending_partition b" if "part3 \<notin> {1, 2}"
    using that ch m(1,2) read_boot_info_raw [of s] by (auto simp: default_boot_info_def ota_partitions split: option.splits)
  have n3: "part3 \<noteq> 3"
  proof
    assume "part3 = 3"
    then show False using raw k1 v(1,4) by (auto simp: keeps_images_def)
  qed
  have "flash_word q s' = flash_word q s4" "flash_word (q + 40) s' = flash_word (q + 40) s4"
    using v(1) n3 by (auto intro!: flash_word_apps [OF k2])
  moreover have "a = 0 \<Longrightarrow> part3 = 0" using v(1) n3 qa by auto
  moreover have "part3 = 0 \<Longrightarrow> simulated_flash s 507908 = 0 \<or> simulated_flash s 507909 = 0" using ch raw by auto
  ultimately show ?thesis using v(1,4-6) n3 raw unfolding qa [symmetric] by (intro exI [of _ n]) auto
qed

theorem bootloader_boots_verified_witness:
  "\<exists>s'. bootloader_main (demo_flash (demo_boot_info 1 2 0)) = (Some 0x40000, s') \<and>
     flash_word 0x40000 s' = 0x544F5346 \<and> unat (flash_word (0x40000 + 40) s') \<le> 240 * 1024"
proof -
  let ?b = "demo_boot_info 1 2 0" and ?s = "demo_flash (demo_boot_info 1 2 0)"
  have ok: "bl_ok ?b" by (rule demo_boot_info_ok) (simp_all add: is_app_def ota_partitions)
  have "fst (boots 3 ?s) = map (map_option app_start) (fst (spec_boots 3 (\<lambda>p. bootloader_verify_partition p ?s) ?b))"
    using boots_refine [OF bl_at_self [OF demo_flash_ready demo_flash_read] ok refl, of 3] by auto
  then have "fst (boots 3 ?s) = map (map_option app_start) [Some 2, Some 2, Some 1]"
    using spec_boots_pending [of ?b "\<lambda>p. bootloader_verify_partition p ?s" 0] demo_flash_apps
    by (simp add: demo_boot_info_def is_app_def ota_partitions eval_nat_numeral)
  then have "fst (bootloader_main ?s) = Some (app_start 2)" by (simp add: eval_nat_numeral Let_def split_beta)
  moreover have "app_start 2 = 0x40000" by (simp add: app_start_def ota_partitions flash_consts)
  ultimately obtain s' where "bootloader_main ?s = (Some 0x40000, s')" by (metis prod.collapse)
  then show ?thesis using bootloader_boots_verified [of ?s "0x40000" s'] by auto
qed

text \<open>C10. Trial and rollback, over resets that keep the flash and leave its driver initialised: with
  an unconfirmed update pending, both images valid and rollback enabled, the new image is started
  twice, and from the third boot on the old one is started again and again; a confirmed valid image
  is started at every boot.\<close>

theorem bootloader_trial_rollback:
  assumes "flash_ready s" and "bootloader_read_boot_info s = Some b" and "bl_ok b" and "bl_rollback_enabled b \<noteq> 0"
    and "bootloader_verify_partition OTA_PARTITION_APP_A s" and "bootloader_verify_partition OTA_PARTITION_APP_B s"
  shows "(bl_boot_confirmed b \<noteq> 0 \<longrightarrow> fst (boots n s) = replicate n (Some (app_start (bl_active_partition b)))) \<and>
    (bl_boot_confirmed b = 0 \<and> bl_pending_partition b \<noteq> bl_active_partition b \<longrightarrow>
      fst (boots (Suc (Suc (Suc n))) s) =
        [Some (app_start (bl_pending_partition b)), Some (app_start (bl_pending_partition b))] @
        replicate (Suc n) (Some (app_start (bl_active_partition b))))"
proof -
  have v: "bootloader_verify_partition p s" if "is_app p" for p using that assms(5,6) by (auto simp: is_app_def)
  show ?thesis
    using boots_confirmed [OF assms(1-3)] boots_pending [OF assms(1-4)] v assms(3) by (simp add: bl_ok_def)
qed

theorem bootloader_trial_rollback_witness:
  "fst (boots 4 (demo_flash (demo_boot_info 1 2 0))) = [Some 0x40000, Some 0x40000, Some 0x4000, Some 0x4000]"
  using bootloader_trial_rollback [OF demo_flash_ready demo_flash_read demo_boot_info_ok, of 1 2 0 1] demo_flash_apps
  by (simp add: demo_boot_info_def is_app_def ota_partitions app_start_def flash_consts eval_nat_numeral)

end
