(* ===== verification/OTA_Spec.thy ===== *)
theory OTA_Spec
  imports Bootloader_Spec
begin

text \<open>
  Properties of over-the-air updates: the checksum, what an update stores and how the boot loader
  takes it from there, and the bound check of \<^verbatim>\<open>ota_write_chunk\<close>.
\<close>

section \<open>Storing the boot information\<close>

lemma crc32_init_flash [simp]:
  "simulated_flash (crc32_init_table s) = simulated_flash s" "flash_ready (crc32_init_table s) = flash_ready s"
  "flash_initialized (crc32_init_table s) = flash_initialized s"
  "ot_boot_info (crc32_init_table s) = ot_boot_info s" "ot_initialized (crc32_init_table s) = ot_initialized s"
  by (simp_all add: crc32_init_table_def flash_ready_def)

text \<open>The record with its checksum.\<close>

definition sealed :: "boot_info \<Rightarrow> boot_info" where
  "sealed b = b\<lparr>bi_crc32 := crc_serial (take 20 (encode_boot_info b))\<rparr>"

lemma save_boot_info_ok:
  assumes "flash_ready s" and "crc_state_ok s"
  shows "save_boot_info s = (OTA_OK, (crc32_init_table s)\<lparr>ot_boot_info := sealed (ot_boot_info s),
    simulated_flash := put_record (encode_boot_info (sealed (ot_boot_info s))) (simulated_flash s)\<rparr>)"
proof -
  let ?b = "sealed (ot_boot_info s)"
  let ?s = "(crc32_init_table s)\<lparr>ot_boot_info := ?b\<rparr>"
  let ?e = "?s\<lparr>simulated_flash := put_bytes 507904 (replicate 4096 0xFF) (simulated_flash s)\<rparr>"
  have r: "flash_ready ?s" "flash_ready ?e" using assms(1) by (simp_all add: flash_ready_def crc32_init_table_def)
  have e: "flash_erase_sector FLASH_DATA_START ?s = (FLASH_OK, ?e)"
    using erase_sector_ok [OF r(1), of FLASH_DATA_START] by (simp add: data_start)
  have "encode_boot_info ?b \<noteq> []" using length_encode_boot_info [of ?b] by force
  then have w: "flash_write FLASH_DATA_START (Some (encode_boot_info ?b)) ?e = (FLASH_OK,
      ?e\<lparr>simulated_flash := put_bytes 507904 (encode_boot_info ?b) (simulated_flash ?e)\<rparr>)"
    using flash_write_ok [OF r(2), of "encode_boot_info ?b" FLASH_DATA_START] by (simp add: data_start)
  show ?thesis
    using e w crc32_calculate_serial [OF assms(2), of "take 20 (encode_boot_info (ot_boot_info s))"]
    by (simp add: save_boot_info_def BOOT_INFO_SIZE_def sealed_def put_record_eq)
qed

lemma sealed_view [simp]:
  "bi_magic (sealed b) = bi_magic b" "bi_active_partition (sealed b) = bi_active_partition b"
  "bi_pending_partition (sealed b) = bi_pending_partition b" "bi_boot_confirmed (sealed b) = bi_boot_confirmed b"
  "bi_rollback_enabled (sealed b) = bi_rollback_enabled b"
  by (simp_all add: sealed_def)

text \<open>What the boot loader finds after the update component has stored \<open>b\<close>.\<close>

lemma saved_boot_info:
  assumes "flash_ready s" and "bi_magic b = OTA_BOOTINFO_MAGIC" and "is_app (bi_active_partition b)" and "is_app (bi_pending_partition b)"
  shows "\<exists>b'. bootloader_read_boot_info (s\<lparr>simulated_flash := put_record (encode_boot_info b) m\<rparr>) = Some b' \<and> bl_ok b' \<and>
    bl_active_partition b' = bi_active_partition b \<and> bl_pending_partition b' = bi_pending_partition b \<and>
    bl_boot_confirmed b' = bi_boot_confirmed b \<and> bl_rollback_enabled b' = bi_rollback_enabled b"
proof -
  have "flash_initialized s" using assms(1) by (simp add: flash_ready_def)
  then have "bootloader_read_boot_info (s\<lparr>simulated_flash := put_record (encode_boot_info b) m\<rparr>) = Some (bl_view b 0xFFFFFFFF 0xFFFFFFFF)"
    by (rule bootloader_reads_ota [OF _ assms(2)])
  then show ?thesis using assms(2-4) by (simp add: bl_view_def bl_ok_def)
qed

section \<open>Installing an image\<close>

text \<open>A callback that only looks at the progress.\<close>

definition observes :: "'a ota_env \<Rightarrow> bool" where
  "observes E \<longleftrightarrow> (\<forall>f p d s. ota_call E f p d s = s)"

lemma observes_report: "observes E \<Longrightarrow> report_progress E s = s"
  by (simp add: report_progress_def observes_def split: option.splits)

lemma upd_progress_flash [simp]:
  "simulated_flash (upd_progress f s) = simulated_flash s" "flash_ready (upd_progress f s) = flash_ready s"
  "flash_initialized (upd_progress f s) = flash_initialized s"
  "ot_boot_info (upd_progress f s) = ot_boot_info s" "ot_update_partition (upd_progress f s) = ot_update_partition s"
  "crc_state_ok (upd_progress f s) = crc_state_ok s"
  by (simp_all add: upd_progress_def flash_ready_def crc_state_ok_def)

text \<open>The update partition erased and the image stored at its start.\<close>

definition put_image :: "u8 \<Rightarrow> u8 list \<Rightarrow> (nat \<Rightarrow> u8) \<Rightarrow> nat \<Rightarrow> u8" where
  "put_image p data m = put_bytes (unat (app_start p)) data (put_bytes (unat (app_start p)) (replicate 245760 0xFF) m)"

lemma verify_app:
  assumes "is_app p" and "flash_initialized s"
  shows "bootloader_verify_partition p s \<longleftrightarrow>
    ota_verify_image_header (Some (decode_image_header (flash_bytes (unat (app_start p)) 104 s))) = OTA_OK"
proof -
  obtain i where i: "ota_get_partition_info p True = (OTA_OK, Some i)" "pi_start_address i = app_start p" "pi_size i = FLASH_APP_A_SIZE"
    using app_info [OF assms(1)] by blast
  have r: "flash_read (app_start p) True 104 s = (FLASH_OK, Some (flash_bytes (unat (app_start p)) 104 s))"
    using flash_read_ok [of s 104 "app_start p"] assms(2) app_start_range(1) [of p] by simp
  show ?thesis
    using i r by (simp add: bootloader_verify_partition_def IMAGE_HEADER_SIZE_def ota_verify_image_header_def
        OTA_MAGIC_NUMBER_def OTA_MAX_DOWNLOAD_SIZE_def FLASH_APP_A_SIZE_def)
qed

lemma verify_read:
  assumes "is_app p" and "flash_initialized s"
  shows "ota_verify_partition p s = ota_verify_image_header (Some (decode_image_header (flash_bytes (unat (app_start p)) 104 s)))"
proof -
  obtain i where i: "ota_get_partition_info p True = (OTA_OK, Some i)" "pi_start_address i = app_start p"
    using app_info [OF assms(1)] by blast
  have lt: "\<not> p \<ge> OTA_PARTITION_MAX" using assms(1) by (auto simp: is_app_def ota_partitions word_le_nat_alt)
  have r: "flash_read (app_start p) True 104 s = (FLASH_OK, Some (flash_bytes (unat (app_start p)) 104 s))"
    using flash_read_ok [of s 104 "app_start p"] assms(2) app_start_range(1) [of p] by simp
  show ?thesis using i lt r by (simp add: ota_verify_partition_def IMAGE_HEADER_SIZE_def)
qed

lemma put_image_flash:
  assumes "length data \<le> 245760"
  shows "n \<le> length data \<Longrightarrow> flash_bytes (unat (app_start p)) n (s\<lparr>simulated_flash := put_image p data m\<rparr>) = take n data"
    and "i < unat (app_start p) \<or> unat (app_start p) + 245760 \<le> i \<Longrightarrow> put_image p data m i = m i"
  using assms by (simp add: put_image_def flash_bytes_put_same) (use assms in \<open>auto simp: put_image_def put_bytes_def\<close>)

lemma other_app_region:
  assumes "is_app p" and "unat (app_start (other_app p)) \<le> a" and "a < unat (app_start (other_app p)) + 104"
  shows "(a < unat (app_start p) \<or> unat (app_start p) + 245760 \<le> a) \<and> a < 507904"
  using assms by (auto simp: is_app_def other_app_def app_start_def ota_partitions flash_consts)

text \<open>The image in the update partition, and the boot information that asks for its trial.\<close>

definition pending_info :: "u8 \<Rightarrow> boot_info \<Rightarrow> boot_info" where
  "pending_info p b = sealed (b\<lparr>bi_pending_partition := p, bi_boot_confirmed := 0\<rparr>)"

lemma erase_app:
  assumes "flash_ready s"
  shows "flash_erase_range (app_start p) FLASH_APP_A_SIZE s =
    (FLASH_OK, s\<lparr>simulated_flash := put_bytes (unat (app_start p)) (replicate 245760 0xFF) (simulated_flash s)\<rparr>)"
  using flash_erase_range_ok [OF assms, of "app_start p" FLASH_APP_A_SIZE 60] app_start_range [of p]
  by (simp add: FLASH_APP_A_SIZE_def)

lemma write_app:
  assumes "flash_ready s" and "data \<noteq> []" and "length data \<le> 245760"
  shows "flash_write (app_start p) (Some data) s = (FLASH_OK, s\<lparr>simulated_flash := put_bytes (unat (app_start p)) data (simulated_flash s)\<rparr>)"
  using assms app_start_range(1) [of p] by (intro flash_write_ok) auto

lemma install_image_ok:
  assumes E: "observes E" and s: "flash_ready s" "crc_state_ok s" "is_app (ot_update_partition s)"
    and d: "104 \<le> length data" "length data \<le> 245760" "ota_verify_image_header (Some (decode_image_header (take 104 data))) = OTA_OK"
  shows "\<exists>s' c. install_image E data s = (OTA_OK, s') \<and>
    s' = c\<lparr>simulated_flash := put_record (encode_boot_info (pending_info (ot_update_partition s) (ot_boot_info s)))
        (put_image (ot_update_partition s) data (simulated_flash s))\<rparr> \<and> flash_ready c"
proof -
  let ?p = "ot_update_partition s"
  obtain i where i: "ota_get_partition_info ?p True = (OTA_OK, Some i)" "pi_start_address i = app_start ?p" "pi_size i = FLASH_APP_A_SIZE"
    using app_info [OF s(3)] by blast
  let ?e = "s\<lparr>simulated_flash := put_bytes (unat (app_start ?p)) (replicate 245760 0xFF) (simulated_flash s)\<rparr>"
  let ?w = "s\<lparr>simulated_flash := put_image ?p data (simulated_flash s)\<rparr>"
  let ?f = "\<lambda>p. p\<lparr>op_written_bytes := of_nat (length data), op_progress_percent := 100, op_state := OTA_STATE_VERIFYING\<rparr>"
  let ?u = "upd_progress ?f ?w"
  have ne: "data \<noteq> []" using d(1) by auto
  have w: "flash_write (app_start ?p) (Some data) ?e = (FLASH_OK, ?w)"
    using write_app [of ?e data ?p] s(1) ne d(2) by (simp add: put_image_def)
  have "flash_bytes (unat (app_start ?p)) 104 ?u = take 104 data"
    using put_image_flash(1) [OF d(2,1), where s = s] by (simp add: flash_bytes_def)
  then have v: "ota_verify_partition ?p ?u = OTA_OK"
    using verify_read [of ?p ?u] s d(3) by (simp add: flash_ready_def)
  let ?b = "(ot_boot_info s)\<lparr>bi_pending_partition := ?p, bi_boot_confirmed := 0\<rparr>"
  let ?v = "?u\<lparr>ot_boot_info := ?b\<rparr>"
  have "flash_ready ?v" "crc_state_ok ?v" using s by (simp_all add: flash_ready_def crc_state_ok_def upd_progress_def)
  note sv = save_boot_info_ok [OF this]
  let ?b' = "pending_info ?p (ot_boot_info s)"
  let ?m = "put_record (encode_boot_info ?b') (put_image ?p data (simulated_flash s))"
  let ?c = "(crc32_init_table ?v)\<lparr>ot_boot_info := ?b'\<rparr>"
  have "save_boot_info ?v = (OTA_OK, ?c\<lparr>simulated_flash := ?m\<rparr>)" using sv by (simp add: pending_info_def)
  then have "install_image E data s = (OTA_OK, upd_progress (\<lambda>p. p\<lparr>op_state := OTA_STATE_COMPLETE\<rparr>) (?c\<lparr>simulated_flash := ?m\<rparr>))"
    using erase_app [OF s(1), of ?p] w v i by (simp add: install_image_def observes_report [OF E])
  moreover have "upd_progress f (?c\<lparr>simulated_flash := ?m\<rparr>) = (upd_progress f ?c)\<lparr>simulated_flash := ?m\<rparr>" for f
    by (simp add: upd_progress_def)
  moreover have "flash_ready (upd_progress f ?c)" for f
    using s(1) by (simp add: flash_ready_def crc32_init_table_def upd_progress_def)
  ultimately show ?thesis by metis
qed

lemma update_from_buffer_ok:
  assumes E: "observes E" and s: "ot_initialized s" "flash_ready s" "crc_state_ok s" "is_app (ot_update_partition s)"
    and d: "104 \<le> length data" "length data \<le> 245760" "ota_verify_image_header (Some (decode_image_header (take 104 data))) = OTA_OK"
  shows "\<exists>s' c. ota_start_update_from_buffer E (Some data) cb ud s = (OTA_OK, s') \<and>
    s' = c\<lparr>simulated_flash := put_record (encode_boot_info (pending_info (ot_update_partition s) (ot_boot_info s)))
        (put_image (ot_update_partition s) data (simulated_flash s))\<rparr> \<and> flash_ready c"
proof -
  let ?n = "of_nat (length data) :: u32"
  let ?h = "decode_image_header (take 104 data)"
  let ?f = "\<lambda>p. p\<lparr>op_state := OTA_STATE_WRITING, op_total_bytes := ?n, op_downloaded_bytes := ?n\<rparr>"
  let ?s = "upd_progress ?f (s\<lparr>ot_callback := cb, ot_callback_user_data := ud, ot_current_header := ?h\<rparr>)"
  have n: "unat ?n = length data" unfolding unat_of_nat using d(2) by simp
  then have "?n \<noteq> 0" "\<not> ?n > OTA_MAX_DOWNLOAD_SIZE" "\<not> ?n < of_nat IMAGE_HEADER_SIZE"
    using d(1,2) by (auto simp: word_less_nat_alt OTA_MAX_DOWNLOAD_SIZE_def IMAGE_HEADER_SIZE_def)
  then have eq: "ota_start_update_from_buffer E (Some data) cb ud s = install_image E data ?s"
    using s(1) d(3) by (simp add: ota_start_update_from_buffer_def observes_report [OF E] IMAGE_HEADER_SIZE_def Let_def)
  have s': "flash_ready ?s" "crc_state_ok ?s" "ot_update_partition ?s = ot_update_partition s"
      "ot_boot_info ?s = ot_boot_info s" "simulated_flash ?s = simulated_flash s"
    using s(2,3) by (simp_all add: upd_progress_def flash_ready_def crc_state_ok_def)
  have app: "is_app (ot_update_partition ?s)" using s(4) s'(3) by simp
  show ?thesis using install_image_ok [OF E s'(1,2) app d] unfolding s'(3-5) eq .
qed

section \<open>Checksums of the flash by chunks\<close>

lemma flash_bytes_split: "flash_bytes a (m + n) s = flash_bytes a m s @ flash_bytes (a + m) n s"
proof -
  have "[a..<a + (m + n)] = [a..<a + m] @ [a + m..<a + m + n]" using upt_add_eq_append [of a "a + m" n] by (simp add: add.assoc)
  then show ?thesis unfolding flash_bytes_def by simp
qed

lemma crc_chunks_fold:
  assumes "flash_initialized s" and "unat start + unat offset + unat remaining \<le> 524288"
  shows "\<exists>s'. crc_chunks start buffer remaining offset crc s =
    (Inr (fold (crc32_step (crc32_table s)) (flash_bytes (unat start + unat offset) (unat remaining) s) crc), s')"
  using assms
proof (induction start buffer remaining offset crc s rule: crc_chunks.induct)
  case (1 start buffer remaining offset crc s)
  show ?case
  proof (cases "remaining > 0")
    case True
    define k where "k = (if remaining < 4096 then remaining else 4096 :: u32)"
    have k: "unat k \<le> unat remaining" "0 < k" using True by (auto simp: k_def word_less_nat_alt word_le_nat_alt)
    have so: "unat (start + offset) = unat start + unat offset" using 1(3) by (subst unat_add_u32) simp_all
    let ?bs = "flash_bytes (unat start + unat offset) (unat k) s"
    let ?s = "heap_store buffer ?bs s"
    have rd: "flash_read (start + offset) True k s = (FLASH_OK, Some ?bs)"
      using flash_read_ok [OF 1(2) k(2), of "start + offset"] 1(3) k(1) so by simp
    have rk: "unat (remaining - k) = unat remaining - unat k" using k(1) by (simp add: unat_sub word_le_nat_alt)
    have ok: "unat (offset + k) = unat offset + unat k" using 1(3) k(1) by (subst unat_add_u32) simp_all
    have hs: "flash_initialized ?s" "crc32_table ?s = crc32_table s" "flash_bytes a n ?s = flash_bytes a n s" for a n
      using 1(2) by (simp_all add: heap_store_def flash_bytes_def)
    have bd: "unat start + unat (offset + k) + unat (remaining - k) \<le> 524288" using 1(3) k(1) rk ok by simp
    have "\<exists>s'. crc_chunks start buffer (remaining - k) (offset + k) (fold (crc32_step (crc32_table ?s)) ?bs crc) ?s =
        (Inr (fold (crc32_step (crc32_table ?s)) (flash_bytes (unat start + unat (offset + k)) (unat (remaining - k)) ?s)
          (fold (crc32_step (crc32_table ?s)) ?bs crc)), s')"
      by (rule 1(1) [OF True k_def refl rd [symmetric]]) (use hs(1) bd in simp_all)
    moreover have "flash_bytes (unat start + unat offset) (unat remaining) s =
        ?bs @ flash_bytes (unat start + unat (offset + k)) (unat (remaining - k)) ?s"
      using flash_bytes_split [of "unat start + unat offset" "unat k" "unat remaining - unat k" s] k(1) by (simp add: hs rk ok add.assoc)
    ultimately show ?thesis
      using True rd hs(2) by (subst crc_chunks.simps) (simp add: Let_def k_def [symmetric])
  next
    case False
    then have "remaining = 0" using word_neq_0_conv by blast
    then show ?thesis by (subst crc_chunks.simps) (simp add: flash_bytes_def)
  qed
qed

section \<open>A concrete device\<close>

text \<open>Partition A runs and is confirmed; both application partitions hold an image.\<close>

definition demo_ota :: "u8 \<Rightarrow> ota" where
  "demo_ota running = flash.extend (demo_flash (demo_boot_info running running 1)) (ota.fields True default_config
     \<lparr>op_state = OTA_STATE_IDLE, op_total_bytes = 0, op_downloaded_bytes = 0, op_written_bytes = 0, op_progress_percent = 0,
       op_last_error = OTA_OK\<rparr> None None running (other_app running) (bi_view (demo_boot_info running running 1)) 0
     (decode_image_header demo_header) (\<lambda>_. 0) False)"

definition demo_ota_env :: "unit ota_env" where
  "demo_ota_env = \<lparr>ota_call = (\<lambda>f p d s. s), ota_http_get = (\<lambda>url timeout s. (OS_OK, Some demo_header, s)), ota_http_free = (\<lambda>s. s)\<rparr>"

lemma demo_ota_simps [simp]:
  "ot_initialized (demo_ota p)" "flash_ready (demo_ota p)" "crc_state_ok (demo_ota p)" "flash_initialized (demo_ota p)"
  "ot_running_partition (demo_ota p) = p" "ot_update_partition (demo_ota p) = other_app p"
  "ot_boot_info (demo_ota p) = bi_view (demo_boot_info p p 1)" "crc32_table_initialized (demo_ota p) = False"
  by (simp_all add: demo_ota_def flash.defs ota.defs demo_flash_def memory.defs crc_state_ok_def flash_ready_def)

lemma demo_ota_flash: "simulated_flash (demo_ota p) = simulated_flash (demo_flash (demo_boot_info p p 1))"
  by (simp add: demo_ota_def flash.defs ota.defs demo_flash_def memory.defs)

lemma demo_ota_verified: "is_app q \<Longrightarrow> bootloader_verify_partition q (demo_ota p)"
proof -
  assume q: "is_app q"
  let ?f = "demo_flash (demo_boot_info p p 1)"
  have i: "flash_initialized ?f" using demo_flash_ready by (simp add: flash_ready_def)
  have "bootloader_verify_partition q ?f" using q demo_flash_apps by (auto simp: is_app_def)
  moreover have "flash_bytes a n (demo_ota p) = flash_bytes a n ?f" for a n by (simp add: flash_bytes_def demo_ota_flash)
  ultimately show ?thesis using verify_app [OF q i] verify_app [OF q, of "demo_ota p"] by simp
qed

section \<open>Properties\<close>

text \<open>C18. The table-driven CRC-32 computes the bit-serial one, in one go over a buffer as well as
  chunk by chunk over a region of the flash.\<close>

theorem crc32_is_serial:
  assumes "crc_state_ok s"
  shows "fst (crc32_calculate data s) = crc_serial data \<and>
    (flash_initialized s \<and> unat start + unat n \<le> 524288 \<longrightarrow>
      (\<exists>s'. crc_chunks start buffer n 0 0xFFFFFFFF (crc32_init_table s) = (Inr (NOT (crc_serial (flash_bytes (unat start) (unat n) s))), s')))"
proof (intro conjI impI)
  let ?t = "crc32_init_table s"
  show "fst (crc32_calculate data s) = crc_serial data" using crc32_calculate_serial [OF assms] by simp
  assume s: "flash_initialized s \<and> unat start + unat n \<le> 524288"
  have "flash_bytes a k ?t = flash_bytes a k s" for a k by (simp add: flash_bytes_def)
  then show "\<exists>s'. crc_chunks start buffer n 0 0xFFFFFFFF ?t = (Inr (NOT (crc_serial (flash_bytes (unat start) (unat n) s))), s')"
    using crc_chunks_fold [of ?t start 0 n buffer "0xFFFFFFFF"] s crc32_init_table_ok [OF assms]
    by (simp add: crc_serial_def crc32_fold_serial)
qed

theorem crc32_is_serial_witness: "fst (crc32_calculate [0x61] (demo_ota 1)) = 0xE8B7BE43"
proof -
  have "[0..<8] = [0, 1, 2, 3, 4, 5, 6, 7 :: nat]" by code_simp
  then have bits: "byte_bits 0x61 = [True, False, False, False, False, True, True, False]"
    unfolding byte_bits_def by (simp add: bit_iff_odd_drop_bit)
  have "crc_serial [0x61] = 0xE8B7BE43" by (simp add: crc_serial_def bits crc_feed_def)
  then show ?thesis using conjunct1 [OF crc32_is_serial [of "demo_ota 1" "[0x61]"]] by simp
qed

text \<open>C2. An update from beginning to end: with a valid image of at most 240 KB,
  \<^verbatim>\<open>ota_start_update_from_buffer\<close> succeeds, the update partition holds the image, every byte
  outside of this partition and of the sector of the boot information is untouched; and the
  following resets, which keep the flash and leave its driver initialised, start the new image
  twice and, as it is not confirmed, then the old one for good.\<close>

theorem ota_update_boots:
  assumes "observes E" and "ot_initialized s" and "flash_ready s" and "crc_state_ok s"
    and p: "p = ot_update_partition s" "is_app p" "bi_active_partition (ot_boot_info s) = other_app p"
    and "bi_magic (ot_boot_info s) = OTA_BOOTINFO_MAGIC" and "bi_rollback_enabled (ot_boot_info s) \<noteq> 0"
    and "bootloader_verify_partition (other_app p) s"
    and "104 \<le> length data" and "length data \<le> 245760"
    and "ota_verify_image_header (Some (decode_image_header (take 104 data))) = OTA_OK"
  shows "\<exists>s'. ota_start_update_from_buffer E (Some data) callback user_data s = (OTA_OK, s') \<and>
    flash_bytes (unat (app_start p)) (length data) s' = data \<and>
    (\<forall>a. (a < unat (app_start p) \<or> unat (app_start p) + 245760 \<le> a) \<and> (a < 507904 \<or> 512000 \<le> a) \<longrightarrow>
       simulated_flash s' a = simulated_flash s a) \<and>
    fst (boots (Suc (Suc (Suc n))) s') =
      [Some (app_start p), Some (app_start p)] @ replicate (Suc n) (Some (app_start (other_app p)))"
proof -
  let ?b = "pending_info p (ot_boot_info s)"
  obtain s' c where s': "ota_start_update_from_buffer E (Some data) callback user_data s = (OTA_OK, s')" "flash_ready c"
      "s' = c\<lparr>simulated_flash := put_record (encode_boot_info ?b) (put_image p data (simulated_flash s))\<rparr>"
    using update_from_buffer_ok [OF assms(1-4) _ assms(11-13), of callback user_data] p(2) unfolding p(1) by blast
  have inf: "bi_magic ?b = OTA_BOOTINFO_MAGIC" "bi_active_partition ?b = other_app p" "bi_pending_partition ?b = p"
      "bi_boot_confirmed ?b = 0" "bi_rollback_enabled ?b \<noteq> 0"
    using assms(7-9) by (simp_all add: pending_info_def)
  have "is_app (bi_active_partition ?b)" "is_app (bi_pending_partition ?b)" using inf(2,3) p(2) by simp_all
  from saved_boot_info [OF s'(2) inf(1) this, of "put_image p data (simulated_flash s)"]
  obtain b where b: "bootloader_read_boot_info s' = Some b" "bl_ok b" "bl_active_partition b = other_app p"
      "bl_pending_partition b = p" "bl_boot_confirmed b = 0" "bl_rollback_enabled b \<noteq> 0"
    unfolding s'(3) inf(2-4) using inf(5) by metis
  have new: "flash_bytes (unat (app_start p)) k s' = take k data" if "k \<le> length data" for k
    using put_image_flash(1) [OF assms(12) that] that assms(12) app_start_range(1) [of p] unfolding s'(3) by (subst record_elsewhere) simp_all
  have ini: "flash_initialized s" "flash_initialized s'" "flash_ready s'" using assms(3) s'(2) by (simp_all add: flash_ready_def s'(3))
  have out: "simulated_flash s' a = simulated_flash s a"
    if "a < unat (app_start p) \<or> unat (app_start p) + 245760 \<le> a" "a < 507904 \<or> 512000 \<le> a" for a
    using put_image_flash(2) [OF assms(12) that(1)] that(2) unfolding s'(3) by (auto simp: put_record_def put_bytes_def)
  have "flash_bytes (unat (app_start (other_app p))) 104 s' = flash_bytes (unat (app_start (other_app p))) 104 s"
    unfolding flash_bytes_def using other_app_region [OF p(2)] by (intro map_cong refl out) auto
  then have "bootloader_verify_partition (other_app p) s'" using assms(10) verify_app [OF is_app_other ini(1)] verify_app [OF is_app_other ini(2)] by simp
  moreover have "bootloader_verify_partition p s'" using verify_app [OF p(2) ini(2)] new [of 104] assms(11,13) by simp
  moreover have "p \<noteq> other_app p" using p(2) by (auto simp: is_app_def other_app_def ota_partitions)
  ultimately have "fst (boots (Suc (Suc (Suc n))) s') =
      [Some (app_start p), Some (app_start p)] @ replicate (Suc n) (Some (app_start (other_app p)))"
    using boots_pending [OF ini(3) b(1,2,6,5), of n] by (simp add: b)
  then show ?thesis using s'(1) new [of "length data"] out by auto
qed

theorem ota_update_boots_witness:
  "\<exists>s'. ota_start_update_from_buffer demo_ota_env (Some demo_header) None None (demo_ota 1) = (OTA_OK, s') \<and>
     fst (boots 4 s') = [Some 0x40000, Some 0x40000, Some 0x4000, Some 0x4000]"
proof -
  have o: "other_app 1 = 2" "other_app 2 = 1" and a: "is_app 1" "is_app 2" by (simp_all add: other_app_def is_app_def ota_partitions)
  have d: "observes demo_ota_env" "2 = ot_update_partition (demo_ota 1)" "bi_active_partition (ot_boot_info (demo_ota 1)) = other_app 2"
      "bi_magic (ot_boot_info (demo_ota 1)) = OTA_BOOTINFO_MAGIC" "bi_rollback_enabled (ot_boot_info (demo_ota 1)) \<noteq> 0"
    using o by (simp_all add: observes_def demo_ota_env_def bi_view_def demo_boot_info_def)
  have v: "bootloader_verify_partition (other_app 2) (demo_ota 1)" unfolding o using demo_ota_verified [OF a(1)] .
  have h: "ota_verify_image_header (Some (decode_image_header (take 104 demo_header))) = OTA_OK"
    using demo_header_ok by (simp add: ota_verify_image_header_def OTA_MAX_DOWNLOAD_SIZE_def)
  have n: "Suc (Suc (Suc 1)) = 4" by simp
  have st: "app_start 1 = 0x4000" "app_start 2 = 0x40000" by (simp_all add: app_start_def flash_consts ota_partitions)
  have "[Some (0x40000 :: u32), Some 0x40000] @ replicate (Suc 1) (Some 0x4000) = [Some 0x40000, Some 0x40000, Some 0x4000, Some 0x4000]" by simp
  note this [simp]
  show ?thesis
    using ota_update_boots [OF d(1) demo_ota_simps(1-3) d(2) a(2) d(3-5) v _ _ h, of None None 1] unfolding o st n by auto
qed

text \<open>Confirmation: after \<^verbatim>\<open>ota_confirm_boot\<close> the running image is the one that is started at
  every boot from then on.\<close>

theorem ota_confirm_keeps:
  assumes "ot_initialized s" and "flash_ready s" and "crc_state_ok s" and "is_app (ot_running_partition s)"
    and "is_app (bi_pending_partition (ot_boot_info s))" and "bi_magic (ot_boot_info s) = OTA_BOOTINFO_MAGIC"
    and "bootloader_verify_partition (ot_running_partition s) s"
  shows "\<exists>s'. ota_confirm_boot s = (OTA_OK, s') \<and> fst (boots n s') = replicate n (Some (app_start (ot_running_partition s)))"
proof -
  let ?p = "ot_running_partition s"
  let ?b = "(ot_boot_info s)\<lparr>bi_boot_confirmed := 1, bi_active_partition := ?p\<rparr>"
  let ?s = "s\<lparr>ot_boot_info := ?b\<rparr>"
  let ?c = "(crc32_init_table ?s)\<lparr>ot_boot_info := sealed ?b\<rparr>"
  let ?s' = "?c\<lparr>simulated_flash := put_record (encode_boot_info (sealed ?b)) (simulated_flash s)\<rparr>"
  have r: "flash_ready ?s" "crc_state_ok ?s" "flash_ready ?c" using assms(2,3) by (simp_all add: flash_ready_def crc_state_ok_def crc32_init_table_def)
  have c: "ota_confirm_boot s = (OTA_OK, ?s')" using save_boot_info_ok [OF r(1,2)] assms(1) by (simp add: ota_confirm_boot_def)
  obtain b where b: "bootloader_read_boot_info ?s' = Some b" "bl_ok b" "bl_active_partition b = ?p" "bl_boot_confirmed b \<noteq> 0"
    using saved_boot_info [OF r(3), of "sealed ?b" "simulated_flash s"] assms(4-6) by auto
  have i: "flash_initialized s" "flash_initialized ?c" "flash_initialized ?s'" using assms(2) r(3) by (simp_all add: flash_ready_def)
  have "flash_bytes a 104 ?s' = flash_bytes a 104 s" if "a + 104 \<le> 507904" for a
    using that by (subst record_elsewhere) (simp_all add: flash_bytes_def)
  then have "bootloader_verify_partition ?p ?s'"
    using verify_app [OF assms(4) i(1)] verify_app [OF assms(4) i(3)] assms(7) app_start_range(1) [of ?p] by simp
  then have "fst (boots n ?s') = replicate n (Some (app_start ?p))"
    using boots_confirmed [of ?s' b n] b r(3) by simp
  then show ?thesis using c by blast
qed

theorem ota_confirm_keeps_witness:
  "\<exists>s'. ota_confirm_boot (demo_ota 2) = (OTA_OK, s') \<and> fst (boots 5 s') = replicate 5 (Some 0x40000)"
  using ota_confirm_keeps [of "demo_ota 2" 5] demo_ota_verified [of 2 2]
  by (simp add: is_app_def ota_partitions bi_view_def demo_boot_info_def app_start_def flash_consts)

text \<open>C29. The bound check of \<^verbatim>\<open>ota_write_chunk\<close> wraps around: while partition A is updated, a chunk
  of at least 16 KB at the offset \<^verbatim>\<open>0xFFFFC000\<close> is accepted, and it overwrites the boot loader at
  the start of the flash.\<close>

theorem ota_write_chunk_escapes:
  assumes "ot_initialized s" and "flash_ready s" and "ot_update_partition s = OTA_PARTITION_APP_A"
    and "16384 \<le> length data" and "length data \<le> 245760" and "observes E"
  shows "\<exists>s'. ota_write_chunk E (Some data) 0xFFFFC000 s = (OTA_OK, s') \<and> flash_bytes 0 (length data) s' = data"
proof -
  let ?n = "of_nat (length data) :: u32"
  have a: "is_app OTA_PARTITION_APP_A" "app_start OTA_PARTITION_APP_A = 0x4000" by (simp_all add: is_app_def app_start_def flash_consts)
  obtain i where i: "ota_get_partition_info OTA_PARTITION_APP_A True = (OTA_OK, Some i)" "pi_start_address i = 0x4000" "pi_size i = FLASH_APP_A_SIZE"
    using app_info [OF a(1)] a(2) by auto
  have n: "unat ?n = length data" unfolding unat_of_nat using assms(5) by simp
  have w: "0xFFFFC000 + ?n = ?n - 0x4000" by simp
  have "unat (0xFFFFC000 + ?n) = length data - 16384" unfolding w using assms(4) n by (subst unat_sub) (simp_all add: word_le_nat_alt)
  then have "\<not> 0xFFFFC000 + ?n > FLASH_APP_A_SIZE" using assms(5) by (simp add: word_less_nat_alt FLASH_APP_A_SIZE_def)
  moreover have "flash_write 0 (Some data) s = (FLASH_OK, s\<lparr>simulated_flash := put_bytes 0 data (simulated_flash s)\<rparr>)"
    using flash_write_ok [OF assms(2), of data 0] assms(4,5) by (cases data) simp_all
  moreover have "pi_start_address i + 0xFFFFC000 = 0" using i(2) by (simp add: word_eq_iff_unsigned)
  ultimately have "\<exists>s'. ota_write_chunk E (Some data) 0xFFFFC000 s = (OTA_OK, s') \<and> simulated_flash s' = put_bytes 0 data (simulated_flash s)"
    using i(1,3) assms(1,3) by (simp add: ota_write_chunk_def observes_report [OF assms(6)] Let_def)
  moreover have "flash_bytes 0 (length data) s' = data" if "simulated_flash s' = put_bytes 0 data m" for s' :: "'a ota_scheme" and m
    using flash_bytes_put_same [where n = "length data" and bs = data and a = 0 and s = s' and m = m] that by (simp add: flash_bytes_def)
  ultimately show ?thesis by blast
qed

theorem ota_write_chunk_escapes_witness:
  "\<exists>s'. ota_write_chunk demo_ota_env (Some (replicate 16384 0xAA)) 0xFFFFC000 (demo_ota 2) = (OTA_OK, s') \<and>
     flash_bytes 0 16384 s' = replicate 16384 0xAA"
  by (rule ota_write_chunk_escapes [where data = "replicate 16384 0xAA", unfolded length_replicate])
    (simp_all add: other_app_def ota_partitions observes_def demo_ota_env_def)

end
