(* ===== verification/Net.thy ===== *)
theory Net
  imports Sync Flash
begin

text \<open>
  The core of the network stack, \<^verbatim>\<open>src/net/network.c\<close> with the types of \<^verbatim>\<open>net.h\<close>: addresses, the
  driver interface, the pool of network buffers, the configuration, and the utility functions
  for addresses and checksums.

  A pointer into a buffer is the list of the bytes from there to the end of the buffer. The
  functions of a driver work on a state of their own. The state of the stack is \<open>'d net\<close>; next to
  the kernel, the synchronisation objects and the heap it is a member of \<open>'d nets\<close>.
\<close>

section \<open>Addresses and packets\<close>

definition NET_MAX_SOCKETS :: nat where "NET_MAX_SOCKETS = 8"
definition NET_BUFFER_SIZE :: nat where "NET_BUFFER_SIZE = 1500"
definition NET_MAX_BUFFERS :: nat where "NET_MAX_BUFFERS = 8"

datatype mac_addr = MAC u8 u8 u8 u8 u8 u8
datatype ipv4_addr = IPV4 u8 u8 u8 u8

primrec mac_bytes :: "mac_addr \<Rightarrow> u8 list" where
  "mac_bytes (MAC a b c d e f) = [a, b, c, d, e, f]"

primrec ip_bytes :: "ipv4_addr \<Rightarrow> u8 list" where
  "ip_bytes (IPV4 a b c d) = [a, b, c, d]"

definition mac_at :: "nat \<Rightarrow> u8 list \<Rightarrow> mac_addr" where
  "mac_at i bs = MAC (bs ! i) (bs ! (i + 1)) (bs ! (i + 2)) (bs ! (i + 3)) (bs ! (i + 4)) (bs ! (i + 5))"

definition ip_at :: "nat \<Rightarrow> u8 list \<Rightarrow> ipv4_addr" where
  "ip_at i bs = IPV4 (bs ! i) (bs ! (i + 1)) (bs ! (i + 2)) (bs ! (i + 3))"

definition net_ipv4_equal :: "ipv4_addr \<Rightarrow> ipv4_addr \<Rightarrow> bool" where
  "net_ipv4_equal a b \<longleftrightarrow> ip_bytes a ! 0 = ip_bytes b ! 0 \<and> ip_bytes a ! 1 = ip_bytes b ! 1 \<and>
     ip_bytes a ! 2 = ip_bytes b ! 2 \<and> ip_bytes a ! 3 = ip_bytes b ! 3"

text \<open>An access to the first \<open>n\<close> bytes; \<open>None\<close> when it leaves the buffer.\<close>

definition avail :: "nat \<Rightarrow> u8 list \<Rightarrow> unit option" where
  "avail n bs = (if n \<le> length bs then Some () else None)"

definition htons :: "u16 \<Rightarrow> u16" where
  "htons h = push_bit 8 (h AND 0xFF) OR drop_bit 8 (h AND 0xFF00)"

definition ntohs :: "u16 \<Rightarrow> u16" where
  "ntohs n = htons n"

definition htonl :: "u32 \<Rightarrow> u32" where
  "htonl h = push_bit 24 (h AND 0xFF) OR push_bit 8 (h AND 0xFF00) OR drop_bit 8 (h AND 0xFF0000) OR drop_bit 24 (h AND 0xFF000000)"

definition ntohl :: "u32 \<Rightarrow> u32" where
  "ntohl n = htonl n"

section \<open>State\<close>

record net_buffer =
  nb_data :: "u8 list"
  nb_length :: u16
  nb_offset :: u16
  nb_next :: ptr
  nb_in_use :: bool

record net_config =
  cfg_mac :: mac_addr
  cfg_ip :: ipv4_addr
  cfg_netmask :: ipv4_addr
  cfg_gateway :: ipv4_addr
  cfg_dns :: ipv4_addr

text \<open>A member of the driver that is NULL is \<open>None\<close>; \<^verbatim>\<open>receive\<close> gives its result and the new content of the buffer.\<close>

record 'd net_driver =
  drv_init :: "('d \<Rightarrow> os_error \<times> 'd) option"
  drv_send :: "(u8 list \<Rightarrow> 'd \<Rightarrow> os_error \<times> 'd) option"
  drv_receive :: "(u8 list \<Rightarrow> u16 \<Rightarrow> 'd \<Rightarrow> (32 word \<times> u8 list) \<times> 'd) option"
  drv_get_mac :: "('d \<Rightarrow> mac_addr) option"
  drv_is_link_up :: "('d \<Rightarrow> bool) option"

datatype socket_type = SOCK_STREAM | SOCK_DGRAM

datatype tcp_state = TCP_CLOSED | TCP_LISTEN | TCP_SYN_SENT | TCP_SYN_RECEIVED | TCP_ESTABLISHED | TCP_FIN_WAIT_1
  | TCP_FIN_WAIT_2 | TCP_CLOSE_WAIT | TCP_CLOSING | TCP_LAST_ACK | TCP_TIME_WAIT

record sockaddr_in =
  sa_addr :: ipv4_addr
  sa_port :: u16

record net_stats =
  eth_rx_packets :: u32
  eth_tx_packets :: u32
  eth_rx_errors :: u32
  eth_tx_errors :: u32
  ip_rx_packets :: u32
  ip_tx_packets :: u32
  ip_rx_errors :: u32
  icmp_rx_packets :: u32
  icmp_tx_packets :: u32
  udp_rx_packets :: u32
  udp_tx_packets :: u32
  tcp_rx_packets :: u32
  tcp_tx_packets :: u32
  tcp_connections :: u32
  tcp_resets :: u32

definition zero_stats :: net_stats where
  "zero_stats = \<lparr>eth_rx_packets = 0, eth_tx_packets = 0, eth_rx_errors = 0, eth_tx_errors = 0, ip_rx_packets = 0, ip_tx_packets = 0,
     ip_rx_errors = 0, icmp_rx_packets = 0, icmp_tx_packets = 0, udp_rx_packets = 0, udp_tx_packets = 0, tcp_rx_packets = 0,
     tcp_tx_packets = 0, tcp_connections = 0, tcp_resets = 0\<rparr>"

record arp_entry =
  arp_ip :: ipv4_addr
  arp_mac :: mac_addr
  arp_timestamp :: u32
  arp_valid :: bool

record socket =
  sk_type :: socket_type
  sk_in_use :: bool
  sk_local_addr :: sockaddr_in
  sk_remote_addr :: sockaddr_in
  sk_state :: tcp_state
  sk_rx_buffer :: "u8 list"
  sk_rx_length :: u16
  sk_seq_num :: u32
  sk_ack_num :: u32

text \<open>
  The static variables of the five files, with the state of the driver and what an
  uninitialised address on the stack contains.
\<close>

record 'd net =
  n_buffers :: "addr \<Rightarrow> net_buffer"
  n_buffer_free_list :: ptr
  n_driver :: "'d net_driver option"
  n_config :: net_config
  n_stats :: net_stats
  n_arp_cache :: "nat \<Rightarrow> arp_entry"
  n_ping_id :: u16
  n_ping_sequence :: u16
  n_ping_reply_received :: bool
  n_ping_reply_time :: u32
  n_sockets :: "nat \<Rightarrow> socket"
  n_next_ephemeral_port :: u16
  n_dev :: 'd
  n_junk_mac :: mac_addr

record 'd nets = sync +
  nt :: "'d net"
  nt_heap :: "unit memory_ext"

type_synonym ('d, 'a) nswitch = "('d, 'a) nets_ext sswitch"

definition upd_nt :: "('d net \<Rightarrow> 'd net) \<Rightarrow> ('d, 'a) nets_scheme \<Rightarrow> ('d, 'a) nets_scheme" where
  "upd_nt f s = s\<lparr>nt := f (nt s)\<rparr>"

text \<open>An operation of the allocator on the heap of this state.\<close>

definition with_heap :: "(memory \<Rightarrow> ('r \<times> memory) option) \<Rightarrow> ('d, 'a) nets_scheme \<Rightarrow> ('r \<times> ('d, 'a) nets_scheme) option" where
  "with_heap f s = do {
     (r, m) \<leftarrow> f (kernel.extend (kernel.truncate s) (nt_heap s));
     Some (r, (kernel.extend (kernel.truncate m) (kernel.more s))\<lparr>nt_heap := kernel.more m\<rparr>) }"

text \<open>The addresses of the mutexes and semaphores, and work done while a mutex is held.\<close>

definition BUFFER_MUTEX :: mutex_loc where "BUFFER_MUTEX = MutexVar 512"
definition ARP_MUTEX :: mutex_loc where "ARP_MUTEX = MutexVar 513"
definition PING_MUTEX :: mutex_loc where "PING_MUTEX = MutexVar 514"
definition SOCKET_MUTEX :: mutex_loc where "SOCKET_MUTEX = MutexVar 515"
definition PING_SEM :: addr where "PING_SEM = 516"
definition RX_SEM :: "nat \<Rightarrow> addr" where "RX_SEM i = 517 + i"

definition OS_WAIT_FOREVER :: u32 where "OS_WAIT_FOREVER = 0"

definition nt_locked ::
    "('d, 'a) nswitch \<Rightarrow> mutex_loc \<Rightarrow> (u32 \<Rightarrow> 'd net \<Rightarrow> 'r \<times> 'd net) \<Rightarrow> ('d, 'a) nets_scheme \<Rightarrow> ('r \<times> ('d, 'a) nets_scheme) option" where
  "nt_locked cs m work s = do {
     (_, s) \<leftarrow> os_mutex_lock cs (Some m) OS_WAIT_FOREVER s;
     let (r, x) = work (os_get_tick_count s) (nt s);
     (_, s) \<leftarrow> os_mutex_unlock cs (Some m) (s\<lparr>nt := x\<rparr>);
     Some (r, s) }"

section \<open>Network buffers\<close>

definition upd_buffer :: "addr \<Rightarrow> (net_buffer \<Rightarrow> net_buffer) \<Rightarrow> 'd net \<Rightarrow> 'd net" where
  "upd_buffer a f x = x\<lparr>n_buffers := (n_buffers x)(a := f (n_buffers x a))\<rparr>"

definition pool_init :: "'d net \<Rightarrow> 'd net" where
  "pool_init x =
    fold (\<lambda>i. upd_buffer i (\<lambda>b. b\<lparr>nb_in_use := False, nb_length := 0, nb_offset := 0,
        nb_next := (if i + 1 < NET_MAX_BUFFERS then Some (i + 1) else None)\<rparr>))
      [0..<NET_MAX_BUFFERS] (x\<lparr>n_buffer_free_list := Some 0\<rparr>)"

definition net_buffer_pool_init :: "('d, 'a) nets_scheme \<Rightarrow> ('d, 'a) nets_scheme" where
  "net_buffer_pool_init s = upd_nt pool_init (os_mutex_init (Some BUFFER_MUTEX) s)"

definition buffer_take :: "'d net \<Rightarrow> ptr \<times> 'd net" where
  "buffer_take x =
    (case n_buffer_free_list x of
       None \<Rightarrow> (None, x)
     | Some a \<Rightarrow> (Some a, upd_buffer a (\<lambda>b. b\<lparr>nb_in_use := True, nb_length := 0, nb_offset := 0, nb_next := None\<rparr>)
                    (x\<lparr>n_buffer_free_list := nb_next (n_buffers x a)\<rparr>)))"

definition buffer_put :: "addr \<Rightarrow> 'd net \<Rightarrow> 'd net" where
  "buffer_put a x =
    (upd_buffer a (\<lambda>b. b\<lparr>nb_in_use := False, nb_length := 0, nb_offset := 0, nb_next := n_buffer_free_list x\<rparr>) x)
      \<lparr>n_buffer_free_list := Some a\<rparr>"

definition net_buffer_alloc :: "('d, 'a) nswitch \<Rightarrow> ('d, 'a) nets_scheme \<Rightarrow> (ptr \<times> ('d, 'a) nets_scheme) option" where
  "net_buffer_alloc cs s = nt_locked cs BUFFER_MUTEX (\<lambda>_. buffer_take) s"

definition net_buffer_free :: "('d, 'a) nswitch \<Rightarrow> ptr \<Rightarrow> ('d, 'a) nets_scheme \<Rightarrow> ('d, 'a) nets_scheme option" where
  "net_buffer_free cs buf s =
    (case buf of
       None \<Rightarrow> Some s
     | Some a \<Rightarrow> map_option snd (nt_locked cs BUFFER_MUTEX (\<lambda>_ x. ((), buffer_put a x)) s))"

section \<open>Configuration and statistics\<close>

definition net_get_stats :: "bool \<Rightarrow> 'd net \<Rightarrow> net_stats option" where
  "net_get_stats given x = (if given then Some (n_stats x) else None)"

definition net_get_config :: "bool \<Rightarrow> 'd net \<Rightarrow> net_config option" where
  "net_get_config given x = (if given then Some (n_config x) else None)"

definition net_set_config :: "net_config option \<Rightarrow> 'd net \<Rightarrow> os_error \<times> 'd net" where
  "net_set_config config x =
    (case config of None \<Rightarrow> (OS_ERROR_INVALID_PARAM, x) | Some c \<Rightarrow> (OS_OK, x\<lparr>n_config := c\<rparr>))"

definition net_driver_send :: "u8 list \<Rightarrow> 'd net \<Rightarrow> os_error \<times> 'd net" where
  "net_driver_send data x =
    (case Option.bind (n_driver x) drv_send of
       None \<Rightarrow> (OS_ERROR_NOT_INITIALIZED, x)
     | Some send \<Rightarrow>
        let (err, d) = send data (n_dev x);
            x = x\<lparr>n_dev := d\<rparr>
        in (err, if err = OS_OK then x\<lparr>n_stats := (n_stats x)\<lparr>eth_tx_packets := eth_tx_packets (n_stats x) + 1\<rparr>\<rparr>
                 else x\<lparr>n_stats := (n_stats x)\<lparr>eth_tx_errors := eth_tx_errors (n_stats x) + 1\<rparr>\<rparr>))"

definition net_get_mac_addr :: "'d net \<Rightarrow> mac_addr" where
  "net_get_mac_addr x = (case Option.bind (n_driver x) drv_get_mac of None \<Rightarrow> n_junk_mac x | Some get \<Rightarrow> get (n_dev x))"

definition net_get_ip_addr :: "'d net \<Rightarrow> ipv4_addr" where
  "net_get_ip_addr x = cfg_ip (n_config x)"

definition net_get_gateway :: "'d net \<Rightarrow> ipv4_addr" where
  "net_get_gateway x = cfg_gateway (n_config x)"

definition net_get_dns :: "'d net \<Rightarrow> ipv4_addr" where
  "net_get_dns x = cfg_dns (n_config x)"

definition net_stats_update :: "string \<Rightarrow> int \<Rightarrow> 'd net \<Rightarrow> 'd net" where
  "net_stats_update counter delta x = x"

section \<open>Utility functions\<close>

text \<open>Strings of the sources, without the terminator; \<^verbatim>\<open>*p\<close> at the end of a string.\<close>

definition chars :: "string \<Rightarrow> u8 list" where
  "chars cs = map of_char cs"

definition char_at :: "u8 list \<Rightarrow> u8" where
  "char_at p = (case p of [] \<Rightarrow> 0 | c # _ \<Rightarrow> c)"

definition is_digit :: "u8 \<Rightarrow> bool" where
  "is_digit c \<longleftrightarrow> 48 \<le> c \<and> c \<le> 57"

text \<open>At most three digits: the value, their number and the rest.\<close>

fun parse_digits :: "u8 list \<Rightarrow> nat \<Rightarrow> nat \<Rightarrow> nat \<times> nat \<times> u8 list" where
  "parse_digits [] value digits = (value, digits, [])"
| "parse_digits (c # p) value digits =
    (if is_digit c \<and> digits < 3 then parse_digits p (value * 10 + unat (c - 48)) (digits + 1) else (value, digits, c # p))"

text \<open>The four rounds of the loop, with the bytes stored so far.\<close>

fun parse_parts :: "nat \<Rightarrow> u8 list \<Rightarrow> u8 list \<Rightarrow> bool \<times> u8 list \<times> u8 list" where
  "parse_parts 0 p out = (True, out, p)"
| "parse_parts (Suc k) p out =
    (let (value, digits, p) = parse_digits p 0 0
     in if value > 255 \<or> digits = 0 then (False, out, p)
        else let out = out @ [of_nat value]
             in if k > 0
                then if char_at p \<noteq> 46 then (False, out, p) else parse_parts k (tl p) out
                else (True, out, p))"

text \<open>\<open>ip\<close> is \<^verbatim>\<open>*ip\<close> before the call; the second result is \<^verbatim>\<open>*ip\<close> after it, where a failed call leaves the
  bytes it has stored.\<close>

definition net_parse_ipv4 :: "u8 list option \<Rightarrow> ipv4_addr option \<Rightarrow> bool \<times> ipv4_addr option" where
  "net_parse_ipv4 str ip =
    (case (str, ip) of
       (Some s, Some x) \<Rightarrow>
         (case parse_parts 4 s [] of (ok, out, p) \<Rightarrow> (ok \<and> char_at p = 0, Some (ip_at 0 (splice 0 out (ip_bytes x)))))
     | _ \<Rightarrow> (False, ip))"

definition format_part :: "u8 \<Rightarrow> u8 list" where
  "format_part v =
    (let value = unat v;
         h = (if value \<ge> 100 then [of_nat (48 + value div 100)] else []);
         value = (if value \<ge> 100 then value mod 100 else value);
         t = (if value \<ge> 10 \<or> h \<noteq> [] then [of_nat (48 + value div 10)] else []);
         value = (if value \<ge> 10 \<or> h \<noteq> [] then value mod 10 else value)
     in h @ t @ [of_nat (48 + value)])"

text \<open>\<open>given\<close>: the caller passed an address for the string and not \<^verbatim>\<open>NULL\<close>.\<close>

definition net_format_ipv4 :: "ipv4_addr \<Rightarrow> bool \<Rightarrow> u8 list option" where
  "net_format_ipv4 ip given =
    (if \<not> given then None
     else Some (concat (map (\<lambda>i. format_part (ip_bytes ip ! i) @ (if i < 3 then [46] else [])) [0..<4])))"

text \<open>The sum of the 16-bit words, as the target reads them, and its folding to 16 bits.\<close>

fun sum_words :: "u8 list \<Rightarrow> u32 \<Rightarrow> u32" where
  "sum_words (a # b # bs) s = sum_words bs (s + ucast (get16 0 [a, b]))"
| "sum_words [a] s = s + ucast a"
| "sum_words [] s = s"

lemma fold_decreases:
  fixes s :: u32
  assumes "drop_bit 16 s \<noteq> 0"
  shows "unat ((s AND 0xFFFF) + drop_bit 16 s) < unat s"
proof -
  have "s AND 0xFFFF = take_bit 16 s" by (simp add: take_bit_eq_mask mask_eq_exp_minus_1)
  then have a: "unat (s AND 0xFFFF) = unat s mod 65536" by (simp add: take_bit_eq_mod unat_mod)
  have d: "unat (drop_bit 16 s) = unat s div 65536" by (simp add: drop_bit_eq_div unat_div)
  have pos: "0 < unat s div 65536" using assms d by (metis gr0I unat_eq_zero)
  have lt: "unat s < 2 ^ 32" using unat_u32_less [of s] by simp
  have "unat s mod 65536 + unat s div 65536 < unat s"
    using pos div_mult_mod_eq [of "unat s" 65536] by linarith
  moreover have "unat s mod 65536 + unat s div 65536 < 2 ^ 32" using calculation lt by linarith
  ultimately show ?thesis using a d by (subst unat_add_u32) simp_all
qed

function fold_sum :: "u32 \<Rightarrow> u32" where
  "fold_sum s = (if drop_bit 16 s \<noteq> 0 then fold_sum ((s AND 0xFFFF) + drop_bit 16 s) else s)"
  by auto
termination
  by (relation "measure unat") (simp_all add: fold_decreases)

declare fold_sum.simps [simp del]

definition net_checksum :: "u8 list \<Rightarrow> u16" where
  "net_checksum data = ucast (NOT (fold_sum (sum_words data 0)))"

end
