(* ===== verification/Ethernet.thy ===== *)
theory Ethernet
  imports Net
begin

text \<open>
  Address resolution and the output of frames, \<^verbatim>\<open>src/net/ethernet.c\<close>. The input of frames calls the
  layers above and follows them in \<open>Network\<close>.
\<close>

definition ETH_HEADER_SIZE :: nat where "ETH_HEADER_SIZE = 14"
definition ETH_TYPE_IP :: u16 where "ETH_TYPE_IP = 0x0800"
definition ETH_TYPE_ARP :: u16 where "ETH_TYPE_ARP = 0x0806"
definition ARP_HARDWARE_ETHERNET :: u16 where "ARP_HARDWARE_ETHERNET = 1"
definition ARP_PROTOCOL_IP :: u16 where "ARP_PROTOCOL_IP = 0x0800"
definition ARP_OP_REQUEST :: u16 where "ARP_OP_REQUEST = 1"
definition ARP_OP_REPLY :: u16 where "ARP_OP_REPLY = 2"
definition ARP_CACHE_SIZE :: nat where "ARP_CACHE_SIZE = 8"

text \<open>The packed structures \<^verbatim>\<open>eth_header_t\<close> and \<^verbatim>\<open>arp_packet_t\<close> as bytes.\<close>

definition eth_header :: "mac_addr \<Rightarrow> mac_addr \<Rightarrow> u16 \<Rightarrow> u8 list" where
  "eth_header dest src typ = mac_bytes dest @ mac_bytes src @ le16 (htons typ)"

definition ARP_PACKET_SIZE :: nat where "ARP_PACKET_SIZE = 28"

definition arp_packet :: "u16 \<Rightarrow> mac_addr \<Rightarrow> ipv4_addr \<Rightarrow> mac_addr \<Rightarrow> ipv4_addr \<Rightarrow> u8 list" where
  "arp_packet opcode sender_mac sender_ip target_mac target_ip =
     le16 (htons ARP_HARDWARE_ETHERNET) @ le16 (htons ARP_PROTOCOL_IP) @ [6, 4] @ le16 (htons opcode) @
     mac_bytes sender_mac @ ip_bytes sender_ip @ mac_bytes target_mac @ ip_bytes target_ip"

section \<open>The cache\<close>

definition net_ethernet_init :: "('d, 'a) nets_scheme \<Rightarrow> ('d, 'a) nets_scheme" where
  "net_ethernet_init s =
    upd_nt (\<lambda>x. x\<lparr>n_arp_cache := (\<lambda>i. if i < ARP_CACHE_SIZE then (n_arp_cache x i)\<lparr>arp_valid := False\<rparr> else n_arp_cache x i)\<rparr>)
      (os_mutex_init (Some ARP_MUTEX) s)"

text \<open>The first empty slot or the oldest entry.\<close>

fun arp_oldest :: "(nat \<Rightarrow> arp_entry) \<Rightarrow> nat list \<Rightarrow> nat \<Rightarrow> u32 \<Rightarrow> nat" where
  "arp_oldest c [] oldest_idx oldest_time = oldest_idx"
| "arp_oldest c (i # is) oldest_idx oldest_time =
    (if \<not> arp_valid (c i) then i
     else if arp_timestamp (c i) < oldest_time then arp_oldest c is i (arp_timestamp (c i))
     else arp_oldest c is oldest_idx oldest_time)"

definition arp_store :: "ipv4_addr \<Rightarrow> mac_addr \<Rightarrow> u32 \<Rightarrow> 'd net \<Rightarrow> 'd net" where
  "arp_store ip mac now x =
    (let i = arp_oldest (n_arp_cache x) [0..<ARP_CACHE_SIZE] 0 (arp_timestamp (n_arp_cache x 0))
     in x\<lparr>n_arp_cache := (n_arp_cache x)(i := \<lparr>arp_ip = ip, arp_mac = mac, arp_timestamp = now, arp_valid = True\<rparr>)\<rparr>)"

definition arp_cache_add ::
    "('d, 'a) nswitch \<Rightarrow> ipv4_addr \<Rightarrow> mac_addr \<Rightarrow> ('d, 'a) nets_scheme \<Rightarrow> ('d, 'a) nets_scheme option" where
  "arp_cache_add cs ip mac s = map_option snd (nt_locked cs ARP_MUTEX (\<lambda>now x. ((), arp_store ip mac now x)) s)"

definition arp_find :: "ipv4_addr \<Rightarrow> 'd net \<Rightarrow> mac_addr option" where
  "arp_find ip x =
    map_option (\<lambda>i. arp_mac (n_arp_cache x i))
      (find (\<lambda>i. arp_valid (n_arp_cache x i) \<and> net_ipv4_equal (arp_ip (n_arp_cache x i)) ip) [0..<ARP_CACHE_SIZE])"

definition arp_cache_lookup ::
    "('d, 'a) nswitch \<Rightarrow> ipv4_addr \<Rightarrow> ('d, 'a) nets_scheme \<Rightarrow> (mac_addr option \<times> ('d, 'a) nets_scheme) option" where
  "arp_cache_lookup cs ip s = nt_locked cs ARP_MUTEX (\<lambda>_ x. (arp_find ip x, x)) s"

section \<open>Requests and replies\<close>

definition BROADCAST_MAC :: mac_addr where
  "BROADCAST_MAC = MAC 0xFF 0xFF 0xFF 0xFF 0xFF 0xFF"

definition arp_send_request :: "ipv4_addr \<Rightarrow> 'd net \<Rightarrow> os_error \<times> 'd net" where
  "arp_send_request target_ip x =
    (let my_mac = net_get_mac_addr x;
         my_ip = net_get_ip_addr x
     in net_driver_send (eth_header BROADCAST_MAC my_mac ETH_TYPE_ARP @
          arp_packet ARP_OP_REQUEST my_mac my_ip (MAC 0 0 0 0 0 0) target_ip) x)"

definition arp_send_reply :: "ipv4_addr \<Rightarrow> mac_addr \<Rightarrow> 'd net \<Rightarrow> os_error \<times> 'd net" where
  "arp_send_reply target_ip target_mac x =
    (let my_mac = net_get_mac_addr x;
         my_ip = net_get_ip_addr x
     in net_driver_send (eth_header target_mac my_mac ETH_TYPE_ARP @
          arp_packet ARP_OP_REPLY my_mac my_ip target_mac target_ip) x)"

definition arp_input :: "('d, 'a) nswitch \<Rightarrow> u8 list \<Rightarrow> u16 \<Rightarrow> ('d, 'a) nets_scheme \<Rightarrow> ('d, 'a) nets_scheme option" where
  "arp_input cs data len s =
    (if unat len < ARP_PACKET_SIZE then Some s
     else do {
       avail ARP_PACKET_SIZE data;
       let my_ip = net_get_ip_addr (nt s);
       let opcode = ntohs (get16 6 data);
       s \<leftarrow> arp_cache_add cs (ip_at 14 data) (mac_at 8 data) s;
       Some (if opcode = ARP_OP_REQUEST \<and> net_ipv4_equal (ip_at 24 data) my_ip
             then upd_nt (\<lambda>x. snd (arp_send_reply (ip_at 14 data) (mac_at 8 data) x)) s
             else s) })"

section \<open>Output\<close>

definition net_ethernet_send_ip ::
    "('d, 'a) nswitch \<Rightarrow> ipv4_addr \<Rightarrow> u8 list \<Rightarrow> u16 \<Rightarrow> ('d, 'a) nets_scheme \<Rightarrow> (os_error \<times> ('d, 'a) nets_scheme) option" where
  "net_ethernet_send_ip cs dest_ip data len s =
    (if unat len > NET_BUFFER_SIZE - ETH_HEADER_SIZE then Some (OS_ERROR_INVALID_PARAM, s)
     else do {
       (m, s) \<leftarrow> arp_cache_lookup cs dest_ip s;
       (case m of
          None \<Rightarrow> Some (OS_ERROR_TIMEOUT, upd_nt (\<lambda>x. snd (arp_send_request dest_ip x)) s)
        | Some dest_mac \<Rightarrow> do {
            avail (unat len) data;
            let (err, x) = net_driver_send (eth_header dest_mac (net_get_mac_addr (nt s)) ETH_TYPE_IP @ take (unat len) data) (nt s);
            Some (err, s\<lparr>nt := x\<rparr>) }) })"

text \<open>The loop of \<^verbatim>\<open>net_arp_resolve\<close>.\<close>

partial_function (option) arp_wait ::
    "('d, 'a) nswitch \<Rightarrow> ipv4_addr \<Rightarrow> u32 \<Rightarrow> u32 \<Rightarrow> ('d, 'a) nets_scheme \<Rightarrow> ((os_error \<times> mac_addr option) \<times> ('d, 'a) nets_scheme) option" where
  "arp_wait cs ip start_time timeout_ms s =
    (if os_get_tick_count s - start_time < timeout_ms
     then do {
       s \<leftarrow> os_task_delay cs 10 s;
       (m, s) \<leftarrow> arp_cache_lookup cs ip s;
       (case m of
          None \<Rightarrow> arp_wait cs ip start_time timeout_ms s
        | Some mac \<Rightarrow> Some ((OS_OK, Some mac), s)) }
     else Some ((OS_ERROR_TIMEOUT, None), s))"

definition net_arp_resolve ::
    "('d, 'a) nswitch \<Rightarrow> ipv4_addr \<Rightarrow> bool \<Rightarrow> u32 \<Rightarrow> ('d, 'a) nets_scheme \<Rightarrow>
     ((os_error \<times> mac_addr option) \<times> ('d, 'a) nets_scheme) option" where
  "net_arp_resolve cs ip given timeout_ms s =
    (if \<not> given then Some ((OS_ERROR_INVALID_PARAM, None), s)
     else do {
       let start_time = os_get_tick_count s;
       (m, s) \<leftarrow> arp_cache_lookup cs ip s;
       (case m of
          Some mac \<Rightarrow> Some ((OS_OK, Some mac), s)
        | None \<Rightarrow> arp_wait cs ip start_time timeout_ms (upd_nt (\<lambda>x. snd (arp_send_request ip x)) s)) })"

end
