(* ===== verification/IPv4.thy ===== *)
theory IPv4
  imports Ethernet
begin

text \<open>
  The output side of \<^verbatim>\<open>src/net/ip.c\<close> and ICMP: headers with their checksums, echo requests and
  replies, and \<^verbatim>\<open>net_ping\<close>. The input of packets calls the sockets and follows them in \<open>Network\<close>.
\<close>

definition IP_PROTOCOL_ICMP :: u8 where "IP_PROTOCOL_ICMP = 1"
definition IP_PROTOCOL_TCP :: u8 where "IP_PROTOCOL_TCP = 6"
definition IP_PROTOCOL_UDP :: u8 where "IP_PROTOCOL_UDP = 17"
definition ICMP_TYPE_ECHO_REPLY :: u8 where "ICMP_TYPE_ECHO_REPLY = 0"
definition ICMP_TYPE_ECHO_REQUEST :: u8 where "ICMP_TYPE_ECHO_REQUEST = 8"

definition IP_HEADER_SIZE :: nat where "IP_HEADER_SIZE = 20"
definition ICMP_HEADER_SIZE :: nat where "ICMP_HEADER_SIZE = 8"

section \<open>Headers\<close>

text \<open>The packed \<^verbatim>\<open>ip_header_t\<close> as it is built everywhere: version 4, five words, lifetime 64.\<close>

definition ip_header_bytes :: "u16 \<Rightarrow> u16 \<Rightarrow> u8 \<Rightarrow> u16 \<Rightarrow> ipv4_addr \<Rightarrow> ipv4_addr \<Rightarrow> u8 list" where
  "ip_header_bytes total_length identification protocol checksum src dest =
     [0x45, 0] @ le16 (htons total_length) @ le16 identification @ le16 0 @ [64, protocol] @ le16 checksum @ ip_bytes src @ ip_bytes dest"

definition ip_header :: "u16 \<Rightarrow> u16 \<Rightarrow> u8 \<Rightarrow> ipv4_addr \<Rightarrow> ipv4_addr \<Rightarrow> u8 list" where
  "ip_header total_length identification protocol src dest =
    (let checksum = net_checksum (ip_header_bytes total_length identification protocol 0 src dest)
     in ip_header_bytes total_length identification protocol checksum src dest)"

definition icmp_header_bytes :: "u8 \<Rightarrow> u8 \<Rightarrow> u16 \<Rightarrow> u16 \<Rightarrow> u16 \<Rightarrow> u8 list" where
  "icmp_header_bytes typ code checksum ident sequence = [typ, code] @ le16 checksum @ le16 ident @ le16 sequence"

text \<open>The member \<^verbatim>\<open>checksum\<close> of an ICMP message set to zero and then to the checksum of the whole.\<close>

definition icmp_sealed :: "u8 list \<Rightarrow> u8 list" where
  "icmp_sealed m =
    (let m = splice 2 (le16 0) m in splice 2 (le16 (net_checksum m)) m)"

section \<open>Output\<close>

definition net_ip_init :: "'d net \<Rightarrow> 'd net" where
  "net_ip_init x = x\<lparr>n_ping_id := 0, n_ping_sequence := 0, n_ping_reply_received := False\<rparr>"

definition net_icmp_init :: "('d, 'a) nets_scheme \<Rightarrow> ('d, 'a) nets_scheme" where
  "net_icmp_init s = os_semaphore_init (Some PING_SEM) 0 (os_mutex_init (Some PING_MUTEX) s)"

definition net_ip_send ::
    "('d, 'a) nswitch \<Rightarrow> ipv4_addr \<Rightarrow> u8 \<Rightarrow> u8 list \<Rightarrow> u16 \<Rightarrow> ('d, 'a) nets_scheme \<Rightarrow> (os_error \<times> ('d, 'a) nets_scheme) option" where
  "net_ip_send cs dest_ip protocol data len s =
    (if unat len > NET_BUFFER_SIZE - IP_HEADER_SIZE then Some (OS_ERROR_INVALID_PARAM, s)
     else do {
       let my_ip = net_get_ip_addr (nt s);
       avail (unat len) data;
       let packet = ip_header (of_nat IP_HEADER_SIZE + len) 0 protocol my_ip dest_ip @ take (unat len) data;
       net_ethernet_send_ip cs dest_ip packet (of_nat IP_HEADER_SIZE + len) s })"

section \<open>ICMP\<close>

text \<open>
  The reply to an echo request: the array \<^verbatim>\<open>reply\<close> has \<^verbatim>\<open>sizeof(ip_header_t) + length\<close> bytes, and the
  message is copied from the received data before its type and checksum are changed.
\<close>

definition icmp_echo ::
    "('d, 'a) nswitch \<Rightarrow> u8 list \<Rightarrow> u16 \<Rightarrow> ipv4_addr \<Rightarrow> ('d, 'a) nets_scheme \<Rightarrow> ('d, 'a) nets_scheme option" where
  "icmp_echo cs data len src_ip s = do {
     let my_ip = net_get_ip_addr (nt s);
     let hdr = ip_header (of_nat IP_HEADER_SIZE + len) 0 IP_PROTOCOL_ICMP my_ip src_ip;
     avail (unat len) data;
     let reply = icmp_sealed (splice 0 [ICMP_TYPE_ECHO_REPLY] (take (unat len) data));
     (_, s) \<leftarrow> net_ethernet_send_ip cs src_ip (hdr @ reply) (of_nat (IP_HEADER_SIZE + unat len)) s;
     Some s }"

definition icmp_input ::
    "('d, 'a) nswitch \<Rightarrow> u8 list \<Rightarrow> u16 \<Rightarrow> ipv4_addr \<Rightarrow> ('d, 'a) nets_scheme \<Rightarrow> ('d, 'a) nets_scheme option" where
  "icmp_input cs data len src_ip s =
    (if unat len < ICMP_HEADER_SIZE then Some s
     else do {
       avail ICMP_HEADER_SIZE data;
       (if data ! 0 = ICMP_TYPE_ECHO_REQUEST then icmp_echo cs data len src_ip s
        else if data ! 0 = ICMP_TYPE_ECHO_REPLY
        then if ntohs (get16 4 data) = n_ping_id (nt s) \<and> ntohs (get16 6 data) = n_ping_sequence (nt s)
             then do {
               let now = os_get_tick_count s;
               let s = upd_nt (\<lambda>x. x\<lparr>n_ping_reply_received := True, n_ping_reply_time := now\<rparr>) s;
               (_, s) \<leftarrow> os_semaphore_post cs (Some PING_SEM) s;
               Some s }
             else Some s
        else Some s) })"

definition ping_packet :: "u16 \<Rightarrow> u16 \<Rightarrow> ipv4_addr \<Rightarrow> ipv4_addr \<Rightarrow> u8 list" where
  "ping_packet current_id current_seq my_ip dest_ip =
     ip_header 60 (htons current_id) IP_PROTOCOL_ICMP my_ip dest_ip @
     icmp_sealed (icmp_header_bytes ICMP_TYPE_ECHO_REQUEST 0 0 (htons current_id) (htons current_seq) @ map of_nat [0..<32])"

definition net_ping ::
    "('d, 'a) nswitch \<Rightarrow> ipv4_addr \<Rightarrow> u32 \<Rightarrow> bool \<Rightarrow> ('d, 'a) nets_scheme \<Rightarrow> ((os_error \<times> u32 option) \<times> ('d, 'a) nets_scheme) option" where
  "net_ping cs dest_ip timeout_ms given s = do {
     let my_ip = net_get_ip_addr (nt s);
     (_, s) \<leftarrow> os_mutex_lock cs (Some PING_MUTEX) OS_WAIT_FOREVER s;
     let s = upd_nt (\<lambda>x. x\<lparr>n_ping_id := n_ping_id x + 1, n_ping_sequence := n_ping_sequence x + 1, n_ping_reply_received := False\<rparr>) s;
     let packet = ping_packet (n_ping_id (nt s)) (n_ping_sequence (nt s)) my_ip dest_ip;
     let start_time = os_get_tick_count s;
     (err, s) \<leftarrow> net_ethernet_send_ip cs dest_ip packet 60 s;
     (if err \<noteq> OS_OK
      then do {
        (_, s) \<leftarrow> os_mutex_unlock cs (Some PING_MUTEX) s;
        Some ((err, None), s) }
      else do {
        (err, s) \<leftarrow> os_semaphore_wait cs (Some PING_SEM) timeout_ms s;
        let rtt = n_ping_reply_time (nt s) - start_time;
        let ok = (err = OS_OK \<and> n_ping_reply_received (nt s));
        (_, s) \<leftarrow> os_mutex_unlock cs (Some PING_MUTEX) s;
        Some (if ok then (OS_OK, if given then Some rtt else None) else (OS_ERROR_TIMEOUT, None), s) }) }"

end
