(* ===== verification/Socket.thy ===== *)
theory Socket
  imports IPv4
begin

text \<open>
  The socket interface, \<^verbatim>\<open>src/net/socket.c\<close>: datagrams, and the simplified TCP that has one
  segment in flight in each direction.
\<close>

definition UDP_HEADER_SIZE :: nat where "UDP_HEADER_SIZE = 8"
definition TCP_HEADER_SIZE :: nat where "TCP_HEADER_SIZE = 20"
definition RX_BUFFER_SIZE :: nat where "RX_BUFFER_SIZE = 1024"
definition TCP_FLAG_FIN :: u8 where "TCP_FLAG_FIN = 0x01"
definition TCP_FLAG_SYN :: u8 where "TCP_FLAG_SYN = 0x02"
definition TCP_FLAG_RST :: u8 where "TCP_FLAG_RST = 0x04"
definition TCP_FLAG_PSH :: u8 where "TCP_FLAG_PSH = 0x08"
definition TCP_FLAG_ACK :: u8 where "TCP_FLAG_ACK = 0x10"
definition INVALID_SOCKET :: int where "INVALID_SOCKET = -1"

definition udp_header :: "u16 \<Rightarrow> u16 \<Rightarrow> u16 \<Rightarrow> u8 list" where
  "udp_header src_port dest_port len = le16 (htons src_port) @ le16 (htons dest_port) @ le16 (htons len) @ le16 0"

definition tcp_header :: "u16 \<Rightarrow> u16 \<Rightarrow> u32 \<Rightarrow> u32 \<Rightarrow> u8 \<Rightarrow> u8 list" where
  "tcp_header src_port dest_port seq_num ack_num flags =
     le16 (htons src_port) @ le16 (htons dest_port) @ le32 (htonl seq_num) @ le32 (htonl ack_num) @ [0x50, flags] @
     le16 (htons 1024) @ le16 0 @ le16 0"

definition upd_socket :: "nat \<Rightarrow> (socket \<Rightarrow> socket) \<Rightarrow> 'd net \<Rightarrow> 'd net" where
  "upd_socket i f x = x\<lparr>n_sockets := (n_sockets x)(i := f (n_sockets x i))\<rparr>"

section \<open>Sockets\<close>

definition net_udp_init :: "('d, 'a) nets_scheme \<Rightarrow> ('d, 'a) nets_scheme" where
  "net_udp_init s =
    fold (\<lambda>i s. os_semaphore_init (Some (RX_SEM i)) 0 (upd_nt (upd_socket i (\<lambda>k. k\<lparr>sk_in_use := False, sk_rx_length := 0\<rparr>)) s))
      [0..<NET_MAX_SOCKETS] (os_mutex_init (Some SOCKET_MUTEX) s)"

definition net_tcp_init :: "('d, 'a) nets_scheme \<Rightarrow> ('d, 'a) nets_scheme" where
  "net_tcp_init s = s"

definition socket_open :: "socket_type \<Rightarrow> u32 \<Rightarrow> 'd net \<Rightarrow> int \<times> 'd net" where
  "socket_open typ now x =
    (case find (\<lambda>i. \<not> sk_in_use (n_sockets x i)) [0..<NET_MAX_SOCKETS] of
       None \<Rightarrow> (INVALID_SOCKET, x)
     | Some i \<Rightarrow> (int i, upd_socket i (\<lambda>k. k\<lparr>sk_in_use := True, sk_type := typ, sk_state := TCP_CLOSED, sk_rx_length := 0,
         sk_local_addr := (sk_local_addr k)\<lparr>sa_port := 0\<rparr>, sk_remote_addr := (sk_remote_addr k)\<lparr>sa_port := 0\<rparr>,
         sk_seq_num := now, sk_ack_num := 0\<rparr>) x))"

definition net_socket :: "('d, 'a) nswitch \<Rightarrow> socket_type \<Rightarrow> ('d, 'a) nets_scheme \<Rightarrow> (int \<times> ('d, 'a) nets_scheme) option" where
  "net_socket cs typ s = nt_locked cs SOCKET_MUTEX (socket_open typ) s"

definition bad_socket :: "int \<Rightarrow> 'd net \<Rightarrow> bool" where
  "bad_socket sock x \<longleftrightarrow> sock < 0 \<or> sock \<ge> int NET_MAX_SOCKETS \<or> \<not> sk_in_use (n_sockets x (nat sock))"

text \<open>\<^verbatim>\<open>*addr\<close> is read without a check; \<open>None\<close> is the access through NULL.\<close>

definition net_bind :: "int \<Rightarrow> sockaddr_in option \<Rightarrow> 'd net \<Rightarrow> (os_error \<times> 'd net) option" where
  "net_bind sock addr x =
    (if bad_socket sock x then Some (OS_ERROR_INVALID_PARAM, x)
     else do { a \<leftarrow> addr; Some (OS_OK, upd_socket (nat sock) (\<lambda>k. k\<lparr>sk_local_addr := a\<rparr>) x) })"

definition net_close :: "int \<Rightarrow> 'd net \<Rightarrow> os_error \<times> 'd net" where
  "net_close sock x =
    (if bad_socket sock x then (OS_ERROR_INVALID_PARAM, x)
     else
       let k = n_sockets x (nat sock);
           x = (if sk_type k = SOCK_STREAM \<and> sk_state k = TCP_ESTABLISHED
                then upd_socket (nat sock) (\<lambda>k. k\<lparr>sk_state := TCP_CLOSED\<rparr>) x else x)
       in (OS_OK, upd_socket (nat sock) (\<lambda>k. k\<lparr>sk_in_use := False, sk_rx_length := 0\<rparr>) x))"

section \<open>Datagrams\<close>

definition udp_match :: "u16 \<Rightarrow> 'd net \<Rightarrow> nat \<Rightarrow> bool" where
  "udp_match dest_port x i \<longleftrightarrow> sk_in_use (n_sockets x i) \<and> sk_type (n_sockets x i) = SOCK_DGRAM \<and>
     sa_port (sk_local_addr (n_sockets x i)) = dest_port"

text \<open>The length comes from the header of the datagram; the copy starts behind the header.\<close>

definition udp_payload_len :: "u8 list \<Rightarrow> u16" where
  "udp_payload_len data =
    (let n = ntohs (get16 4 data) - of_nat UDP_HEADER_SIZE
     in if unat n > RX_BUFFER_SIZE then of_nat RX_BUFFER_SIZE else n)"

definition net_udp_input ::
    "('d, 'a) nswitch \<Rightarrow> u8 list \<Rightarrow> u16 \<Rightarrow> ipv4_addr \<Rightarrow> ('d, 'a) nets_scheme \<Rightarrow> ('d, 'a) nets_scheme option" where
  "net_udp_input cs data len src_ip s =
    (if unat len < UDP_HEADER_SIZE then Some s
     else do {
       avail UDP_HEADER_SIZE data;
       let dest_port = ntohs (get16 2 data);
       let src_port = ntohs (get16 0 data);
       (case find (udp_match dest_port (nt s)) [0..<NET_MAX_SOCKETS] of
          None \<Rightarrow> Some s
        | Some i \<Rightarrow> do {
            let n = udp_payload_len data;
            avail (UDP_HEADER_SIZE + unat n) data;
            let s = upd_nt (upd_socket i (\<lambda>k. k\<lparr>sk_rx_buffer := splice 0 (take (unat n) (drop UDP_HEADER_SIZE data)) (sk_rx_buffer k),
                      sk_rx_length := n, sk_remote_addr := \<lparr>sa_addr = src_ip, sa_port = src_port\<rparr>\<rparr>)) s;
            (_, s) \<leftarrow> os_semaphore_post cs (Some (RX_SEM i)) s;
            Some s }) })"

definition net_sendto ::
    "('d, 'a) nswitch \<Rightarrow> int \<Rightarrow> u8 list \<Rightarrow> sockaddr_in option \<Rightarrow> ('d, 'a) nets_scheme \<Rightarrow> (int \<times> ('d, 'a) nets_scheme) option" where
  "net_sendto cs sock data addr s =
    (if bad_socket sock (nt s) then Some (-1, s)
     else if sk_type (n_sockets (nt s) (nat sock)) \<noteq> SOCK_DGRAM then Some (-1, s)
     else do {
       a \<leftarrow> addr;
       let len = (of_nat (length data) :: u16);
       let packet = udp_header (sa_port (sk_local_addr (n_sockets (nt s) (nat sock)))) (sa_port a) (of_nat UDP_HEADER_SIZE + len) @
             take (unat len) data;
       (err, s) \<leftarrow> net_ip_send cs (sa_addr a) 17 packet (of_nat (UDP_HEADER_SIZE + unat len)) s;
       Some (if err = OS_OK then int (unat len) else -1, s) })"

text \<open>The bytes copied to the buffer and the source address, if one is asked for.\<close>

definition net_recvfrom ::
    "('d, 'a) nswitch \<Rightarrow> int \<Rightarrow> u16 \<Rightarrow> bool \<Rightarrow> ('d, 'a) nets_scheme \<Rightarrow>
     ((int \<times> u8 list \<times> sockaddr_in option) \<times> ('d, 'a) nets_scheme) option" where
  "net_recvfrom cs sock max_length given s =
    (if bad_socket sock (nt s) then Some ((-1, [], None), s)
     else if sk_type (n_sockets (nt s) (nat sock)) \<noteq> SOCK_DGRAM then Some ((-1, [], None), s)
     else do {
       (err, s) \<leftarrow> os_semaphore_wait cs (Some (RX_SEM (nat sock))) 5000 s;
       (if err \<noteq> OS_OK then Some ((0, [], None), s)
        else do {
          let k = n_sockets (nt s) (nat sock);
          let copy_len = (if sk_rx_length k > max_length then max_length else sk_rx_length k);
          avail (unat copy_len) (sk_rx_buffer k);
          let s = upd_nt (upd_socket (nat sock) (\<lambda>k. k\<lparr>sk_rx_length := 0\<rparr>)) s;
          Some ((int (unat copy_len), take (unat copy_len) (sk_rx_buffer k), if given then Some (sk_remote_addr k) else None), s) }) })"

section \<open>Connections\<close>

definition tcp_match :: "u16 \<Rightarrow> u16 \<Rightarrow> ipv4_addr \<Rightarrow> 'd net \<Rightarrow> nat \<Rightarrow> bool" where
  "tcp_match dest_port src_port src_ip x i \<longleftrightarrow> sk_in_use (n_sockets x i) \<and> sk_type (n_sockets x i) = SOCK_STREAM \<and>
     sa_port (sk_local_addr (n_sockets x i)) = dest_port \<and> net_ipv4_equal (sa_addr (sk_remote_addr (n_sockets x i))) src_ip \<and>
     sa_port (sk_remote_addr (n_sockets x i)) = src_port"

definition net_tcp_input ::
    "('d, 'a) nswitch \<Rightarrow> u8 list \<Rightarrow> u16 \<Rightarrow> ipv4_addr \<Rightarrow> ('d, 'a) nets_scheme \<Rightarrow> ('d, 'a) nets_scheme option" where
  "net_tcp_input cs data len src_ip s =
    (if unat len < TCP_HEADER_SIZE then Some s
     else do {
       avail TCP_HEADER_SIZE data;
       let dest_port = ntohs (get16 2 data);
       let src_port = ntohs (get16 0 data);
       (case find (tcp_match dest_port src_port src_ip (nt s)) [0..<NET_MAX_SOCKETS] of
          None \<Rightarrow> Some s
        | Some i \<Rightarrow>
           let flags = data ! 13;
               st = sk_state (n_sockets (nt s) i)
           in if flags AND TCP_FLAG_ACK \<noteq> 0 \<and> st = TCP_SYN_SENT
              then do {
                let s = upd_nt (upd_socket i (\<lambda>k. k\<lparr>sk_state := TCP_ESTABLISHED, sk_ack_num := ntohl (get32 4 data) + 1\<rparr>)) s;
                (_, s) \<leftarrow> os_semaphore_post cs (Some (RX_SEM i)) s;
                Some s }
              else if flags AND TCP_FLAG_PSH \<noteq> 0 \<and> st = TCP_ESTABLISHED
              then do {
                let data_offset = drop_bit 4 (data ! 12) * 4;
                let payload_len = len - ucast data_offset;
                (if payload_len > 0 \<and> unat payload_len \<le> RX_BUFFER_SIZE
                 then do {
                   avail (unat data_offset + unat payload_len) data;
                   let s = upd_nt (upd_socket i (\<lambda>k. k\<lparr>sk_rx_buffer := splice 0 (take (unat payload_len) (drop (unat data_offset) data))
                             (sk_rx_buffer k), sk_rx_length := payload_len\<rparr>)) s;
                   (_, s) \<leftarrow> os_semaphore_post cs (Some (RX_SEM i)) s;
                   Some s }
                 else Some s) }
              else Some s) })"

definition ephemeral_port :: "nat \<Rightarrow> 'd net \<Rightarrow> 'd net" where
  "ephemeral_port i x =
    (if sa_port (sk_local_addr (n_sockets x i)) = 0
     then let p = n_next_ephemeral_port x;
              x = upd_socket i (\<lambda>k. k\<lparr>sk_local_addr := (sk_local_addr k)\<lparr>sa_port := p\<rparr>\<rparr>) x
          in x\<lparr>n_next_ephemeral_port := (if p + 1 = 0 then 49152 else p + 1)\<rparr>
     else x)"

definition net_connect ::
    "('d, 'a) nswitch \<Rightarrow> int \<Rightarrow> sockaddr_in option \<Rightarrow> u32 \<Rightarrow> ('d, 'a) nets_scheme \<Rightarrow> (os_error \<times> ('d, 'a) nets_scheme) option" where
  "net_connect cs sock addr timeout_ms s =
    (if bad_socket sock (nt s) then Some (OS_ERROR_INVALID_PARAM, s)
     else if sk_type (n_sockets (nt s) (nat sock)) \<noteq> SOCK_STREAM then Some (OS_ERROR_INVALID_PARAM, s)
     else do {
       a \<leftarrow> addr;
       let i = nat sock;
       let s = upd_nt (\<lambda>x. upd_socket i (\<lambda>k. k\<lparr>sk_remote_addr := a\<rparr>) (ephemeral_port i x)) s;
       let k = n_sockets (nt s) i;
       let packet = tcp_header (sa_port (sk_local_addr k)) (sa_port a) (sk_seq_num k) 0 TCP_FLAG_SYN;
       let s = upd_nt (upd_socket i (\<lambda>k. k\<lparr>sk_state := TCP_SYN_SENT\<rparr>)) s;
       (err, s) \<leftarrow> net_ip_send cs (sa_addr a) 6 packet (of_nat TCP_HEADER_SIZE) s;
       (if err \<noteq> OS_OK then Some (OS_ERROR, s)
        else do {
          (err, s) \<leftarrow> os_semaphore_wait cs (Some (RX_SEM i)) timeout_ms s;
          Some (if err \<noteq> OS_OK then (OS_ERROR_TIMEOUT, upd_nt (upd_socket i (\<lambda>k. k\<lparr>sk_state := TCP_CLOSED\<rparr>)) s)
                else (if sk_state (n_sockets (nt s) i) = TCP_ESTABLISHED then OS_OK else OS_ERROR, s)) }) })"

definition net_send ::
    "('d, 'a) nswitch \<Rightarrow> int \<Rightarrow> u8 list \<Rightarrow> u32 \<Rightarrow> ('d, 'a) nets_scheme \<Rightarrow> (int \<times> ('d, 'a) nets_scheme) option" where
  "net_send cs sock data timeout_ms s =
    (if bad_socket sock (nt s) then Some (-1, s)
     else
       let i = nat sock;
           k = n_sockets (nt s) i;
           len = of_nat (length data) :: u16
       in if sk_type k = SOCK_STREAM
          then if sk_state k \<noteq> TCP_ESTABLISHED then Some (-1, s)
               else do {
                 let packet = tcp_header (sa_port (sk_local_addr k)) (sa_port (sk_remote_addr k)) (sk_seq_num k) (sk_ack_num k)
                       (TCP_FLAG_PSH OR TCP_FLAG_ACK) @ take (unat len) data;
                 (err, s) \<leftarrow> net_ip_send cs (sa_addr (sk_remote_addr k)) 6 packet (of_nat (TCP_HEADER_SIZE + unat len)) s;
                 Some (if err = OS_OK
                       then (int (unat len), upd_nt (upd_socket i (\<lambda>k. k\<lparr>sk_seq_num := sk_seq_num k + ucast len\<rparr>)) s)
                       else (-1, s)) }
          else Some (-1, s))"

definition net_recv ::
    "('d, 'a) nswitch \<Rightarrow> int \<Rightarrow> u16 \<Rightarrow> u32 \<Rightarrow> ('d, 'a) nets_scheme \<Rightarrow> ((int \<times> u8 list) \<times> ('d, 'a) nets_scheme) option" where
  "net_recv cs sock max_length timeout_ms s =
    (if bad_socket sock (nt s) then Some ((-1, []), s)
     else if sk_type (n_sockets (nt s) (nat sock)) = SOCK_STREAM
     then if sk_state (n_sockets (nt s) (nat sock)) \<noteq> TCP_ESTABLISHED then Some ((-1, []), s)
          else do {
            (err, s) \<leftarrow> os_semaphore_wait cs (Some (RX_SEM (nat sock))) timeout_ms s;
            (if err \<noteq> OS_OK then Some ((0, []), s)
             else do {
               let k = n_sockets (nt s) (nat sock);
               let copy_len = (if sk_rx_length k > max_length then max_length else sk_rx_length k);
               avail (unat copy_len) (sk_rx_buffer k);
               let s = upd_nt (upd_socket (nat sock) (\<lambda>k. k\<lparr>sk_rx_length := 0\<rparr>)) s;
               Some ((int (unat copy_len), take (unat copy_len) (sk_rx_buffer k)), s) }) }
     else Some ((-1, []), s))"

definition net_listen :: "int \<Rightarrow> int \<Rightarrow> os_error" where
  "net_listen sock backlog = OS_ERROR_NOT_IMPLEMENTED"

definition net_accept :: "int \<Rightarrow> int" where
  "net_accept sock = INVALID_SOCKET"

end
