(* ===== verification/Network.thy ===== *)
theory Network
  imports Socket
begin

text \<open>
  The input path of the stack, from the frame that the network task receives through
  \<^verbatim>\<open>net_ethernet_input\<close> and \<^verbatim>\<open>net_ip_input\<close> to the sockets, and the start of the stack.
\<close>

section \<open>Input\<close>

definition net_ip_input :: "('d, 'a) nswitch \<Rightarrow> u8 list \<Rightarrow> u16 \<Rightarrow> ('d, 'a) nets_scheme \<Rightarrow> ('d, 'a) nets_scheme option" where
  "net_ip_input cs data len s =
    (if unat len < IP_HEADER_SIZE then Some s
     else do {
       avail IP_HEADER_SIZE data;
       let ihl = (data ! 0 AND 0x0F) * 4;
       (if drop_bit 4 (data ! 0) \<noteq> 4 then Some s
        else if ihl < 20 \<or> unat ihl > unat len then Some s
        else do {
          avail (unat ihl) data;
          let hdr_copy = splice 10 (le16 0) (take (unat ihl) data);
          (if get16 10 data \<noteq> net_checksum hdr_copy then Some s
           else if \<not> net_ipv4_equal (ip_at 16 data) (net_get_ip_addr (nt s)) then Some s
           else if ntohs (get16 2 data) > len then Some s
           else
             let payload = drop (unat ihl) data;
                 payload_length = ntohs (get16 2 data) - ucast ihl;
                 src = ip_at 12 data
             in if data ! 9 = IP_PROTOCOL_ICMP then icmp_input cs payload payload_length src s
                else if data ! 9 = IP_PROTOCOL_UDP then net_udp_input cs payload payload_length src s
                else if data ! 9 = IP_PROTOCOL_TCP then net_tcp_input cs payload payload_length src s
                else Some s) }) })"

definition net_ethernet_input :: "('d, 'a) nswitch \<Rightarrow> u8 list \<Rightarrow> u16 \<Rightarrow> ('d, 'a) nets_scheme \<Rightarrow> ('d, 'a) nets_scheme option" where
  "net_ethernet_input cs data len s =
    (if unat len < ETH_HEADER_SIZE then Some s
     else do {
       avail ETH_HEADER_SIZE data;
       let typ = ntohs (get16 12 data);
       let payload = drop ETH_HEADER_SIZE data;
       let payload_length = len - of_nat ETH_HEADER_SIZE;
       let is_for_us = (mac_at 0 data = net_get_mac_addr (nt s));
       let is_broadcast = (mac_at 0 data = BROADCAST_MAC);
       (if \<not> is_for_us \<and> \<not> is_broadcast then Some s
        else if typ = ETH_TYPE_IP then net_ip_input cs payload payload_length s
        else if typ = ETH_TYPE_ARP then arp_input cs payload payload_length s
        else Some s) })"

section \<open>The network task\<close>

text \<open>The body of the loop of \<^verbatim>\<open>network_task_func\<close> up to its delay, and one round; the array \<^verbatim>\<open>rx_buffer\<close> lives across rounds.\<close>

definition network_receive ::
    "('d, 'a) nswitch \<Rightarrow> u8 list \<Rightarrow> ('d, 'a) nets_scheme \<Rightarrow> (u8 list \<times> ('d, 'a) nets_scheme) option" where
  "network_receive cs rx_buffer s =
    (case Option.bind (n_driver (nt s)) drv_receive of
       None \<Rightarrow> Some (rx_buffer, s)
     | Some receive \<Rightarrow>
        let ((len, rx_buffer), d) = receive rx_buffer (of_nat NET_BUFFER_SIZE) (n_dev (nt s));
            s = upd_nt (\<lambda>x. x\<lparr>n_dev := d\<rparr>) s
        in if 0 <s len
           then do {
             s \<leftarrow> net_ethernet_input cs rx_buffer (ucast len) s;
             Some (rx_buffer, upd_nt (\<lambda>x. x\<lparr>n_stats := (n_stats x)\<lparr>eth_rx_packets := eth_rx_packets (n_stats x) + 1\<rparr>\<rparr>) s) }
           else Some (rx_buffer, s))"

definition network_task_round ::
    "('d, 'a) nswitch \<Rightarrow> u8 list \<Rightarrow> ('d, 'a) nets_scheme \<Rightarrow> (u8 list \<times> ('d, 'a) nets_scheme) option" where
  "network_task_round cs rx_buffer s = do {
     (rx_buffer, s) \<leftarrow> network_receive cs rx_buffer s;
     s \<leftarrow> os_task_delay cs 1 s;
     Some (rx_buffer, s) }"

section \<open>Starting the stack\<close>

text \<open>The driver is shared by reference, so it is its functions and its state that are installed.\<close>

definition net_init :: "'d net_driver option \<Rightarrow> net_config option \<Rightarrow> ('d, 'a) nets_scheme \<Rightarrow> os_error \<times> ('d, 'a) nets_scheme" where
  "net_init driver config s =
    (case (driver, config) of
       (Some drv, Some cfg) \<Rightarrow>
        let s = upd_nt (\<lambda>x. x\<lparr>n_driver := Some drv, n_config := cfg, n_stats := zero_stats\<rparr>) (net_buffer_pool_init s);
            (err, d) = (case drv_init drv of None \<Rightarrow> (OS_OK, n_dev (nt s)) | Some init \<Rightarrow> init (n_dev (nt s)));
            s = upd_nt (\<lambda>x. x\<lparr>n_dev := d\<rparr>) s
        in if err \<noteq> OS_OK then (err, s)
           else (OS_OK, net_tcp_init (net_udp_init (net_icmp_init (upd_nt net_ip_init (net_ethernet_init s)))))
     | _ \<Rightarrow> (OS_ERROR_INVALID_PARAM, s))"

text \<open>The addresses of \<^verbatim>\<open>network_task\<close> and \<^verbatim>\<open>network_task_func\<close>.\<close>

definition net_start :: "addr \<Rightarrow> u32 \<Rightarrow> ('d, 'a) nets_scheme \<Rightarrow> (os_error \<times> ('d, 'a) nets_scheme) option" where
  "net_start network_task network_task_func s =
     os_task_create (Some network_task) (Some ''net_task'') network_task_func 0 PRIORITY_HIGH s"

end
