(* ===== verification/Net_Lemmas.thy ===== *)
theory Net_Lemmas
  imports Network Message_Queue
begin

text \<open>
  Facts on the network stack that its properties share: byte order, headers read back, and
  the locks and semaphores of the stack when no other task interferes.
\<close>

section \<open>Byte order\<close>

lemma htons_htons [simp]: "htons (htons w) = w" "ntohs (htons w) = w"
proof -
  show "htons (htons w) = w"
  proof (rule bit_word_eqI)
    fix n assume "n < LENGTH(16)"
    then have "n \<in> set [0..<16]" by simp
    moreover have "[0..<16] = [0, 1, 2, 3, 4, 5, 6, 7, 8, 9, 10, 11, 12, 13, 14, 15 :: nat]" by code_simp
    ultimately have "n \<in> set [0, 1, 2, 3, 4, 5, 6, 7, 8, 9, 10, 11, 12, 13, 14, 15]" by simp
    then show "bit (htons (htons w)) n = bit w n"
      by (auto simp: htons_def bit_or_iff bit_and_iff bit_push_bit_iff bit_drop_bit_eq bit_numeral_rec)
  qed
  then show "ntohs (htons w) = w" by (simp add: ntohs_def)
qed

lemma get16_at: "i = length xs \<Longrightarrow> bs = xs @ le16 w @ ys \<Longrightarrow> get16 i bs = w"
  by simp

lemma length_addr [simp]: "length (mac_bytes m) = 6" "length (ip_bytes a) = 4"
  by (cases m; simp) (cases a; simp)

lemma addr_at: "i = length xs \<Longrightarrow> bs = xs @ mac_bytes m @ ys \<Longrightarrow> mac_at i bs = m"
    "i = length xs \<Longrightarrow> bs = xs @ ip_bytes a @ ys \<Longrightarrow> ip_at i bs = a"
  by (cases m; simp add: mac_at_def nth_append) (cases a; simp add: ip_at_def nth_append)

lemma net_ipv4_equal_iff [simp]: "net_ipv4_equal a b \<longleftrightarrow> a = b"
  by (cases a; cases b) (auto simp: net_ipv4_equal_def numeral_2_eq_2 numeral_3_eq_3)

section \<open>Headers\<close>

lemma length_headers [simp]:
  "length (eth_header d s t) = 14" "length (ip_header_bytes n i p c src dest) = 20" "length (ip_header n i p src dest) = 20"
  "length (udp_header sp dp n) = 8"
  by (simp_all add: eth_header_def ip_header_bytes_def ip_header_def udp_header_def Let_def)

text \<open>The fields of a frame, read from its start.\<close>

lemma eth_fields:
  "mac_at 0 (eth_header d s t @ ys) = d" "ntohs (get16 12 (eth_header d s t @ ys)) = t"
proof -
  show "mac_at 0 (eth_header d s t @ ys) = d"
    by (rule addr_at(1) [where xs = "[]" and ys = "mac_bytes s @ le16 (htons t) @ ys"]) (simp_all add: eth_header_def)
  have "get16 12 (eth_header d s t @ ys) = htons t"
    by (rule get16_at [where xs = "mac_bytes d @ mac_bytes s" and ys = ys]) (simp_all add: eth_header_def)
  then show "ntohs (get16 12 (eth_header d s t @ ys)) = t" by simp
qed

lemma ip_header_parts:
  "ip_header n i p src dest = [0x45, 0] @ le16 (htons n) @ le16 i @ le16 0 @ [64, p] @
     le16 (net_checksum (ip_header_bytes n i p 0 src dest)) @ ip_bytes src @ ip_bytes dest"
  by (simp add: ip_header_def ip_header_bytes_def Let_def)

lemma ip_fields:
  fixes ys n i p src dest
  defines "bs \<equiv> ip_header n i p src dest @ ys"
  shows "bs ! 0 = 0x45" "ntohs (get16 2 bs) = n" "bs ! 9 = p" "get16 10 bs = net_checksum (ip_header_bytes n i p 0 src dest)"
    "ip_at 12 bs = src" "ip_at 16 bs = dest" "splice 10 (le16 0) (take 20 bs) = ip_header_bytes n i p 0 src dest"
proof -
  let ?c = "net_checksum (ip_header_bytes n i p 0 src dest)"
  show "bs ! 0 = 0x45" by (simp add: bs_def ip_header_parts)
  have "get16 2 bs = htons n"
    by (rule get16_at [where xs = "[0x45, 0]" and ys = "le16 i @ le16 0 @ [64, p] @ le16 ?c @ ip_bytes src @ ip_bytes dest @ ys"])
       (simp_all add: bs_def ip_header_parts)
  then show "ntohs (get16 2 bs) = n" by simp
  show "bs ! 9 = p" by (simp add: bs_def ip_header_parts le16_def)
  show "get16 10 bs = ?c"
    by (rule get16_at [where xs = "[0x45, 0] @ le16 (htons n) @ le16 i @ le16 0 @ [64, p]" and ys = "ip_bytes src @ ip_bytes dest @ ys"])
       (simp_all add: bs_def ip_header_parts)
  show "ip_at 12 bs = src"
    by (rule addr_at(2) [where xs = "[0x45, 0] @ le16 (htons n) @ le16 i @ le16 0 @ [64, p] @ le16 ?c" and ys = "ip_bytes dest @ ys"])
       (simp_all add: bs_def ip_header_parts)
  show "ip_at 16 bs = dest"
    by (rule addr_at(2) [where xs = "[0x45, 0] @ le16 (htons n) @ le16 i @ le16 0 @ [64, p] @ le16 ?c @ ip_bytes src" and ys = ys])
       (simp_all add: bs_def ip_header_parts)
  have "take 20 bs = ip_header n i p src dest" by (simp add: bs_def)
  then show "splice 10 (le16 0) (take 20 bs) = ip_header_bytes n i p 0 src dest"
    by (simp add: ip_header_parts ip_header_bytes_def splice_def le16_def)
qed

lemma udp_fields:
  "ntohs (get16 0 (udp_header sp dp n @ ys)) = sp" "ntohs (get16 2 (udp_header sp dp n @ ys)) = dp"
  "ntohs (get16 4 (udp_header sp dp n @ ys)) = n"
proof -
  have "get16 0 (udp_header sp dp n @ ys) = htons sp"
    by (rule get16_at [where xs = "[]" and ys = "le16 (htons dp) @ le16 (htons n) @ le16 0 @ ys"]) (simp_all add: udp_header_def)
  then show "ntohs (get16 0 (udp_header sp dp n @ ys)) = sp" by simp
  have "get16 2 (udp_header sp dp n @ ys) = htons dp"
    by (rule get16_at [where xs = "le16 (htons sp)" and ys = "le16 (htons n) @ le16 0 @ ys"]) (simp_all add: udp_header_def)
  then show "ntohs (get16 2 (udp_header sp dp n @ ys)) = dp" by simp
  have "get16 4 (udp_header sp dp n @ ys) = htons n"
    by (rule get16_at [where xs = "le16 (htons sp) @ le16 (htons dp)" and ys = "le16 0 @ ys"]) (simp_all add: udp_header_def)
  then show "ntohs (get16 4 (udp_header sp dp n @ ys)) = n" by simp
qed

section \<open>Locks and semaphores of the stack\<close>

text \<open>Other tasks use neither the stack nor the two objects while the caller is switched out.\<close>

definition leaves_net :: "mutex_loc \<Rightarrow> addr \<Rightarrow> ('d, 'a) nswitch \<Rightarrow> bool" where
  "leaves_net m a cs \<longleftrightarrow> (\<forall>old new s. nt (cs old new s) = nt s \<and> mutex_at m (cs old new s) = mutex_at m s \<and>
     sy_sem (cs old new s) a = sy_sem s a)"

lemma nt_updates [simp]:
  "nt (upd_mutex m f s) = nt s" "nt (mutex_acquire m c s) = nt s" "nt (upd_sem a g s) = nt s"
proof -
  show *: "nt (upd_mutex m f s) = nt s" for f and s :: "('a, 'b) nets_scheme" by (cases m) simp_all
  show "nt (mutex_acquire m c s) = nt s" by (simp add: mutex_acquire_def Let_def *)
qed (simp add: upd_sem_def)

lemma sem_updates [simp]:
  "sy_sem (upd_mutex m f s) = sy_sem s" "sy_sem (mutex_acquire m c s) = sy_sem s" "sy_sem (upd_sem a g s) = (sy_sem s)(a := g (sy_sem s a))"
  "mutex_at m (upd_sem a g s) = mutex_at m s"
proof -
  show *: "sy_sem (upd_mutex m f s) = sy_sem s" for f and s :: "'a sync_scheme" by (cases m) simp_all
  show "sy_sem (mutex_acquire m c s) = sy_sem s" by (simp add: mutex_acquire_def Let_def *)
  show "mutex_at m (upd_sem a g s) = mutex_at m s" by (cases m) (simp_all add: upd_sem_def)
qed (simp add: upd_sem_def)

lemma net_view_stable:
  fixes cs :: "('d, 'a) nswitch"
  assumes "leaves_net m a cs"
  shows "obj_stable (\<lambda>s. nt s = x \<and> mutex_at m s = y \<and> sy_sem s a = z) cs"
  unfolding obj_stable_def
proof (intro conjI allI impI)
  fix s s' :: "('d, 'a) nets_scheme"
  assume more: "kernel.more s = kernel.more s'" and "nt s = x \<and> mutex_at m s = y \<and> sy_sem s a = z"
  moreover have "nt s' = nt s" using more by (cases s; cases s') simp
  ultimately show "nt s' = x" "mutex_at m s' = y" "sy_sem s' a = z"
    using more_objects(7) [of s s' m] more_objects(2) [of s s'] by simp_all
qed (use assms in \<open>simp_all add: leaves_net_def\<close>)

lemma on_cpu_nt [simp]: "on_cpu c (s\<lparr>nt := x\<rparr>) \<longleftrightarrow> on_cpu c s" "on_cpu c (upd_nt f s) \<longleftrightarrow> on_cpu c s"
proof -
  show *: "on_cpu c (s\<lparr>nt := x\<rparr>) \<longleftrightarrow> on_cpu c s" for x by (rule on_cpu_kernel; simp add: sched_rel_def nexts_def [abs_def])
  show "on_cpu c (upd_nt f s) \<longleftrightarrow> on_cpu c s" by (simp add: upd_nt_def *)
qed

lemma upd_nt_objects [simp]:
  "nt (upd_nt f s) = f (nt s)" "mutex_at m (upd_nt f s) = mutex_at m s" "sy_sem (upd_nt f s) = sy_sem s"
  "mutex_at m (s\<lparr>nt := x\<rparr>) = mutex_at m s"
  by (simp_all add: upd_nt_def) (cases m; simp)+

text \<open>What the stack and its clients see of a state, for one lock and one semaphore.\<close>

definition net_ready :: "mutex_loc \<Rightarrow> addr \<Rightarrow> addr \<Rightarrow> 'd net \<Rightarrow> semaphore \<Rightarrow> ('d, 'a) nets_scheme \<Rightarrow> bool" where
  "net_ready m a c x z s \<longleftrightarrow> on_cpu c s \<and> nt s = x \<and> \<not> m_locked (mutex_at m s) \<and> sy_sem s a = z"

text \<open>Taking a free lock, for every mutex.\<close>

lemma lock_at_once:
  assumes on: "on_cpu c s" and free: "\<not> m_locked (mutex_at m s)"
  shows "os_mutex_lock cs (Some m) timeout s = Some (OS_OK, (mutex_acquire m c (s\<lparr>k_primask := 1\<rparr>))\<lparr>k_primask := k_primask s\<rparr>)"
    and "m_owner (mutex_at m (mutex_acquire m c t)) = Some c"
proof -
  have attempt: "mutex_try cs m (Some c) s = Some (Some (), (mutex_acquire m c (s\<lparr>k_primask := 1\<rparr>))\<lparr>k_primask := k_primask s\<rparr>)"
    using free by (cases m) (simp_all add: mutex_try_def critical_defs)
  then show "os_mutex_lock cs (Some m) timeout s = Some (OS_OK, (mutex_acquire m c (s\<lparr>k_primask := 1\<rparr>))\<lparr>k_primask := k_primask s\<rparr>)"
    using mx.poll_at_once [OF attempt] on by (simp add: os_mutex_lock_def os_task_get_current_def wait_result_def on_cpu_def)
  show "m_owner (mutex_at m (mutex_acquire m c t)) = Some c" by (cases m) (simp_all add: mutex_acquire_def Let_def)
qed

text \<open>
  With the lock free, a locked operation is its work, and what the caller sees otherwise, any
  \<open>view\<close> of the state that neither the kernel nor the operation nor another task changes, stays.
\<close>

lemma nt_locked_view:
  fixes s :: "('d, 'a) nets_scheme" and view :: "('d, 'a) nets_scheme \<Rightarrow> 'v"
  assumes on: "on_cpu c s" and free: "\<not> m_locked (mutex_at m s)" and cs: "resumes cs"
    and st: "\<And>x y v. obj_stable (\<lambda>s. nt s = x \<and> mutex_at m s = y \<and> view s = v) cs"
    and view: "\<And>f s. view (upd_mutex m f s) = view s" "\<And>x s. view (s\<lparr>nt := x\<rparr>) = view s" "\<And>p s. view (s\<lparr>k_primask := p\<rparr>) = view s"
  obtains s' now where "nt_locked cs m work s = Some (fst (work now (nt s)), s')" "on_cpu c s'" "nt s' = snd (work now (nt s))"
    "\<not> m_locked (mutex_at m s')" "view s' = view s"
proof -
  define s0 where "s0 = (mutex_acquire m c (s\<lparr>k_primask := 1\<rparr>))\<lparr>k_primask := k_primask s\<rparr>"
  note lock = lock_at_once(1) [OF on free, of cs OS_WAIT_FOREVER, folded s0_def]
  have acq: "view (mutex_acquire m c t) = view t" for t by (simp add: mutex_acquire_def Let_def view)
  obtain v x1 where w: "work (os_get_tick_count s0) (nt s) = (v, x1)" by fastforce
  have s0: "nt s0 = nt s" "view s0 = view s" "on_cpu c s0" using on by (simp_all add: s0_def view acq)
  let ?w = "s0\<lparr>nt := x1\<rparr>" and ?rel = "\<lambda>x. x\<lparr>m_locked := False, m_owner := None\<rparr>"
  have own: "m_owner (mutex_at m ?w) = Some c" using lock_at_once(2) [OF on free] by (simp add: s0_def)
  let ?y = "?rel (mutex_at m ?w)"
  have rel: "nt (upd_mutex m ?rel t) = x1 \<and> mutex_at m (upd_mutex m ?rel t) = ?y \<and> view (upd_mutex m ?rel t) = view s"
    if "nt t = x1 \<and> mutex_at m t = mutex_at m ?w \<and> view t = view s" for t :: "('d, 'a) nets_scheme"
    using that by (simp add: view)
  obtain s' where s': "os_mutex_unlock cs (Some m) ?w = Some (OS_OK, s')" "on_cpu c s'" "nt s' = x1" "mutex_at m s' = ?y" "view s' = view s"
    using unlock_law [of c ?w cs m "\<lambda>s'. nt s' = x1 \<and> mutex_at m s' = mutex_at m ?w \<and> view s' = view s"
        "\<lambda>s'. nt s' = x1 \<and> mutex_at m s' = ?y \<and> view s' = view s", OF _ cs own st _ st rel] s0 view(2) by auto
  show ?thesis
    by (rule that [of "os_get_tick_count s0" s']) (use lock w s' s0 in \<open>simp_all add: nt_locked_def\<close>)
qed

lemma nt_locked_at_once:
  fixes s :: "('d, 'a) nets_scheme"
  assumes r: "net_ready m a c x z s" and cs: "resumes cs" and lv: "leaves_net m a cs"
  obtains s' now where "nt_locked cs m work s = Some (fst (work now x), s')" "net_ready m a c (snd (work now x)) z s'"
proof -
  have on: "on_cpu c s" "\<not> m_locked (mutex_at m s)" and x: "nt s = x" "sy_sem s a = z" using r by (simp_all add: net_ready_def)
  show ?thesis
    by (rule nt_locked_view [OF on cs net_view_stable [OF lv], of work]) (use x that in \<open>auto simp: net_ready_def\<close>)
qed

lemma post_at_once:
  fixes s :: "('d, 'a) nets_scheme"
  assumes r: "net_ready m a c x z s" and cs: "resumes cs" and lv: "leaves_net m a cs"
  obtains s' where "os_semaphore_post cs (Some a) s = Some (OS_OK, s')" "net_ready m a c x (z\<lparr>sem_count := sem_count z + 1\<rparr>) s'"
proof -
  let ?z = "z\<lparr>sem_count := sem_count z + 1\<rparr>"
  let ?s = "(upd_sem a (\<lambda>x. x\<lparr>sem_count := sem_count x + 1\<rparr>) (s\<lparr>k_primask := 1\<rparr>))\<lparr>k_primask := k_primask s\<rparr>"
  have v: "on_cpu c ?s" "nt ?s = x \<and> mutex_at m ?s = mutex_at m s \<and> sy_sem ?s a = ?z" "\<not> m_locked (mutex_at m s)"
    using r by (simp_all add: net_ready_def)
  obtain s' where "os_task_yield cs ?s = Some s'" "on_cpu c s'" "nt s' = x \<and> mutex_at m s' = mutex_at m s \<and> sy_sem s' a = ?z"
    using yield_law [OF v(1) cs net_view_stable [OF lv] v(2)] by auto
  then show ?thesis
    using v(3) by (intro that [of s']) (simp_all add: os_semaphore_post_def critical_defs net_ready_def)
qed

lemma wait_at_once:
  fixes s :: "('d, 'a) nets_scheme"
  assumes r: "net_ready m a c x z s" and pos: "0 < sint (sem_count z)"
  obtains s' where "os_semaphore_wait cs (Some a) timeout s = Some (OS_OK, s')" "net_ready m a c x (z\<lparr>sem_count := sem_count z - 1\<rparr>) s'"
proof -
  let ?s = "(upd_sem a (\<lambda>x. x\<lparr>sem_count := sem_count x - 1\<rparr>) (s\<lparr>k_primask := 1\<rparr>))\<lparr>k_primask := k_primask s\<rparr>"
  have t: "sem_try a s = Some (Some (), ?s)"
    using r pos by (simp add: sem_try_def critical_defs net_ready_def)
  have "os_semaphore_wait cs (Some a) timeout s = Some (OS_OK, ?s)"
    using sem.poll_at_once [OF t] by (simp add: os_semaphore_wait_def wait_result_def)
  then show ?thesis using r by (intro that [of ?s]) (simp_all add: net_ready_def)
qed

end
