(* ===== verification/Loopback.thy ===== *)
theory Loopback
  imports Network Message_Queue
begin

text \<open>
  The loopback driver, \<^verbatim>\<open>drivers/loopback_net.c\<close>: four slots used as a ring, one of them always
  free. It implements the bounded queue of \<open>Message_Queue\<close> with capacity three.
\<close>

definition QUEUE_SIZE :: nat where "QUEUE_SIZE = 4"

record packet =
  pk_data :: "u8 list"
  pk_length :: u16
  pk_valid :: bool

record loopback =
  lb_queue :: "nat \<Rightarrow> packet"
  lb_head :: nat
  lb_tail :: nat

definition loopback_mac :: mac_addr where
  "loopback_mac = MAC 0x02 0 0 0 0 0x01"

definition upd_packet :: "nat \<Rightarrow> (packet \<Rightarrow> packet) \<Rightarrow> loopback \<Rightarrow> loopback" where
  "upd_packet i f d = d\<lparr>lb_queue := (lb_queue d)(i := f (lb_queue d i))\<rparr>"

definition loopback_init :: "loopback \<Rightarrow> os_error \<times> loopback" where
  "loopback_init d =
    (OS_OK, (fold (\<lambda>i. upd_packet i (\<lambda>p. p\<lparr>pk_valid := False\<rparr>)) [0..<QUEUE_SIZE] d)\<lparr>lb_head := 0, lb_tail := 0\<rparr>)"

definition loopback_send :: "u8 list \<Rightarrow> loopback \<Rightarrow> os_error \<times> loopback" where
  "loopback_send data d =
    (if length data > NET_BUFFER_SIZE then (OS_ERROR_INVALID_PARAM, d)
     else
       let next_tail = (lb_tail d + 1) mod QUEUE_SIZE
       in if next_tail = lb_head d then (OS_ERROR_NO_RESOURCE, d)
          else (OS_OK, (upd_packet (lb_tail d) (\<lambda>p. p\<lparr>pk_data := splice 0 data (pk_data p), pk_length := of_nat (length data),
                          pk_valid := True\<rparr>) d)\<lparr>lb_tail := next_tail\<rparr>))"

definition loopback_receive :: "u8 list \<Rightarrow> u16 \<Rightarrow> loopback \<Rightarrow> (u32 \<times> u8 list) \<times> loopback" where
  "loopback_receive buffer max_length d =
    (if lb_head d = lb_tail d \<or> \<not> pk_valid (lb_queue d (lb_head d)) then ((0, buffer), d)
     else
       let p = lb_queue d (lb_head d);
           len = (if pk_length p > max_length then max_length else pk_length p)
       in ((ucast len, splice 0 (take (unat len) (pk_data p)) buffer),
           (upd_packet (lb_head d) (\<lambda>p. p\<lparr>pk_valid := False\<rparr>) d)\<lparr>lb_head := (lb_head d + 1) mod QUEUE_SIZE\<rparr>))"

definition loopback_get_mac :: "loopback \<Rightarrow> mac_addr" where
  "loopback_get_mac d = loopback_mac"

definition loopback_is_link_up :: "loopback \<Rightarrow> bool" where
  "loopback_is_link_up d = True"

definition loopback_driver :: "loopback net_driver" where
  "loopback_driver = \<lparr>drv_init = Some loopback_init, drv_send = Some loopback_send, drv_receive = Some loopback_receive,
     drv_get_mac = Some loopback_get_mac, drv_is_link_up = Some loopback_is_link_up\<rparr>"

definition loopback_get_driver :: "loopback net_driver" where
  "loopback_get_driver = loopback_driver"

section \<open>A queue of capacity three\<close>

definition lb_count :: "loopback \<Rightarrow> nat" where
  "lb_count d = (lb_tail d + QUEUE_SIZE - lb_head d) mod QUEUE_SIZE"

definition lb_slot :: "loopback \<Rightarrow> nat \<Rightarrow> packet" where
  "lb_slot d j = lb_queue d ((lb_head d + j) mod QUEUE_SIZE)"

definition packet_bytes :: "packet \<Rightarrow> u8 list" where
  "packet_bytes p = take (unat (pk_length p)) (pk_data p)"

definition lb_items :: "loopback \<Rightarrow> u8 list list" where
  "lb_items d = map (\<lambda>j. packet_bytes (lb_slot d j)) [0..<lb_count d]"

definition lb_ok :: "loopback \<Rightarrow> bool" where
  "lb_ok d \<longleftrightarrow> lb_head d < QUEUE_SIZE \<and> lb_tail d < QUEUE_SIZE \<and>
     (\<forall>i < QUEUE_SIZE. length (pk_data (lb_queue d i)) = NET_BUFFER_SIZE \<and> unat (pk_length (lb_queue d i)) \<le> NET_BUFFER_SIZE) \<and>
     (\<forall>j < lb_count d. pk_valid (lb_slot d j))"

text \<open>A client that sends a frame, and one that receives into its buffer.\<close>

definition lb_put :: "u8 list \<Rightarrow> loopback \<Rightarrow> loopback" where
  "lb_put v d = snd (loopback_send v d)"

definition lb_get :: "u8 list \<Rightarrow> loopback \<Rightarrow> u8 list \<times> loopback" where
  "lb_get buffer d = (let ((n, buf), d) = loopback_receive buffer (of_nat NET_BUFFER_SIZE) d in (take (unat n) buf, d))"

definition lb_full :: "loopback \<Rightarrow> bool" where
  "lb_full d \<longleftrightarrow> (lb_tail d + 1) mod QUEUE_SIZE = lb_head d"

definition lb_empty :: "loopback \<Rightarrow> bool" where
  "lb_empty d \<longleftrightarrow> lb_head d = lb_tail d \<or> \<not> pk_valid (lb_queue d (lb_head d))"

lemma lb_tail_count:
  assumes "lb_ok d"
  shows "lb_tail d = (lb_head d + lb_count d) mod QUEUE_SIZE" and "lb_count d < QUEUE_SIZE"
    and "lb_full d \<longleftrightarrow> lb_count d = 3" and "lb_head d = lb_tail d \<longleftrightarrow> lb_count d = 0"
proof -
  have "lb_head d < 4" "lb_tail d < 4" using assms by (simp_all add: lb_ok_def QUEUE_SIZE_def)
  then have "lb_head d \<in> {0, 1, 2, 3}" "lb_tail d \<in> {0, 1, 2, 3}" by auto
  then show "lb_tail d = (lb_head d + lb_count d) mod QUEUE_SIZE" "lb_full d \<longleftrightarrow> lb_count d = 3"
      "lb_head d = lb_tail d \<longleftrightarrow> lb_count d = 0"
    by (auto simp: lb_count_def lb_full_def QUEUE_SIZE_def)
  show "lb_count d < QUEUE_SIZE" by (simp add: lb_count_def QUEUE_SIZE_def)
qed

lemma lb_put_facts:
  assumes "length v \<le> NET_BUFFER_SIZE" and "\<not> lb_full d"
  shows "lb_put v d = (upd_packet (lb_tail d) (\<lambda>p. p\<lparr>pk_data := splice 0 v (pk_data p), pk_length := of_nat (length v),
    pk_valid := True\<rparr>) d)\<lparr>lb_tail := (lb_tail d + 1) mod QUEUE_SIZE\<rparr>"
  using assms by (simp add: lb_put_def loopback_send_def lb_full_def Let_def)

lemma lb_put_law:
  assumes ok: "lb_ok d" and v: "length v \<le> NET_BUFFER_SIZE" and room: "\<not> lb_full d"
  shows "lb_ok (lb_put v d)" and "lb_items (lb_put v d) = lb_items d @ [v]" and "lb_count (lb_put v d) = lb_count d + 1"
proof -
  note t = lb_tail_count [OF ok]
  let ?d = "lb_put v d"
  note put = lb_put_facts [OF v room]
  have h: "lb_head ?d = lb_head d" by (simp add: put upd_packet_def)
  have ht: "lb_head d < 4" "lb_tail d < 4" using ok by (simp_all add: lb_ok_def QUEUE_SIZE_def)
  have c3: "lb_count d < 3" using t(2,3) room by (simp add: QUEUE_SIZE_def)
  show cnt: "lb_count ?d = lb_count d + 1"
  proof -
    have "lb_head d \<in> {0, 1, 2, 3}" "lb_tail d \<in> {0, 1, 2, 3}" using ht by auto
    then show ?thesis using c3 by (auto simp: lb_count_def put upd_packet_def QUEUE_SIZE_def)
  qed
  have old: "lb_slot ?d j = lb_slot d j" if "j < lb_count d" for j
    using mod_slot_neq [OF that t(2), of "lb_head d"] t(1) by (simp add: lb_slot_def h) (simp add: put upd_packet_def)
  have new: "lb_slot ?d (lb_count d) =
      (lb_slot d (lb_count d))\<lparr>pk_data := splice 0 v (pk_data (lb_slot d (lb_count d))), pk_length := of_nat (length v), pk_valid := True\<rparr>"
    using t(1) by (simp add: lb_slot_def h) (simp add: put upd_packet_def)
  have n: "unat (of_nat (length v) :: u16) = length v"
    using v by (simp add: unat_of_nat_u16 NET_BUFFER_SIZE_def)
  then have "packet_bytes (lb_slot ?d (lb_count d)) = v" by (simp add: new packet_bytes_def splice_def)
  then show "lb_items ?d = lb_items d @ [v]" using old by (simp add: lb_items_def cnt)
  show "lb_ok ?d"
    unfolding lb_ok_def cnt h
  proof (intro conjI allI impI)
    fix i assume "i < QUEUE_SIZE"
    then show "length (pk_data (lb_queue ?d i)) = NET_BUFFER_SIZE" "unat (pk_length (lb_queue ?d i)) \<le> NET_BUFFER_SIZE"
      using ok v n by (auto simp: lb_ok_def put upd_packet_def)
  next
    fix j assume "j < lb_count d + 1"
    then consider "j < lb_count d" | "j = lb_count d" by linarith
    then show "pk_valid (lb_slot ?d j)" using old new ok by cases (simp_all add: lb_ok_def)
  qed (use ok in \<open>simp_all add: lb_ok_def put QUEUE_SIZE_def\<close>)
qed

lemma lb_receive_law:
  assumes ok: "lb_ok d" and some: "\<not> lb_empty d" and n: "n = min (length (hd (lb_items d))) (unat m)"
  shows "fst (loopback_receive buf m d) = (of_nat n, take n (hd (lb_items d)) @ drop n buf)"
    and "lb_items (snd (loopback_receive buf m d)) = tl (lb_items d)" and "lb_ok (snd (loopback_receive buf m d))"
proof -
  note t = lb_tail_count [OF ok]
  let ?d = "snd (loopback_receive buf m d)" and ?p = "lb_queue d (lb_head d)"
  have ht: "lb_head d < 4" "lb_tail d < 4" using ok by (simp_all add: lb_ok_def QUEUE_SIZE_def)
  have small: "length (pk_data ?p) = NET_BUFFER_SIZE" "unat (pk_length ?p) \<le> NET_BUFFER_SIZE"
    using ok ht by (simp_all add: lb_ok_def QUEUE_SIZE_def)
  have d': "?d = (upd_packet (lb_head d) (\<lambda>p. p\<lparr>pk_valid := False\<rparr>) d)\<lparr>lb_head := (lb_head d + 1) mod QUEUE_SIZE\<rparr>"
    using some by (simp add: loopback_receive_def lb_empty_def Let_def)
  have c: "0 < lb_count d" using some t(4) by (auto simp: lb_empty_def)
  then have hd: "hd (lb_items d) = packet_bytes ?p" using ht by (simp add: lb_items_def hd_map lb_slot_def QUEUE_SIZE_def)
  let ?len = "if pk_length ?p > m then m else pk_length ?p"
  have len: "unat ?len = n" using small n by (simp add: hd packet_bytes_def word_less_nat_alt min_def)
  then have "(ucast ?len :: u32) = of_nat n" by (metis of_nat_unat unat_ucast_u16(1))
  moreover have "take n (pk_data ?p) = take n (hd (lb_items d))" using small n by (simp add: hd packet_bytes_def)
  moreover have "min (length (pk_data ?p)) n = n" using small n by (simp add: hd packet_bytes_def)
  ultimately show "fst (loopback_receive buf m d) = (of_nat n, take n (hd (lb_items d)) @ drop n buf)"
    using some len by (simp add: loopback_receive_def lb_empty_def Let_def splice_def)
  have cnt: "lb_count ?d = lb_count d - 1"
  proof -
    have "lb_head d \<in> {0, 1, 2, 3}" "lb_tail d \<in> {0, 1, 2, 3}" using ht by auto
    then show ?thesis using c by (auto simp: lb_count_def d' upd_packet_def QUEUE_SIZE_def)
  qed
  have slot: "lb_slot ?d j = lb_slot d (Suc j)" if "j < lb_count d - 1" for j
  proof -
    have "(lb_head d + 0) mod QUEUE_SIZE \<noteq> (lb_head d + Suc j) mod QUEUE_SIZE"
      by (rule mod_slot_neq) (use that t(2) in simp_all)
    then have "(lb_head d + Suc j) mod QUEUE_SIZE \<noteq> lb_head d" using ht by (simp add: QUEUE_SIZE_def)
    then show ?thesis by (simp add: lb_slot_def d' upd_packet_def mod_simps)
  qed
  have "lb_items ?d = map (\<lambda>j. packet_bytes (lb_slot d (Suc j))) [0..<lb_count d - 1]"
    using slot by (simp add: lb_items_def cnt)
  also have "\<dots> = tl (lb_items d)"
    using c by (cases "lb_count d") (simp_all add: lb_items_def map_tl map_upt_Suc del: upt_Suc)
  finally show "lb_items ?d = tl (lb_items d)" .
  show "lb_ok ?d"
    unfolding lb_ok_def cnt
    using slot ok ht by (auto simp: lb_ok_def d' upd_packet_def QUEUE_SIZE_def)
qed

lemma lb_items_small: "lb_ok d \<Longrightarrow> x \<in> set (lb_items d) \<Longrightarrow> length x \<le> NET_BUFFER_SIZE"
  by (auto simp: lb_items_def packet_bytes_def lb_slot_def lb_ok_def QUEUE_SIZE_def min_def)

lemma lb_get_law:
  assumes ok: "lb_ok d" and some: "\<not> lb_empty d"
  shows "fst (lb_get buf d) = hd (lb_items d)" and "lb_items (snd (lb_get buf d)) = tl (lb_items d)" and "lb_ok (snd (lb_get buf d))"
proof -
  have "lb_items d \<noteq> []" using lb_tail_count(4) [OF ok] some by (auto simp: lb_empty_def lb_items_def)
  then have small: "length (hd (lb_items d)) \<le> NET_BUFFER_SIZE" using lb_items_small [OF ok] by simp
  then have "length (hd (lb_items d)) = min (length (hd (lb_items d))) (unat (of_nat NET_BUFFER_SIZE :: u16))"
    by (simp add: NET_BUFFER_SIZE_def)
  note r = lb_receive_law [OF ok some this, of buf]
  have "unat (of_nat (length (hd (lb_items d))) :: u32) = length (hd (lb_items d))"
    using small by (simp add: unsigned_of_nat take_bit_nat_eq_self NET_BUFFER_SIZE_def)
  then show "fst (lb_get buf d) = hd (lb_items d)" using r(1) by (simp add: lb_get_def Let_def case_prod_beta)
  show "lb_items (snd (lb_get buf d)) = tl (lb_items d)" "lb_ok (snd (lb_get buf d))"
    using r(2,3) by (simp_all add: lb_get_def Let_def case_prod_beta)
qed

interpretation lbq: bounded_queue lb_ok lb_items "\<lambda>_. 3" lb_full lb_empty lb_put "lb_get buffer"
    "\<lambda>_ v. length v \<le> NET_BUFFER_SIZE" for buffer
proof unfold_locales
  fix d v
  assume ok: "lb_ok d"
  show "lb_full d \<longleftrightarrow> \<not> length (lb_items d) < 3"
    using lb_tail_count(2,3) [OF ok] by (auto simp: lb_items_def QUEUE_SIZE_def)
  have "pk_valid (lb_queue d (lb_head d))" if "0 < lb_count d"
  proof -
    have "lb_head d < QUEUE_SIZE" using ok by (simp add: lb_ok_def)
    then have "lb_slot d 0 = lb_queue d (lb_head d)" by (simp add: lb_slot_def)
    then show ?thesis using ok that unfolding lb_ok_def by metis
  qed
  then show "lb_empty d \<longleftrightarrow> lb_items d = []"
    using lb_tail_count(4) [OF ok] by (auto simp: lb_empty_def lb_items_def)
qed (simp_all add: lb_put_law lb_get_law)

section \<open>Sequences of calls\<close>

text \<open>What the calls of the driver return, and what a queue of at most three frames returns. A call of
  \<^verbatim>\<open>loopback_receive\<close> comes with the content of the caller's buffer and \<^verbatim>\<open>max_length\<close>.\<close>

datatype lb_call = LbSend "u8 list" | LbReceive "u8 list" u16

datatype lb_result = LbSent os_error | LbReceived u32 "u8 list"

fun lb_run :: "lb_call list \<Rightarrow> loopback \<Rightarrow> lb_result list \<times> loopback" where
  "lb_run [] d = ([], d)"
| "lb_run (LbSend v # cs) d = (let (e, d) = loopback_send v d; (rs, d) = lb_run cs d in (LbSent e # rs, d))"
| "lb_run (LbReceive buf m # cs) d =
    (let ((n, buf), d) = loopback_receive buf m d; (rs, d) = lb_run cs d in (LbReceived n buf # rs, d))"

fun frames_run :: "lb_call list \<Rightarrow> u8 list list \<Rightarrow> lb_result list \<times> u8 list list" where
  "frames_run [] xs = ([], xs)"
| "frames_run (LbSend v # cs) xs =
    (if length v > 1500 then let (rs, ys) = frames_run cs xs in (LbSent OS_ERROR_INVALID_PARAM # rs, ys)
     else if length xs \<ge> 3 then let (rs, ys) = frames_run cs xs in (LbSent OS_ERROR_NO_RESOURCE # rs, ys)
     else let (rs, ys) = frames_run cs (xs @ [v]) in (LbSent OS_OK # rs, ys))"
| "frames_run (LbReceive buf m # cs) xs =
    (case xs of
       [] \<Rightarrow> let (rs, ys) = frames_run cs [] in (LbReceived 0 buf # rs, ys)
     | x # xs \<Rightarrow> let n = min (length x) (unat m); (rs, ys) = frames_run cs xs
                 in (LbReceived (of_nat n) (take n x @ drop n buf) # rs, ys))"

lemma lb_send_refused:
  assumes "lb_ok d"
  shows "1500 < length v \<Longrightarrow> loopback_send v d = (OS_ERROR_INVALID_PARAM, d)"
    and "\<not> 1500 < length v \<Longrightarrow> 3 \<le> length (lb_items d) \<Longrightarrow> loopback_send v d = (OS_ERROR_NO_RESOURCE, d)"
    and "\<not> 1500 < length v \<Longrightarrow> \<not> 3 \<le> length (lb_items d) \<Longrightarrow> loopback_send v d = (OS_OK, lb_put v d)"
  using lbq.full_law [OF assms] by (simp_all add: loopback_send_def lb_put_def NET_BUFFER_SIZE_def lb_full_def Let_def)

lemma lb_run_frames:
  "lb_ok d \<Longrightarrow> fst (lb_run cs d) = fst (frames_run cs (lb_items d)) \<and> lb_ok (snd (lb_run cs d)) \<and>
     lb_items (snd (lb_run cs d)) = snd (frames_run cs (lb_items d))"
proof (induction cs arbitrary: d)
  case (Cons c cs)
  note ok = Cons.prems and IH = Cons.IH
  show ?case
  proof (cases c)
    case (LbSend v)
    consider "1500 < length v" | "\<not> 1500 < length v" "3 \<le> length (lb_items d)" | "\<not> 1500 < length v" "\<not> 3 \<le> length (lb_items d)" by blast
    then show ?thesis
    proof cases
      case 3
      then have "lb_ok (lb_put v d)" "lb_items (lb_put v d) = lb_items d @ [v]"
        using lb_put_law [OF ok, of v] lbq.full_law [OF ok] by (simp_all add: NET_BUFFER_SIZE_def)
      then show ?thesis using IH [of "lb_put v d"] lb_send_refused(3) [OF ok 3] 3 LbSend by (simp add: Let_def case_prod_beta)
    qed (use IH [OF ok] lb_send_refused(1,2) [OF ok] LbSend in \<open>simp_all add: Let_def case_prod_beta\<close>)
  next
    case (LbReceive buf m)
    show ?thesis
    proof (cases "lb_items d")
      case Nil
      then have "loopback_receive buf m d = ((0, buf), d)"
        using lbq.empty_law [OF ok] by (simp add: loopback_receive_def lb_empty_def)
      then show ?thesis using IH [OF ok] Nil LbReceive by (simp add: Let_def case_prod_beta)
    next
      case (Cons x xs)
      then have "\<not> lb_empty d" using lbq.empty_law [OF ok] by simp
      note r = lb_receive_law [OF ok this refl, of buf m]
      show ?thesis using r IH [OF r(3)] Cons LbReceive by (simp add: Let_def case_prod_beta)
    qed
  qed
qed simp

end
