(* ===== verification/Net_Spec.thy ===== *)
theory Net_Spec
  imports Net_Lemmas Loopback Sync_Spec
begin

text \<open>
  Properties of the network stack: a datagram sent over the loopback driver arrives as it
  was sent; addresses and checksums; and the packets the input path does not survive.
\<close>

section \<open>The way of a datagram\<close>

definition udp_frame :: "mac_addr \<Rightarrow> mac_addr \<Rightarrow> sockaddr_in \<Rightarrow> sockaddr_in \<Rightarrow> u8 list \<Rightarrow> u8 list" where
  "udp_frame dest_mac src_mac src dest data =
     eth_header dest_mac src_mac ETH_TYPE_IP @
     ip_header (28 + of_nat (length data)) 0 IP_PROTOCOL_UDP (sa_addr src) (sa_addr dest) @
     udp_header (sa_port src) (sa_port dest) (8 + of_nat (length data)) @ data"

lemma length_udp_frame [simp]: "length (udp_frame dm sm src dest data) = 42 + length data"
  by (simp add: udp_frame_def)

lemma sendto_at_once:
  fixes s :: "('d, 'a) nets_scheme"
  assumes r: "net_ready ARP_MUTEX a c x z s" and cs: "resumes cs" and lv: "leaves_net ARP_MUTEX a cs"
    and sk: "\<not> bad_socket sock x" "sk_type (n_sockets x (nat sock)) = SOCK_DGRAM"
    and arp: "arp_find (sa_addr dest) x = Some mac" and n: "length data \<le> 1458"
    and send: "net_driver_send (udp_frame mac (net_get_mac_addr x)
        \<lparr>sa_addr = net_get_ip_addr x, sa_port = sa_port (sk_local_addr (n_sockets x (nat sock)))\<rparr> dest data) x = (err, x')"
  obtains s' where "net_sendto cs sock data (Some dest) s = Some (if err = OS_OK then int (length data) else -1, s')"
    "net_ready ARP_MUTEX a c x' z s'"
proof -
  let ?n = "of_nat (length data) :: u16" and ?k = "n_sockets x (nat sock)"
  have x: "nt s = x" using r by (simp add: net_ready_def)
  have un: "unat ?n = length data" using n by (simp add: unat_of_nat_u16)
  have u8: "unat (of_nat (8 + length data) :: u16) = 8 + length data" using n by (simp add: unat_of_nat_u16 del: of_nat_add)
  have u28: "unat (20 + of_nat (8 + length data) :: u16) = 28 + length data"
    using unat_add_u16 [of 20 "of_nat (8 + length data)"] u8 n by simp
  have w: "20 + of_nat (8 + length data) = (28 + ?n :: u16)" "of_nat (8 + length data) = 8 + ?n" by simp_all
  let ?p = "udp_header (sa_port (sk_local_addr ?k)) (sa_port dest) (8 + ?n) @ data"
  let ?q = "ip_header (28 + ?n) 0 IP_PROTOCOL_UDP (net_get_ip_addr x) (sa_addr dest) @ ?p"
  obtain s1 now where s1: "arp_cache_lookup cs (sa_addr dest) s = Some (Some mac, s1)" "net_ready ARP_MUTEX a c x z s1"
    using nt_locked_at_once [OF r cs lv, of "\<lambda>_ x. (arp_find (sa_addr dest) x, x)"] arp by (auto simp: arp_cache_lookup_def)
  have x1: "nt s1 = x" using s1(2) by (simp add: net_ready_def)
  have "net_ethernet_send_ip cs (sa_addr dest) ?q (20 + of_nat (8 + length data)) s = Some (err, s1\<lparr>nt := x'\<rparr>)"
    using s1(1) u28 n send x1
    by (simp add: net_ethernet_send_ip_def NET_BUFFER_SIZE_def ETH_HEADER_SIZE_def avail_def udp_frame_def)
  then have "net_ip_send cs (sa_addr dest) 17 ?p (of_nat (8 + length data)) s = Some (err, s1\<lparr>nt := x'\<rparr>)"
    using u8 n x unfolding net_ip_send_def
    by (simp add: NET_BUFFER_SIZE_def IP_HEADER_SIZE_def avail_def IP_PROTOCOL_UDP_def)
  then have "net_sendto cs sock data (Some dest) s = Some (if err = OS_OK then int (length data) else -1, s1\<lparr>nt := x'\<rparr>)"
    using sk x un by (simp add: net_sendto_def UDP_HEADER_SIZE_def)
  moreover have "net_ready ARP_MUTEX a c x' z (s1\<lparr>nt := x'\<rparr>)" using s1(2) by (simp add: net_ready_def)
  ultimately show ?thesis by (rule that)
qed

text \<open>What the arrival of a datagram does to the stack.\<close>

definition delivered :: "nat \<Rightarrow> sockaddr_in \<Rightarrow> u8 list \<Rightarrow> 'd net \<Rightarrow> 'd net" where
  "delivered i src data x =
     upd_socket i (\<lambda>k. k\<lparr>sk_rx_buffer := splice 0 data (sk_rx_buffer k), sk_rx_length := of_nat (length data), sk_remote_addr := src\<rparr>) x"

lemma udp_input_at_once:
  fixes s :: "('d, 'a) nets_scheme"
  assumes r: "net_ready m (RX_SEM i) c x z s" and cs: "resumes cs" and lv: "leaves_net m (RX_SEM i) cs"
    and f: "find (udp_match dp x) [0..<NET_MAX_SOCKETS] = Some i" and n: "length data \<le> RX_BUFFER_SIZE" and len: "8 \<le> unat len"
  obtains s' where "net_udp_input cs (udp_header sp dp (8 + of_nat (length data)) @ data @ rest) len ip s = Some s'"
    "net_ready m (RX_SEM i) c (delivered i \<lparr>sa_addr = ip, sa_port = sp\<rparr> data x) (z\<lparr>sem_count := sem_count z + 1\<rparr>) s'"
proof -
  let ?n = "of_nat (length data) :: u16" and ?x = "delivered i \<lparr>sa_addr = ip, sa_port = sp\<rparr> data x"
  have un: "unat ?n = length data" using n by (simp add: unat_of_nat_u16 RX_BUFFER_SIZE_def)
  have pl: "udp_payload_len (udp_header sp dp (8 + ?n) @ data @ rest) = ?n"
    using n un by (simp add: udp_payload_len_def udp_fields UDP_HEADER_SIZE_def)
  have x: "nt s = x" using r by (simp add: net_ready_def)
  have "net_ready m (RX_SEM i) c ?x z (upd_nt (\<lambda>_. ?x) s)" using r by (simp add: net_ready_def)
  then obtain s' where s': "os_semaphore_post cs (Some (RX_SEM i)) (upd_nt (\<lambda>_. ?x) s) = Some (OS_OK, s')"
      "net_ready m (RX_SEM i) c ?x (z\<lparr>sem_count := sem_count z + 1\<rparr>) s'"
    by (rule post_at_once [OF _ cs lv])
  have "upd_nt (upd_socket i (\<lambda>k. k\<lparr>sk_rx_buffer := splice 0 data (sk_rx_buffer k), sk_rx_length := ?n,
      sk_remote_addr := \<lparr>sa_addr = ip, sa_port = sp\<rparr>\<rparr>)) s = upd_nt (\<lambda>_. ?x) s"
    using x by (simp add: upd_nt_def delivered_def)
  then have "net_udp_input cs (udp_header sp dp (8 + ?n) @ data @ rest) len ip s = Some s'"
    using f x len un s'(1) by (simp add: net_udp_input_def udp_fields pl avail_def UDP_HEADER_SIZE_def)
  then show ?thesis using s'(2) by (rule that)
qed

lemma frame_input_at_once:
  fixes s :: "('d, 'a) nets_scheme"
  assumes r: "net_ready m (RX_SEM i) c x z s" and cs: "resumes cs" and lv: "leaves_net m (RX_SEM i) cs"
    and f: "find (udp_match (sa_port dest) x) [0..<NET_MAX_SOCKETS] = Some i" and n: "length data \<le> RX_BUFFER_SIZE"
    and for_us: "net_get_mac_addr x = mac" "net_get_ip_addr x = sa_addr dest"
  obtains s' where "net_ethernet_input cs (udp_frame mac sm src dest data @ rest) (of_nat (42 + length data)) s = Some s'"
    "net_ready m (RX_SEM i) c (delivered i src data x) (z\<lparr>sem_count := sem_count z + 1\<rparr>) s'"
proof -
  let ?n = "of_nat (length data) :: u16"
  let ?u = "udp_header (sa_port src) (sa_port dest) (8 + ?n) @ data @ rest"
  let ?i = "ip_header (28 + ?n) 0 IP_PROTOCOL_UDP (sa_addr src) (sa_addr dest) @ ?u"
  have x: "nt s = x" using r by (simp add: net_ready_def)
  have n1: "length data \<le> 1024" using n by (simp add: RX_BUFFER_SIZE_def)
  have un: "unat ?n = length data" using n1 by (simp add: unat_of_nat_u16)
  have u28: "unat (28 + ?n) = 28 + length data" using unat_add_u16 [of 28 ?n] un n1 by simp
  have u42: "unat (42 + ?n) = 42 + length data" using unat_add_u16 [of 42 ?n] un n1 by simp
  have u8: "unat (8 + ?n) = 8 + length data" using unat_add_u16 [of 8 ?n] un n1 by simp
  obtain s' where s': "net_udp_input cs ?u (8 + ?n) (sa_addr src) s = Some s'"
      "net_ready m (RX_SEM i) c (delivered i \<lparr>sa_addr = sa_addr src, sa_port = sa_port src\<rparr> data x) (z\<lparr>sem_count := sem_count z + 1\<rparr>) s'"
    by (rule udp_input_at_once [OF r cs lv f n, of "8 + ?n"]) (use u8 in simp_all)
  have ihl: "(0x45 AND 0x0F) * 4 = (20 :: u8)" "drop_bit 4 0x45 = (4 :: u8)" "unat (20 :: u8) = 20" "ucast (20 :: u8) = (20 :: u16)"
    by (simp_all add: drop_bit_eq_div) 
  have w: "28 + ?n - 20 = 8 + ?n" by simp
  have ip: "net_ip_input cs ?i (28 + ?n) s = Some s'"
    using s'(1) x for_us(2) u28 ihl
    by (simp add: net_ip_input_def avail_def IP_HEADER_SIZE_def ip_fields [simplified] IP_PROTOCOL_UDP_def IP_PROTOCOL_ICMP_def)
  have "of_nat (42 + length data) - of_nat ETH_HEADER_SIZE = 28 + ?n" by (simp add: ETH_HEADER_SIZE_def)
  then have "net_ethernet_input cs (udp_frame mac sm src dest data @ rest) (of_nat (42 + length data)) s = Some s'"
    using ip x for_us(1) u42
    by (simp add: net_ethernet_input_def udp_frame_def eth_fields avail_def ETH_HEADER_SIZE_def)
  then show ?thesis using s'(2) by (cases src) (simp add: that)
qed

text \<open>The loopback driver hands the oldest frame to the network task.\<close>

lemma loopback_frame:
  assumes ok: "lb_ok d" and empty: "lb_items d = []" and f: "length f \<le> NET_BUFFER_SIZE" "f \<noteq> []"
  shows "loopback_send f d = (OS_OK, lb_put f d)" and "fst (loopback_send f d) = OS_OK"
    and "fst (loopback_receive buf (of_nat NET_BUFFER_SIZE) (lb_put f d)) = (of_nat (length f), f @ drop (length f) buf)"
    and "lb_ok (snd (loopback_receive buf (of_nat NET_BUFFER_SIZE) (lb_put f d)))"
    and "lb_items (snd (loopback_receive buf (of_nat NET_BUFFER_SIZE) (lb_put f d))) = []"
proof -
  let ?d = "lb_put f d" and ?r = "loopback_receive buf (of_nat NET_BUFFER_SIZE) (lb_put f d)"
  have room: "\<not> lb_full d" using lbq.full_law [OF ok] empty by simp
  show s: "fst (loopback_send f d) = OS_OK" using room f by (simp add: loopback_send_def lb_full_def Let_def)
  then show "loopback_send f d = (OS_OK, lb_put f d)" by (simp add: lb_put_def prod_eq_iff)
  note p = lb_put_law [OF ok f(1) room]
  have some: "\<not> lb_empty ?d" using lbq.empty_law [OF p(1)] p(2) by simp
  have snd: "snd (lb_get buf ?d) = snd ?r" by (simp add: lb_get_def Let_def case_prod_beta)
  show "lb_ok (snd ?r)" "lb_items (snd ?r) = []"
    using lb_get_law(2,3) [OF p(1) some, of buf] p(2) empty by (simp_all add: snd)
  let ?p = "lb_queue ?d (lb_head ?d)"
  have q: "lb_head ?d = lb_head d" "lb_tail d = lb_head d"
    using lb_tail_count(4) [OF ok] empty by (simp_all add: lb_put_facts [OF f(1) room] upd_packet_def lb_items_def)
  have un: "unat (of_nat (length f) :: u16) = length f" using f(1) by (simp add: unat_of_nat_u16 NET_BUFFER_SIZE_def)
  have p1: "pk_length ?p = of_nat (length f)" "take (length f) (pk_data ?p) = f"
    unfolding q(1) by (simp_all add: lb_put_facts [OF f(1) room] upd_packet_def q splice_def)
  have uc: "ucast (of_nat (length f) :: u16) = (of_nat (length f) :: u32)"
    using f(1) by (simp add: unsigned_of_nat take_bit_nat_eq_self NET_BUFFER_SIZE_def)
  have "\<not> of_nat NET_BUFFER_SIZE < pk_length ?p" using f(1) un by (simp add: p1 NET_BUFFER_SIZE_def word_less_nat_alt)
  moreover have "min (length (pk_data ?p)) (length f) = length f" using arg_cong [OF p1(2), of length] by simp
  ultimately show "fst ?r = (of_nat (length f), f @ drop (length f) buf)"
    using some p1 un uc by (simp add: loopback_receive_def lb_empty_def Let_def splice_def)
qed

lemma recvfrom_at_once:
  fixes s :: "('d, 'a) nets_scheme"
  assumes r: "net_ready m (RX_SEM (nat sock)) c x z s" and z: "0 < sint (sem_count z)"
    and sk: "\<not> bad_socket sock x" "sk_type (n_sockets x (nat sock)) = SOCK_DGRAM"
    and buf: "sk_rx_buffer (n_sockets x (nat sock)) = data @ rest" "sk_rx_length (n_sockets x (nat sock)) = of_nat (length data)"
    and n: "length data \<le> unat maxlen"
  obtains s' where "net_recvfrom cs sock maxlen True s =
    Some ((int (length data), data, Some (sk_remote_addr (n_sockets x (nat sock)))), s')"
proof -
  obtain s1 where s1: "os_semaphore_wait cs (Some (RX_SEM (nat sock))) 5000 s = Some (OS_OK, s1)" "nt s1 = x"
    by (rule wait_at_once [OF r z]) (rule that, auto simp: net_ready_def)
  have un: "unat (of_nat (length data) :: u16) = length data" using n unat_u16_less [of maxlen] by (simp add: unat_of_nat_u16 del: unat_u16_less)
  have x: "nt s = x" using r by (simp add: net_ready_def)
  have le: "\<not> maxlen < of_nat (length data)" using n un by (simp add: word_less_nat_alt)
  have ui: "uint (of_nat (length data) :: u16) = int (length data)" using arg_cong [OF un, of int] by simp
  show ?thesis
    by (rule that) (use s1 sk x buf un ui le in \<open>simp add: net_recvfrom_def avail_def\<close>)
qed

text \<open>
  Between the steps of a run another task may get the CPU; it finds the stack, its lock and
  the semaphore as they were left.
\<close>

definition handed_over :: "mutex_loc \<Rightarrow> addr \<Rightarrow> addr \<Rightarrow> ('d, 'a) nets_scheme \<Rightarrow> ('d, 'a) nets_scheme \<Rightarrow> bool" where
  "handed_over m a c s t \<longleftrightarrow> on_cpu c t \<and> nt t = nt s \<and> mutex_at m t = mutex_at m s \<and> sy_sem t a = sy_sem s a"

lemma handed_over_ready: "net_ready m a c x z s \<Longrightarrow> handed_over m a c' s t \<Longrightarrow> net_ready m a c' x z t"
  by (simp add: net_ready_def handed_over_def)

text \<open>C4. A datagram of up to 1024 bytes sent to a socket of the same machine over the loopback
  driver arrives as it was sent: \<^verbatim>\<open>net_sendto\<close> reports all bytes, one round of the network task
  delivers the frame, and \<^verbatim>\<open>net_recvfrom\<close> returns exactly the bytes with the address of the sender,
  also when sender, network task and receiver are different tasks.\<close>

theorem udp_loopback:
  fixes s :: "(loopback, 'a) nets_scheme"
  assumes on: "on_cpu c s" and cs: "resumes cs" and lv: "leaves_net ARP_MUTEX (RX_SEM (nat rcv)) cs"
    and free: "\<not> m_locked (mutex_at ARP_MUTEX s)" and sem: "sem_count (sy_sem s (RX_SEM (nat rcv))) = 0"
    and drv: "n_driver (nt s) = Some loopback_driver" "lb_ok (n_dev (nt s))" "lb_items (n_dev (nt s)) = []"
    and arp: "arp_find (net_get_ip_addr (nt s)) (nt s) = Some loopback_mac"
    and tx: "\<not> bad_socket tx (nt s)" "sk_type (n_sockets (nt s) (nat tx)) = SOCK_DGRAM"
    and rcv: "\<not> bad_socket rcv (nt s)" "find (udp_match port (nt s)) [0..<NET_MAX_SOCKETS] = Some (nat rcv)"
    and n: "length data \<le> RX_BUFFER_SIZE" "length data \<le> unat maxlen"
  shows "\<exists>s1. net_sendto cs tx data (Some \<lparr>sa_addr = net_get_ip_addr (nt s), sa_port = port\<rparr>) s = Some (int (length data), s1) \<and>
    (\<forall>c1 t1 rx. handed_over ARP_MUTEX (RX_SEM (nat rcv)) c1 s1 t1 \<longrightarrow>
      (\<exists>rx' s2. network_receive cs rx t1 = Some (rx', s2) \<and>
        (\<forall>c2 t2. handed_over ARP_MUTEX (RX_SEM (nat rcv)) c2 s2 t2 \<longrightarrow>
          (\<exists>s3. net_recvfrom cs rcv maxlen True t2 = Some ((int (length data), data,
             Some \<lparr>sa_addr = net_get_ip_addr (nt s), sa_port = sa_port (sk_local_addr (n_sockets (nt s) (nat tx)))\<rparr>), s3)))))"
proof -
  let ?a = "RX_SEM (nat rcv)" and ?x = "nt s" and ?ip = "net_get_ip_addr (nt s)" and ?i = "nat rcv"
  let ?src = "\<lparr>sa_addr = ?ip, sa_port = sa_port (sk_local_addr (n_sockets ?x (nat tx)))\<rparr>" and ?dest = "\<lparr>sa_addr = ?ip, sa_port = port\<rparr>"
  let ?f = "udp_frame loopback_mac loopback_mac ?src ?dest data"
  have mac: "net_get_mac_addr x = loopback_mac" if "n_driver x = Some loopback_driver" for x :: "loopback net"
    using that by (simp add: net_get_mac_addr_def loopback_driver_def loopback_get_mac_def)
  have n1: "length data \<le> 1024" using n by (simp add: RX_BUFFER_SIZE_def)
  have f: "length ?f \<le> NET_BUFFER_SIZE" "?f \<noteq> []" using n1 by (simp_all add: NET_BUFFER_SIZE_def flip: length_greater_0_conv)
  note lb = loopback_frame [OF drv(2,3) f]
  obtain st where snd1: "net_driver_send ?f ?x = (OS_OK, ?x\<lparr>n_dev := lb_put ?f (n_dev ?x), n_stats := st\<rparr>)"
    using lb(1) drv(1) by (simp add: net_driver_send_def loopback_driver_def)
  define x1 where "x1 = ?x\<lparr>n_dev := lb_put ?f (n_dev ?x), n_stats := st\<rparr>"
  have r: "net_ready ARP_MUTEX ?a c ?x (sy_sem s ?a) s" using on free by (simp add: net_ready_def)
  obtain s1 where s1: "net_sendto cs tx data (Some ?dest) s = Some (int (length data), s1)" "net_ready ARP_MUTEX ?a c x1 (sy_sem s ?a) s1"
    by (rule sendto_at_once [OF r cs lv tx, of ?dest loopback_mac data OS_OK x1])
       (use arp n1 snd1 mac [OF drv(1)] in \<open>simp_all add: x1_def\<close>)
  have recv: "\<exists>rx' s2 x2. network_receive cs rx t1 = Some (rx', s2) \<and> n_sockets x2 = n_sockets (delivered ?i ?src data x1) \<and>
      net_ready ARP_MUTEX ?a c1 x2 ((sy_sem s ?a)\<lparr>sem_count := 1\<rparr>) s2"
    if t1: "handed_over ARP_MUTEX ?a c1 s1 t1" for c1 t1 rx
  proof -
    define x1' where "x1' = x1\<lparr>n_dev := snd (loopback_receive rx (of_nat NET_BUFFER_SIZE) (n_dev x1))\<rparr>"
    have rt: "net_ready ARP_MUTEX ?a c1 x1 (sy_sem s ?a) t1" by (rule handed_over_ready [OF s1(2) t1])
    then have t1x: "nt t1 = x1" by (simp add: net_ready_def)
    let ?t = "upd_nt (\<lambda>x. x\<lparr>n_dev := snd (loopback_receive rx (of_nat NET_BUFFER_SIZE) (n_dev x1))\<rparr>) t1"
    have rt': "net_ready ARP_MUTEX ?a c1 x1' (sy_sem s ?a) ?t" using rt by (simp add: net_ready_def x1'_def)
    have x1': "n_driver x1' = Some loopback_driver" "n_sockets x1' = n_sockets ?x" "net_get_ip_addr x1' = ?ip"
      using drv(1) by (simp_all add: x1'_def x1_def net_get_ip_addr_def)
    have fd: "find (udp_match (sa_port ?dest) x1') [0..<NET_MAX_SOCKETS] = Some ?i"
      using rcv(2) by (simp add: udp_match_def [abs_def] x1')
    obtain s2 where s2: "net_ethernet_input cs (?f @ drop (42 + length data) rx) (of_nat (42 + length data)) ?t = Some s2"
        "net_ready ARP_MUTEX ?a c1 (delivered ?i ?src data x1') ((sy_sem s ?a)\<lparr>sem_count := sem_count (sy_sem s ?a) + 1\<rparr>) s2"
      by (rule frame_input_at_once [OF rt' cs lv fd n(1) mac [OF x1'(1)]]) (simp_all add: x1')
    have un: "unat (of_nat (42 + length data) :: u32) = 42 + length data"
      "ucast (of_nat (42 + length data) :: u32) = (of_nat (42 + length data) :: u16)"
      using n1 by (simp_all add: unsigned_of_nat take_bit_nat_eq_self del: of_nat_add)
    have pos: "0 <s (of_nat (42 + length data) :: u32)"
      using un(1) n1 by (simp add: word_sless_alt sint_u32 del: of_nat_add)
    obtain d where rx: "loopback_receive rx (of_nat NET_BUFFER_SIZE) (n_dev x1) = ((of_nat (42 + length data), ?f @ drop (42 + length data) rx), d)"
      using lb(3) [of rx] by (cases "loopback_receive rx (of_nat NET_BUFFER_SIZE) (n_dev x1)") (simp add: x1_def)
    have "network_receive cs rx t1 = Some (?f @ drop (42 + length data) rx,
        upd_nt (\<lambda>x. x\<lparr>n_stats := (n_stats x)\<lparr>eth_rx_packets := eth_rx_packets (n_stats x) + 1\<rparr>\<rparr>) s2)"
      using s2(1) un(2) pos rx x1'(1) t1x by (simp add: network_receive_def loopback_driver_def x1'_def del: of_nat_add)
    moreover have "n_sockets (delivered ?i ?src data x1') = n_sockets (delivered ?i ?src data x1)"
      by (simp add: delivered_def upd_socket_def x1'_def)
    ultimately show ?thesis using s2(2) sem by (fastforce simp: net_ready_def)
  qed
  have get: "\<exists>s3. net_recvfrom cs rcv maxlen True t2 = Some ((int (length data), data, Some ?src), s3)"
    if s2: "n_sockets x2 = n_sockets (delivered ?i ?src data x1)" "net_ready ARP_MUTEX ?a c1 x2 ((sy_sem s ?a)\<lparr>sem_count := 1\<rparr>) s2"
      and t2: "handed_over ARP_MUTEX ?a c2 s2 t2" for x2 c1 s2 c2 t2
  proof -
    let ?k = "n_sockets ?x ?i"
    have k: "n_sockets x2 ?i = ?k\<lparr>sk_rx_buffer := splice 0 data (sk_rx_buffer ?k), sk_rx_length := of_nat (length data), sk_remote_addr := ?src\<rparr>"
      by (simp add: s2(1) delivered_def upd_socket_def x1_def)
    have ty: "sk_type ?k = SOCK_DGRAM" "\<not> bad_socket rcv x2"
      using rcv k by (auto simp: find_Some_iff udp_match_def bad_socket_def)
    show ?thesis
      by (rule recvfrom_at_once [OF handed_over_ready [OF s2(2) t2], of data "drop (length data) (sk_rx_buffer ?k)" maxlen])
         (use ty n k in \<open>auto simp: sint_u32 splice_def\<close>)
  qed
  show ?thesis
  proof (intro exI [of _ s1] conjI allI impI, rule s1(1))
    fix c1 t1 rx assume t1: "handed_over ARP_MUTEX ?a c1 s1 t1"
    obtain rx' s2 x2 where s2: "network_receive cs rx t1 = Some (rx', s2)" "n_sockets x2 = n_sockets (delivered ?i ?src data x1)"
        "net_ready ARP_MUTEX ?a c1 x2 ((sy_sem s ?a)\<lparr>sem_count := 1\<rparr>) s2"
      using recv [OF t1, of rx] by blast
    show "\<exists>rx' s2. network_receive cs rx t1 = Some (rx', s2) \<and> (\<forall>c2 t2. handed_over ARP_MUTEX ?a c2 s2 t2 \<longrightarrow>
        (\<exists>s3. net_recvfrom cs rcv maxlen True t2 = Some ((int (length data), data, Some ?src), s3)))"
      using s2(1) get [OF s2(2,3)] by blast
  qed
qed

section \<open>Trusted lengths\<close>

text \<open>The length field of a datagram is not compared with the length that arrived: when it
  claims more bytes than the packet has, the bytes that follow in the receive buffer, left there
  by earlier frames, are delivered to the socket as part of the datagram.\<close>

theorem udp_stale_bytes:
  fixes s :: "('d, 'a) nets_scheme"
  assumes on: "on_cpu c s" and cs: "resumes cs" and lv: "leaves_net ARP_MUTEX (RX_SEM i) cs"
    and free: "\<not> m_locked (mutex_at ARP_MUTEX s)" and f: "find (udp_match dp (nt s)) [0..<NET_MAX_SOCKETS] = Some i"
    and n: "length (data @ stale) \<le> RX_BUFFER_SIZE"
  shows "\<exists>s'. net_udp_input cs (udp_header sp dp (8 + of_nat (length (data @ stale))) @ data @ stale @ rest)
      (of_nat (8 + length data)) ip s = Some s' \<and>
    nt s' = delivered i \<lparr>sa_addr = ip, sa_port = sp\<rparr> (data @ stale) (nt s)"
proof -
  have r: "net_ready ARP_MUTEX (RX_SEM i) c (nt s) (sy_sem s (RX_SEM i)) s" using on free by (simp add: net_ready_def)
  have l: "8 \<le> unat (of_nat (8 + length data) :: u16)" using n by (simp add: unat_of_nat_u16 RX_BUFFER_SIZE_def del: of_nat_add)
  obtain s' where s': "net_udp_input cs (udp_header sp dp (8 + of_nat (length (data @ stale))) @ (data @ stale) @ rest)
      (of_nat (8 + length data)) ip s = Some s'"
      "net_ready ARP_MUTEX (RX_SEM i) c (delivered i \<lparr>sa_addr = ip, sa_port = sp\<rparr> (data @ stale) (nt s))
         ((sy_sem s (RX_SEM i))\<lparr>sem_count := sem_count (sy_sem s (RX_SEM i)) + 1\<rparr>) s'"
    by (rule udp_input_at_once [OF r cs lv f n l])
  then show ?thesis by (intro exI [of _ s']) (simp add: net_ready_def del: of_nat_add length_append)
qed

text \<open>C33. A packet whose total length is less than its header is not refused: the length of the
  payload wraps around to more than 65,000 bytes, and answering the echo request in it reads
  far beyond the receive buffer.\<close>

theorem ip_short_total_overreads:
  assumes "unat tot_len < 20" and "net_get_ip_addr (nt s) = dest" and "20 \<le> unat len"
    and "8 \<le> length m" and "m ! 0 = ICMP_TYPE_ECHO_REQUEST" and "length m \<le> NET_BUFFER_SIZE"
  shows "net_ip_input cs (ip_header tot_len ident IP_PROTOCOL_ICMP src dest @ m) len s = None"
proof -
  have ihl: "(0x45 AND 0x0F) * 4 = (20 :: u8)" "drop_bit 4 0x45 = (4 :: u8)" "unat (20 :: u8) = 20" "ucast (20 :: u8) = (20 :: u16)"
    by (simp_all add: drop_bit_eq_div)
  have w: "65516 \<le> unat (tot_len - 20)" using assms(1) by (simp add: unat_sub_if')
  have "icmp_input cs m (tot_len - 20) src s = None"
    using w assms(4-6) by (simp add: icmp_input_def icmp_echo_def avail_def ICMP_HEADER_SIZE_def NET_BUFFER_SIZE_def)
  moreover have "\<not> len < tot_len" using assms(1,3) by (simp add: word_less_nat_alt)
  ultimately show ?thesis
    using assms(2,3) ihl by (simp add: net_ip_input_def avail_def IP_HEADER_SIZE_def ip_fields [simplified])
qed

section \<open>Address resolution\<close>

lemma arp_oldest_empty:
  "(\<And>k. k < j \<Longrightarrow> arp_valid (c (n + k))) \<Longrightarrow> \<not> arp_valid (c (n + j)) \<Longrightarrow> n + j < m \<Longrightarrow> arp_oldest c [n..<m] o1 t = n + j"
proof (induction j arbitrary: n o1 t)
  case 0
  then show ?case by (simp add: upt_rec)
next
  case (Suc j)
  have "arp_valid (c n)" using Suc.prems(1) [of 0] by simp
  moreover have "arp_oldest c [Suc n..<m] o2 t2 = Suc n + j" for o2 t2
    using Suc.IH [of "Suc n"] Suc.prems(1) [of "Suc _"] Suc.prems(2,3) by simp
  ultimately show ?case using Suc.prems(3) by (simp add: upt_rec [of n m])
qed

text \<open>What the cache knows it keeps: a host that announces a new hardware address is entered
  in the next free slot, behind the old entry, and lookups go on to return the old address.\<close>

theorem arp_update_ignored:
  assumes "\<And>k. k < j \<Longrightarrow> arp_valid (n_arp_cache x k)" and "\<not> arp_valid (n_arp_cache x j)" and "j < ARP_CACHE_SIZE"
    and "i < j" and "arp_ip (n_arp_cache x i) = ip" and "\<And>k. k < i \<Longrightarrow> arp_ip (n_arp_cache x k) \<noteq> ip"
  shows "arp_find ip x = Some (arp_mac (n_arp_cache x i)) \<and> arp_find ip (arp_store ip mac now x) = arp_find ip x"
proof -
  let ?c = "n_arp_cache x" and ?P = "\<lambda>c i. arp_valid (c i) \<and> net_ipv4_equal (arp_ip (c i)) ip"
  have slot: "arp_oldest ?c [0..<ARP_CACHE_SIZE] 0 (arp_timestamp (?c 0)) = j"
    using arp_oldest_empty [of j ?c 0 ARP_CACHE_SIZE] assms(1-3) by simp
  have first: "find (?P c) [0..<ARP_CACHE_SIZE] = Some i" if "\<And>k. k < j \<Longrightarrow> c k = ?c k" for c
    unfolding find_Some_iff using that assms by (intro exI [of _ i]) auto
  have "find (?P (?c(j := e))) [0..<ARP_CACHE_SIZE] = Some i" for e by (rule first) simp
  then show ?thesis using first [of ?c] assms(4) by (simp add: arp_find_def arp_store_def slot Let_def)
qed

section \<open>The loopback driver\<close>

text \<open>C32. The loopback driver is a queue of three frames: whatever calls of \<^verbatim>\<open>loopback_send\<close> and
  \<^verbatim>\<open>loopback_receive\<close> are made, each returns what a list of at most three frames gives. A frame of more
  than 1500 bytes is an invalid parameter, a fourth frame is refused for lack of room; receiving returns
  the oldest frame, cut to the length of the buffer, or 0 if there is none and leaves the buffer alone.\<close>

theorem loopback_is_queue:
  assumes "lb_ok d"
  shows "fst (lb_run cs d) = fst (frames_run cs (lb_items d)) \<and> lb_items (snd (lb_run cs d)) = snd (frames_run cs (lb_items d))"
  using lb_run_frames [OF assms] by blast

section \<open>A machine with a loopback driver\<close>

definition demo_loopback :: loopback where
  "demo_loopback = \<lparr>lb_queue = (\<lambda>_. \<lparr>pk_data = replicate NET_BUFFER_SIZE 0, pk_length = 0, pk_valid = False\<rparr>), lb_head = 0, lb_tail = 0\<rparr>"

definition demo_ip :: ipv4_addr where "demo_ip = IPV4 127 0 0 1"

definition demo_socket :: "u16 \<Rightarrow> socket" where
  "demo_socket port = \<lparr>sk_type = SOCK_DGRAM, sk_in_use = True, sk_local_addr = \<lparr>sa_addr = demo_ip, sa_port = port\<rparr>,
     sk_remote_addr = \<lparr>sa_addr = demo_ip, sa_port = 0\<rparr>, sk_state = TCP_CLOSED, sk_rx_buffer = replicate RX_BUFFER_SIZE 0,
     sk_rx_length = 0, sk_seq_num = 0, sk_ack_num = 0\<rparr>"

text \<open>Socket \<open>i\<close> is bound to port \<open>7 + i\<close>; the machine knows its own address.\<close>

definition demo_net :: "loopback net" where
  "demo_net = \<lparr>n_buffers = (\<lambda>_. \<lparr>nb_data = [], nb_length = 0, nb_offset = 0, nb_next = None, nb_in_use = False\<rparr>),
     n_buffer_free_list = None, n_driver = Some loopback_driver,
     n_config = \<lparr>cfg_mac = loopback_mac, cfg_ip = demo_ip, cfg_netmask = IPV4 255 0 0 0, cfg_gateway = demo_ip, cfg_dns = demo_ip\<rparr>,
     n_stats = zero_stats,
     n_arp_cache = (\<lambda>i. \<lparr>arp_ip = demo_ip, arp_mac = loopback_mac, arp_timestamp = 0, arp_valid = (i = 0)\<rparr>),
     n_ping_id = 0, n_ping_sequence = 0, n_ping_reply_received = False, n_ping_reply_time = 0,
     n_sockets = (\<lambda>i. demo_socket (7 + of_nat i)), n_next_ephemeral_port = 49152,
     n_dev = demo_loopback, n_junk_mac = loopback_mac\<rparr>"

definition demo_heap :: "unit memory_ext" where
  "demo_heap = memory.fields 0 (\<lambda>_. \<lparr>mb_next = None, mb_allocated = False, mb_size = 0\<rparr>) None 0 0 0 0"

definition demo_nets :: "loopback nets" where
  "demo_nets = (sync.extend demo_sync (nets.fields demo_net demo_heap))\<lparr>sy_sem := (\<lambda>_. \<lparr>sem_count = 0, sem_wait_queue = None\<rparr>)\<rparr>"

lemma demo_nets_views:
  "nt demo_nets = demo_net" "\<not> m_locked (mutex_at (MutexVar a) demo_nets)" "sem_count (sy_sem demo_nets a) = 0" "on_cpu 3 demo_nets"
proof -
  show "nt demo_nets = demo_net" "sem_count (sy_sem demo_nets a) = 0" by (simp_all add: demo_nets_def sync.defs nets.defs)
  have "sy_mutex demo_nets = sy_mutex demo_sync" by (simp add: demo_nets_def sync.defs nets.defs)
  then show "\<not> m_locked (mutex_at (MutexVar a) demo_nets)" by (simp add: free_mutex_def)
  have "on_cpu 3 demo_nets \<longleftrightarrow> on_cpu 3 demo_sync"
    by (rule on_cpu_kernel [of demo_nets demo_sync]) (simp_all add: demo_nets_def sync.defs nets.defs sched_rel_def nexts_def [abs_def])
  then show "on_cpu 3 demo_nets" using demo_sync_on_cpu by simp
qed

lemma cs_back_leaves_net: "leaves_net (MutexVar a) b (cs_back :: ('d, 'a) nswitch)"
  by (simp add: leaves_net_def cs_back_def)

lemma demo_loopback_ok: "lb_ok demo_loopback" "lb_items demo_loopback = []"
  by (simp_all add: lb_ok_def lb_items_def lb_count_def demo_loopback_def QUEUE_SIZE_def)

lemma demo_net_sockets:
  "n_driver demo_net = Some loopback_driver" "n_dev demo_net = demo_loopback" "net_get_ip_addr demo_net = demo_ip"
  "arp_find demo_ip demo_net = Some loopback_mac" "0 \<le> i \<Longrightarrow> i < 8 \<Longrightarrow> \<not> bad_socket i demo_net" "n_sockets demo_net 0 = demo_socket 7"
  "sk_type (n_sockets demo_net j) = SOCK_DGRAM" "find (udp_match 9 demo_net) [0..<NET_MAX_SOCKETS] = Some 2"
proof -
  have u: "[0..<8] = [0, 1, 2, 3, 4, 5, 6, 7 :: nat]" by code_simp
  show "arp_find demo_ip demo_net = Some loopback_mac" by (simp add: arp_find_def ARP_CACHE_SIZE_def u demo_net_def)
  show "find (udp_match 9 demo_net) [0..<NET_MAX_SOCKETS] = Some 2"
    by (simp add: NET_MAX_SOCKETS_def u udp_match_def demo_net_def demo_socket_def)
qed (simp_all add: demo_net_def demo_socket_def net_get_ip_addr_def bad_socket_def NET_MAX_SOCKETS_def)

theorem udp_loopback_witness:
  "\<exists>s1. net_sendto cs_back 0 [72, 105] (Some \<lparr>sa_addr = demo_ip, sa_port = 9\<rparr>) demo_nets = Some (2, s1) \<and>
    (\<forall>c1 t1 rx. handed_over ARP_MUTEX (RX_SEM 2) c1 s1 t1 \<longrightarrow>
      (\<exists>rx' s2. network_receive cs_back rx t1 = Some (rx', s2) \<and>
        (\<forall>c2 t2. handed_over ARP_MUTEX (RX_SEM 2) c2 s2 t2 \<longrightarrow>
          (\<exists>s3. net_recvfrom cs_back 2 100 True t2 = Some ((2, [72, 105], Some \<lparr>sa_addr = demo_ip, sa_port = 7\<rparr>), s3)))))"
proof -
  have lv: "leaves_net ARP_MUTEX (RX_SEM (nat 2)) (cs_back :: (loopback, unit) nswitch)"
    unfolding ARP_MUTEX_def by (rule cs_back_leaves_net)
  have free: "\<not> m_locked (mutex_at ARP_MUTEX demo_nets)" unfolding ARP_MUTEX_def by (rule demo_nets_views(2))
  show ?thesis
    using udp_loopback [where data = "[72, 105]" and maxlen = 100 and port = 9 and tx = 0, OF demo_nets_views(4) cs_back_resumes lv free demo_nets_views(3)]
    by (simp add: demo_nets_views demo_net_sockets demo_loopback_ok RX_BUFFER_SIZE_def demo_socket_def)
qed

theorem udp_stale_bytes_witness:
  "\<exists>s'. net_udp_input cs_back (udp_header 7 9 11 @ [1] @ [66, 67] @ []) (of_nat (8 + length [1 :: u8])) demo_ip demo_nets = Some s' \<and>
    nt s' = delivered 2 \<lparr>sa_addr = demo_ip, sa_port = 7\<rparr> [1, 66, 67] demo_net"
proof -
  have lv: "leaves_net ARP_MUTEX (RX_SEM 2) (cs_back :: (loopback, unit) nswitch)"
    unfolding ARP_MUTEX_def by (rule cs_back_leaves_net)
  have free: "\<not> m_locked (mutex_at ARP_MUTEX demo_nets)" unfolding ARP_MUTEX_def by (rule demo_nets_views(2))
  show ?thesis
    using udp_stale_bytes [where data = "[1]" and stale = "[66, 67]" and rest = "[]" and sp = 7 and dp = 9 and ip = demo_ip,
        OF demo_nets_views(4) cs_back_resumes lv free]
    by (simp add: demo_nets_views demo_net_sockets RX_BUFFER_SIZE_def)
qed

theorem ip_short_total_overreads_witness:
  "net_ip_input cs_back (ip_header 19 0 IP_PROTOCOL_ICMP (IPV4 10 0 0 1) demo_ip @ [8, 0, 0, 0, 0, 0, 0, 0]) 28 demo_nets = None"
  by (rule ip_short_total_overreads) (simp_all add: demo_nets_views demo_net_sockets ICMP_TYPE_ECHO_REQUEST_def NET_BUFFER_SIZE_def)

theorem arp_update_ignored_witness:
  "arp_find demo_ip (arp_store demo_ip (MAC 2 0 0 0 0 9) 5 demo_net) = Some loopback_mac"
  using arp_update_ignored [of 1 demo_net 0 demo_ip "MAC 2 0 0 0 0 9" 5] by (simp add: demo_net_def ARP_CACHE_SIZE_def)

theorem loopback_is_queue_witness:
  "fst (lb_run [LbReceive [9] 1, LbSend [1], LbSend [2, 3], LbSend [4], LbSend [5], LbReceive [9, 9] 2, LbReceive [9, 9] 1] demo_loopback) =
    [LbReceived 0 [9], LbSent OS_OK, LbSent OS_OK, LbSent OS_OK, LbSent OS_ERROR_NO_RESOURCE, LbReceived 1 [1, 9], LbReceived 1 [2, 9]]"
proof -
  let ?cs = "[LbReceive [9] 1, LbSend [1], LbSend [2, 3], LbSend [4], LbSend [5], LbReceive [9, 9] 2, LbReceive [9, 9] 1]"
  have "fst (lb_run ?cs demo_loopback) = fst (frames_run ?cs [])"
    using loopback_is_queue [OF demo_loopback_ok(1), of ?cs] unfolding demo_loopback_ok(2) by blast
  also have "\<dots> = [LbReceived 0 [9], LbSent OS_OK, LbSent OS_OK, LbSent OS_OK, LbSent OS_ERROR_NO_RESOURCE,
      LbReceived 1 [1, 9], LbReceived 1 [2, 9]]" by simp
  finally show ?thesis .
qed

end
