(* ===== verification/Net_Checksum.thy ===== *)
theory Net_Checksum
  imports Net_Lemmas
begin

text \<open>
  The checksum of the network stack is the one's complement sum of 16-bit words: the sum of
  \<^verbatim>\<open>net_checksum\<close> modulo 65535, and the addresses in dotted notation.
\<close>

section \<open>One's complement sums\<close>

text \<open>The specification: the sum of the words as a number, an odd last byte counted as it is.\<close>

fun word_sum :: "u8 list \<Rightarrow> nat" where
  "word_sum (a # b # bs) = unat a + 256 * unat b + word_sum bs"
| "word_sum [a] = unat a"
| "word_sum [] = 0"

lemma get16_pair: "unat (get16 0 [a, b]) = unat a + 256 * unat b"
proof -
  have "get16 0 [a, b] = ucast a + push_bit 8 (ucast b)"
    unfolding get16_def by (subst disjunctive_add) (auto simp: bit_push_bit_iff bit_ucast_iff dest: bit_imp_le_length)
  also have "\<dots> = of_nat (unat a + 256 * unat b)" by (simp add: push_bit_eq_mult)
  finally have "unat (get16 0 [a, b]) = unat (of_nat (unat a + 256 * unat b) :: u16)" by simp
  moreover have "unat a + 256 * unat b < 65536" using unat_u8_less [of a] unat_u8_less [of b] by linarith
  ultimately show ?thesis by (simp add: unat_of_nat_u16 del: of_nat_add)
qed

lemma sum_words_of_nat: "sum_words bs s = s + of_nat (word_sum bs)"
proof (induction bs s rule: sum_words.induct)
  case (1 a b bs s)
  have "ucast (get16 0 [a, b]) = (of_nat (unat a + 256 * unat b) :: u32)"
    using get16_pair [of a b] by (metis of_nat_unat unat_ucast_u16(1) word_unat_eq_iff)
  then show ?case using 1 by simp
qed simp_all

lemma word_sum_append: "even (length xs) \<Longrightarrow> word_sum (xs @ ys) = word_sum xs + word_sum ys"
  by (induction xs rule: word_sum.induct) simp_all

lemma word_sum_bound: "word_sum bs \<le> 65535 * length bs"
proof (induction bs rule: word_sum.induct)
  case (1 a b bs)
  then show ?case using unat_u8_less [of a] unat_u8_less [of b] by (simp del: unat_u8_less)
next
  case (2 a)
  then show ?case using unat_u8_less [of a] by (simp del: unat_u8_less)
qed simp

lemma fold_step:
  fixes s :: u32
  shows "unat ((s AND 0xFFFF) + drop_bit 16 s) = unat s mod 65536 + unat s div 65536"
proof -
  have "s AND 0xFFFF = take_bit 16 s" by (simp add: take_bit_eq_mask mask_eq_exp_minus_1)
  then have a: "unat (s AND 0xFFFF) = unat s mod 65536" by (simp add: take_bit_eq_mod unat_mod)
  have d: "unat (drop_bit 16 s) = unat s div 65536" by (simp add: drop_bit_eq_div unat_div)
  have "unat s div 65536 < 65536" using unat_u32_less [of s] by (simp add: less_mult_imp_div_less del: unat_u32_less)
  then show ?thesis using a d by (subst unat_add_u32) simp_all
qed

lemma fold_sum_spec: "unat (fold_sum s) < 65536 \<and> unat (fold_sum s) mod 65535 = unat s mod 65535 \<and> (unat (fold_sum s) = 0 \<longleftrightarrow> unat s = 0)"
proof (induction s rule: fold_sum.induct)
  case (1 s)
  let ?u = "unat s"
  have d: "unat (drop_bit 16 s) = ?u div 65536" by (simp add: drop_bit_eq_div unat_div)
  show ?case
  proof (cases "drop_bit 16 s = 0")
    case True
    then have "?u div 65536 = 0" using d by simp
    then have "?u < 65536" by (simp add: div_eq_0_iff)
    then show ?thesis using True by (simp add: fold_sum.simps [of s])
  next
    case False
    have q: "?u = 65535 * (?u div 65536) + (?u mod 65536 + ?u div 65536)"
      using div_mult_mod_eq [of ?u 65536] by linarith
    then have "?u mod 65535 = (?u mod 65536 + ?u div 65536) mod 65535" by (metis mod_mult_self4)
    moreover have "?u mod 65536 + ?u div 65536 = 0 \<longleftrightarrow> ?u = 0" using q by auto
    ultimately show ?thesis using 1 [OF False] False fold_step [of s] by (simp add: fold_sum.simps [of s])
  qed
qed

text \<open>The checksum as a number, for data whose sum fits into the 32 bits of \<^verbatim>\<open>sum\<close>.\<close>

definition ones_sum :: "nat \<Rightarrow> nat" where
  "ones_sum n = (if n = 0 then 0 else (n - 1) mod 65535 + 1)"

lemma ones_sum_unique:
  assumes "k < 65536" and "k mod 65535 = n mod 65535" and "k = 0 \<longleftrightarrow> n = 0"
  shows "k = ones_sum n"
proof (cases "n = 0")
  case False
  have m: "ones_sum n mod 65535 = n mod 65535" using False mod_Suc_eq [of "n - 1" 65535] by (simp add: ones_sum_def)
  have b: "0 < ones_sum n" "ones_sum n < 65536" using False mod_less_divisor [of 65535 "n - 1"] by (simp_all add: ones_sum_def)
  have "j mod 65535 = (if j = 65535 then 0 else j)" if "j < 65536" for j :: nat using that by auto
  from this [OF assms(1)] this [OF b(2)] show ?thesis using m b assms(2,3) False by (auto split: if_splits)
qed (use assms in \<open>simp add: ones_sum_def\<close>)

lemma net_checksum_spec:
  assumes "length data < 65536"
  shows "unat (net_checksum data) = 65535 - ones_sum (word_sum data)"
proof -
  have "65535 * length data \<le> 65535 * 65535" using assms by simp
  then have "word_sum data < 4294967296" using word_sum_bound [of data] by linarith
  then have u: "unat (sum_words data 0) = word_sum data" by (simp add: sum_words_of_nat unsigned_of_nat take_bit_nat_eq_self)
  let ?f = "fold_sum (sum_words data 0)"
  have f: "unat ?f < 65536" "unat ?f = ones_sum (word_sum data)"
    using fold_sum_spec [of "sum_words data 0"] ones_sum_unique [of "unat ?f" "word_sum data"] by (simp_all add: u)
  have "unat (ucast (NOT ?f) :: u16) = unat (NOT (ucast ?f :: u16))"
    by (rule arg_cong [of _ _ unat]) (rule bit_word_eqI, simp add: bit_ucast_iff bit_not_iff)
  also have "NOT (ucast ?f :: u16) = - 1 - ucast ?f" by (simp add: not_eq_complement)
  also have "unat (- 1 - ucast ?f :: u16) = 65535 - unat (ucast ?f :: u16)" 
    by (subst unat_sub) (simp_all add: unsigned_minus_1_eq_mask mask_eq_exp_minus_1)
  also have "unat (ucast ?f :: u16) = unat ?f" using f(1) by (simp add: unsigned_ucast_eq take_bit_nat_eq_self)
  finally show ?thesis by (simp add: net_checksum_def f(2))
qed

lemma word_sum_le16: "word_sum (le16 w) = unat w"
  using get16_pair [of "ucast w" "ucast (drop_bit 8 w)"] get16_le16 [of "[]" w "[]"] by (simp add: le16_def)

lemma checksum_verifies:
  assumes "even (length xs)" and "length xs + length ys < 65534"
  shows "net_checksum (xs @ le16 (net_checksum (xs @ le16 0 @ ys)) @ ys) = 0"
proof -
  let ?z = "xs @ le16 0 @ ys" and ?c = "net_checksum (xs @ le16 0 @ ys)"
  let ?n = "word_sum xs + word_sum ys"
  have sum: "word_sum (xs @ le16 w @ ys) = ?n + unat w" for w
    using assms(1) word_sum_append [of "le16 w" ys] by (simp add: word_sum_append word_sum_le16)
  have c: "unat ?c = 65535 - ones_sum ?n" using net_checksum_spec [of ?z] sum [of 0] assms(2) by simp
  have "(65535 :: nat) = ones_sum (?n + unat ?c)"
  proof (cases "?n = 0")
    case False
    define q m where "q = (?n - 1) div 65535" and "m = (?n - 1) mod 65535"
    have "?n = q * 65535 + m + 1" "m < 65535" using False div_mult_mod_eq [of "?n - 1" 65535] by (simp_all add: q_def m_def)
    moreover have "unat ?c = 65535 - (m + 1)" using c False by (simp add: ones_sum_def m_def)
    ultimately have "?n + unat ?c = 65535 * q + 65535" by linarith
    then show ?thesis by (intro ones_sum_unique) simp_all
  qed (use c in \<open>simp add: ones_sum_def\<close>)
  then have "unat (net_checksum (xs @ le16 ?c @ ys)) = 0"
    using net_checksum_spec [of "xs @ le16 ?c @ ys"] sum [of ?c] assms(2) by simp
  then show ?thesis by (simp add: unat_eq_zero)
qed

text \<open>What a receiver computes according to RFC 1071, defined on its own: the one's complement sum of the
  16-bit words in network byte order, an odd last byte padded with zero; every addition brings its
  carry back to the lowest bit. Data with its checksum in place is accepted if the sum is 0xFFFF.\<close>

definition ones_add :: "nat \<Rightarrow> nat \<Rightarrow> nat" where
  "ones_add x y = (x + y) mod 65536 + (x + y) div 65536"

fun rfc1071_sum :: "u8 list \<Rightarrow> nat" where
  "rfc1071_sum (a # b # bs) = ones_add (256 * unat a + unat b) (rfc1071_sum bs)"
| "rfc1071_sum [a] = 256 * unat a"
| "rfc1071_sum [] = 0"

lemma ones_add_spec:
  assumes "x \<le> 65535" and "y \<le> 65535"
  shows "ones_add x y \<le> 65535" "ones_add x y mod 65535 = (x + y) mod 65535" "ones_add x y = 0 \<longleftrightarrow> x + y = 0"
proof -
  have q: "x + y = 65535 * ((x + y) div 65536) + ones_add x y"
    using div_mult_mod_eq [of "x + y" 65536] unfolding ones_add_def by linarith
  show "ones_add x y mod 65535 = (x + y) mod 65535" by (metis q mod_mult_self4)
  consider "(x + y) div 65536 = 0" | "(x + y) div 65536 = 1" using assms by linarith
  then show "ones_add x y \<le> 65535" "ones_add x y = 0 \<longleftrightarrow> x + y = 0"
    using q assms by (cases; linarith)+
qed

lemma swap_mod: "(256 * a + b + 256 * w) mod 65535 = 256 * (a + 256 * b + w) mod (65535 :: nat)"
proof -
  have "256 * (a + 256 * b + w) = 65535 * b + (256 * a + b + 256 * w)" by simp
  then show ?thesis by (metis mod_mult_self4)
qed

lemma rfc1071_word_sum:
  "rfc1071_sum bs \<le> 65535 \<and> rfc1071_sum bs mod 65535 = 256 * word_sum bs mod 65535 \<and> (rfc1071_sum bs = 0 \<longleftrightarrow> word_sum bs = 0)"
proof (induction bs rule: rfc1071_sum.induct)
  case (1 a b bs)
  let ?x = "256 * unat a + unat b" and ?y = "rfc1071_sum bs"
  have x: "?x \<le> 65535" using unat_u8_less [of a] unat_u8_less [of b] by linarith
  note o = ones_add_spec [OF x, of ?y]
  have "(?x + ?y) mod 65535 = (?x + 256 * word_sum bs) mod 65535" using 1 mod_add_right_eq [of ?x _ 65535] by metis
  then have "(?x + ?y) mod 65535 = 256 * (unat a + 256 * unat b + word_sum bs) mod 65535" by (simp only: swap_mod)
  then show ?case using o 1 by auto
next
  case (2 a)
  have "256 * unat a \<le> 65535" using unat_u8_less [of a] by linarith
  then show ?case by simp
qed simp

lemma checksum_zero_accepted:
  assumes "net_checksum data = 0" and "length data < 65536"
  shows "rfc1071_sum data = 65535"
proof -
  let ?w = "word_sum data"
  have "65535 - ones_sum ?w = 0" using net_checksum_spec [OF assms(2)] assms(1) by simp
  then have "65535 \<le> ones_sum ?w" by simp
  then have w: "?w \<noteq> 0" "65534 \<le> (?w - 1) mod 65535" by (auto simp: ones_sum_def split: if_splits)
  moreover have "(?w - 1) mod 65535 < 65535" by simp
  ultimately have "(?w - 1) mod 65535 = 65534" by linarith
  then obtain k where "?w - 1 = k * 65535 + 65534" using div_mult_mod_eq [of "?w - 1" 65535] by metis
  then have "?w = 65535 * (k + 1)" using w(1) by simp
  then have "65535 dvd ?w" by (rule dvdI)
  then have "256 * ?w mod 65535 = 0" by (simp add: dvd_imp_mod_0)
  then have "rfc1071_sum data mod 65535 = 0" "rfc1071_sum data \<noteq> 0" "rfc1071_sum data \<le> 65535"
    using rfc1071_word_sum [of data] w(1) by simp_all
  then show ?thesis by (metis dvd_imp_le le_antisym mod_0_imp_dvd neq0_conv)
qed

text \<open>C30. Every header the stack sends carries a checksum a receiver that follows RFC 1071 accepts: the one's
  complement sum of the words of an IP header with its checksum in place is 0xFFFF, and so is the
  one over a sealed ICMP message of even or odd length; sealing changes no other byte.\<close>

theorem headers_verify:
  "rfc1071_sum (ip_header total_length identification protocol src dest) = 0xFFFF \<and>
   (4 \<le> length m \<and> length m < 65536 \<longrightarrow>
     rfc1071_sum (icmp_sealed m) = 0xFFFF \<and> take 2 (icmp_sealed m) = take 2 m \<and> drop 4 (icmp_sealed m) = drop 4 m)"
proof (intro conjI impI)
  let ?xs = "[0x45, 0] @ le16 (htons total_length) @ le16 identification @ le16 0 @ [64, protocol]" and ?ys = "ip_bytes src @ ip_bytes dest"
  have "ip_header_bytes total_length identification protocol 0 src dest = ?xs @ le16 0 @ ?ys" by (simp add: ip_header_bytes_def)
  then have "net_checksum (ip_header total_length identification protocol src dest) = 0"
    using checksum_verifies [of ?xs ?ys] by (simp add: ip_header_parts)
  then show "rfc1071_sum (ip_header total_length identification protocol src dest) = 0xFFFF"
    using checksum_zero_accepted [of "ip_header total_length identification protocol src dest"] by (simp add: ip_header_parts)
next
  assume m: "4 \<le> length m \<and> length m < 65536"
  then have s: "icmp_sealed m = take 2 m @ le16 (net_checksum (take 2 m @ le16 0 @ drop 4 m)) @ drop 4 m"
    by (simp add: icmp_sealed_def splice_def min_def)
  moreover have "net_checksum (take 2 m @ le16 (net_checksum (take 2 m @ le16 0 @ drop 4 m)) @ drop 4 m) = 0"
    by (rule checksum_verifies) (use m in auto)
  ultimately have "net_checksum (icmp_sealed m) = 0" by simp
  moreover have "length (icmp_sealed m) < 65536" unfolding s using m by (auto simp: min_def)
  ultimately show "rfc1071_sum (icmp_sealed m) = 0xFFFF" using checksum_zero_accepted by simp
  show "take 2 (icmp_sealed m) = take 2 m" "drop 4 (icmp_sealed m) = drop 4 m" unfolding s using m by (simp_all add: min_def)
qed

theorem headers_verify_witness: "rfc1071_sum (icmp_sealed [8, 0, 0, 0, 0, 1, 0]) = 0xFFFF"
  using headers_verify [of 60 0 1 "IPV4 10 0 0 1" "IPV4 10 0 0 2" "[8, 0, 0, 0, 0, 1, 0]"] by simp

section \<open>Addresses in dotted notation\<close>

lemma digit_char: "d < 10 \<Longrightarrow> is_digit (of_nat (48 + d)) \<and> unat (of_nat (48 + d) - 48 :: u8) = d"
proof
  assume d: "d < 10"
  have u: "unat (of_nat (48 + d) :: u8) = 48 + d" using d by (simp add: unsigned_of_nat take_bit_nat_eq_self del: of_nat_add)
  then show "is_digit (of_nat (48 + d))" using d by (simp add: is_digit_def word_le_nat_alt del: of_nat_add)
  show "unat (of_nat (48 + d) - 48 :: u8) = d"
    using d by (simp add: unsigned_of_nat take_bit_nat_eq_self)
qed

text \<open>What a number is read back from, before a character that is not a digit.\<close>

lemma parse_format_part:
  assumes "p = [] \<or> \<not> is_digit (hd p)"
  shows "\<exists>k > 0. parse_digits (format_part v @ p) 0 0 = (unat v, k, p)"
proof -
  have stop: "parse_digits p n k = (n, k, p)" for n k using assms by (cases p) auto
  have dig: "parse_digits (of_nat (48 + d) # q) n k = parse_digits q (n * 10 + d) (k + 1)" if "d < 10" "k < 3" for d q n k
    using digit_char [OF that(1)] that(2) by simp
  define n where "n = unat v"
  have n: "n < 256" by (simp add: n_def)
  consider "100 \<le> n" | "10 \<le> n" "n < 100" | "n < 10" by linarith
  then show ?thesis
  proof cases
    case 1
    have "(a * 10 + b) * 10 + c = a * 100 + (b * 10 + c)" for a b c :: nat by simp
    then have "(n div 100 * 10 + n mod 100 div 10) * 10 + n mod 100 mod 10 = n" by (simp only: div_mult_mod_eq)
    moreover have "n div 100 < 10" "n mod 100 div 10 < 10" "n mod 100 mod 10 < 10" using n by auto
    ultimately have "parse_digits (format_part v @ p) 0 0 = (n, 3, p)"
      using 1 dig stop by (simp add: format_part_def Let_def n_def del: of_nat_add parse_digits.simps)
    then show ?thesis unfolding n_def by auto
  next
    case 2
    have "n div 10 * 10 + n mod 10 = n" by (rule div_mult_mod_eq)
    moreover have "n div 10 < 10" "n mod 10 < 10" using 2 by auto
    ultimately have "parse_digits (format_part v @ p) 0 0 = (n, 2, p)"
      using 2 dig stop by (simp add: format_part_def Let_def n_def del: of_nat_add parse_digits.simps)
    then show ?thesis unfolding n_def by auto
  next
    case 3
    then have "parse_digits (format_part v @ p) 0 0 = (n, 1, p)"
      using dig stop by (simp add: format_part_def Let_def n_def del: of_nat_add parse_digits.simps)
    then show ?thesis unfolding n_def by auto
  qed
qed

lemma parse_parts_format:
  "parse_parts (Suc 0) (format_part v) out = (True, out @ [v], [])"
  "k > 0 \<Longrightarrow> parse_parts (Suc k) (format_part v @ 46 # p) out = parse_parts k p (out @ [v])"
proof -
  have u: "of_nat (unat v) = v" "\<not> unat v > 255" by (simp_all add: not_less) (use unat_u8_less [of v] in linarith)
  obtain k1 where "0 < k1" "parse_digits (format_part v @ []) 0 0 = (unat v, k1, [])" using parse_format_part [of "[]" v] by auto
  then show "parse_parts (Suc 0) (format_part v) out = (True, out @ [v], [])" using u by (simp add: Let_def)
  obtain k2 where "0 < k2" "parse_digits (format_part v @ 46 # p) 0 0 = (unat v, k2, 46 # p)"
    using parse_format_part [of "46 # p" v] by (auto simp: is_digit_def)
  then show "parse_parts (Suc k) (format_part v @ 46 # p) out = parse_parts k p (out @ [v])" if "k > 0"
    using u that by (simp add: Let_def char_at_def)
qed

text \<open>C31. Formatting an IPv4 address and parsing the string succeeds and gives the address back, whatever
  was stored before.\<close>

theorem ipv4_round_trip:
  "\<exists>str. net_format_ipv4 ip True = Some str \<and> net_parse_ipv4 (Some str) (Some old) = (True, Some ip)"
proof (cases ip)
  case (IPV4 a b c d)
  have u: "[0..<4] = [0, 1, 2, 3 :: nat]" by code_simp
  let ?str = "format_part a @ 46 # format_part b @ 46 # format_part c @ 46 # format_part d"
  have f: "net_format_ipv4 ip True = Some ?str"
    by (simp add: net_format_ipv4_def u IPV4 numeral_2_eq_2 numeral_3_eq_3)
  have "parse_parts 4 ?str [] = (True, [a, b, c, d], [])"
    using parse_parts_format(2) [of 3 a _ "[]"] parse_parts_format(2) [of 2 b] parse_parts_format(2) [of 1 c] parse_parts_format(1) [of d]
    by (simp add: numeral_eq_Suc del: parse_parts.simps)
  then have "net_parse_ipv4 (Some ?str) (Some old) = (True, Some ip)"
    by (simp add: net_parse_ipv4_def IPV4 ip_at_def char_at_def splice_def numeral_2_eq_2 numeral_3_eq_3)
  then show ?thesis using f by blast
qed

end
