(* ===== verification/Http.thy ===== *)
theory Http
  imports Network
begin

text \<open>
  The HTTP client and the stubs of \<^verbatim>\<open>src/net/http_dns.c\<close>. Strings are lists of bytes without the
  terminator; the body of a response is a block of the heap.
\<close>

section \<open>Data\<close>

datatype http_method = HTTP_GET | HTTP_POST | HTTP_PUT | HTTP_DELETE

record http_response =
  hr_status_code :: u16
  hr_body :: ptr
  hr_body_length :: u32
  hr_content_type :: "u8 list"

record http_request =
  hq_method :: http_method
  hq_path :: "u8 list"
  hq_query :: "u8 list"
  hq_body :: "u8 list option"
  hq_client_sock :: int

definition CRLF :: "u8 list" where "CRLF = [13, 10]"

section \<open>Strings\<close>

text \<open>The conversions \<^verbatim>\<open>%d\<close> and \<^verbatim>\<open>%lu\<close> of a number that is not negative.\<close>

fun dec :: "nat \<Rightarrow> u8 list" where
  "dec n = (if n < 10 then [of_nat (48 + n)] else dec (n div 10) @ [of_nat (48 + n mod 10)])"

declare dec.simps [simp del]

text \<open>\<^verbatim>\<open>strstr\<close>: the rest of the string from the first occurrence on.\<close>

fun strstr :: "u8 list \<Rightarrow> u8 list \<Rightarrow> u8 list option" where
  "strstr [] needle = (if needle = [] then Some [] else None)"
| "strstr (c # s) needle = (if take (length needle) (c # s) = needle then Some (c # s) else strstr s needle)"

definition c_string :: "u8 list \<Rightarrow> u8 list" where
  "c_string bs = takeWhile (\<lambda>c. c \<noteq> 0) bs"

definition is_space :: "u8 \<Rightarrow> bool" where
  "is_space c \<longleftrightarrow> c = 32 \<or> 9 \<le> c \<and> c \<le> 13"

text \<open>A number as \<^verbatim>\<open>sscanf\<close> reads it: white space, a sign, at least one digit.\<close>

definition scan_int :: "u8 list \<Rightarrow> (int \<times> u8 list) option" where
  "scan_int s =
    (let s = dropWhile is_space s;
         neg = (char_at s = 45);
         s = (if char_at s = 45 \<or> char_at s = 43 then tl s else s);
         ds = takeWhile is_digit s;
         n = foldl (\<lambda>n c. n * 10 + int (unat (c - 48))) 0 ds
     in if ds = [] then None else Some (if neg then - n else n, dropWhile is_digit s))"

section \<open>The address of the server\<close>

definition parse_port :: "u8 list \<Rightarrow> u16 \<times> u8 list" where
  "parse_port p =
    (if char_at p = 58
     then (foldl (\<lambda>port c. port * 10 + ucast (c - 48)) 0 (takeWhile is_digit (tl p)), dropWhile is_digit (tl p))
     else (80, p))"

text \<open>A successful \<^verbatim>\<open>net_parse_ipv4\<close> stores all four bytes of the address, so those it had before do not matter.\<close>

definition parse_url :: "u8 list \<Rightarrow> nat \<Rightarrow> (ipv4_addr \<times> u16 \<times> u8 list) option" where
  "parse_url url path_len =
    (let p = (if take 7 url = chars ''http://'' then drop 7 url else url);
         ip_str = take 15 (takeWhile (\<lambda>c. c \<noteq> 0 \<and> c \<noteq> 58 \<and> c \<noteq> 47) p);
         p = drop (length ip_str) p
     in case net_parse_ipv4 (Some ip_str) (Some (IPV4 0 0 0 0)) of
          (ok, ip) \<Rightarrow>
            if \<not> ok then None
            else let (port, p) = parse_port p
                 in Some (the ip, port, if char_at p = 47 then take (path_len - 1) p else [47]))"

section \<open>The request\<close>

text \<open>
  The array \<^verbatim>\<open>request\<close> with the length \<^verbatim>\<open>req_len\<close> of its text. \<^verbatim>\<open>snprintf\<close> at \<^verbatim>\<open>request + req_len\<close> gets the
  remaining size; once \<^verbatim>\<open>req_len\<close> has passed the end, the size wraps around and the text is
  written outside of the array, which is \<open>None\<close>. Every byte below \<^verbatim>\<open>req_len\<close> has been written, so
  the bytes the array starts with do not matter.
\<close>

definition REQUEST_SIZE :: nat where "REQUEST_SIZE = 512"

definition add_text :: "u8 list \<Rightarrow> u8 list \<times> nat \<Rightarrow> (u8 list \<times> nat) option" where
  "add_text text r =
    (let (request, req_len) = r;
         room = REQUEST_SIZE - req_len
     in if req_len > REQUEST_SIZE then None
        else Some (if room = 0 then request else splice req_len (take (room - 1) text @ [0]) request, req_len + length text))"

definition request_line :: "http_method \<Rightarrow> u8 list \<Rightarrow> ipv4_addr \<Rightarrow> u8 list" where
  "request_line method url_path ip =
     chars (if method = HTTP_GET then ''GET'' else ''POST'') @ [32] @ url_path @ chars '' HTTP/1.1'' @ CRLF @
     chars ''Host: '' @ dec (unat (ip_bytes ip ! 0)) @ [46] @ dec (unat (ip_bytes ip ! 1)) @ [46] @
       dec (unat (ip_bytes ip ! 2)) @ [46] @ dec (unat (ip_bytes ip ! 3)) @ CRLF @
     chars ''Connection: close'' @ CRLF"

fun add_headers :: "u8 list list \<Rightarrow> u8 list \<times> nat \<Rightarrow> (u8 list \<times> nat) option" where
  "add_headers [] r = Some r"
| "add_headers (h # hs) r = do { r \<leftarrow> add_text (h @ CRLF) r; add_headers hs r }"

definition has_body :: "u8 list option \<Rightarrow> bool" where
  "has_body body \<longleftrightarrow> body \<noteq> None \<and> length (the body) > 0"

definition last_header :: "u8 list option \<Rightarrow> u8 list" where
  "last_header body = (if has_body body then chars ''Content-Length: '' @ dec (length (the body)) @ CRLF @ CRLF else CRLF)"

text \<open>The bytes that the first call of \<^verbatim>\<open>net_send\<close> reads.\<close>

definition build_request :: "http_method \<Rightarrow> u8 list \<Rightarrow> ipv4_addr \<Rightarrow> u8 list list option \<Rightarrow> u8 list option \<Rightarrow> u8 list option" where
  "build_request method url_path ip headers body = do {
     (request, req_len) \<leftarrow> add_text (request_line method url_path ip) (replicate REQUEST_SIZE 0, 0);
     let req_len = (if req_len \<ge> REQUEST_SIZE then REQUEST_SIZE - 1 else req_len);
     (request, req_len) \<leftarrow> (case headers of None \<Rightarrow> Some (request, req_len) | Some hs \<Rightarrow> add_headers hs (request, req_len));
     (request, req_len) \<leftarrow> add_text (last_header body) (request, req_len);
     avail req_len request;
     Some (take req_len request) }"

section \<open>The response\<close>

definition HTTP_RX_SIZE :: nat where "HTTP_RX_SIZE = 2048"

partial_function (option) http_receive ::
    "('d, 'a) nswitch \<Rightarrow> int \<Rightarrow> u8 list \<Rightarrow> ('d, 'a) nets_scheme \<Rightarrow> (u8 list \<times> ('d, 'a) nets_scheme) option" where
  "http_receive cs sock got s = do {
     ((bytes, data), s) \<leftarrow> net_recv cs sock (of_nat (HTTP_RX_SIZE - length got - 1)) 2000 s;
     (if bytes > 0
      then if length (got @ data) \<ge> HTTP_RX_SIZE - 1 then Some (got @ data, s) else http_receive cs sock (got @ data) s
      else Some (got, s)) }"

definition response_status :: "u8 list \<Rightarrow> u16 \<Rightarrow> u16" where
  "response_status response_str old =
    (case strstr response_str (chars ''HTTP/1.'') of
       None \<Rightarrow> old
     | Some line \<Rightarrow>
        (case Option.bind (scan_int (drop 7 line)) (\<lambda>(_, p). scan_int p) of
           None \<Rightarrow> old
         | Some (n, _) \<Rightarrow> of_int n))"

definition store_body ::
    "u8 list \<Rightarrow> http_response \<Rightarrow> ('d, 'a) nets_scheme \<Rightarrow> (http_response \<times> ('d, 'a) nets_scheme) option" where
  "store_body body response s = do {
     (p, s) \<leftarrow> with_heap (os_malloc (of_nat (length body) + 1)) s;
     let response = response\<lparr>hr_body_length := of_nat (length body), hr_body := p\<rparr>;
     (case p of
        None \<Rightarrow> Some (response, s)
      | Some a \<Rightarrow> do {
          (_, s) \<leftarrow> with_heap (\<lambda>m. Some ((), heap_store a (body @ [0]) m)) s;
          Some (response, s) }) }"

definition parse_response ::
    "u8 list \<Rightarrow> http_response \<Rightarrow> ('d, 'a) nets_scheme \<Rightarrow> (http_response \<times> ('d, 'a) nets_scheme) option" where
  "parse_response received response s =
    (let response_str = c_string received;
         response = response\<lparr>hr_status_code := response_status response_str (hr_status_code response)\<rparr>
     in case strstr response_str (CRLF @ CRLF) of
          None \<Rightarrow> Some (response, s)
        | Some rest \<Rightarrow> store_body (drop (length response_str - length rest + 4) received) response s)"

section \<open>Requests\<close>

definition net_http_request ::
    "('d, 'a) nswitch \<Rightarrow> http_method \<Rightarrow> u8 list \<Rightarrow> u8 list list option \<Rightarrow> u8 list option \<Rightarrow> http_response \<Rightarrow> u32 \<Rightarrow>
     ('d, 'a) nets_scheme \<Rightarrow> ((os_error \<times> http_response) \<times> ('d, 'a) nets_scheme) option" where
  "net_http_request cs method url headers body response timeout_ms s =
    (case parse_url url 128 of
       None \<Rightarrow> Some ((OS_ERROR_INVALID_PARAM, response), s)
     | Some (server_ip, port, url_path) \<Rightarrow> do {
         (sock, s) \<leftarrow> net_socket cs SOCK_STREAM s;
         (if sock = INVALID_SOCKET then Some ((OS_ERROR_NO_RESOURCE, response), s)
          else do {
            (err, s) \<leftarrow> net_connect cs sock (Some \<lparr>sa_addr = server_ip, sa_port = port\<rparr>) timeout_ms s;
            (if err \<noteq> OS_OK then Some ((err, response), upd_nt (\<lambda>x. snd (net_close sock x)) s)
             else do {
               request \<leftarrow> build_request method url_path server_ip headers body;
               (_, s) \<leftarrow> net_send cs sock request timeout_ms s;
               s \<leftarrow> (if has_body body then map_option snd (net_send cs sock (the body) timeout_ms s) else Some s);
               (received, s) \<leftarrow> http_receive cs sock [] s;
               let s = upd_nt (\<lambda>x. snd (net_close sock x)) s;
               (if received = [] then Some ((OS_ERROR_TIMEOUT, response), s)
                else do {
                  (response, s) \<leftarrow> parse_response received response s;
                  Some ((OS_OK, response), s) }) }) }) })"

definition net_http_free_response ::
    "http_response option \<Rightarrow> ('d, 'a) nets_scheme \<Rightarrow> (http_response option \<times> ('d, 'a) nets_scheme) option" where
  "net_http_free_response response s =
    (case response of
       None \<Rightarrow> Some (None, s)
     | Some r \<Rightarrow>
        if hr_body r = None then Some (Some r, s)
        else do {
          (_, s) \<leftarrow> with_heap (\<lambda>m. map_option (\<lambda>m. ((), m)) (os_free (hr_body r) m)) s;
          Some (Some (r\<lparr>hr_body := None\<rparr>), s) })"

definition net_http_get ::
    "('d, 'a) nswitch \<Rightarrow> u8 list \<Rightarrow> http_response \<Rightarrow> u32 \<Rightarrow> ('d, 'a) nets_scheme \<Rightarrow>
     ((os_error \<times> http_response) \<times> ('d, 'a) nets_scheme) option" where
  "net_http_get cs url response timeout_ms s = net_http_request cs HTTP_GET url None None response timeout_ms s"

definition net_http_post ::
    "('d, 'a) nswitch \<Rightarrow> u8 list \<Rightarrow> u8 list \<Rightarrow> u8 list option \<Rightarrow> http_response \<Rightarrow> u32 \<Rightarrow> ('d, 'a) nets_scheme \<Rightarrow>
     ((os_error \<times> http_response) \<times> ('d, 'a) nets_scheme) option" where
  "net_http_post cs url content_type body response timeout_ms s =
     net_http_request cs HTTP_POST url (Some [take 127 (chars ''Content-Type: '' @ content_type)]) body response timeout_ms s"

definition net_http_server_start :: "u16 \<Rightarrow> os_error" where
  "net_http_server_start port = OS_ERROR_NOT_IMPLEMENTED"

definition net_http_send_response :: "http_request \<Rightarrow> u16 \<Rightarrow> os_error" where
  "net_http_send_response request status_code = OS_ERROR_NOT_IMPLEMENTED"

definition net_dns_resolve :: "u8 list \<Rightarrow> u32 \<Rightarrow> os_error \<times> ipv4_addr option" where
  "net_dns_resolve hostname timeout_ms = (OS_ERROR_NOT_IMPLEMENTED, None)"

section \<open>What is sent\<close>

definition request_text :: "http_method \<Rightarrow> u8 list \<Rightarrow> ipv4_addr \<Rightarrow> u8 list list option \<Rightarrow> u8 list option \<Rightarrow> u8 list" where
  "request_text method url_path ip headers body =
     request_line method url_path ip @ concat (map (\<lambda>h. h @ CRLF) (case headers of None \<Rightarrow> [] | Some hs \<Rightarrow> hs)) @ last_header body"

text \<open>The array holds a text that fits, with its terminator, and loses its last byte when it fits without it.\<close>

definition holds :: "u8 list \<Rightarrow> u8 list \<times> nat \<Rightarrow> bool" where
  "holds text r \<longleftrightarrow> length (fst r) = REQUEST_SIZE \<and> snd r = length text \<and>
     (length text < REQUEST_SIZE \<longrightarrow> take (length text) (fst r) = text) \<and>
     (length text = REQUEST_SIZE \<longrightarrow> text \<noteq> [] \<and> fst r = butlast text @ [0])"

lemma add_text_holds:
  assumes h: "holds text r"
  shows "length text \<le> REQUEST_SIZE \<Longrightarrow> \<exists>r'. add_text t r = Some r' \<and> holds (text @ t) r'"
    and "length text > REQUEST_SIZE \<Longrightarrow> add_text t r = None"
proof -
  obtain b n where r: "r = (b, n)" by fastforce
  have b: "length b = REQUEST_SIZE" "n = length text" using h by (simp_all add: holds_def r)
  show "add_text t r = None" if "length text > REQUEST_SIZE" using that b by (simp add: add_text_def r)
  assume le: "length text \<le> REQUEST_SIZE"
  show "\<exists>r'. add_text t r = Some r' \<and> holds (text @ t) r'"
  proof (cases "length text = REQUEST_SIZE")
    case True
    then have "add_text t r = Some (b, n + length t)" using b by (simp add: add_text_def r)
    moreover have "holds (text @ t) (b, n + length t)" using h True b by (auto simp: holds_def r REQUEST_SIZE_def)
    ultimately show ?thesis by blast
  next
    case False
    then have lt: "length text < REQUEST_SIZE" using le by simp
    let ?w = "take (REQUEST_SIZE - n - 1) t @ [0]"
    have w: "n + length ?w \<le> REQUEST_SIZE" using lt b by auto
    have tk: "take n b = text" using h lt b by (simp add: holds_def r)
    have a: "add_text t r = Some (splice n ?w b, n + length t)" using lt b by (simp add: add_text_def r)
    have len: "length (splice n ?w b) = REQUEST_SIZE" using w b by simp
    have sp: "splice n ?w b = text @ ?w @ drop (n + length ?w) b" by (simp only: splice_def tk)
    have "holds (text @ t) (splice n ?w b, n + length t)"
      unfolding holds_def
    proof (intro conjI impI)
      assume "length (text @ t) < REQUEST_SIZE"
      then have "take (REQUEST_SIZE - n - 1) t = t" using b by simp
      then show "take (length (text @ t)) (fst (splice n ?w b, n + length t)) = text @ t" using sp b by simp
    next
      assume eq: "length (text @ t) = REQUEST_SIZE"
      then have t: "t \<noteq> []" using lt by auto
      then show "text @ t \<noteq> []" by simp
      have "REQUEST_SIZE - n - 1 = length t - 1" using eq b by simp
      then have "take (REQUEST_SIZE - n - 1) t = butlast t" by (simp only: butlast_conv_take)
      moreover have "n + length (butlast t @ [0 :: u8]) = REQUEST_SIZE" using eq b t by simp
      ultimately show "fst (splice n ?w b, n + length t) = butlast (text @ t) @ [0]" using sp b t by (simp add: butlast_append)
    qed (use len b in simp_all)
    then show ?thesis using a by blast
  qed
qed

lemma add_headers_holds:
  "holds tx r \<Longrightarrow> length tx \<le> REQUEST_SIZE \<Longrightarrow>
   (case add_headers hs r of None \<Rightarrow> length (tx @ concat (map (\<lambda>h. h @ CRLF) hs)) > REQUEST_SIZE
    | Some r' \<Rightarrow> holds (tx @ concat (map (\<lambda>h. h @ CRLF) hs)) r')"
proof (induction hs arbitrary: tx r)
  case (Cons h hs)
  obtain r1 where r1: "add_text (h @ CRLF) r = Some r1" "holds (tx @ h @ CRLF) r1"
    using add_text_holds(1) [OF Cons.prems] by blast
  show ?case
  proof (cases "length (tx @ h @ CRLF) \<le> REQUEST_SIZE")
    case True
    show ?thesis using Cons.IH [OF r1(2) True] r1(1) by (auto split: option.splits)
  next
    case False
    show ?thesis
    proof (cases hs)
      case Nil
      then show ?thesis using r1 by simp
    next
      case (Cons g gs)
      have "add_text (g @ CRLF) r1 = None" using add_text_holds(2) [OF r1(2)] False by simp
      then show ?thesis using r1 False Cons by simp
    qed
  qed
qed simp

lemma length_dec: "n < 256 \<Longrightarrow> length (dec n) \<le> 3"
  by (simp add: dec.simps [of n] dec.simps [of "n div 10"] dec.simps [of "n div 10 div 10"])

lemma length_request_line: "length url_path \<le> 127 \<Longrightarrow> length (request_line method url_path ip) < 512"
proof -
  assume p: "length url_path \<le> 127"
  have d: "length (dec (unat v)) \<le> 3" for v :: u8 by (rule length_dec) simp
  have "length (request_line method url_path ip) \<le> 62 + length url_path + length (dec (unat (ip_bytes ip ! 0))) +
      length (dec (unat (ip_bytes ip ! 1))) + length (dec (unat (ip_bytes ip ! 2))) + length (dec (unat (ip_bytes ip ! 3)))"
    by (simp add: request_line_def chars_def CRLF_def)
  then show ?thesis using p d [of "ip_bytes ip ! 0"] d [of "ip_bytes ip ! 1"] d [of "ip_bytes ip ! 2"] d [of "ip_bytes ip ! 3"] by linarith
qed

text \<open>C34. An HTTP request whose text is shorter than the array of 512 bytes is sent as it should be;
  a text of exactly 512 bytes loses its last byte, and a longer one, which long headers give,
  makes the client write or read outside of the array.\<close>

theorem http_request_bounds:
  assumes "length url_path \<le> 127"
  shows "build_request method url_path ip headers body =
    (let text = request_text method url_path ip headers body
     in if length text < 512 then Some text else if length text = 512 then Some (butlast text @ [0]) else None)"
proof -
  let ?l = "request_line method url_path ip" and ?hs = "case headers of None \<Rightarrow> [] | Some hs \<Rightarrow> hs"
  let ?m = "?l @ concat (map (\<lambda>h. h @ CRLF) ?hs)" and ?t = "request_text method url_path ip headers body"
  have l: "length ?l < REQUEST_SIZE" using length_request_line [OF assms] by (simp add: REQUEST_SIZE_def)
  have t: "?t = ?m @ last_header body" by (simp add: request_text_def)
  have "holds [] (replicate REQUEST_SIZE 0, 0)" by (simp add: holds_def) (simp add: REQUEST_SIZE_def)
  then obtain b n where r1: "add_text ?l (replicate REQUEST_SIZE 0, 0) = Some (b, n)" "holds ?l (b, n)"
    using add_text_holds(1) [of "[]" "(replicate REQUEST_SIZE 0, 0)" ?l] by auto
  have n: "\<not> n \<ge> REQUEST_SIZE" using r1(2) l by (simp add: holds_def)
  have hd: "(case headers of None \<Rightarrow> Some (b, n) | Some hs \<Rightarrow> add_headers hs (b, n)) = add_headers ?hs (b, n)"
    by (cases headers) simp_all
  have build: "build_request method url_path ip headers body = do {
      (request, req_len) \<leftarrow> add_headers ?hs (b, n); (request, req_len) \<leftarrow> add_text (last_header body) (request, req_len);
      avail req_len request; Some (take req_len request) }"
    unfolding build_request_def r1(1) using n hd by simp
  show ?thesis
  proof (cases "add_headers ?hs (b, n)")
    case None
    then have "length ?m > REQUEST_SIZE" using add_headers_holds [OF r1(2), of ?hs] l by simp
    then show ?thesis using None build t by (simp add: REQUEST_SIZE_def)
  next
    case (Some r2)
    then have h2: "holds ?m r2" using add_headers_holds [OF r1(2), of ?hs] l by simp
    show ?thesis
    proof (cases "length ?m > REQUEST_SIZE")
      case True
      then show ?thesis using Some build t add_text_holds(2) [OF h2 True] by (simp add: REQUEST_SIZE_def split_beta)
    next
      case False
      then obtain r3 where r3: "add_text (last_header body) r2 = Some r3" "holds ?t r3"
        using add_text_holds(1) [OF h2] t by fastforce
      have "build_request method url_path ip headers body = do { avail (snd r3) (fst r3); Some (take (snd r3) (fst r3)) }"
        using Some r3(1) build by (simp add: split_beta)
      then show ?thesis using r3(2) by (auto simp: holds_def avail_def REQUEST_SIZE_def Let_def)
    qed
  qed
qed

theorem http_request_bounds_witness:
  "build_request HTTP_GET [47] (IPV4 10 0 0 1) (Some [chars ''X: y'']) None =
     Some (chars ''GET / HTTP/1.1'' @ CRLF @ chars ''Host: 10.0.0.1'' @ CRLF @ chars ''Connection: close'' @ CRLF @ chars ''X: y'' @ CRLF @ CRLF)"
proof -
  have u: "unat (10 :: u8) = 10" by simp
  have d: "dec 10 = [49, 48]" "dec 0 = [48]" "dec (Suc 0) = [49]" by (simp_all add: dec.simps)
  have t: "request_text HTTP_GET [47] (IPV4 10 0 0 1) (Some [chars ''X: y'']) None =
      chars ''GET / HTTP/1.1'' @ CRLF @ chars ''Host: 10.0.0.1'' @ CRLF @ chars ''Connection: close'' @ CRLF @ chars ''X: y'' @ CRLF @ CRLF"
    by (simp add: request_text_def request_line_def last_header_def has_body_def u d chars_def CRLF_def)
  then show ?thesis
    using http_request_bounds [of "[47]" HTTP_GET "IPV4 10 0 0 1" "Some [chars ''X: y'']" None] by (simp add: chars_def CRLF_def)
qed

end
