(* ===== verification/Mqtt.thy ===== *)
theory Mqtt
  imports Http
begin

text \<open>
  The MQTT client, \<^verbatim>\<open>src/mqtt.c\<close>: the codec of packets, the handlers, and the public functions
  over the sockets. The state has one client next to the network stack. The callbacks of the
  application and the addresses of the background task are parameters; a write behind the end of
  \<^verbatim>\<open>tx_buffer\<close> is \<open>None\<close>.
\<close>

section \<open>Data\<close>

definition MQTT_MAX_PACKET_SIZE :: nat where "MQTT_MAX_PACKET_SIZE = 1024"
definition MQTT_MAX_TOPIC_LENGTH :: nat where "MQTT_MAX_TOPIC_LENGTH = 128"
definition MQTT_MAX_SUBSCRIPTIONS :: nat where "MQTT_MAX_SUBSCRIPTIONS = 16"
definition MQTT_DEFAULT_KEEPALIVE :: u16 where "MQTT_DEFAULT_KEEPALIVE = 60"
definition MQTT_DEFAULT_PORT :: u16 where "MQTT_DEFAULT_PORT = 1883"
definition MQTT_DEFAULT_TIMEOUT_MS :: u32 where "MQTT_DEFAULT_TIMEOUT_MS = 5000"
definition MQTT_PROTOCOL_VERSION_3_1_1 :: u8 where "MQTT_PROTOCOL_VERSION_3_1_1 = 4"

datatype mqtt_qos = MQTT_QOS_0 | MQTT_QOS_1 | MQTT_QOS_2

primrec qos_num :: "mqtt_qos \<Rightarrow> u8" where
  "qos_num MQTT_QOS_0 = 0"
| "qos_num MQTT_QOS_1 = 1"
| "qos_num MQTT_QOS_2 = 2"

datatype mqtt_error = MQTT_OK | MQTT_ERROR_INVALID_PARAM | MQTT_ERROR_NOT_CONNECTED | MQTT_ERROR_ALREADY_CONNECTED
  | MQTT_ERROR_NETWORK | MQTT_ERROR_TIMEOUT | MQTT_ERROR_PROTOCOL | MQTT_ERROR_BUFFER_OVERFLOW | MQTT_ERROR_BROKER_REFUSED
  | MQTT_ERROR_SUBSCRIBE_FAILED | MQTT_ERROR_PUBLISH_FAILED | MQTT_ERROR_NO_MEMORY

datatype mqtt_state = MQTT_STATE_DISCONNECTED | MQTT_STATE_CONNECTING | MQTT_STATE_CONNECTED | MQTT_STATE_DISCONNECTING

definition MQTT_CONNACK_ACCEPTED :: u8 where "MQTT_CONNACK_ACCEPTED = 0"

definition MQTT_MSG_TYPE_CONNECT :: u8 where "MQTT_MSG_TYPE_CONNECT = 1"
definition MQTT_MSG_TYPE_CONNACK :: u8 where "MQTT_MSG_TYPE_CONNACK = 2"
definition MQTT_MSG_TYPE_PUBLISH :: u8 where "MQTT_MSG_TYPE_PUBLISH = 3"
definition MQTT_MSG_TYPE_PUBACK :: u8 where "MQTT_MSG_TYPE_PUBACK = 4"
definition MQTT_MSG_TYPE_SUBSCRIBE :: u8 where "MQTT_MSG_TYPE_SUBSCRIBE = 8"
definition MQTT_MSG_TYPE_SUBACK :: u8 where "MQTT_MSG_TYPE_SUBACK = 9"
definition MQTT_MSG_TYPE_UNSUBSCRIBE :: u8 where "MQTT_MSG_TYPE_UNSUBSCRIBE = 10"
definition MQTT_MSG_TYPE_PINGREQ :: u8 where "MQTT_MSG_TYPE_PINGREQ = 12"
definition MQTT_MSG_TYPE_PINGRESP :: u8 where "MQTT_MSG_TYPE_PINGRESP = 13"
definition MQTT_MSG_TYPE_DISCONNECT :: u8 where "MQTT_MSG_TYPE_DISCONNECT = 14"

record mqtt_message =
  mm_topic :: "u8 list"
  mm_payload :: "u8 list"
  mm_payload_length :: u16
  mm_qos :: mqtt_qos
  mm_retained :: bool
  mm_message_id :: u16

record mqtt_config =
  mq_broker_host :: "u8 list"
  mq_broker_port :: u16
  mq_client_id :: "u8 list option"
  mq_username :: "u8 list option"
  mq_password :: "u8 list option"
  mq_keepalive_sec :: u16
  mq_clean_session :: bool
  mq_will_topic :: "u8 list option"
  mq_will_message :: "u8 list"
  mq_will_message_len :: u16
  mq_will_qos :: mqtt_qos
  mq_will_retained :: bool
  mq_timeout_ms :: u32
  mq_auto_reconnect :: bool
  mq_reconnect_interval_ms :: u32

record mqtt_subscription =
  ms_topic :: "u8 list"
  ms_qos :: mqtt_qos
  ms_active :: bool

record mqtt_client =
  mc_config :: mqtt_config
  mc_state :: mqtt_state
  mc_socket :: int
  mc_next_message_id :: u16
  mc_last_activity_ms :: u32
  mc_last_ping_ms :: u32
  mc_message_callback :: "(addr \<times> u32) option"
  mc_connection_callback :: "(addr \<times> u32) option"
  mc_subscriptions :: "nat \<Rightarrow> mqtt_subscription"
  mc_tx_buffer :: "u8 list"
  mc_rx_buffer :: "u8 list"
  mc_rx_buffer_pos :: u16
  mc_task_running :: bool

record 'd mqtts = "'d nets" +
  mc :: mqtt_client

type_synonym ('d, 'a) mstate = "('d, 'a) mqtts_scheme"
type_synonym ('d, 'a) mswitch = "addr \<Rightarrow> addr \<Rightarrow> ('d, 'a) mqtts_scheme \<Rightarrow> ('d, 'a) mqtts_scheme"

text \<open>What the application installs: the callbacks by their address, and the addresses of the client and its task.\<close>

record ('d, 'a) mqtt_env =
  me_message :: "addr \<Rightarrow> mqtt_message \<Rightarrow> u32 \<Rightarrow> ('d, 'a) mstate \<Rightarrow> ('d, 'a) mstate option"
  me_connection :: "addr \<Rightarrow> bool \<Rightarrow> u32 \<Rightarrow> ('d, 'a) mstate \<Rightarrow> ('d, 'a) mstate option"
  me_task :: addr
  me_task_func :: u32
  me_client :: u32

definition MQTT_MUTEX :: mutex_loc where "MQTT_MUTEX = MutexVar 530"

definition upd_mc :: "(mqtt_client \<Rightarrow> mqtt_client) \<Rightarrow> ('d, 'a) mqtts_scheme \<Rightarrow> ('d, 'a) mqtts_scheme" where
  "upd_mc f s = s\<lparr>mc := f (mc s)\<rparr>"

section \<open>Lengths and strings\<close>

definition mqtt_get_time_ms :: "'a kernel_scheme \<Rightarrow> u32" where
  "mqtt_get_time_ms s = os_get_uptime_ms s"

function mqtt_encode_remaining_length :: "u32 \<Rightarrow> u8 list" where
  "mqtt_encode_remaining_length len =
    (let byte = ucast (len mod 128);
         len = len div 128
     in if len > 0 then (byte OR 0x80) # mqtt_encode_remaining_length len else [byte])"
  by auto
termination
  by (relation "measure unat") (auto simp: unat_div word_less_nat_alt)

declare mqtt_encode_remaining_length.simps [simp del]

text \<open>The loop of \<^verbatim>\<open>mqtt_decode_remaining_length\<close>: the value and the number of bytes used.\<close>

fun decode_length_loop :: "u8 list \<Rightarrow> u32 \<Rightarrow> u32 \<Rightarrow> nat \<Rightarrow> (u32 \<times> nat) option" where
  "decode_length_loop [] multiplier value pos = None"
| "decode_length_loop (b # bs) multiplier value pos =
    (let value = value + ucast (b AND 0x7F) * multiplier;
         pos = pos + 1
     in if b AND 0x80 \<noteq> 0 \<and> pos < 4 then decode_length_loop bs (multiplier * 128) value pos else Some (value, pos))"

definition mqtt_decode_remaining_length :: "u8 list \<Rightarrow> (u32 \<times> nat) option" where
  "mqtt_decode_remaining_length buffer = decode_length_loop buffer 1 0 0"

definition mqtt_encode_string :: "u8 list option \<Rightarrow> u8 list" where
  "mqtt_encode_string str =
    (let len = (case str of None \<Rightarrow> 0 | Some s \<Rightarrow> (of_nat (length s) :: u16))
     in be16 len @ (case str of None \<Rightarrow> [] | Some s \<Rightarrow> take (unat len) s))"

definition mqtt_next_message_id :: "mqtt_client \<Rightarrow> u16 \<times> mqtt_client" where
  "mqtt_next_message_id c =
    (let n = mc_next_message_id c + 1;
         n = (if n = 0 then 1 else n)
     in (n, c\<lparr>mc_next_message_id := n\<rparr>))"

section \<open>Packets in and out\<close>

definition mqtt_send_packet ::
    "('d, 'a) mswitch \<Rightarrow> u8 list \<Rightarrow> ('d, 'a) mstate \<Rightarrow> (mqtt_error \<times> ('d, 'a) mstate) option" where
  "mqtt_send_packet cs data s =
    (if mc_state (mc s) \<noteq> MQTT_STATE_CONNECTED \<and> mc_state (mc s) \<noteq> MQTT_STATE_CONNECTING then Some (MQTT_ERROR_NOT_CONNECTED, s)
     else do {
       (sent, s) \<leftarrow> net_send cs (mc_socket (mc s)) data (mq_timeout_ms (mc_config (mc s))) s;
       Some (if sent \<noteq> int (length data) then (MQTT_ERROR_NETWORK, s)
             else (MQTT_OK, upd_mc (\<lambda>c. c\<lparr>mc_last_activity_ms := mqtt_get_time_ms s\<rparr>) s)) })"

text \<open>At most \<open>n\<close> bytes of the remaining length, each by a call of its own; \<open>None\<close> in the result is a failure of the network.\<close>

primrec receive_length ::
    "('d, 'a) mswitch \<Rightarrow> u32 \<Rightarrow> nat \<Rightarrow> u8 list \<Rightarrow> ('d, 'a) mstate \<Rightarrow> (u8 list option \<times> ('d, 'a) mstate) option" where
  "receive_length cs timeout_ms 0 header s = Some (Some header, s)"
| "receive_length cs timeout_ms (Suc n) header s = do {
     ((received, data), s) \<leftarrow> net_recv cs (mc_socket (mc s)) 1 timeout_ms s;
     (if received \<le> 0 then Some (None, s)
      else if data ! 0 AND 0x80 \<noteq> 0 then receive_length cs timeout_ms n (header @ [data ! 0]) s
      else Some (Some (header @ [data ! 0]), s)) }"

partial_function (option) receive_rest ::
    "('d, 'a) mswitch \<Rightarrow> u32 \<Rightarrow> nat \<Rightarrow> nat \<Rightarrow> ('d, 'a) mstate \<Rightarrow> (bool \<times> ('d, 'a) mstate) option" where
  "receive_rest cs timeout_ms remaining_length total_received s =
    (if total_received < remaining_length
     then do {
       ((received, data), s) \<leftarrow> net_recv cs (mc_socket (mc s)) (of_nat (remaining_length - total_received)) timeout_ms s;
       (if received \<le> 0 then Some (False, s)
        else receive_rest cs timeout_ms remaining_length (total_received + nat received)
               (upd_mc (\<lambda>c. c\<lparr>mc_rx_buffer := splice total_received data (mc_rx_buffer c)\<rparr>) s)) }
     else Some (True, s))"

definition received_packet :: "u8 \<Rightarrow> ('d, 'a) mstate \<Rightarrow> (mqtt_error \<times> u8 option) \<times> ('d, 'a) mstate" where
  "received_packet msg_type s =
    ((MQTT_OK, Some msg_type), upd_mc (\<lambda>c. c\<lparr>mc_last_activity_ms := mqtt_get_time_ms s\<rparr>) s)"

definition mqtt_receive_packet ::
    "('d, 'a) mswitch \<Rightarrow> u32 \<Rightarrow> ('d, 'a) mstate \<Rightarrow> ((mqtt_error \<times> u8 option) \<times> ('d, 'a) mstate) option" where
  "mqtt_receive_packet cs timeout_ms s = do {
     ((received, data), s) \<leftarrow> net_recv cs (mc_socket (mc s)) 1 timeout_ms s;
     (if received \<le> 0 then Some ((if received = 0 then MQTT_ERROR_TIMEOUT else MQTT_ERROR_NETWORK, None), s)
      else do {
        let msg_type = drop_bit 4 (data ! 0) AND 0x0F;
        (header, s) \<leftarrow> receive_length cs timeout_ms 4 [] s;
        (case header of
           None \<Rightarrow> Some ((MQTT_ERROR_NETWORK, Some msg_type), s)
         | Some header \<Rightarrow> do {
             (remaining_length, bytes_used) \<leftarrow> mqtt_decode_remaining_length header;
             (if remaining_length > 0
              then if unat remaining_length > MQTT_MAX_PACKET_SIZE then Some ((MQTT_ERROR_BUFFER_OVERFLOW, Some msg_type), s)
                   else do {
                     (ok, s) \<leftarrow> receive_rest cs timeout_ms (unat remaining_length) 0 s;
                     (if \<not> ok then Some ((MQTT_ERROR_NETWORK, Some msg_type), s)
                      else Some (received_packet msg_type (upd_mc (\<lambda>c. c\<lparr>mc_rx_buffer_pos := ucast remaining_length\<rparr>) s))) }
              else Some (received_packet msg_type s)) }) }) }"

section \<open>Sending\<close>

definition tx_store :: "nat \<Rightarrow> u8 list \<Rightarrow> u8 list \<Rightarrow> u8 list option" where
  "tx_store off bytes buf = (if off + length bytes \<le> MQTT_MAX_PACKET_SIZE then Some (splice off bytes buf) else None)"

definition connect_flags :: "mqtt_config \<Rightarrow> u8" where
  "connect_flags cfg =
    (let flags = (if mq_clean_session cfg then 0x02 else 0);
         flags = (if mq_will_topic cfg \<noteq> None
                  then flags OR 0x04 OR push_bit 3 (qos_num (mq_will_qos cfg) AND 0x03) OR (if mq_will_retained cfg then 0x20 else 0)
                  else flags);
         flags = (if mq_username cfg \<noteq> None then flags OR 0x80 else flags)
     in if mq_password cfg \<noteq> None then flags OR 0x40 else flags)"

definition connect_payload :: "mqtt_config \<Rightarrow> u8 list option" where
  "connect_payload cfg = do {
     (if mq_will_topic cfg \<noteq> None then avail (unat (mq_will_message_len cfg)) (mq_will_message cfg) else Some ());
     Some (mqtt_encode_string (Some (chars ''MQTT'')) @ [MQTT_PROTOCOL_VERSION_3_1_1, connect_flags cfg] @ be16 (mq_keepalive_sec cfg) @
       mqtt_encode_string (mq_client_id cfg) @
       (if mq_will_topic cfg \<noteq> None
        then mqtt_encode_string (mq_will_topic cfg) @ be16 (mq_will_message_len cfg) @ take (unat (mq_will_message_len cfg)) (mq_will_message cfg)
        else []) @
       (if mq_username cfg \<noteq> None then mqtt_encode_string (mq_username cfg) else []) @
       (if mq_password cfg \<noteq> None then mqtt_encode_string (mq_password cfg) else [])) }"

text \<open>The payload is written behind the room for the longest length field and then moved.\<close>

definition mqtt_send_connect :: "('d, 'a) mswitch \<Rightarrow> ('d, 'a) mstate \<Rightarrow> (mqtt_error \<times> ('d, 'a) mstate) option" where
  "mqtt_send_connect cs s = do {
     payload \<leftarrow> connect_payload (mc_config (mc s));
     buf \<leftarrow> tx_store 0 [push_bit 4 MQTT_MSG_TYPE_CONNECT] (mc_tx_buffer (mc s));
     buf \<leftarrow> tx_store 5 payload buf;
     let enc = mqtt_encode_remaining_length (of_nat (length payload));
     buf \<leftarrow> tx_store 1 enc buf;
     let buf = (if length enc \<noteq> 4 then splice (1 + length enc) payload buf else buf);
     let s = upd_mc (\<lambda>c. c\<lparr>mc_tx_buffer := buf\<rparr>) s;
     mqtt_send_packet cs (take (1 + length enc + length payload) buf) s }"

definition mqtt_send_disconnect :: "('d, 'a) mswitch \<Rightarrow> ('d, 'a) mstate \<Rightarrow> (mqtt_error \<times> ('d, 'a) mstate) option" where
  "mqtt_send_disconnect cs s = mqtt_send_packet cs [push_bit 4 MQTT_MSG_TYPE_DISCONNECT, 0] s"

definition mqtt_send_pingreq :: "('d, 'a) mswitch \<Rightarrow> ('d, 'a) mstate \<Rightarrow> (mqtt_error \<times> ('d, 'a) mstate) option" where
  "mqtt_send_pingreq cs s = mqtt_send_packet cs [push_bit 4 MQTT_MSG_TYPE_PINGREQ, 0] s"

text \<open>The other packets are written from the start of \<^verbatim>\<open>tx_buffer\<close> on.\<close>

definition send_from_buffer :: "('d, 'a) mswitch \<Rightarrow> u8 list \<Rightarrow> ('d, 'a) mstate \<Rightarrow> (mqtt_error \<times> ('d, 'a) mstate) option" where
  "send_from_buffer cs bytes s = do {
     buf \<leftarrow> tx_store 0 bytes (mc_tx_buffer (mc s));
     mqtt_send_packet cs (take (length bytes) buf) (upd_mc (\<lambda>c. c\<lparr>mc_tx_buffer := buf\<rparr>) s) }"

definition publish_packet :: "u8 list \<Rightarrow> u8 list \<Rightarrow> mqtt_qos \<Rightarrow> bool \<Rightarrow> u16 \<Rightarrow> u8 list" where
  "publish_packet topic payload qos retained message_id =
    (let flags = (if retained then 0x01 else 0) OR push_bit 1 (qos_num qos AND 0x03);
         topic_len = of_nat (length topic) :: u16;
         payload_len = of_nat (length payload) :: u16;
         remaining_length = 2 + ucast topic_len + ucast payload_len + (if qos \<noteq> MQTT_QOS_0 then 2 else 0)
     in [push_bit 4 MQTT_MSG_TYPE_PUBLISH OR flags] @ mqtt_encode_remaining_length remaining_length @ mqtt_encode_string (Some topic) @
        (if qos \<noteq> MQTT_QOS_0 then be16 message_id else []) @ take (unat payload_len) payload)"

definition mqtt_send_publish ::
    "('d, 'a) mswitch \<Rightarrow> u8 list \<Rightarrow> u8 list \<Rightarrow> mqtt_qos \<Rightarrow> bool \<Rightarrow> u16 \<Rightarrow> ('d, 'a) mstate \<Rightarrow> (mqtt_error \<times> ('d, 'a) mstate) option" where
  "mqtt_send_publish cs topic payload qos retained message_id s =
     send_from_buffer cs (publish_packet topic payload qos retained message_id) s"

definition subscribe_packet :: "u8 list \<Rightarrow> mqtt_qos \<Rightarrow> u16 \<Rightarrow> u8 list" where
  "subscribe_packet topic qos message_id =
    (let topic_len = of_nat (length topic) :: u16
     in [push_bit 4 MQTT_MSG_TYPE_SUBSCRIBE OR 0x02] @ mqtt_encode_remaining_length (5 + ucast topic_len) @ be16 message_id @
        mqtt_encode_string (Some topic) @ [qos_num qos])"

definition mqtt_send_subscribe ::
    "('d, 'a) mswitch \<Rightarrow> u8 list \<Rightarrow> mqtt_qos \<Rightarrow> ('d, 'a) mstate \<Rightarrow> (mqtt_error \<times> ('d, 'a) mstate) option" where
  "mqtt_send_subscribe cs topic qos s =
    (let (message_id, c) = mqtt_next_message_id (mc s)
     in send_from_buffer cs (subscribe_packet topic qos message_id) (s\<lparr>mc := c\<rparr>))"

definition unsubscribe_packet :: "u8 list \<Rightarrow> u16 \<Rightarrow> u8 list" where
  "unsubscribe_packet topic message_id =
    (let topic_len = of_nat (length topic) :: u16
     in [push_bit 4 MQTT_MSG_TYPE_UNSUBSCRIBE OR 0x02] @ mqtt_encode_remaining_length (4 + ucast topic_len) @ be16 message_id @
        mqtt_encode_string (Some topic))"

definition mqtt_send_unsubscribe :: "('d, 'a) mswitch \<Rightarrow> u8 list \<Rightarrow> ('d, 'a) mstate \<Rightarrow> (mqtt_error \<times> ('d, 'a) mstate) option" where
  "mqtt_send_unsubscribe cs topic s =
    (let (message_id, c) = mqtt_next_message_id (mc s)
     in send_from_buffer cs (unsubscribe_packet topic message_id) (s\<lparr>mc := c\<rparr>))"

section \<open>Handlers\<close>

definition call_connection :: "('d, 'a) mqtt_env \<Rightarrow> bool \<Rightarrow> ('d, 'a) mstate \<Rightarrow> ('d, 'a) mstate option" where
  "call_connection E connected s =
    (case mc_connection_callback (mc s) of None \<Rightarrow> Some s | Some (f, user_data) \<Rightarrow> me_connection E f connected user_data s)"

definition mqtt_handle_connack :: "('d, 'a) mqtt_env \<Rightarrow> ('d, 'a) mstate \<Rightarrow> (mqtt_error \<times> ('d, 'a) mstate) option" where
  "mqtt_handle_connack E s =
    (if mc_rx_buffer_pos (mc s) < 2 then Some (MQTT_ERROR_PROTOCOL, s)
     else if mc_rx_buffer (mc s) ! 1 = MQTT_CONNACK_ACCEPTED
     then do {
       s \<leftarrow> call_connection E True (upd_mc (\<lambda>c. c\<lparr>mc_state := MQTT_STATE_CONNECTED\<rparr>) s);
       Some (MQTT_OK, s) }
     else Some (MQTT_ERROR_BROKER_REFUSED, s))"

text \<open>The message in the receive buffer, or \<open>None\<close> when the packet is malformed; the topic ends at its first NUL.\<close>

definition publish_message :: "mqtt_client \<Rightarrow> mqtt_message option" where
  "publish_message c =
    (let rx = mc_rx_buffer c;
         topic_len = push_bit 8 (ucast (rx ! 0)) OR ucast (rx ! 1) :: u16;
         n = unat topic_len;
         payload_len = mc_rx_buffer_pos c - (2 + topic_len)
     in if n \<ge> MQTT_MAX_TOPIC_LENGTH \<or> 2 + n > unat (mc_rx_buffer_pos c) then None
        else Some \<lparr>mm_topic = c_string (take n (drop 2 rx)), mm_payload = take (unat payload_len) (drop (2 + n) rx),
                   mm_payload_length = payload_len, mm_qos = MQTT_QOS_0, mm_retained = False, mm_message_id = 0\<rparr>)"

definition mqtt_handle_publish :: "('d, 'a) mqtt_env \<Rightarrow> ('d, 'a) mstate \<Rightarrow> (mqtt_error \<times> ('d, 'a) mstate) option" where
  "mqtt_handle_publish E s =
    (case publish_message (mc s) of
       None \<Rightarrow> Some (MQTT_ERROR_PROTOCOL, s)
     | Some msg \<Rightarrow>
        (case mc_message_callback (mc s) of
           None \<Rightarrow> Some (MQTT_OK, s)
         | Some (f, user_data) \<Rightarrow> do { s \<leftarrow> me_message E f msg user_data s; Some (MQTT_OK, s) }))"

definition mqtt_handle_puback :: "mqtt_client \<Rightarrow> mqtt_error" where
  "mqtt_handle_puback c = MQTT_OK"

definition mqtt_handle_suback :: "mqtt_client \<Rightarrow> mqtt_error" where
  "mqtt_handle_suback c =
    (if mc_rx_buffer_pos c < 3 then MQTT_ERROR_PROTOCOL
     else if mc_rx_buffer c ! 2 = 0x80 then MQTT_ERROR_SUBSCRIBE_FAILED else MQTT_OK)"

function mqtt_topic_matches :: "u8 list \<Rightarrow> u8 list \<Rightarrow> bool" where
  "mqtt_topic_matches s t =
    (if s = [] \<or> t = [] then s = [] \<and> t = []
     else if hd s = 35 then True
     else if hd s = 43
     then let t = dropWhile (\<lambda>c. c \<noteq> 47) t;
              s = tl s
          in mqtt_topic_matches (if char_at s = 47 then tl s else s) t
     else if hd s = hd t then mqtt_topic_matches (tl s) (tl t)
     else False)"
  by auto
termination
  by (relation "measure (\<lambda>(s, t). length s)") auto

declare mqtt_topic_matches.simps [simp del]

section \<open>The public functions\<close>

definition zero_client :: "mqtt_config \<Rightarrow> mqtt_client" where
  "zero_client cfg = \<lparr>mc_config = cfg, mc_state = MQTT_STATE_DISCONNECTED, mc_socket = 0, mc_next_message_id = 0, mc_last_activity_ms = 0,
     mc_last_ping_ms = 0, mc_message_callback = None, mc_connection_callback = None,
     mc_subscriptions = (\<lambda>_. \<lparr>ms_topic = [], ms_qos = MQTT_QOS_0, ms_active = False\<rparr>),
     mc_tx_buffer = replicate MQTT_MAX_PACKET_SIZE 0, mc_rx_buffer = replicate MQTT_MAX_PACKET_SIZE 0, mc_rx_buffer_pos = 0,
     mc_task_running = False\<rparr>"

definition mqtt_defaults :: "mqtt_config \<Rightarrow> mqtt_config" where
  "mqtt_defaults cfg = cfg\<lparr>
     mq_broker_port := (if mq_broker_port cfg = 0 then MQTT_DEFAULT_PORT else mq_broker_port cfg),
     mq_keepalive_sec := (if mq_keepalive_sec cfg = 0 then MQTT_DEFAULT_KEEPALIVE else mq_keepalive_sec cfg),
     mq_timeout_ms := (if mq_timeout_ms cfg = 0 then MQTT_DEFAULT_TIMEOUT_MS else mq_timeout_ms cfg)\<rparr>"

text \<open>The client is given by its address or NULL; its task control block is zeroed with it.\<close>

definition mqtt_client_init ::
    "('d, 'a) mqtt_env \<Rightarrow> bool \<Rightarrow> mqtt_config option \<Rightarrow> ('d, 'a) mstate \<Rightarrow> mqtt_error \<times> ('d, 'a) mstate" where
  "mqtt_client_init E client config s =
    (case config of
       None \<Rightarrow> (MQTT_ERROR_INVALID_PARAM, s)
     | Some cfg \<Rightarrow>
        if \<not> client then (MQTT_ERROR_INVALID_PARAM, s)
        else
          let s = upd_task (me_task E) (\<lambda>_. zero_tcb) s;
              s = s\<lparr>mc := (zero_client (mqtt_defaults cfg))\<lparr>mc_next_message_id := 1\<rparr>\<rparr>
          in (MQTT_OK, os_mutex_init (Some MQTT_MUTEX) s))"

text \<open>The work of a function between taking and releasing the mutex of the client.\<close>

definition mqtt_locked ::
    "('d, 'a) mswitch \<Rightarrow> (('d, 'a) mstate \<Rightarrow> (mqtt_error \<times> ('d, 'a) mstate) option) \<Rightarrow> ('d, 'a) mstate \<Rightarrow>
     (mqtt_error \<times> ('d, 'a) mstate) option" where
  "mqtt_locked cs work s = do {
     (_, s) \<leftarrow> os_mutex_lock cs (Some MQTT_MUTEX) OS_WAIT_FOREVER s;
     (r, s) \<leftarrow> work s;
     (_, s) \<leftarrow> os_mutex_unlock cs (Some MQTT_MUTEX) s;
     Some (r, s) }"

text \<open>What every failure of \<^verbatim>\<open>mqtt_connect\<close> does once it has a socket.\<close>

definition give_up :: "mqtt_error \<Rightarrow> ('d, 'a) mstate \<Rightarrow> (mqtt_error \<times> ('d, 'a) mstate) option" where
  "give_up err s =
     Some (err, upd_mc (\<lambda>c. c\<lparr>mc_state := MQTT_STATE_DISCONNECTED\<rparr>) (upd_nt (\<lambda>x. snd (net_close (mc_socket (mc s)) x)) s))"

text \<open>The session on an open connection: CONNECT, CONNACK, and the background task.\<close>

definition mqtt_handshake ::
    "('d, 'a) mswitch \<Rightarrow> ('d, 'a) mqtt_env \<Rightarrow> ('d, 'a) mstate \<Rightarrow> (mqtt_error \<times> ('d, 'a) mstate) option" where
  "mqtt_handshake cs E s = do {
     (err, s) \<leftarrow> mqtt_send_connect cs s;
     (if err \<noteq> MQTT_OK then give_up err s
      else do {
        ((err, msg_type), s) \<leftarrow> mqtt_receive_packet cs (mq_timeout_ms (mc_config (mc s))) s;
        (if err \<noteq> MQTT_OK \<or> msg_type \<noteq> Some MQTT_MSG_TYPE_CONNACK
         then give_up (if err \<noteq> MQTT_OK then err else MQTT_ERROR_PROTOCOL) s
         else do {
           (err, s) \<leftarrow> mqtt_handle_connack E s;
           (if err \<noteq> MQTT_OK then give_up err s
            else do {
              let s = upd_mc (\<lambda>c. c\<lparr>mc_task_running := True\<rparr>) s;
              (_, s) \<leftarrow> os_task_create (Some (me_task E)) (Some ''mqtt'') (me_task_func E) (me_client E) PRIORITY_NORMAL s;
              Some (MQTT_OK, upd_mc (\<lambda>c. c\<lparr>mc_last_activity_ms := mqtt_get_time_ms s, mc_last_ping_ms := mqtt_get_time_ms s\<rparr>) s) }) }) }) }"

definition connect_work ::
    "('d, 'a) mswitch \<Rightarrow> ('d, 'a) mqtt_env \<Rightarrow> ('d, 'a) mstate \<Rightarrow> (mqtt_error \<times> ('d, 'a) mstate) option" where
  "connect_work cs E s =
    (if mc_state (mc s) \<noteq> MQTT_STATE_DISCONNECTED then Some (MQTT_ERROR_ALREADY_CONNECTED, s)
     else do {
       let s = upd_mc (\<lambda>c. c\<lparr>mc_state := MQTT_STATE_CONNECTING\<rparr>) s;
       (sock, s) \<leftarrow> net_socket cs SOCK_STREAM s;
       let s = upd_mc (\<lambda>c. c\<lparr>mc_socket := sock\<rparr>) s;
       (if sock < 0 then Some (MQTT_ERROR_NETWORK, upd_mc (\<lambda>c. c\<lparr>mc_state := MQTT_STATE_DISCONNECTED\<rparr>) s)
        else
          let cfg = mc_config (mc s);
              (err, ip) = net_dns_resolve (mq_broker_host cfg) (mq_timeout_ms cfg)
          in if err \<noteq> OS_OK then give_up MQTT_ERROR_NETWORK s
             else do {
               broker_ip \<leftarrow> ip;
               (err, s) \<leftarrow> net_connect cs sock (Some \<lparr>sa_addr = broker_ip, sa_port = mq_broker_port cfg\<rparr>) (mq_timeout_ms cfg) s;
               (if err \<noteq> OS_OK then give_up MQTT_ERROR_NETWORK s else mqtt_handshake cs E s) }) })"

definition mqtt_connect ::
    "('d, 'a) mswitch \<Rightarrow> ('d, 'a) mqtt_env \<Rightarrow> bool \<Rightarrow> ('d, 'a) mstate \<Rightarrow> (mqtt_error \<times> ('d, 'a) mstate) option" where
  "mqtt_connect cs E client s = (if \<not> client then Some (MQTT_ERROR_INVALID_PARAM, s) else mqtt_locked cs (connect_work cs E) s)"

definition disconnect_work ::
    "('d, 'a) mswitch \<Rightarrow> ('d, 'a) mqtt_env \<Rightarrow> ('d, 'a) mstate \<Rightarrow> (mqtt_error \<times> ('d, 'a) mstate) option" where
  "disconnect_work cs E s =
    (if mc_state (mc s) \<noteq> MQTT_STATE_CONNECTED then Some (MQTT_ERROR_NOT_CONNECTED, s)
     else do {
       let s = upd_mc (\<lambda>c. c\<lparr>mc_state := MQTT_STATE_DISCONNECTING, mc_task_running := False\<rparr>) s;
       (_, s) \<leftarrow> mqtt_send_disconnect cs s;
       let s = upd_nt (\<lambda>x. snd (net_close (mc_socket (mc s)) x)) s;
       s \<leftarrow> call_connection E False (upd_mc (\<lambda>c. c\<lparr>mc_state := MQTT_STATE_DISCONNECTED\<rparr>) s);
       Some (MQTT_OK, s) })"

definition mqtt_disconnect ::
    "('d, 'a) mswitch \<Rightarrow> ('d, 'a) mqtt_env \<Rightarrow> bool \<Rightarrow> ('d, 'a) mstate \<Rightarrow> (mqtt_error \<times> ('d, 'a) mstate) option" where
  "mqtt_disconnect cs E client s = (if \<not> client then Some (MQTT_ERROR_INVALID_PARAM, s) else mqtt_locked cs (disconnect_work cs E) s)"

definition mqtt_publish ::
    "('d, 'a) mswitch \<Rightarrow> bool \<Rightarrow> u8 list option \<Rightarrow> u8 list \<Rightarrow> mqtt_qos \<Rightarrow> bool \<Rightarrow> ('d, 'a) mstate \<Rightarrow>
     (mqtt_error \<times> ('d, 'a) mstate) option" where
  "mqtt_publish cs client topic payload qos retained s =
    (if \<not> client \<or> topic = None then Some (MQTT_ERROR_INVALID_PARAM, s)
     else mqtt_locked cs (\<lambda>s.
       if mc_state (mc s) \<noteq> MQTT_STATE_CONNECTED then Some (MQTT_ERROR_NOT_CONNECTED, s)
       else let (message_id, c) = (if qos \<noteq> MQTT_QOS_0 then mqtt_next_message_id (mc s) else (0, mc s))
            in mqtt_send_publish cs (the topic) payload qos retained message_id (s\<lparr>mc := c\<rparr>)) s)"

definition upd_subscription :: "nat \<Rightarrow> (mqtt_subscription \<Rightarrow> mqtt_subscription) \<Rightarrow> mqtt_client \<Rightarrow> mqtt_client" where
  "upd_subscription i f c = c\<lparr>mc_subscriptions := (mc_subscriptions c)(i := f (mc_subscriptions c i))\<rparr>"

definition mqtt_subscribe ::
    "('d, 'a) mswitch \<Rightarrow> bool \<Rightarrow> u8 list option \<Rightarrow> mqtt_qos \<Rightarrow> ('d, 'a) mstate \<Rightarrow> (mqtt_error \<times> ('d, 'a) mstate) option" where
  "mqtt_subscribe cs client topic qos s =
    (if \<not> client \<or> topic = None then Some (MQTT_ERROR_INVALID_PARAM, s)
     else mqtt_locked cs (\<lambda>s.
       if mc_state (mc s) \<noteq> MQTT_STATE_CONNECTED then Some (MQTT_ERROR_NOT_CONNECTED, s)
       else case find (\<lambda>i. \<not> ms_active (mc_subscriptions (mc s) i)) [0..<MQTT_MAX_SUBSCRIPTIONS] of
              None \<Rightarrow> Some (MQTT_ERROR_NO_MEMORY, s)
            | Some slot \<Rightarrow> do {
                (err, s) \<leftarrow> mqtt_send_subscribe cs (the topic) qos s;
                Some (err, if err = MQTT_OK
                           then upd_mc (upd_subscription slot (\<lambda>_. \<lparr>ms_topic = take (MQTT_MAX_TOPIC_LENGTH - 1) (the topic), ms_qos = qos, ms_active = True\<rparr>)) s
                           else s) }) s)"

definition mqtt_unsubscribe ::
    "('d, 'a) mswitch \<Rightarrow> bool \<Rightarrow> u8 list option \<Rightarrow> ('d, 'a) mstate \<Rightarrow> (mqtt_error \<times> ('d, 'a) mstate) option" where
  "mqtt_unsubscribe cs client topic s =
    (if \<not> client \<or> topic = None then Some (MQTT_ERROR_INVALID_PARAM, s)
     else mqtt_locked cs (\<lambda>s.
       if mc_state (mc s) \<noteq> MQTT_STATE_CONNECTED then Some (MQTT_ERROR_NOT_CONNECTED, s)
       else
         let s = (case find (\<lambda>i. ms_active (mc_subscriptions (mc s) i) \<and> ms_topic (mc_subscriptions (mc s) i) = the topic) [0..<MQTT_MAX_SUBSCRIPTIONS] of
                    None \<Rightarrow> s
                  | Some i \<Rightarrow> upd_mc (upd_subscription i (\<lambda>x. x\<lparr>ms_active := False\<rparr>)) s)
         in mqtt_send_unsubscribe cs (the topic) s) s)"

definition mqtt_set_message_callback :: "bool \<Rightarrow> (addr \<times> u32) option \<Rightarrow> mqtt_client \<Rightarrow> mqtt_client" where
  "mqtt_set_message_callback client cb c = (if client then c\<lparr>mc_message_callback := cb\<rparr> else c)"

definition mqtt_set_connection_callback :: "bool \<Rightarrow> (addr \<times> u32) option \<Rightarrow> mqtt_client \<Rightarrow> mqtt_client" where
  "mqtt_set_connection_callback client cb c = (if client then c\<lparr>mc_connection_callback := cb\<rparr> else c)"

definition mqtt_is_connected :: "bool \<Rightarrow> mqtt_client \<Rightarrow> bool" where
  "mqtt_is_connected client c \<longleftrightarrow> client \<and> mc_state c = MQTT_STATE_CONNECTED"

definition mqtt_get_state :: "bool \<Rightarrow> mqtt_client \<Rightarrow> mqtt_state" where
  "mqtt_get_state client c = (if client then mc_state c else MQTT_STATE_DISCONNECTED)"

definition mqtt_keepalive :: "('d, 'a) mswitch \<Rightarrow> ('d, 'a) mstate \<Rightarrow> ('d, 'a) mstate option" where
  "mqtt_keepalive cs s =
    (let now = mqtt_get_time_ms s;
         keepalive_ms = ucast (mq_keepalive_sec (mc_config (mc s))) * 1000
     in if now - mc_last_ping_ms (mc s) \<ge> keepalive_ms
        then do {
          (_, s) \<leftarrow> mqtt_send_pingreq cs s;
          Some (upd_mc (\<lambda>c. c\<lparr>mc_last_ping_ms := now\<rparr>) s) }
        else Some s)"

definition mqtt_loop ::
    "('d, 'a) mswitch \<Rightarrow> ('d, 'a) mqtt_env \<Rightarrow> bool \<Rightarrow> ('d, 'a) mstate \<Rightarrow> (mqtt_error \<times> ('d, 'a) mstate) option" where
  "mqtt_loop cs E client s =
    (if \<not> client \<or> mc_state (mc s) \<noteq> MQTT_STATE_CONNECTED then Some (MQTT_ERROR_NOT_CONNECTED, s)
     else do {
       s \<leftarrow> mqtt_keepalive cs s;
       ((err, msg_type), s) \<leftarrow> mqtt_receive_packet cs 100 s;
       (if err = MQTT_ERROR_TIMEOUT then Some (MQTT_OK, s)
        else if err \<noteq> MQTT_OK then Some (err, s)
        else if msg_type = Some MQTT_MSG_TYPE_PUBLISH then mqtt_handle_publish E s
        else if msg_type = Some MQTT_MSG_TYPE_PUBACK then Some (mqtt_handle_puback (mc s), s)
        else if msg_type = Some MQTT_MSG_TYPE_SUBACK then Some (mqtt_handle_suback (mc s), s)
        else Some (MQTT_OK, s)) })"

text \<open>One round of the background task; the flag tells whether the loop was entered.\<close>

definition mqtt_task_round ::
    "('d, 'a) mswitch \<Rightarrow> ('d, 'a) mqtt_env \<Rightarrow> ('d, 'a) mstate \<Rightarrow> (bool \<times> ('d, 'a) mstate) option" where
  "mqtt_task_round cs E s =
    (if mc_task_running (mc s)
     then do {
       (_, s) \<leftarrow> mqtt_loop cs E True s;
       s \<leftarrow> os_task_delay cs 10 s;
       Some (True, s) }
     else Some (False, s))"

primrec mqtt_error_to_string :: "mqtt_error \<Rightarrow> string" where
  "mqtt_error_to_string MQTT_OK = ''OK''"
| "mqtt_error_to_string MQTT_ERROR_INVALID_PARAM = ''Invalid parameter''"
| "mqtt_error_to_string MQTT_ERROR_NOT_CONNECTED = ''Not connected''"
| "mqtt_error_to_string MQTT_ERROR_ALREADY_CONNECTED = ''Already connected''"
| "mqtt_error_to_string MQTT_ERROR_NETWORK = ''Network error''"
| "mqtt_error_to_string MQTT_ERROR_TIMEOUT = ''Timeout''"
| "mqtt_error_to_string MQTT_ERROR_PROTOCOL = ''Protocol error''"
| "mqtt_error_to_string MQTT_ERROR_BUFFER_OVERFLOW = ''Buffer overflow''"
| "mqtt_error_to_string MQTT_ERROR_BROKER_REFUSED = ''Broker refused connection''"
| "mqtt_error_to_string MQTT_ERROR_SUBSCRIBE_FAILED = ''Subscribe failed''"
| "mqtt_error_to_string MQTT_ERROR_PUBLISH_FAILED = ''Publish failed''"
| "mqtt_error_to_string MQTT_ERROR_NO_MEMORY = ''No memory''"

primrec mqtt_state_to_string :: "mqtt_state \<Rightarrow> string" where
  "mqtt_state_to_string MQTT_STATE_DISCONNECTED = ''Disconnected''"
| "mqtt_state_to_string MQTT_STATE_CONNECTING = ''Connecting''"
| "mqtt_state_to_string MQTT_STATE_CONNECTED = ''Connected''"
| "mqtt_state_to_string MQTT_STATE_DISCONNECTING = ''Disconnecting''"

end
