(* ===== verification/Mqtt_Spec.thy ===== *)
theory Mqtt_Spec
  imports Mqtt Net_Spec
begin

text \<open>
  Properties of the MQTT client: the codec of lengths and messages, the matching of topics, and
  what connecting and disconnecting do.
\<close>

section \<open>Remaining length\<close>

lemma length_byte:
  fixes n :: u32
  defines "b \<equiv> ucast (n mod 128) :: u8"
  shows "(b OR 0x80) AND 0x7F = b" "b AND 0x7F = b" "(b OR 0x80) AND 0x80 \<noteq> 0" "b AND 0x80 = 0" "ucast b = n mod 128"
proof -
  have m: "n mod 128 = take_bit 7 n" by (simp add: take_bit_eq_mod)
  have b: "bit b i \<longleftrightarrow> i < 7 \<and> bit n i" for i by (auto simp: b_def m bit_ucast_iff bit_take_bit_iff dest: bit_imp_le_length)
  have "(0x7F :: u8) = mask 7" "(0x80 :: u8) = push_bit 7 1" by (simp_all add: mask_eq_exp_minus_1 push_bit_eq_mult)
  then have k: "bit (0x7F :: u8) i \<longleftrightarrow> i < 7" "bit (0x80 :: u8) i \<longleftrightarrow> i = 7" for i
    by (simp_all only: bit_mask_iff bit_push_bit_iff bit_1_iff) auto
  show "(b OR 0x80) AND 0x7F = b" "b AND 0x7F = b" "b AND 0x80 = 0"
    by (rule bit_word_eqI; simp only: k b bit_or_iff bit_and_iff bit_0_eq bot_apply; auto)+
  have "bit ((b OR 0x80) AND 0x80) 7" by (simp only: k bit_or_iff bit_and_iff simp_thms)
  then show "(b OR 0x80) AND 0x80 \<noteq> 0" by (auto simp only: bit_0_eq bot_apply bot_bool_def)
  show "ucast b = n mod 128"
    by (rule bit_word_eqI) (auto simp: b m bit_ucast_iff bit_take_bit_iff)
qed

lemma decode_encode_loop:
  "unat n < 128 ^ (4 - pos) \<Longrightarrow> pos < 4 \<Longrightarrow>
   decode_length_loop (mqtt_encode_remaining_length n @ rest) m v pos = Some (v + n * m, pos + length (mqtt_encode_remaining_length n))"
proof (induction n arbitrary: m v pos rule: mqtt_encode_remaining_length.induct)
  case (1 n)
  note b = length_byte [of n]
  have n: "n div 128 * 128 + n mod 128 = n" by (rule div_mult_mod_eq)
  show ?case
  proof (cases "0 < n div 128")
    case True
    have enc: "mqtt_encode_remaining_length n = (ucast (n mod 128) OR 0x80) # mqtt_encode_remaining_length (n div 128)"
      using True by (subst mqtt_encode_remaining_length.simps) (simp add: Let_def)
    have ge: "128 \<le> unat n" using True by (simp add: word_less_nat_alt unat_div div_greater_zero_iff)
    have pos: "pos + 1 < 4"
    proof (rule ccontr)
      assume "\<not> pos + 1 < 4"
      then have "4 - pos = 1" using "1.prems"(2) by simp
      then show False using "1.prems"(1) ge by simp
    qed
    have "(128 :: nat) ^ (4 - pos) = 128 * 128 ^ (4 - (pos + 1))" using pos by (simp flip: power_Suc add: Suc_diff_Suc)
    then have lt: "unat (n div 128) < 128 ^ (4 - (pos + 1))" using "1.prems"(1) by (simp add: unat_div less_mult_imp_div_less mult.commute)
    have eq: "v + (n mod 128) * m + n div 128 * (m * 128) = v + n * m"
    proof -
      have "v + (n mod 128) * m + n div 128 * (m * 128) = v + (n div 128 * 128 + n mod 128) * m" by (simp only: algebra_simps)
      then show ?thesis unfolding n .
    qed
    have step: "decode_length_loop ((ucast (n mod 128) OR 0x80) # xs) m v pos = decode_length_loop xs (m * 128) (v + (n mod 128) * m) (pos + 1)" for xs
      using b(1,3,5) pos by (simp add: Let_def)
    show ?thesis
      unfolding enc append_Cons step "1.IH" [OF refl refl True lt pos, of "m * 128" "v + (n mod 128) * m"] eq by simp
  next
    case False
    then have z: "n div 128 = 0" by (simp add: word_gt_0)
    then have m: "n mod 128 = n" using n by simp
    have enc: "mqtt_encode_remaining_length n = [ucast (n mod 128)]"
      using z by (subst mqtt_encode_remaining_length.simps) (simp add: Let_def)
    have "decode_length_loop ([ucast (n mod 128)] @ rest) m v pos = Some (v + (n mod 128) * m, pos + 1)"
      using b(2,4,5) by (simp add: Let_def)
    then show ?thesis unfolding enc by (simp only: m list.size One_nat_def add_0)
  qed
qed

text \<open>C35. The remaining length of a packet, up to the 268,435,455 that MQTT allows, is decoded to
  the number that was encoded, and exactly the bytes of the encoding are used.\<close>

theorem remaining_length_round_trip:
  assumes "unat n < 268435456"
  shows "mqtt_decode_remaining_length (mqtt_encode_remaining_length n @ rest) = Some (n, length (mqtt_encode_remaining_length n))"
  using decode_encode_loop [of n 0 rest 1 0] assms by (simp add: mqtt_decode_remaining_length_def)

theorem remaining_length_round_trip_witness:
  "mqtt_decode_remaining_length (mqtt_encode_remaining_length 321 @ [7]) = Some (321, length (mqtt_encode_remaining_length 321))"
  by (rule remaining_length_round_trip) simp

section \<open>Messages\<close>

lemma be16_words: "push_bit 8 (ucast (be16 w ! 0)) OR ucast (be16 w ! 1) = w" "length (be16 w) = 2"
proof -
  show "push_bit 8 (ucast (be16 w ! 0)) OR ucast (be16 w ! 1) = w"
    by (rule bit_word_eqI) (auto simp: be16_def bit_or_iff bit_push_bit_iff bit_ucast_iff bit_drop_bit_eq)
qed (simp add: be16_def)

text \<open>A packet that was built, split by the length field as \<^verbatim>\<open>mqtt_receive_packet\<close> splits it.\<close>

lemma publish_packet_split:
  fixes topic payload qos retained message_id
  assumes n: "length topic + length payload < 60000"
  defines "p \<equiv> publish_packet topic payload qos retained message_id"
    and "body \<equiv> be16 (of_nat (length topic)) @ topic @ (if qos \<noteq> MQTT_QOS_0 then be16 message_id else []) @ payload"
  obtains k where "mqtt_decode_remaining_length (tl p) = Some (of_nat (length body), k)" "drop (1 + k) p = body" "length body \<le> 4 + length topic + length payload"
proof -
  define r :: u32 where
    "r = 2 + ucast (of_nat (length topic) :: u16) + ucast (of_nat (length payload) :: u16) + (if qos \<noteq> MQTT_QOS_0 then 2 else 0)"
  have u: "unat (of_nat (length topic) :: u16) = length topic" "unat (of_nat (length payload) :: u16) = length payload"
    using n by (simp_all add: unat_of_nat_u16)
  have w: "ucast (of_nat (length topic) :: u16) = (of_nat (length topic) :: u32)" "ucast (of_nat (length payload) :: u16) = (of_nat (length payload) :: u32)"
    using n by (simp_all add: unsigned_of_nat take_bit_nat_eq_self)
  have lb: "length body = 2 + length topic + length payload + (if qos \<noteq> MQTT_QOS_0 then 2 else 0)"
    by (simp add: body_def be16_words)
  then have r: "r = of_nat (length body)" by (simp add: r_def w)
  have tl: "tl p = mqtt_encode_remaining_length r @ body"
    by (simp add: p_def publish_packet_def Let_def mqtt_encode_string_def u body_def r_def)
  have small: "length body < 268435456" using lb n by simp
  then have "unat r < 268435456" unfolding r by (simp add: unsigned_of_nat take_bit_nat_eq_self)
  then have dec: "mqtt_decode_remaining_length (tl p) = Some (r, length (mqtt_encode_remaining_length r))"
    unfolding tl mqtt_decode_remaining_length_def using decode_encode_loop [of r 0 body 1 0] by simp
  have dr: "drop (1 + length (mqtt_encode_remaining_length r)) p = body" using tl by (cases p) simp_all
  have le: "length body \<le> 4 + length topic + length payload" using lb by simp
  show ?thesis by (rule that [OF dec [unfolded r] dr [unfolded r] le])
qed

lemma publish_message_at:
  assumes n: "length topic < 128" "0 \<notin> set topic" "2 + length topic + length rest < 65536"
    and c: "mc_rx_buffer c = be16 (of_nat (length topic)) @ topic @ rest @ junk" "mc_rx_buffer_pos c = of_nat (2 + length topic + length rest)"
  shows "\<exists>msg. publish_message c = Some msg \<and> mm_topic msg = topic \<and> mm_payload msg = rest \<and> mm_qos msg = MQTT_QOS_0"
proof -
  let ?t = "of_nat (length topic) :: u16"
  have t: "unat ?t = length topic" using n by (simp add: unat_of_nat_u16)
  have p: "unat (mc_rx_buffer_pos c) = 2 + length topic + length rest" unfolding c(2) by (rule unat_of_nat_u16 [OF n(3)])
  have pl: "mc_rx_buffer_pos c - (2 + ?t) = of_nat (length rest)" unfolding c(2) by simp
  have r: "unat (of_nat (length rest) :: u16) = length rest" using n(3) by (simp add: unat_of_nat_u16)
  have hd: "push_bit 8 (ucast (mc_rx_buffer c ! 0)) OR ucast (mc_rx_buffer c ! 1) = ?t"
    using be16_words [of ?t] by (simp add: c nth_append)
  have d: "take (length topic) (drop 2 (mc_rx_buffer c)) = topic" "take (length rest) (drop (2 + length topic) (mc_rx_buffer c)) = rest"
    using be16_words(2) [of ?t] by (simp_all add: c)
  have s: "c_string topic = topic" using n(2) by (auto simp: c_string_def)
  show ?thesis
    unfolding publish_message_def Let_def hd t pl r d s using n(1) p by (simp add: MQTT_MAX_TOPIC_LENGTH_def)
qed

text \<open>C36. What one client publishes another one receives: split at the length field and placed in the
  receive buffer, the packet gives the topic and the payload that were published. With QoS above
  zero the message identifier is taken for the first two bytes of the payload.\<close>

theorem publish_received:
  assumes n: "length topic < 128" "0 \<notin> set topic" "length topic + length payload \<le> 1020"
  shows "\<exists>k body. mqtt_decode_remaining_length (tl (publish_packet topic payload qos retained message_id)) = Some (of_nat (length body), k) \<and>
    drop (1 + k) (publish_packet topic payload qos retained message_id) = body \<and>
    (\<forall>c junk. mc_rx_buffer c = body @ junk \<and> mc_rx_buffer_pos c = of_nat (length body) \<longrightarrow>
      (\<exists>msg. publish_message c = Some msg \<and> mm_topic msg = topic \<and>
        mm_payload msg = (if qos = MQTT_QOS_0 then payload else be16 message_id @ payload) \<and> mm_qos msg = MQTT_QOS_0))"
proof -
  let ?x = "if qos \<noteq> MQTT_QOS_0 then be16 message_id else []"
  let ?body = "be16 (of_nat (length topic)) @ topic @ ?x @ payload"
  have less: "length topic + length payload < 60000" using n(3) by simp
  obtain k where k: "mqtt_decode_remaining_length (tl (publish_packet topic payload qos retained message_id)) = Some (of_nat (length ?body), k)"
      "drop (1 + k) (publish_packet topic payload qos retained message_id) = ?body" "length ?body \<le> 4 + length topic + length payload"
    by (rule publish_packet_split [OF less, of qos retained message_id])
  have rcv: "\<exists>msg. publish_message c = Some msg \<and> mm_topic msg = topic \<and> mm_payload msg = ?x @ payload \<and> mm_qos msg = MQTT_QOS_0"
    if c: "mc_rx_buffer c = ?body @ junk" "mc_rx_buffer_pos c = of_nat (length ?body)" for c junk
  proof -
    have len: "length ?body = 2 + length topic + length (?x @ payload)" by (simp add: be16_words)
    then have small: "2 + length topic + length (?x @ payload) < 65536" using k(3) n(3) by linarith
    have "mc_rx_buffer c = be16 (of_nat (length topic)) @ topic @ (?x @ payload) @ junk" unfolding c(1) by (simp only: append_assoc)
    then show ?thesis by (rule publish_message_at [OF n(1,2) small _ c(2) [unfolded len]])
  qed
  have x: "?x @ payload = (if qos = MQTT_QOS_0 then payload else be16 message_id @ payload)" by simp
  show ?thesis
  proof (rule exI [of _ k], rule exI [of _ ?body], intro conjI allI impI)
    show "mqtt_decode_remaining_length (tl (publish_packet topic payload qos retained message_id)) = Some (of_nat (length ?body), k)" by (rule k(1))
    show "drop (1 + k) (publish_packet topic payload qos retained message_id) = ?body" by (rule k(2))
    fix c :: mqtt_client and junk assume c: "mc_rx_buffer c = ?body @ junk \<and> mc_rx_buffer_pos c = of_nat (length ?body)"
    show "\<exists>msg. publish_message c = Some msg \<and> mm_topic msg = topic \<and>
        mm_payload msg = (if qos = MQTT_QOS_0 then payload else be16 message_id @ payload) \<and> mm_qos msg = MQTT_QOS_0"
      using rcv [OF conjunct1 [OF c] conjunct2 [OF c]] unfolding x .
  qed
qed

theorem publish_received_witness:
  "\<exists>k body. mqtt_decode_remaining_length (tl (publish_packet [97, 47, 98] [1, 2] MQTT_QOS_0 False 0)) = Some (of_nat (length body), k) \<and>
    drop (1 + k) (publish_packet [97, 47, 98] [1, 2] MQTT_QOS_0 False 0) = body"
  using publish_received [of "[97, 47, 98]" "[1, 2]" MQTT_QOS_0 False 0] by auto

section \<open>Topics\<close>

text \<open>Plain characters at the start of a filter have to agree with the topic; what follows them.\<close>

lemma topic_prefix:
  assumes "35 \<notin> set s" and "43 \<notin> set s"
  shows "mqtt_topic_matches (s @ f) t \<longleftrightarrow> (\<exists>u. t = s @ u \<and> mqtt_topic_matches f u)"
  using assms
proof (induction s arbitrary: t)
  case (Cons a s)
  show ?case using Cons by (cases t) (simp_all add: mqtt_topic_matches.simps [of "a # s @ f"])
qed simp

lemma topic_step:
  "mqtt_topic_matches [] u \<longleftrightarrow> u = []"
  "mqtt_topic_matches (35 # r) u \<longleftrightarrow> u \<noteq> []"
  "mqtt_topic_matches [43] u \<longleftrightarrow> u \<noteq> [] \<and> 47 \<notin> set u"
  "mqtt_topic_matches (43 # 47 # r) u \<longleftrightarrow> u \<noteq> [] \<and> mqtt_topic_matches r (dropWhile (\<lambda>c. c \<noteq> 47) u)"
proof -
  show e: "mqtt_topic_matches [] v \<longleftrightarrow> v = []" for v by (subst mqtt_topic_matches.simps) auto
  show "mqtt_topic_matches (35 # r) u \<longleftrightarrow> u \<noteq> []" by (subst mqtt_topic_matches.simps) auto
  show "mqtt_topic_matches [43] u \<longleftrightarrow> u \<noteq> [] \<and> 47 \<notin> set u"
    by (subst mqtt_topic_matches.simps) (auto simp: char_at_def e)
  show "mqtt_topic_matches (43 # 47 # r) u \<longleftrightarrow> u \<noteq> [] \<and> mqtt_topic_matches r (dropWhile (\<lambda>c. c \<noteq> 47) u)"
    by (subst mqtt_topic_matches.simps) (simp add: char_at_def)
qed

text \<open>No topic matches a plain character that is compared with the separator of the topic.\<close>

lemma topic_stuck:
  assumes "c \<notin> {35, 43, 47}"
  shows "\<not> mqtt_topic_matches (c # r) (dropWhile (\<lambda>c. c \<noteq> 47) u)"
proof (cases "dropWhile (\<lambda>c. c \<noteq> 47) u")
  case Nil
  then show ?thesis by (subst mqtt_topic_matches.simps) simp
next
  case (Cons d v)
  then have "d = 47" using hd_dropWhile [of "\<lambda>c. c \<noteq> 47" u] by simp
  then show ?thesis using assms Cons by (subst mqtt_topic_matches.simps) simp
qed

text \<open>C37. The matching of topics, for a filter that starts with the plain text \<open>s\<close>. Without more, it
  matches exactly the topic \<open>s\<close>. With the multi-level wildcard next, it matches exactly the topics that
  continue \<open>s\<close> by at least one character, so \<^verbatim>\<open>a/#\<close> does not match \<^verbatim>\<open>a\<close>. With a single-level wildcard
  at the end, exactly those that continue \<open>s\<close> by one non-empty level. After a single-level wildcard and a
  separator, the rest of the filter is compared with the topic from its own separator on; if this
  rest starts with a character that is neither a wildcard nor a separator, no topic matches at all.\<close>

theorem topic_matching:
  assumes "35 \<notin> set s" and "43 \<notin> set s"
  shows "(mqtt_topic_matches s t \<longleftrightarrow> t = s) \<and>
    (mqtt_topic_matches (s @ 35 # r) t \<longleftrightarrow> (\<exists>u. u \<noteq> [] \<and> t = s @ u)) \<and>
    (mqtt_topic_matches (s @ [43]) t \<longleftrightarrow> (\<exists>u. u \<noteq> [] \<and> 47 \<notin> set u \<and> t = s @ u)) \<and>
    (mqtt_topic_matches (s @ 43 # 47 # r) t \<longleftrightarrow>
      (\<exists>u. u \<noteq> [] \<and> t = s @ u \<and> mqtt_topic_matches r (dropWhile (\<lambda>c. c \<noteq> 47) u))) \<and>
    (c \<notin> {35, 43, 47} \<longrightarrow> \<not> mqtt_topic_matches (s @ 43 # 47 # c # r) t)"
proof (intro conjI impI)
  note p = topic_prefix [OF assms]
  show "mqtt_topic_matches s t \<longleftrightarrow> t = s" using p [of "[]" t] by (simp add: topic_step)
  show "mqtt_topic_matches (s @ 35 # r) t \<longleftrightarrow> (\<exists>u. u \<noteq> [] \<and> t = s @ u)"
    "mqtt_topic_matches (s @ [43]) t \<longleftrightarrow> (\<exists>u. u \<noteq> [] \<and> 47 \<notin> set u \<and> t = s @ u)"
    "mqtt_topic_matches (s @ 43 # 47 # r) t \<longleftrightarrow>
      (\<exists>u. u \<noteq> [] \<and> t = s @ u \<and> mqtt_topic_matches r (dropWhile (\<lambda>c. c \<noteq> 47) u))"
    unfolding p topic_step by blast+
  show "\<not> mqtt_topic_matches (s @ 43 # 47 # c # r) t" if "c \<notin> {35, 43, 47}"
    unfolding p topic_step using topic_stuck [OF that] by blast
qed

theorem topic_matching_witness:
  "mqtt_topic_matches (chars ''a/#'') (chars ''a/b'') \<and> \<not> mqtt_topic_matches (chars ''a/#'') (chars ''a'') \<and>
   mqtt_topic_matches (chars ''a/+'') (chars ''a/b'') \<and> \<not> mqtt_topic_matches (chars ''a/+/c'') (chars ''a/b/c'') \<and>
   mqtt_topic_matches (chars ''+/#'') (chars ''a/b'')"
  using topic_matching [of "chars ''a/''" "chars ''a/b''" "[]" 99] topic_matching [of "chars ''a/''" "chars ''a''" "[]" 99]
    topic_matching [of "chars ''a/''" "chars ''a/b/c''" "[]" 99] topic_matching [of "[]" "chars ''a/b''" "[35]" 99]
  by (simp add: chars_def topic_step)

section \<open>Connecting and disconnecting\<close>

text \<open>Other tasks use neither the stack nor the client while the caller is switched out.\<close>

definition leaves_mqtt :: "('d, 'a) mswitch \<Rightarrow> bool" where
  "leaves_mqtt cs \<longleftrightarrow> (\<forall>old new s. nt (cs old new s) = nt s \<and> mc (cs old new s) = mc s \<and>
     mutex_at SOCKET_MUTEX (cs old new s) = mutex_at SOCKET_MUTEX s \<and> mutex_at MQTT_MUTEX (cs old new s) = mutex_at MQTT_MUTEX s)"

lemma mc_updates [simp]:
  "mc (upd_mutex m f s) = mc s" "mc (mutex_acquire m c s) = mc s" "mc (upd_nt g s) = mc s" "mc (upd_mc h s) = h (mc s)"
  "nt (upd_mc h s) = nt s" "mutex_at m (upd_mc h s) = mutex_at m s" "on_cpu c (upd_mc h s) \<longleftrightarrow> on_cpu c s"
proof -
  show *: "mc (upd_mutex m f s) = mc s" for f and s :: "('a, 'b) mqtts_scheme" by (cases m) simp_all
  show "mc (mutex_acquire m c s) = mc s" by (simp add: mutex_acquire_def Let_def *)
  show "mutex_at m (upd_mc h s) = mutex_at m s" by (cases m) (simp_all add: upd_mc_def)
  show "on_cpu c (upd_mc h s) \<longleftrightarrow> on_cpu c s" by (rule on_cpu_kernel; simp add: upd_mc_def sched_rel_def nexts_def [abs_def])
qed (simp_all add: upd_nt_def upd_mc_def)

lemma mutexes_apart [simp]:
  "mutex_at MQTT_MUTEX (upd_mutex SOCKET_MUTEX f s) = mutex_at MQTT_MUTEX s"
  "mutex_at SOCKET_MUTEX (upd_mutex MQTT_MUTEX f s) = mutex_at SOCKET_MUTEX s"
  "mutex_at SOCKET_MUTEX (mutex_acquire MQTT_MUTEX c s) = mutex_at SOCKET_MUTEX s"
  by (simp_all add: MQTT_MUTEX_def SOCKET_MUTEX_def mutex_acquire_def Let_def)

lemma mqtt_view_stable:
  fixes cs :: "('d, 'a) mswitch"
  assumes "leaves_mqtt cs"
  shows "obj_stable (\<lambda>s. nt s = x \<and> mutex_at SOCKET_MUTEX s = y \<and> (mc s, mutex_at MQTT_MUTEX s) = v) cs"
    and "obj_stable (\<lambda>s. mc s = c) cs"
proof -
  have more: "nt s' = nt s" "mc s' = mc s" if "kernel.more s = kernel.more s'" for s s' :: "('d, 'a) mqtts_scheme"
    using that by (cases s; cases s'; simp)+
  show "obj_stable (\<lambda>s. nt s = x \<and> mutex_at SOCKET_MUTEX s = y \<and> (mc s, mutex_at MQTT_MUTEX s) = v) cs"
    unfolding obj_stable_def
  proof (intro conjI allI impI)
    fix s s' :: "('d, 'a) mqtts_scheme"
    assume m: "kernel.more s = kernel.more s'" and "nt s = x \<and> mutex_at SOCKET_MUTEX s = y \<and> (mc s, mutex_at MQTT_MUTEX s) = v"
    moreover note more [OF m] more_objects(7) [OF m]
    ultimately show "nt s' = x" "mutex_at SOCKET_MUTEX s' = y" "(mc s', mutex_at MQTT_MUTEX s') = v" by simp_all
  qed (use assms in \<open>simp_all add: leaves_mqtt_def\<close>)
  show "obj_stable (\<lambda>s. mc s = c) cs"
    unfolding obj_stable_def
  proof (intro conjI allI impI)
    fix s s' :: "('d, 'a) mqtts_scheme"
    assume "kernel.more s = kernel.more s'" "mc s = c"
    from more(2) [OF this(1)] this(2) show "mc s' = c" by (rule trans)
  qed (use assms in \<open>simp_all add: leaves_mqtt_def\<close>)
qed

text \<open>The work of \<^verbatim>\<open>mqtt_connect\<close> while the client is locked.\<close>

lemma connect_work_at_once:
  fixes s :: "('d, 'a) mqtts_scheme"
  assumes on: "on_cpu c s" and cs: "resumes cs" and lv: "leaves_mqtt cs" and free: "\<not> m_locked (mutex_at SOCKET_MUTEX s)"
    and st: "mc_state (mc s) = MQTT_STATE_DISCONNECTED"
  obtains s' where "connect_work cs E s = Some (MQTT_ERROR_NETWORK, s')" "on_cpu c s'" "mutex_at MQTT_MUTEX s' = mutex_at MQTT_MUTEX s"
    "mc_state (mc s') = MQTT_STATE_DISCONNECTED"
proof -
  let ?s = "upd_mc (\<lambda>c. c\<lparr>mc_state := MQTT_STATE_CONNECTING\<rparr>) s"
  have on1: "on_cpu c ?s" and free1: "\<not> m_locked (mutex_at SOCKET_MUTEX ?s)" using on free by simp_all
  obtain s1 now where s1: "nt_locked cs SOCKET_MUTEX (socket_open SOCK_STREAM) ?s = Some (fst (socket_open SOCK_STREAM now (nt ?s)), s1)"
      "on_cpu c s1" "(mc s1, mutex_at MQTT_MUTEX s1) = (mc ?s, mutex_at MQTT_MUTEX ?s)"
    by (rule nt_locked_view [OF on1 free1 cs mqtt_view_stable(1) [OF lv], of "socket_open SOCK_STREAM"]) (simp_all add: MQTT_MUTEX_def SOCKET_MUTEX_def)
  define sock where "sock = fst (socket_open SOCK_STREAM now (nt ?s))"
  let ?t = "upd_mc (\<lambda>c. c\<lparr>mc_socket := sock\<rparr>) s1"
  let ?u = "if sock < 0 then ?t else upd_nt (\<lambda>x. snd (net_close sock x)) ?t"
  have "connect_work cs E s = Some (MQTT_ERROR_NETWORK, upd_mc (\<lambda>c. c\<lparr>mc_state := MQTT_STATE_DISCONNECTED\<rparr>) ?u)"
    using s1(1) [folded sock_def] st by (simp add: connect_work_def net_socket_def net_dns_resolve_def give_up_def)
  then show ?thesis by (rule that) (use s1(2,3) in simp_all)
qed

text \<open>C38. No client is ever connected: the host name of the broker goes to \<^verbatim>\<open>net_dns_resolve\<close>, which
  always fails, so that a client that is not connected gets \<^verbatim>\<open>MQTT_ERROR_NETWORK\<close> from every call of
  \<^verbatim>\<open>mqtt_connect\<close>, with whatever broker, and stays disconnected.\<close>

theorem mqtt_connect_fails:
  fixes s :: "('d, 'a) mqtts_scheme"
  assumes on: "on_cpu c s" and cs: "resumes cs" and lv: "leaves_mqtt cs"
    and free: "\<not> m_locked (mutex_at MQTT_MUTEX s)" "\<not> m_locked (mutex_at SOCKET_MUTEX s)"
    and st: "mc_state (mc s) = MQTT_STATE_DISCONNECTED"
  shows "\<exists>s'. mqtt_connect cs E True s = Some (MQTT_ERROR_NETWORK, s') \<and> mc_state (mc s') = MQTT_STATE_DISCONNECTED"
proof -
  let ?s = "(mutex_acquire MQTT_MUTEX c (s\<lparr>k_primask := 1\<rparr>))\<lparr>k_primask := k_primask s\<rparr>"
  note lock = lock_at_once [OF on free(1)]
  have s: "on_cpu c ?s" "\<not> m_locked (mutex_at SOCKET_MUTEX ?s)" "mc_state (mc ?s) = MQTT_STATE_DISCONNECTED"
    using on free(2) st by simp_all
  obtain s1 where s1: "connect_work cs E ?s = Some (MQTT_ERROR_NETWORK, s1)" "on_cpu c s1" "mutex_at MQTT_MUTEX s1 = mutex_at MQTT_MUTEX ?s"
      "mc_state (mc s1) = MQTT_STATE_DISCONNECTED"
    by (rule connect_work_at_once [OF s(1) cs lv s(2,3)])
  have own: "m_owner (mutex_at MQTT_MUTEX s1) = Some c" using s1(3) lock(2) by simp
  obtain s2 where "os_mutex_unlock cs (Some MQTT_MUTEX) s1 = Some (OS_OK, s2)" "mc s2 = mc s1"
    using unlock_law [of c s1 cs MQTT_MUTEX "\<lambda>s. mc s = mc s1" "\<lambda>s. mc s = mc s1",
        OF s1(2) cs own mqtt_view_stable(2) [OF lv] refl mqtt_view_stable(2) [OF lv]] by (auto simp del: split_paired_Ex)
  then show ?thesis using lock(1) s1(1,4) by (simp add: mqtt_connect_def mqtt_locked_def)
qed

text \<open>Disconnecting is silent: the client leaves the connected state before it sends the
  DISCONNECT packet, which is therefore refused; the socket is closed, and nothing has been
  handed to the network driver.\<close>

theorem mqtt_disconnect_silent:
  assumes "mc_state (mc s) = MQTT_STATE_CONNECTED" and "mc_connection_callback (mc s) = None"
  shows "\<exists>s'. disconnect_work cs E s = Some (MQTT_OK, s') \<and> mc_state (mc s') = MQTT_STATE_DISCONNECTED \<and>
    nt s' = snd (net_close (mc_socket (mc s)) (nt s)) \<and> n_dev (nt s') = n_dev (nt s)"
proof -
  have "n_dev (snd (net_close k x)) = n_dev x" for k and x :: "'z net"
    by (simp add: net_close_def upd_socket_def Let_def)
  then show ?thesis
    using assms by (simp add: disconnect_work_def mqtt_send_disconnect_def mqtt_send_packet_def call_connection_def upd_mc_def upd_nt_def)
qed

section \<open>A client\<close>

definition demo_config :: mqtt_config where
  "demo_config = \<lparr>mq_broker_host = chars ''10.0.0.1'', mq_broker_port = 0, mq_client_id = Some (chars ''node''), mq_username = None,
     mq_password = None, mq_keepalive_sec = 0, mq_clean_session = True, mq_will_topic = None, mq_will_message = [], mq_will_message_len = 0,
     mq_will_qos = MQTT_QOS_0, mq_will_retained = False, mq_timeout_ms = 0, mq_auto_reconnect = False, mq_reconnect_interval_ms = 0\<rparr>"

definition demo_mqtt_env :: "(loopback, unit) mqtt_env" where
  "demo_mqtt_env = \<lparr>me_message = (\<lambda>_ _ _. Some), me_connection = (\<lambda>_ _ _. Some), me_task = 6, me_task_func = 256, me_client = 512\<rparr>"

definition demo_mqtts :: "loopback mqtts" where
  "demo_mqtts = nets.extend demo_nets (mqtts.fields (zero_client (mqtt_defaults demo_config)))"

lemma demo_mqtts_views:
  "mc demo_mqtts = zero_client (mqtt_defaults demo_config)" "\<not> m_locked (mutex_at (MutexVar a) demo_mqtts)" "on_cpu 3 demo_mqtts"
  "nt demo_mqtts = demo_net"
proof -
  show "mc demo_mqtts = zero_client (mqtt_defaults demo_config)" by (simp add: demo_mqtts_def nets.defs mqtts.defs)
  show "nt demo_mqtts = demo_net" using demo_nets_views(1) by (simp add: demo_mqtts_def nets.defs mqtts.defs)
  have "sy_mutex demo_mqtts = sy_mutex demo_nets" by (simp add: demo_mqtts_def nets.defs mqtts.defs)
  then show "\<not> m_locked (mutex_at (MutexVar a) demo_mqtts)" using demo_nets_views(2) [of a] by simp
  have "on_cpu 3 demo_mqtts \<longleftrightarrow> on_cpu 3 demo_nets"
    by (rule on_cpu_kernel [of demo_mqtts demo_nets]) (simp_all add: demo_mqtts_def nets.defs mqtts.defs sched_rel_def nexts_def [abs_def])
  then show "on_cpu 3 demo_mqtts" using demo_nets_views(4) by simp
qed

theorem mqtt_connect_fails_witness:
  "\<exists>s'. mqtt_connect cs_back demo_mqtt_env True demo_mqtts = Some (MQTT_ERROR_NETWORK, s') \<and> mc_state (mc s') = MQTT_STATE_DISCONNECTED"
proof -
  have lv: "leaves_mqtt (cs_back :: (loopback, unit) mswitch)"
    by (simp add: leaves_mqtt_def cs_back_def SOCKET_MUTEX_def MQTT_MUTEX_def)
  have free: "\<not> m_locked (mutex_at MQTT_MUTEX demo_mqtts)" "\<not> m_locked (mutex_at SOCKET_MUTEX demo_mqtts)"
    unfolding MQTT_MUTEX_def SOCKET_MUTEX_def by (rule demo_mqtts_views(2))+
  show ?thesis
    by (rule mqtt_connect_fails [OF demo_mqtts_views(3) cs_back_resumes lv free]) (simp add: demo_mqtts_views zero_client_def)
qed

theorem mqtt_disconnect_silent_witness:
  "\<exists>s'. disconnect_work cs_back demo_mqtt_env (upd_mc (\<lambda>c. c\<lparr>mc_state := MQTT_STATE_CONNECTED\<rparr>) demo_mqtts) = Some (MQTT_OK, s') \<and>
    n_dev (nt s') = demo_loopback"
  using mqtt_disconnect_silent [of "upd_mc (\<lambda>c. c\<lparr>mc_state := MQTT_STATE_CONNECTED\<rparr>) demo_mqtts" cs_back demo_mqtt_env]
  by (auto simp: demo_mqtts_views zero_client_def demo_net_def)

end
