(* ===== verification/Coap.thy ===== *)
theory Coap
  imports Http Message_Queue
begin

text \<open>
  CoAP client and server, \<^verbatim>\<open>src/coap.c\<close>. Options and payloads are pointers, so that messages are
  encoded from and decoded in a memory \<open>addr \<Rightarrow> u8\<close>, which is \<open>sy_mem\<close> of the state; the arrays on the
  stack have fixed addresses in it, given by the environment. An access outside of an array is
  \<open>None\<close>. What a message on the stack contains before it is decoded is a parameter, too, as is the
  conversion of a 32-bit address to \<^verbatim>\<open>ipv4_addr_t\<close>, which the source leaves to an assignment between
  different types. Every function refuses a message or context that is NULL; these arguments are
  always present here.
\<close>

section \<open>Data\<close>

definition COAP_VERSION :: u8 where "COAP_VERSION = 1"
definition COAP_DEFAULT_PORT :: u16 where "COAP_DEFAULT_PORT = 5683"
definition COAP_MAX_PDU_SIZE :: nat where "COAP_MAX_PDU_SIZE = 1152"
definition COAP_MAX_TOKEN_LEN :: nat where "COAP_MAX_TOKEN_LEN = 8"
definition COAP_MAX_OPTION_COUNT :: nat where "COAP_MAX_OPTION_COUNT = 16"
definition COAP_MAX_PAYLOAD_SIZE :: nat where "COAP_MAX_PAYLOAD_SIZE = 1024"
definition COAP_HEADER_SIZE :: nat where "COAP_HEADER_SIZE = 4"
definition COAP_PAYLOAD_MARKER :: u8 where "COAP_PAYLOAD_MARKER = 0xFF"

definition COAP_TYPE_CON :: u8 where "COAP_TYPE_CON = 0"
definition COAP_TYPE_NON :: u8 where "COAP_TYPE_NON = 1"
definition COAP_TYPE_ACK :: u8 where "COAP_TYPE_ACK = 2"
definition COAP_TYPE_RST :: u8 where "COAP_TYPE_RST = 3"

definition COAP_METHOD_GET :: u8 where "COAP_METHOD_GET = 1"
definition COAP_METHOD_POST :: u8 where "COAP_METHOD_POST = 2"
definition COAP_METHOD_PUT :: u8 where "COAP_METHOD_PUT = 3"
definition COAP_METHOD_DELETE :: u8 where "COAP_METHOD_DELETE = 4"

definition COAP_RESPONSE_205_CONTENT :: u8 where "COAP_RESPONSE_205_CONTENT = 69"
definition COAP_RESPONSE_404_NOT_FOUND :: u8 where "COAP_RESPONSE_404_NOT_FOUND = 132"

definition COAP_OPTION_URI_PATH :: u16 where "COAP_OPTION_URI_PATH = 11"
definition COAP_OPTION_CONTENT_FORMAT :: u16 where "COAP_OPTION_CONTENT_FORMAT = 12"
definition COAP_CONTENT_FORMAT_TEXT_PLAIN :: u8 where "COAP_CONTENT_FORMAT_TEXT_PLAIN = 0"

datatype coap_error = COAP_OK | COAP_ERROR_INVALID_PARAM | COAP_ERROR_NO_MEMORY | COAP_ERROR_TIMEOUT | COAP_ERROR_NETWORK
  | COAP_ERROR_PARSE | COAP_ERROR_INVALID_MESSAGE | COAP_ERROR_NOT_FOUND | COAP_ERROR_OBSERVE_FAILED | COAP_ERROR_MAX_RETRANSMIT

record coap_option =
  op_number :: u16
  op_length :: u16
  op_value :: addr

text \<open>A payload is absent, somewhere in the memory, or in the buffer of the message itself.\<close>

datatype payload_ref = No_Payload | Payload_At addr | Own_Buffer

record coap_pdu =
  pd_version :: u8
  pd_type :: u8
  pd_token_length :: u8
  pd_code :: u8
  pd_message_id :: u16
  pd_token :: "u8 list"
  pd_options :: "nat \<Rightarrow> coap_option"
  pd_option_count :: u8
  pd_payload :: payload_ref
  pd_payload_length :: u16
  pd_buffer :: "u8 list"

record coap_response =
  cr_code :: u8
  cr_content_format :: u8
  cr_payload :: ptr
  cr_payload_length :: u16
  cr_success :: bool

record coap_resource =
  rs_uri_path :: "u8 list"
  rs_handler :: u32
  rs_user_data :: u32
  rs_observable :: bool
  rs_max_age :: u32
  rs_next :: ptr

record coap_endpoint =
  ep_ip_address :: u32
  ep_port :: u16

record coap_context =
  ct_endpoint :: coap_endpoint
  ct_socket_fd :: int
  ct_next_message_id :: u16
  ct_resources :: ptr
  ct_is_server :: bool

record coap_config =
  cc_bind_address :: u32
  cc_port :: u16
  cc_enable_observe :: bool
  cc_ack_timeout_ms :: u32
  cc_max_retransmit :: u8

definition COAP_CODE_CLASS :: "u8 \<Rightarrow> u8" where
  "COAP_CODE_CLASS c = drop_bit 5 c"

definition COAP_CODE_DETAIL :: "u8 \<Rightarrow> u8" where
  "COAP_CODE_DETAIL c = c AND 0x1F"

definition COAP_MAKE_CODE :: "u8 \<Rightarrow> u8 \<Rightarrow> u8" where
  "COAP_MAKE_CODE cls detail = push_bit 5 cls OR detail"

section \<open>Helpers\<close>

definition coap_generate_message_id :: "coap_context \<Rightarrow> u16 \<times> coap_context" where
  "coap_generate_message_id c = (ct_next_message_id c, c\<lparr>ct_next_message_id := ct_next_message_id c + 1\<rparr>)"

definition coap_generate_token :: "u32 \<Rightarrow> nat \<Rightarrow> u8 list" where
  "coap_generate_token tick n = map (\<lambda>i. ucast (drop_bit (i * 8) tick)) [0..<min n COAP_MAX_TOKEN_LEN]"

text \<open>The nibble and the bytes of the extension.\<close>

definition coap_encode_option_delta_length :: "u16 \<Rightarrow> u8 \<times> u8 list" where
  "coap_encode_option_delta_length value =
    (if value < 13 then (ucast value, [])
     else if value < 269 then (13, [ucast (value - 13)])
     else (14, be16 (value - 269)))"

text \<open>Reading in an array of \<open>cap\<close> bytes at \<open>base\<close>.\<close>

definition byte_at :: "(addr \<Rightarrow> u8) \<Rightarrow> addr \<Rightarrow> nat \<Rightarrow> nat \<Rightarrow> u8 option" where
  "byte_at mem base cap pos = (if pos < cap then Some (mem (base + pos)) else None)"

definition coap_decode_option_delta_length ::
    "(addr \<Rightarrow> u8) \<Rightarrow> addr \<Rightarrow> nat \<Rightarrow> nat \<Rightarrow> u8 \<Rightarrow> (u16 \<times> nat) option" where
  "coap_decode_option_delta_length mem base cap pos encoded =
    (if encoded < 13 then Some (ucast encoded, pos)
     else if encoded = 13 then do { v \<leftarrow> byte_at mem base cap pos; Some (ucast v + 13, pos + 1) }
     else if encoded = 14
     then do {
       a \<leftarrow> byte_at mem base cap pos;
       b \<leftarrow> byte_at mem base cap (pos + 1);
       Some ((push_bit 8 (ucast a) OR ucast b) + 269, pos + 2) }
     else Some (0, pos))"

section \<open>Messages\<close>

definition coap_pdu_init :: "u8 \<Rightarrow> u8 \<Rightarrow> u16 \<Rightarrow> coap_pdu" where
  "coap_pdu_init type code message_id = \<lparr>pd_version = COAP_VERSION, pd_type = type, pd_token_length = 0, pd_code = code,
     pd_message_id = message_id, pd_token = replicate COAP_MAX_TOKEN_LEN 0,
     pd_options = (\<lambda>_. \<lparr>op_number = 0, op_length = 0, op_value = 0\<rparr>), pd_option_count = 0, pd_payload = No_Payload,
     pd_payload_length = 0, pd_buffer = replicate COAP_MAX_PDU_SIZE 0\<rparr>"

definition coap_pdu_set_token :: "u8 list option \<Rightarrow> u8 \<Rightarrow> coap_pdu \<Rightarrow> (coap_error \<times> coap_pdu) option" where
  "coap_pdu_set_token token token_length p =
    (if unat token_length > COAP_MAX_TOKEN_LEN then Some (COAP_ERROR_INVALID_PARAM, p)
     else do {
       p \<leftarrow> (case token of
               None \<Rightarrow> Some p
             | Some t \<Rightarrow> do { avail (unat token_length) t; Some (p\<lparr>pd_token := splice 0 (take (unat token_length) t) (pd_token p)\<rparr>) });
       Some (COAP_OK, p\<lparr>pd_token_length := token_length\<rparr>) })"

definition coap_pdu_add_option :: "u16 \<Rightarrow> addr \<Rightarrow> u16 \<Rightarrow> coap_pdu \<Rightarrow> coap_error \<times> coap_pdu" where
  "coap_pdu_add_option option_num value len p =
    (if unat (pd_option_count p) \<ge> COAP_MAX_OPTION_COUNT then (COAP_ERROR_INVALID_PARAM, p)
     else (COAP_OK, p\<lparr>pd_options := (pd_options p)(unat (pd_option_count p) := \<lparr>op_number = option_num, op_length = len, op_value = value\<rparr>),
                      pd_option_count := pd_option_count p + 1\<rparr>))"

definition coap_pdu_set_payload :: "payload_ref \<Rightarrow> u16 \<Rightarrow> coap_pdu \<Rightarrow> coap_error \<times> coap_pdu" where
  "coap_pdu_set_payload payload len p =
    (if unat len > COAP_MAX_PAYLOAD_SIZE then (COAP_ERROR_INVALID_PARAM, p)
     else (COAP_OK, p\<lparr>pd_payload := payload, pd_payload_length := len\<rparr>))"

definition coap_pdu_get_option :: "coap_pdu \<Rightarrow> u16 \<Rightarrow> coap_option option" where
  "coap_pdu_get_option p option_num =
     map_option (pd_options p) (find (\<lambda>i. op_number (pd_options p i) = option_num) [0..<unat (pd_option_count p)])"

section \<open>Encoding\<close>

text \<open>Appending to what has been written, as far as \<^verbatim>\<open>buffer_size\<close> allows; \<open>None\<close> is the result -1.\<close>

definition emit :: "nat \<Rightarrow> u8 list \<Rightarrow> u8 list \<Rightarrow> u8 list option" where
  "emit cap bs out = (if cap - length out < length bs then None else Some (out @ bs))"

definition payload_bytes :: "(addr \<Rightarrow> u8) \<Rightarrow> coap_pdu \<Rightarrow> u8 list option" where
  "payload_bytes mem p =
    (case pd_payload p of
       No_Payload \<Rightarrow> None
     | Payload_At a \<Rightarrow> Some (mem_bytes mem a (unat (pd_payload_length p)))
     | Own_Buffer \<Rightarrow> Some (take (unat (pd_payload_length p)) (pd_buffer p)))"

definition encode_option :: "(addr \<Rightarrow> u8) \<Rightarrow> nat \<Rightarrow> u16 \<Rightarrow> coap_option \<Rightarrow> u8 list \<Rightarrow> u8 list option" where
  "encode_option mem cap prev_option_num opt out =
    (let (delta_nibble, delta_ext) = coap_encode_option_delta_length (op_number opt - prev_option_num);
         (length_nibble, length_ext) = coap_encode_option_delta_length (op_length opt)
     in do {
       out \<leftarrow> emit cap [push_bit 4 delta_nibble OR length_nibble] out;
       out \<leftarrow> emit cap delta_ext out;
       out \<leftarrow> emit cap length_ext out;
       emit cap (mem_bytes mem (op_value opt) (unat (op_length opt))) out })"

fun encode_options :: "(addr \<Rightarrow> u8) \<Rightarrow> nat \<Rightarrow> u16 \<Rightarrow> coap_option list \<Rightarrow> u8 list \<Rightarrow> u8 list option" where
  "encode_options mem cap prev_option_num [] out = Some out"
| "encode_options mem cap prev_option_num (opt # opts) out = do {
     out \<leftarrow> encode_option mem cap prev_option_num opt out;
     encode_options mem cap (op_number opt) opts out }"

text \<open>\<open>None\<close> is a read past the token or an access through NULL; the result of the C function is the number of bytes or -1.\<close>

definition coap_pdu_encode :: "(addr \<Rightarrow> u8) \<Rightarrow> coap_pdu \<Rightarrow> nat \<Rightarrow> u8 list option option" where
  "coap_pdu_encode mem p cap =
    (if cap < COAP_HEADER_SIZE then Some None
     else
       let hdr = [push_bit 6 (pd_version p) OR push_bit 4 (pd_type p) OR pd_token_length p, pd_code p] @ be16 (pd_message_id p)
       in if cap - COAP_HEADER_SIZE < unat (pd_token_length p) then Some None
          else do {
            avail (unat (pd_token_length p)) (pd_token p);
            (case encode_options mem cap 0 (map (pd_options p) [0..<unat (pd_option_count p)])
                    (hdr @ take (unat (pd_token_length p)) (pd_token p)) of
               None \<Rightarrow> Some None
             | Some out \<Rightarrow>
                if pd_payload_length p > 0
                then if cap - length out < 1 + unat (pd_payload_length p) then Some None
                     else do { bs \<leftarrow> payload_bytes mem p; Some (Some (out @ [COAP_PAYLOAD_MARKER] @ bs)) }
                else Some (Some out)) })"

section \<open>Decoding\<close>

definition payload_found :: "(addr \<Rightarrow> u8) \<Rightarrow> addr \<Rightarrow> nat \<Rightarrow> nat \<Rightarrow> coap_pdu \<Rightarrow> coap_pdu option" where
  "payload_found mem base len pos p =
    (let n = of_nat (len - pos) :: u16;
         p = p\<lparr>pd_payload_length := n\<rparr>
     in if n > 0
        then do {
          avail (unat n) (pd_buffer p);
          Some (p\<lparr>pd_buffer := splice 0 (mem_bytes mem (base + pos) (unat n)) (pd_buffer p), pd_payload := Own_Buffer\<rparr>) }
        else Some p)"

lemma decode_delta_moves: "coap_decode_option_delta_length mem base cap pos e = Some (v, pos') \<Longrightarrow> pos \<le> pos'"
  by (auto simp: coap_decode_option_delta_length_def bind_eq_Some_conv split: if_splits)

function decode_options ::
    "(addr \<Rightarrow> u8) \<Rightarrow> addr \<Rightarrow> nat \<Rightarrow> nat \<Rightarrow> nat \<Rightarrow> u16 \<Rightarrow> coap_pdu \<Rightarrow> (coap_error \<times> coap_pdu) option" where
  "decode_options mem base cap len pos option_num p =
    (if pos < len
     then case byte_at mem base cap pos of
            None \<Rightarrow> None
          | Some b \<Rightarrow>
             if b = COAP_PAYLOAD_MARKER then map_option (Pair COAP_OK) (payload_found mem base len (pos + 1) p)
             else if unat (pd_option_count p) \<ge> COAP_MAX_OPTION_COUNT then Some (COAP_ERROR_INVALID_MESSAGE, p)
             else case coap_decode_option_delta_length mem base cap (pos + 1) (drop_bit 4 b AND 0x0F) of
                    None \<Rightarrow> None
                  | Some (delta, pos1) \<Rightarrow>
                     (case coap_decode_option_delta_length mem base cap pos1 (b AND 0x0F) of
                        None \<Rightarrow> None
                      | Some (opt_length, pos2) \<Rightarrow>
                         if pos2 + unat opt_length > len then Some (COAP_ERROR_INVALID_MESSAGE, p)
                         else decode_options mem base cap len (pos2 + unat opt_length) (option_num + delta)
                                (p\<lparr>pd_options := (pd_options p)(unat (pd_option_count p) :=
                                     \<lparr>op_number = option_num + delta, op_length = opt_length, op_value = base + pos2\<rparr>),
                                   pd_option_count := pd_option_count p + 1\<rparr>))
     else Some (COAP_OK, p))"
  by auto
termination
  by (relation "measure (\<lambda>(mem, base, cap, len, pos, option_num, p). len - pos)") (auto dest!: decode_delta_moves)

declare decode_options.simps [simp del]

definition coap_pdu_decode :: "(addr \<Rightarrow> u8) \<Rightarrow> addr \<Rightarrow> nat \<Rightarrow> nat \<Rightarrow> coap_pdu \<Rightarrow> (coap_error \<times> coap_pdu) option" where
  "coap_pdu_decode mem base cap len p =
    (if len < COAP_HEADER_SIZE then Some (COAP_ERROR_INVALID_PARAM, p)
     else do {
       b0 \<leftarrow> byte_at mem base cap 0;
       b1 \<leftarrow> byte_at mem base cap 1;
       b2 \<leftarrow> byte_at mem base cap 2;
       b3 \<leftarrow> byte_at mem base cap 3;
       let p = p\<lparr>pd_version := drop_bit 6 b0 AND 0x03, pd_type := drop_bit 4 b0 AND 0x03, pd_token_length := b0 AND 0x0F,
                 pd_code := b1, pd_message_id := push_bit 8 (ucast b2) OR ucast b3\<rparr>;
       let n = unat (pd_token_length p);
       (if pd_version p \<noteq> COAP_VERSION then Some (COAP_ERROR_INVALID_MESSAGE, p)
        else if n > 0 \<and> (n > COAP_MAX_TOKEN_LEN \<or> 4 + n > len) then Some (COAP_ERROR_INVALID_MESSAGE, p)
        else decode_options mem base cap len (4 + n) 0
               (p\<lparr>pd_token := splice 0 (mem_bytes mem (base + 4) n) (pd_token p), pd_option_count := 0\<rparr>)) })"

section \<open>Context\<close>

record 'd coaps = "'d nets" +
  cx :: coap_context
  cx_resource :: "addr \<Rightarrow> coap_resource"

text \<open>
  What is outside of this file: the arrays on the stack, the content of a message before it is
  decoded, the conversion of addresses, and the functions that handle the requests, by their addresses.
\<close>

record ('d, 'a) coap_env =
  ce_switch :: "('d, 'a coaps_ext) nswitch"
  ce_ip :: "u32 \<Rightarrow> ipv4_addr"
  ce_path_segment :: addr
  ce_format :: addr
  ce_recv_buffer :: addr
  ce_stack_pdu :: coap_pdu
  ce_handler :: "u32 \<Rightarrow> addr \<Rightarrow> coap_pdu \<Rightarrow> coap_pdu \<Rightarrow> u32 \<Rightarrow> ('d, 'a) coaps_scheme \<Rightarrow> (coap_pdu \<times> ('d, 'a) coaps_scheme) option"

definition upd_cx :: "(coap_context \<Rightarrow> coap_context) \<Rightarrow> ('d, 'a) coaps_scheme \<Rightarrow> ('d, 'a) coaps_scheme" where
  "upd_cx f s = s\<lparr>cx := f (cx s)\<rparr>"

definition coap_init :: "coap_config option \<Rightarrow> bool \<Rightarrow> coap_context \<Rightarrow> coap_error \<times> coap_context" where
  "coap_init config is_server c =
    (case config of
       None \<Rightarrow> (COAP_ERROR_INVALID_PARAM, c)
     | Some cfg \<Rightarrow>
        (COAP_OK, \<lparr>ct_endpoint = \<lparr>ep_ip_address = cc_bind_address cfg, ep_port = if cc_port cfg \<noteq> 0 then cc_port cfg else COAP_DEFAULT_PORT\<rparr>,
                   ct_socket_fd = -1, ct_next_message_id = 1, ct_resources = None, ct_is_server = is_server\<rparr>))"

definition coap_start :: "('d, 'a) coap_env \<Rightarrow> ('d, 'a) coaps_scheme \<Rightarrow> (coap_error \<times> ('d, 'a) coaps_scheme) option" where
  "coap_start e s = do {
     (fd, s) \<leftarrow> net_socket (ce_switch e) SOCK_DGRAM s;
     let s = upd_cx (\<lambda>c. c\<lparr>ct_socket_fd := fd\<rparr>) s;
     (if fd < 0 then Some (COAP_ERROR_NETWORK, s)
      else do {
        let addr = \<lparr>sa_addr = ce_ip e (ep_ip_address (ct_endpoint (cx s))), sa_port = ep_port (ct_endpoint (cx s))\<rparr>;
        (err, x) \<leftarrow> net_bind fd (Some addr) (nt s);
        let s = s\<lparr>nt := x\<rparr>;
        (if err \<noteq> OS_OK
         then Some (COAP_ERROR_NETWORK, upd_cx (\<lambda>c. c\<lparr>ct_socket_fd := -1\<rparr>) (upd_nt (\<lambda>x. snd (net_close fd x)) s))
         else Some (COAP_OK, s)) }) }"

definition free_block :: "ptr \<Rightarrow> ('d, 'a) nets_scheme \<Rightarrow> ('d, 'a) nets_scheme option" where
  "free_block p s = map_option snd (with_heap (\<lambda>m. map_option (Pair ()) (os_free p m)) s)"

partial_function (option) free_resources :: "ptr \<Rightarrow> ('d, 'a) coaps_scheme \<Rightarrow> ('d, 'a) coaps_scheme option" where
  "free_resources resource s =
    (case resource of
       None \<Rightarrow> Some s
     | Some r \<Rightarrow> do {
         let nxt = rs_next (cx_resource s r);
         s \<leftarrow> free_block (Some r) s;
         free_resources nxt s })"

definition coap_stop :: "('d, 'a) coaps_scheme \<Rightarrow> ('d, 'a) coaps_scheme option" where
  "coap_stop s = do {
     let fd = ct_socket_fd (cx s);
     let s = (if fd \<ge> 0 then upd_cx (\<lambda>c. c\<lparr>ct_socket_fd := -1\<rparr>) (upd_nt (\<lambda>x. snd (net_close fd x)) s) else s);
     s \<leftarrow> free_resources (ct_resources (cx s)) s;
     Some (upd_cx (\<lambda>c. c\<lparr>ct_resources := None\<rparr>) s) }"

section \<open>Client\<close>

definition PATH_SEGMENT_SIZE :: nat where "PATH_SEGMENT_SIZE = 64"

definition strchr :: "u8 \<Rightarrow> u8 list \<Rightarrow> nat option" where
  "strchr c s = (if c \<in> set s then Some (length (takeWhile (\<lambda>x. x \<noteq> c) s)) else None)"

text \<open>What one round stores in \<^verbatim>\<open>path_segment\<close>, and where the path goes on.\<close>

definition next_segment :: "u8 list \<Rightarrow> u8 list \<times> u8 list" where
  "next_segment path_rest =
    (case strchr 47 path_rest of
       Some n \<Rightarrow>
         (take (if n \<ge> PATH_SEGMENT_SIZE then PATH_SEGMENT_SIZE - 1 else n) path_rest @ [0], drop (n + 1) path_rest)
     | None \<Rightarrow>
         (let seg = take (PATH_SEGMENT_SIZE - 1) path_rest in (seg @ replicate (PATH_SEGMENT_SIZE - length seg) 0, [])))"

lemma next_segment_shorter: "path_rest \<noteq> [] \<Longrightarrow> length (snd (next_segment path_rest)) < length path_rest"
  by (cases path_rest) (auto simp: next_segment_def Let_def split: option.splits)

function add_path :: "addr \<Rightarrow> u8 list \<Rightarrow> coap_pdu \<times> (addr \<Rightarrow> u8) \<Rightarrow> coap_pdu \<times> (addr \<Rightarrow> u8)" where
  "add_path segment path_rest (request, mem) =
    (if path_rest = [] then (request, mem)
     else
       let (bytes, path_rest') = next_segment path_rest;
           mem = mem_store segment bytes mem;
           n = length (c_string bytes);
           request = (if n > 0 then snd (coap_pdu_add_option COAP_OPTION_URI_PATH segment (of_nat n) request) else request)
       in add_path segment path_rest' (request, mem))"
  by auto
termination
  by (relation "measure (\<lambda>(_, path_rest, _). length path_rest)") (use next_segment_shorter in \<open>auto, metis snd_conv\<close>)

declare add_path.simps [simp del]

definition skip_slash :: "u8 list \<Rightarrow> u8 list" where
  "skip_slash uri_path = (if uri_path \<noteq> [] \<and> hd uri_path = 47 then tl uri_path else uri_path)"

text \<open>The request, and the memory with the local variables it points to.\<close>

definition build_coap_request ::
    "('d, 'a) coap_env \<Rightarrow> u8 \<Rightarrow> u16 \<Rightarrow> u32 \<Rightarrow> u8 list \<Rightarrow> u8 \<Rightarrow> payload_ref \<Rightarrow> u16 \<Rightarrow> (addr \<Rightarrow> u8) \<Rightarrow>
     (coap_pdu \<times> (addr \<Rightarrow> u8)) option" where
  "build_coap_request e method msg_id tick uri_path content_format payload payload_length mem = do {
     (_, request) \<leftarrow> coap_pdu_set_token (Some (coap_generate_token tick 4)) 4 (coap_pdu_init COAP_TYPE_CON method msg_id);
     let (request, mem) = add_path (ce_path_segment e) (skip_slash uri_path) (request, mem);
     Some (if (method = COAP_METHOD_POST \<or> method = COAP_METHOD_PUT) \<and> payload_length > 0
           then (snd (coap_pdu_set_payload payload payload_length
                   (snd (coap_pdu_add_option COAP_OPTION_CONTENT_FORMAT (ce_format e) 1 request))),
                 mem_store (ce_format e) [content_format] mem)
           else (request, mem)) }"

definition fill_response ::
    "coap_pdu \<Rightarrow> coap_response \<Rightarrow> ('d, 'a) coaps_scheme \<Rightarrow> (coap_response \<times> ('d, 'a) coaps_scheme) option" where
  "fill_response resp_pdu response s = do {
     let response = response\<lparr>cr_code := pd_code resp_pdu, cr_success := COAP_CODE_CLASS (pd_code resp_pdu) = 2,
           cr_content_format := (case coap_pdu_get_option resp_pdu COAP_OPTION_CONTENT_FORMAT of
              Some opt \<Rightarrow> if op_length opt > 0 then sy_mem s (op_value opt) else COAP_CONTENT_FORMAT_TEXT_PLAIN
            | None \<Rightarrow> COAP_CONTENT_FORMAT_TEXT_PLAIN)\<rparr>;
     (if pd_payload_length resp_pdu > 0
      then do {
        (p, s) \<leftarrow> with_heap (os_malloc (ucast (pd_payload_length resp_pdu))) s;
        (case p of
           None \<Rightarrow> Some (response\<lparr>cr_payload := None\<rparr>, s)
         | Some a \<Rightarrow> do {
             bs \<leftarrow> payload_bytes (sy_mem s) resp_pdu;
             (_, s) \<leftarrow> with_heap (\<lambda>m. Some ((), heap_store a bs m)) s;
             Some (response\<lparr>cr_payload := Some a, cr_payload_length := pd_payload_length resp_pdu\<rparr>, s\<lparr>sy_mem := mem_store a bs (sy_mem s)\<rparr>) }) }
      else Some (response\<lparr>cr_payload := None, cr_payload_length := 0\<rparr>, s)) }"

definition same_token :: "coap_pdu \<Rightarrow> coap_pdu \<Rightarrow> bool" where
  "same_token p q \<longleftrightarrow> pd_token_length p = pd_token_length q \<and>
     take (unat (pd_token_length q)) (pd_token p) = take (unat (pd_token_length q)) (pd_token q)"

definition coap_receive ::
    "('d, 'a) coap_env \<Rightarrow> ('d, 'a) coaps_scheme \<Rightarrow> ((coap_error \<times> coap_pdu \<times> sockaddr_in option) \<times> ('d, 'a) coaps_scheme) option" where
  "coap_receive e s = do {
     ((recv_len, data, from_addr), s) \<leftarrow> net_recvfrom (ce_switch e) (ct_socket_fd (cx s)) (of_nat COAP_MAX_PDU_SIZE) True s;
     (if recv_len \<le> 0 then Some ((COAP_ERROR_TIMEOUT, ce_stack_pdu e, from_addr), s)
      else do {
        let s = s\<lparr>sy_mem := mem_store (ce_recv_buffer e) data (sy_mem s)\<rparr>;
        (err, pdu) \<leftarrow> coap_pdu_decode (sy_mem s) (ce_recv_buffer e) COAP_MAX_PDU_SIZE (nat recv_len) (ce_stack_pdu e);
        Some ((if err \<noteq> COAP_OK then COAP_ERROR_PARSE else COAP_OK, pdu, from_addr), s) }) }"

definition coap_send_request_internal ::
    "('d, 'a) coap_env \<Rightarrow> u32 \<Rightarrow> u16 \<Rightarrow> u8 \<Rightarrow> u8 list option \<Rightarrow> u8 \<Rightarrow> payload_ref \<Rightarrow> u16 \<Rightarrow> coap_response option \<Rightarrow> u32 \<Rightarrow>
     ('d, 'a) coaps_scheme \<Rightarrow> ((coap_error \<times> coap_response option) \<times> ('d, 'a) coaps_scheme) option" where
  "coap_send_request_internal e server_ip server_port method uri_path content_format payload payload_length response timeout_ms s =
    (case (uri_path, response) of
       (Some url_path, Some resp) \<Rightarrow> do {
         let (msg_id, c) = coap_generate_message_id (cx s);
         let s = s\<lparr>cx := c\<rparr>;
         (request, mem) \<leftarrow> build_coap_request e method msg_id (os_get_tick_count s) url_path content_format payload payload_length (sy_mem s);
         let s = s\<lparr>sy_mem := mem\<rparr>;
         encoded \<leftarrow> coap_pdu_encode (sy_mem s) request COAP_MAX_PDU_SIZE;
         (case encoded of
            None \<Rightarrow> Some ((COAP_ERROR_PARSE, response), s)
          | Some bytes \<Rightarrow> do {
              let dest_addr = \<lparr>sa_addr = ce_ip e server_ip, sa_port = server_port\<rparr>;
              (sent, s) \<leftarrow> net_sendto (ce_switch e) (ct_socket_fd (cx s)) bytes (Some dest_addr) s;
              (if sent < 0 then Some ((COAP_ERROR_NETWORK, response), s)
               else do {
                 ((err, resp_pdu, _), s) \<leftarrow> coap_receive e s;
                 (if err \<noteq> COAP_OK then Some ((err, response), s)
                  else if \<not> same_token resp_pdu request then Some ((COAP_ERROR_INVALID_MESSAGE, response), s)
                  else do {
                    (resp, s) \<leftarrow> fill_response resp_pdu resp s;
                    Some ((COAP_OK, Some resp), s) }) }) }) }
     | _ \<Rightarrow> Some ((COAP_ERROR_INVALID_PARAM, response), s))"

definition coap_get ::
    "('d, 'a) coap_env \<Rightarrow> u32 \<Rightarrow> u16 \<Rightarrow> u8 list option \<Rightarrow> coap_response option \<Rightarrow> u32 \<Rightarrow>
     ('d, 'a) coaps_scheme \<Rightarrow> ((coap_error \<times> coap_response option) \<times> ('d, 'a) coaps_scheme) option" where
  "coap_get e server_ip server_port uri_path response timeout_ms s =
     coap_send_request_internal e server_ip server_port COAP_METHOD_GET uri_path COAP_CONTENT_FORMAT_TEXT_PLAIN No_Payload 0 response timeout_ms s"

definition coap_post ::
    "('d, 'a) coap_env \<Rightarrow> u32 \<Rightarrow> u16 \<Rightarrow> u8 list option \<Rightarrow> u8 \<Rightarrow> payload_ref \<Rightarrow> u16 \<Rightarrow> coap_response option \<Rightarrow> u32 \<Rightarrow>
     ('d, 'a) coaps_scheme \<Rightarrow> ((coap_error \<times> coap_response option) \<times> ('d, 'a) coaps_scheme) option" where
  "coap_post e server_ip server_port uri_path content_format payload payload_length response timeout_ms s =
     coap_send_request_internal e server_ip server_port COAP_METHOD_POST uri_path content_format payload payload_length response timeout_ms s"

definition coap_put ::
    "('d, 'a) coap_env \<Rightarrow> u32 \<Rightarrow> u16 \<Rightarrow> u8 list option \<Rightarrow> u8 \<Rightarrow> payload_ref \<Rightarrow> u16 \<Rightarrow> coap_response option \<Rightarrow> u32 \<Rightarrow>
     ('d, 'a) coaps_scheme \<Rightarrow> ((coap_error \<times> coap_response option) \<times> ('d, 'a) coaps_scheme) option" where
  "coap_put e server_ip server_port uri_path content_format payload payload_length response timeout_ms s =
     coap_send_request_internal e server_ip server_port COAP_METHOD_PUT uri_path content_format payload payload_length response timeout_ms s"

definition coap_delete ::
    "('d, 'a) coap_env \<Rightarrow> u32 \<Rightarrow> u16 \<Rightarrow> u8 list option \<Rightarrow> coap_response option \<Rightarrow> u32 \<Rightarrow>
     ('d, 'a) coaps_scheme \<Rightarrow> ((coap_error \<times> coap_response option) \<times> ('d, 'a) coaps_scheme) option" where
  "coap_delete e server_ip server_port uri_path response timeout_ms s =
     coap_send_request_internal e server_ip server_port COAP_METHOD_DELETE uri_path COAP_CONTENT_FORMAT_TEXT_PLAIN No_Payload 0 response timeout_ms s"

section \<open>Server\<close>

definition COAP_RESOURCE_SIZE :: u32 where "COAP_RESOURCE_SIZE = 84"

text \<open>The bytes of a resource in memory: the members in their order, with their padding.\<close>

definition resource_bytes :: "coap_resource \<Rightarrow> u8 list" where
  "resource_bytes r =
     rs_uri_path r @ replicate (64 - length (rs_uri_path r)) 0 @ le32 (rs_handler r) @ le32 (rs_user_data r) @
     [if rs_observable r then 1 else 0, 0, 0, 0] @ le32 (rs_max_age r) @
     le32 (case rs_next r of None \<Rightarrow> 0 | Some a \<Rightarrow> of_nat a)"

definition store_resource :: "addr \<Rightarrow> coap_resource \<Rightarrow> ('d, 'a) coaps_scheme \<Rightarrow> ('d, 'a) coaps_scheme option" where
  "store_resource a r s = do {
     (_, s) \<leftarrow> with_heap (\<lambda>m. Some ((), heap_store a (resource_bytes r) m)) s;
     Some (s\<lparr>cx_resource := (cx_resource s)(a := r)\<rparr>) }"

definition coap_resource_create ::
    "u8 list option \<Rightarrow> u32 \<Rightarrow> u32 \<Rightarrow> ('d, 'a) coaps_scheme \<Rightarrow> (ptr \<times> ('d, 'a) coaps_scheme) option" where
  "coap_resource_create uri_path handler user_data s =
    (case uri_path of
       None \<Rightarrow> Some (None, s)
     | Some url_path \<Rightarrow>
        if handler = 0 then Some (None, s)
        else do {
          (p, s) \<leftarrow> with_heap (os_malloc COAP_RESOURCE_SIZE) s;
          (case p of
             None \<Rightarrow> Some (None, s)
           | Some a \<Rightarrow> do {
               s \<leftarrow> store_resource a \<lparr>rs_uri_path = take 63 url_path, rs_handler = handler, rs_user_data = user_data,
                      rs_observable = False, rs_max_age = 60, rs_next = ct_resources (cx s)\<rparr> s;
               Some (Some a, upd_cx (\<lambda>c. c\<lparr>ct_resources := Some a\<rparr>) s) }) })"

definition coap_resource_set_observable ::
    "ptr \<Rightarrow> u32 \<Rightarrow> ('d, 'a) coaps_scheme \<Rightarrow> (coap_error \<times> ('d, 'a) coaps_scheme) option" where
  "coap_resource_set_observable resource max_age s =
    (case resource of
       None \<Rightarrow> Some (COAP_ERROR_INVALID_PARAM, s)
     | Some a \<Rightarrow> do {
         s \<leftarrow> store_resource a ((cx_resource s a)\<lparr>rs_observable := True, rs_max_age := max_age\<rparr>) s;
         Some (COAP_OK, s) })"

partial_function (option) find_from :: "(addr \<Rightarrow> coap_resource) \<Rightarrow> u8 list \<Rightarrow> ptr \<Rightarrow> ptr option" where
  "find_from res uri_path resource =
    (case resource of
       None \<Rightarrow> Some None
     | Some a \<Rightarrow> if rs_uri_path (res a) = uri_path then Some (Some a) else find_from res uri_path (rs_next (res a)))"

definition coap_find_resource :: "u8 list \<Rightarrow> ('d, 'a) coaps_scheme \<Rightarrow> ptr option" where
  "coap_find_resource uri_path s = find_from (cx_resource s) uri_path (ct_resources (cx s))"

definition URI_PATH_SIZE :: nat where "URI_PATH_SIZE = 128"

definition join_segment :: "(addr \<Rightarrow> u8) \<Rightarrow> coap_option \<Rightarrow> u8 list \<Rightarrow> u8 list" where
  "join_segment mem opt url_path =
    (if op_number opt = COAP_OPTION_URI_PATH \<and> length url_path + unat (op_length opt) + 1 < URI_PATH_SIZE
     then url_path @ mem_bytes mem (op_value opt) (unat (op_length opt)) @ [47] else url_path)"

definition request_path :: "(addr \<Rightarrow> u8) \<Rightarrow> coap_pdu \<Rightarrow> u8 list" where
  "request_path mem request =
    (let url_path = fold (join_segment mem) (map (pd_options request) [0..<unat (pd_option_count request)]) [47]
     in c_string (if length url_path > 1 then butlast url_path else url_path))"

definition answer ::
    "('d, 'a) coap_env \<Rightarrow> coap_pdu \<Rightarrow> ('d, 'a) coaps_scheme \<Rightarrow> (coap_pdu \<times> ('d, 'a) coaps_scheme) option" where
  "answer e request s = do {
     resource \<leftarrow> coap_find_resource (request_path (sy_mem s) request) s;
     (_, response) \<leftarrow> coap_pdu_set_token (Some (pd_token request)) (pd_token_length request)
                          (coap_pdu_init COAP_TYPE_ACK COAP_RESPONSE_404_NOT_FOUND (pd_message_id request));
     (case resource of
        None \<Rightarrow> Some (response, s)
      | Some a \<Rightarrow> ce_handler e (rs_handler (cx_resource s a)) a request (response\<lparr>pd_code := COAP_RESPONSE_205_CONTENT\<rparr>)
                     (rs_user_data (cx_resource s a)) s) }"

definition coap_process :: "('d, 'a) coap_env \<Rightarrow> u32 \<Rightarrow> ('d, 'a) coaps_scheme \<Rightarrow> (coap_error \<times> ('d, 'a) coaps_scheme) option" where
  "coap_process e timeout_ms s =
    (if ct_socket_fd (cx s) < 0 then Some (COAP_ERROR_INVALID_PARAM, s)
     else do {
       ((err, request, from_addr), s) \<leftarrow> coap_receive e s;
       (if err \<noteq> COAP_OK then Some (err, s)
        else if ct_is_server (cx s) \<and> COAP_CODE_CLASS (pd_code request) = 0
        then do {
          (response, s) \<leftarrow> answer e request s;
          encoded \<leftarrow> coap_pdu_encode (sy_mem s) response COAP_MAX_PDU_SIZE;
          (case encoded of
             None \<Rightarrow> Some (COAP_OK, s)
           | Some bytes \<Rightarrow> do {
               (_, s) \<leftarrow> net_sendto (ce_switch e) (ct_socket_fd (cx s)) bytes from_addr s;
               Some (COAP_OK, s) }) }
        else Some (COAP_OK, s)) })"

section \<open>Utilities\<close>

fun coap_error_to_string :: "coap_error \<Rightarrow> string" where
  "coap_error_to_string COAP_OK = ''OK''"
| "coap_error_to_string COAP_ERROR_INVALID_PARAM = ''Invalid parameter''"
| "coap_error_to_string COAP_ERROR_NO_MEMORY = ''No memory''"
| "coap_error_to_string COAP_ERROR_TIMEOUT = ''Timeout''"
| "coap_error_to_string COAP_ERROR_NETWORK = ''Network error''"
| "coap_error_to_string COAP_ERROR_PARSE = ''Parse error''"
| "coap_error_to_string COAP_ERROR_INVALID_MESSAGE = ''Invalid message''"
| "coap_error_to_string COAP_ERROR_NOT_FOUND = ''Not found''"
| "coap_error_to_string _ = ''Unknown error''"

definition coap_response_code_to_string :: "u8 \<Rightarrow> string" where
  "coap_response_code_to_string code =
    (if code = 65 then ''2.01 Created''
     else if code = 66 then ''2.02 Deleted''
     else if code = 67 then ''2.03 Valid''
     else if code = 68 then ''2.04 Changed''
     else if code = COAP_RESPONSE_205_CONTENT then ''2.05 Content''
     else if code = 128 then ''4.00 Bad Request''
     else if code = COAP_RESPONSE_404_NOT_FOUND then ''4.04 Not Found''
     else if code = 133 then ''4.05 Method Not Allowed''
     else if code = 160 then ''5.00 Internal Server Error''
     else ''Unknown'')"

definition coap_response_free ::
    "coap_response option \<Rightarrow> ('d, 'a) coaps_scheme \<Rightarrow> (coap_response option \<times> ('d, 'a) coaps_scheme) option" where
  "coap_response_free response s =
    (case response of
       None \<Rightarrow> Some (None, s)
     | Some r \<Rightarrow>
        if cr_payload r = None then Some (Some r, s)
        else do {
          s \<leftarrow> free_block (cr_payload r) s;
          Some (Some (r\<lparr>cr_payload := None, cr_payload_length := 0\<rparr>), s) })"

end
