(* ===== verification/Coap_Spec.thy ===== *)
theory Coap_Spec
  imports Coap
begin

text \<open>
  Properties of CoAP: messages survive their encoding, and what becomes of the path of a request
  on its way from the client to the server.
\<close>

section \<open>Bytes in memory\<close>

definition stored :: "(addr \<Rightarrow> u8) \<Rightarrow> addr \<Rightarrow> nat \<Rightarrow> nat \<Rightarrow> u8 list \<Rightarrow> bool" where
  "stored mem base cap pos bs \<longleftrightarrow> pos + length bs \<le> cap \<and> mem_bytes mem (base + pos) (length bs) = bs"

lemma mem_bytes_nth [simp]: "i < n \<Longrightarrow> mem_bytes mem a n ! i = mem (a + i)"
  by (simp add: mem_bytes_def)

lemma mem_bytes_add: "mem_bytes mem a (m + n) = mem_bytes mem a m @ mem_bytes mem (a + m) n"
  by (rule nth_equalityI) (auto simp: nth_append)

lemma stored_append: "stored mem base cap pos (xs @ ys) \<longleftrightarrow> stored mem base cap pos xs \<and> stored mem base cap (pos + length xs) ys"
proof -
  have "mem_bytes mem (base + pos) (length (xs @ ys)) = xs @ ys \<longleftrightarrow>
      mem_bytes mem (base + pos) (length xs) = xs \<and> mem_bytes mem (base + (pos + length xs)) (length ys) = ys"
    by (simp only: length_append mem_bytes_add append_eq_append_conv length_mem_bytes add.assoc simp_thms)
  then show ?thesis by (auto simp only: stored_def length_append)
qed

lemma stored_single: "stored mem base cap pos [x] \<longleftrightarrow> byte_at mem base cap pos = Some x"
  by (auto simp: stored_def byte_at_def mem_bytes_def)

lemma stored_Cons: "stored mem base cap pos (x # xs) \<longleftrightarrow> byte_at mem base cap pos = Some x \<and> stored mem base cap (pos + 1) xs"
  using stored_append [of mem base cap pos "[x]" xs] by (simp only: stored_single append_Cons append_Nil length_Cons list.size(3)) simp

section \<open>Numbers\<close>

lemma unat_ucast_u8: "unat (ucast (w :: u16) :: u8) = unat w mod 256"
  by (simp add: unsigned_ucast_eq take_bit_eq_mod)

lemma delta_nibble: "coap_encode_option_delta_length v = (n, ext) \<Longrightarrow> n \<le> 14"
  by (auto simp: coap_encode_option_delta_length_def word_le_nat_alt word_less_nat_alt unat_ucast_u8 split: if_splits)

lemma be16_join: "push_bit 8 (ucast (ucast (drop_bit 8 w) :: u8)) OR ucast (ucast w :: u8) = (w :: u16)"
  using getbe16_be16 [of "[]" w "[]"] by (simp add: getbe16_def be16_def)

lemma delta_round_trip:
  assumes "coap_encode_option_delta_length v = (n, ext)" "stored mem base cap pos ext"
  shows "coap_decode_option_delta_length mem base cap pos n = Some (v, pos + length ext)"
proof -
  consider "v < 13" | "\<not> v < 13" "v < 269" | "\<not> v < 13" "\<not> v < 269" by blast
  then show ?thesis
  proof cases
    case 1
    then have v: "unat v < 13" by (simp add: word_less_nat_alt)
    then have "(ucast v :: u8) < 13" "ucast (ucast v :: u8) = v"
      by (simp_all add: word_less_nat_alt word_unat_eq_iff unat_ucast_u8)
    moreover have "n = ucast v" "ext = []" using assms(1) 1 by (simp_all add: coap_encode_option_delta_length_def)
    ultimately show ?thesis by (simp add: coap_decode_option_delta_length_def)
  next
    case 2
    then have "unat v < 269" "13 \<le> unat v" by (simp_all add: word_less_nat_alt)
    then have "unat (v - 13) = unat v - 13" by (subst unat_sub) (simp_all add: word_le_nat_alt)
    then have "(ucast (ucast (v - 13) :: u8) :: u16) = v - 13"
      using \<open>unat v < 269\<close> by (simp add: word_unat_eq_iff unat_ucast_u16 unat_ucast_u8)
    moreover have "n = 13" "ext = [ucast (v - 13)]" using assms(1) 2 by (simp_all add: coap_encode_option_delta_length_def)
    ultimately show ?thesis using assms(2) by (simp add: coap_decode_option_delta_length_def stored_Cons)
  next
    case 3
    then have "n = 14" "ext = be16 (v - 269)" using assms(1) by (simp_all add: coap_encode_option_delta_length_def)
    moreover define w where "w = v - 269"
    ultimately have "n = 14" "ext = be16 w" "v = w + 269" by simp_all
    then show ?thesis using assms(2) be16_join [of w] by (simp add: coap_decode_option_delta_length_def stored_Cons be16_def)
  qed
qed

lemma nibbles:
  assumes "(d :: u8) \<le> 14" "(l :: u8) \<le> 14"
  shows "drop_bit 4 (push_bit 4 d OR l) AND 0x0F = d" "(push_bit 4 d OR l) AND 0x0F = l" "push_bit 4 d OR l \<noteq> 0xFF"
proof -
  have b: "bit (w :: u8) n \<longleftrightarrow> n < 4 \<and> bit w n" if "w \<le> 14" for w n
  proof -
    have "unat w mod 16 = unat w" using that by (simp add: word_le_nat_alt)
    then have "take_bit 4 w = w" by (simp add: word_unat_eq_iff unat_mod take_bit_eq_mod)
    then show ?thesis by (metis bit_take_bit_iff)
  qed
  have m: "(0x0F :: u8) = mask 4" by (simp add: mask_eq_exp_minus_1)
  have d: "bit (drop_bit 4 (push_bit 4 d OR l) AND mask 4) n = bit d n" for n
    using b [OF assms(1), of n] b [OF assms(2), of "4 + n"] by (auto simp: bit_simps)
  have l: "bit ((push_bit 4 d OR l) AND mask 4) n = bit l n" for n
    using b [OF assms(2), of n] by (auto simp: bit_simps)
  show "drop_bit 4 (push_bit 4 d OR l) AND 0x0F = d" unfolding m by (rule bit_word_eqI) (rule d)
  show e: "(push_bit 4 d OR l) AND 0x0F = l" unfolding m by (rule bit_word_eqI) (rule l)
  show "push_bit 4 d OR l \<noteq> 0xFF"
  proof
    assume "push_bit 4 d OR l = 0xFF"
    then have "l = 0xFF AND 0x0F" using e by (simp only:)
    then show False using assms(2) by simp
  qed
qed

section \<open>Options\<close>

lemma unat_add_u8_small: "unat (w :: u8) < 255 \<Longrightarrow> unat (w + 1) = unat w + 1"
  by (simp add: unat_word_ariths)

text \<open>The bytes of an option, and of all options of a message.\<close>

definition option_bytes :: "(addr \<Rightarrow> u8) \<Rightarrow> u16 \<Rightarrow> coap_option \<Rightarrow> u8 list" where
  "option_bytes mem prev opt =
    (let (d, dx) = coap_encode_option_delta_length (op_number opt - prev);
         (l, lx) = coap_encode_option_delta_length (op_length opt)
     in (push_bit 4 d OR l) # dx @ lx @ mem_bytes mem (op_value opt) (unat (op_length opt)))"

fun options_bytes :: "(addr \<Rightarrow> u8) \<Rightarrow> u16 \<Rightarrow> coap_option list \<Rightarrow> u8 list" where
  "options_bytes mem prev [] = []"
| "options_bytes mem prev (opt # opts) = option_bytes mem prev opt @ options_bytes mem (op_number opt) opts"

lemma emit_Some: "emit cap bs out = Some out' \<longleftrightarrow> length bs \<le> cap - length out \<and> out' = out @ bs"
  by (auto simp: emit_def)

lemma encode_option_bytes: "encode_option mem cap prev opt out = Some out' \<Longrightarrow> out' = out @ option_bytes mem prev opt"
  by (auto simp: encode_option_def option_bytes_def split_beta Let_def bind_eq_Some_conv emit_Some)

lemma encode_options_bytes: "encode_options mem cap prev opts out = Some out' \<Longrightarrow> out' = out @ options_bytes mem prev opts"
  by (induction opts arbitrary: prev out) (auto simp: bind_eq_Some_conv dest!: encode_option_bytes, metis append.assoc)

definition same_option :: "(addr \<Rightarrow> u8) \<Rightarrow> (addr \<Rightarrow> u8) \<Rightarrow> coap_option \<Rightarrow> coap_option \<Rightarrow> bool" where
  "same_option mem mem' o1 o2 \<longleftrightarrow> op_number o2 = op_number o1 \<and> op_length o2 = op_length o1 \<and>
     mem_bytes mem' (op_value o2) (unat (op_length o2)) = mem_bytes mem (op_value o1) (unat (op_length o1))"

lemma decode_one_option:
  assumes "stored mem' base cap pos (option_bytes mem prev opt)" "pos + length (option_bytes mem prev opt) \<le> len"
    and "unat (pd_option_count p) < COAP_MAX_OPTION_COUNT"
  shows "\<exists>opt'. same_option mem mem' opt opt' \<and>
    decode_options mem' base cap len pos prev p =
    decode_options mem' base cap len (pos + length (option_bytes mem prev opt)) (op_number opt)
      (p\<lparr>pd_options := (pd_options p)(unat (pd_option_count p) := opt'), pd_option_count := pd_option_count p + 1\<rparr>)"
proof -
  obtain d dx l lx where c: "coap_encode_option_delta_length (op_number opt - prev) = (d, dx)"
    "coap_encode_option_delta_length (op_length opt) = (l, lx)" by fastforce
  let ?n = "unat (op_length opt)" and ?p1 = "pos + 1 + length dx" and ?p2 = "pos + 1 + length dx + length lx"
  have ob: "option_bytes mem prev opt = (push_bit 4 d OR l) # dx @ lx @ mem_bytes mem (op_value opt) ?n"
    by (simp add: option_bytes_def c)
  define b where "b = push_bit 4 d OR l"
  have nib: "drop_bit 4 b AND 0x0F = d" "b AND 0x0F = l" "b \<noteq> 0xFF"
    using nibbles [OF delta_nibble [OF c(1)] delta_nibble [OF c(2)]] by (simp_all only: b_def simp_thms)
  have st: "byte_at mem' base cap pos = Some b" "stored mem' base cap (pos + 1) dx" "stored mem' base cap ?p1 lx"
    "stored mem' base cap ?p2 (mem_bytes mem (op_value opt) ?n)"
    using assms(1) by (simp_all add: ob b_def stored_Cons stored_append)
  have dec: "coap_decode_option_delta_length mem' base cap (Suc pos) d = Some (op_number opt - prev, Suc (pos + length dx))"
    "coap_decode_option_delta_length mem' base cap (Suc (pos + length dx)) l = Some (op_length opt, Suc (pos + length dx + length lx))"
    using delta_round_trip [OF c(1) st(2)] delta_round_trip [OF c(2) st(3)] by simp_all
  have len: "pos < len" "\<not> len < ?p2 + ?n" using assms(2) by (simp_all add: ob)
  let ?o = "\<lparr>op_number = op_number opt, op_length = op_length opt, op_value = base + ?p2\<rparr>"
  have "same_option mem mem' opt ?o" using st(4) by (simp add: same_option_def stored_def)
  moreover have "decode_options mem' base cap len pos prev p = decode_options mem' base cap len (?p2 + ?n) (op_number opt)
      (p\<lparr>pd_options := (pd_options p)(unat (pd_option_count p) := ?o), pd_option_count := pd_option_count p + 1\<rparr>)"
    using assms(3) len nib by (subst decode_options.simps)
      (simp add: st(1) COAP_PAYLOAD_MARKER_def dec)
  moreover have "?p2 + ?n = pos + length (option_bytes mem prev opt)" by (simp add: ob)
  ultimately show ?thesis by metis
qed

lemma decode_all_options:
  assumes "stored mem' base cap pos (options_bytes mem prev opts)" "pos + length (options_bytes mem prev opts) \<le> len"
    and "unat (pd_option_count p) + length opts \<le> COAP_MAX_OPTION_COUNT"
  shows "\<exists>f num. decode_options mem' base cap len pos prev p =
      decode_options mem' base cap len (pos + length (options_bytes mem prev opts)) num
        (p\<lparr>pd_options := f, pd_option_count := pd_option_count p + of_nat (length opts)\<rparr>) \<and>
    (\<forall>i < unat (pd_option_count p). f i = pd_options p i) \<and>
    (\<forall>i < length opts. same_option mem mem' (opts ! i) (f (unat (pd_option_count p) + i)))"
  using assms
proof (induction opts arbitrary: prev pos p)
  case Nil
  have "p = p\<lparr>pd_options := pd_options p, pd_option_count := pd_option_count p + of_nat (length [])\<rparr>" by simp
  then show ?case by (metis add_0_right list.size(3) not_less_zero options_bytes.simps(1))
next
  case (Cons opt opts)
  let ?c = "unat (pd_option_count p)" and ?pos = "pos + length (option_bytes mem prev opt)"
  have st: "stored mem' base cap pos (option_bytes mem prev opt)" "stored mem' base cap ?pos (options_bytes mem (op_number opt) opts)"
    using Cons.prems(1) by (simp_all add: stored_append)
  have le: "pos + length (option_bytes mem prev opt) \<le> len" "?pos + length (options_bytes mem (op_number opt) opts) \<le> len"
    using Cons.prems(2) by simp_all
  have lt: "?c < COAP_MAX_OPTION_COUNT" using Cons.prems(3) by simp
  obtain opt' where o: "same_option mem mem' opt opt'" "decode_options mem' base cap len pos prev p =
      decode_options mem' base cap len ?pos (op_number opt)
        (p\<lparr>pd_options := (pd_options p)(?c := opt'), pd_option_count := pd_option_count p + 1\<rparr>)" (is "_ = decode_options _ _ _ _ _ _ ?p1")
    using decode_one_option [OF st(1) le(1) lt] by blast
  have c1: "unat (pd_option_count ?p1) = ?c + 1"
    using lt by (simp add: COAP_MAX_OPTION_COUNT_def unat_add_u8_small)
  have "unat (pd_option_count ?p1) + length opts \<le> COAP_MAX_OPTION_COUNT" using Cons.prems(3) c1 by simp
  from Cons.IH [OF st(2) le(2) this] obtain f num where f: "decode_options mem' base cap len ?pos (op_number opt) ?p1 =
      decode_options mem' base cap len (?pos + length (options_bytes mem (op_number opt) opts)) num
        (?p1\<lparr>pd_options := f, pd_option_count := pd_option_count ?p1 + of_nat (length opts)\<rparr>)"
    "\<forall>i < ?c + 1. f i = ((pd_options p)(?c := opt')) i"
    "\<forall>i < length opts. same_option mem mem' (opts ! i) (f (?c + 1 + i))" using c1 by auto
  have "same_option mem mem' ((opt # opts) ! i) (f (?c + i))" if "i < length (opt # opts)" for i
    using that f(2,3) o(1) by (cases i) auto
  moreover have "\<forall>i < ?c. f i = pd_options p i" using f(2) by simp
  moreover have "decode_options mem' base cap len pos prev p =
      decode_options mem' base cap len (pos + length (options_bytes mem prev (opt # opts))) num
        (p\<lparr>pd_options := f, pd_option_count := pd_option_count p + of_nat (length (opt # opts))\<rparr>)"
    using o(2) f(1) by (simp add: add.assoc)
  ultimately show ?case by blast
qed

section \<open>Messages\<close>

text \<open>A message that the functions of the file build from legal arguments.\<close>

definition pdu_wf :: "coap_pdu \<Rightarrow> bool" where
  "pdu_wf p \<longleftrightarrow> pd_version p = COAP_VERSION \<and> pd_type p < 4 \<and> unat (pd_token_length p) \<le> COAP_MAX_TOKEN_LEN \<and>
     length (pd_token p) = COAP_MAX_TOKEN_LEN \<and> unat (pd_option_count p) \<le> COAP_MAX_OPTION_COUNT \<and>
     (pd_payload p = Own_Buffer \<longrightarrow> unat (pd_payload_length p) \<le> length (pd_buffer p))"

lemma pdu_wf_init: "type < 4 \<Longrightarrow> pdu_wf (coap_pdu_init type code message_id)"
  by (simp add: pdu_wf_def coap_pdu_init_def)

lemma pdu_wf_set_token: "coap_pdu_set_token token n p = Some (err, p') \<Longrightarrow> pdu_wf p \<Longrightarrow> pdu_wf p'"
  by (auto simp: coap_pdu_set_token_def pdu_wf_def bind_eq_Some_conv avail_def splice_def COAP_MAX_TOKEN_LEN_def
      split: if_splits option.splits)

lemma pdu_wf_add_option: "pdu_wf p \<Longrightarrow> pdu_wf (snd (coap_pdu_add_option num value n p))"
  by (auto simp: coap_pdu_add_option_def pdu_wf_def COAP_MAX_OPTION_COUNT_def unat_add_u8_small)

lemma pdu_wf_set_payload: "payload \<noteq> Own_Buffer \<Longrightarrow> pdu_wf p \<Longrightarrow> pdu_wf (snd (coap_pdu_set_payload payload n p))"
  by (auto simp: coap_pdu_set_payload_def pdu_wf_def)

lemma below_bits:
  assumes "unat (w :: u8) < 2 ^ k"
  shows "bit w n \<Longrightarrow> n < k"
proof -
  have "take_bit k w = w" using assms by (simp add: word_unat_eq_iff unsigned_take_bit_eq take_bit_nat_eq_self)
  then show "bit w n \<Longrightarrow> n < k" by (metis bit_take_bit_iff)
qed

lemma header_byte:
  assumes "(t :: u8) < 4" "unat (n :: u8) \<le> 8"
  defines "b \<equiv> push_bit 6 1 OR push_bit 4 t OR n"
  shows "drop_bit 6 b AND 0x03 = 1" "drop_bit 4 b AND 0x03 = t" "b AND 0x0F = n"
proof -
  have t: "bit t i \<Longrightarrow> i < 2" for i using below_bits [of t 2] assms(1) by (simp add: word_less_nat_alt)
  have n: "bit n i \<Longrightarrow> i < 4" for i using below_bits [of n 4] assms(2) by simp
  have m: "(0x03 :: u8) = mask 2" "(0x0F :: u8) = mask 4" by (simp_all add: mask_eq_exp_minus_1)
  have b: "bit b i \<longleftrightarrow> i = 6 \<or> 4 \<le> i \<and> i < 8 \<and> bit t (i - 4) \<or> bit n i" for i
    by (simp only: b_def bit_or_iff bit_push_bit_iff bit_1_iff) (auto simp: possible_bit_word)
  show "drop_bit 6 b AND 0x03 = 1" unfolding m
    by (rule bit_word_eqI) (auto simp: bit_and_iff bit_drop_bit_eq bit_mask_iff bit_1_iff b dest: t n)
  show "drop_bit 4 b AND 0x03 = t" unfolding m
    by (rule bit_word_eqI) (auto simp: bit_and_iff bit_drop_bit_eq bit_mask_iff b dest: t n)
  show "b AND 0x0F = n" unfolding m
    by (rule bit_word_eqI) (auto simp: bit_and_iff bit_mask_iff b dest: t n)
qed

lemma encode_shape:
  assumes "coap_pdu_encode mem p cap = Some (Some bs)" "length (pd_token p) = COAP_MAX_TOKEN_LEN"
  obtains tail where
    "bs = (push_bit 6 (pd_version p) OR push_bit 4 (pd_type p) OR pd_token_length p) # pd_code p # be16 (pd_message_id p) @
       take (unat (pd_token_length p)) (pd_token p) @
       options_bytes mem 0 (map (pd_options p) [0..<unat (pd_option_count p)]) @ tail"
    "if pd_payload_length p > 0 then \<exists>ps. payload_bytes mem p = Some ps \<and> tail = COAP_PAYLOAD_MARKER # ps else tail = []"
  using assms(1)
  by (auto simp: coap_pdu_encode_def Let_def bind_eq_Some_conv emit_Some split: if_splits option.splits
      dest!: encode_options_bytes)

text \<open>What decoding the header and the token of a message leaves.\<close>

definition with_header :: "coap_pdu \<Rightarrow> coap_pdu \<Rightarrow> coap_pdu" where
  "with_header p q = q\<lparr>pd_version := pd_version p, pd_type := pd_type p, pd_token_length := pd_token_length p, pd_code := pd_code p,
     pd_message_id := pd_message_id p, pd_token := splice 0 (take (unat (pd_token_length p)) (pd_token p)) (pd_token q), pd_option_count := 0\<rparr>"

lemma decode_header:
  assumes "pdu_wf p" "stored mem' base cap 0 ((push_bit 6 (pd_version p) OR push_bit 4 (pd_type p) OR pd_token_length p) # pd_code p #
      be16 (pd_message_id p) @ take (unat (pd_token_length p)) (pd_token p))" "4 + unat (pd_token_length p) \<le> len"
  shows "coap_pdu_decode mem' base cap len q = decode_options mem' base cap len (4 + unat (pd_token_length p)) 0 (with_header p q)"
proof -
  define b where "b = push_bit 6 (1 :: u8) OR push_bit 4 (pd_type p) OR pd_token_length p"
  let ?n = "unat (pd_token_length p)" and ?id = "pd_message_id p"
  have wf: "pd_version p = 1" "pd_type p < 4" "?n \<le> 8" "length (pd_token p) = 8"
    using assms(1) by (simp_all add: pdu_wf_def COAP_VERSION_def COAP_MAX_TOKEN_LEN_def)
  have hb: "drop_bit 6 b AND 0x03 = 1" "drop_bit 4 b AND 0x03 = pd_type p" "b AND 0x0F = pd_token_length p"
    unfolding b_def by (rule header_byte [OF wf(2,3)])+
  have st: "stored mem' base cap 0 ([b, pd_code p, ucast (drop_bit 8 ?id), ucast ?id] @ take ?n (pd_token p))"
    using assms(2) by (simp only: wf(1) b_def be16_def append_Cons append_Nil)
  have bt: "byte_at mem' base cap 0 = Some b" "byte_at mem' base cap (Suc 0) = Some (pd_code p)"
    "byte_at mem' base cap 2 = Some (ucast (drop_bit 8 ?id))" "byte_at mem' base cap 3 = Some (ucast ?id)"
    using st by (simp_all add: stored_Cons numeral_eq_Suc)
  have "stored mem' base cap 4 (take ?n (pd_token p))" using st by (simp add: stored_Cons numeral_eq_Suc)
  then have tok: "mem_bytes mem' (base + 4) ?n = take ?n (pd_token p)" using wf(3,4) by (simp add: stored_def)
  show ?thesis
    using assms(3) wf(3)
    by (simp add: coap_pdu_decode_def bt hb COAP_HEADER_SIZE_def COAP_VERSION_def COAP_MAX_TOKEN_LEN_def tok be16_join wf(1) with_header_def Let_def)
qed

lemma payload_found_bytes:
  assumes "stored mem' base cap pos ps" "length ps < 65536" "ps \<noteq> []" "length ps \<le> length (pd_buffer q)"
  shows "\<exists>buf. payload_found mem' base (pos + length ps) pos q =
    Some (q\<lparr>pd_payload_length := of_nat (length ps), pd_buffer := ps @ buf, pd_payload := Own_Buffer\<rparr>)"
proof -
  have "unat (of_nat (length ps) :: u16) = length ps" "(of_nat (length ps) :: u16) > 0"
    using assms(2,3) by (simp_all add: unat_of_nat_u16 word_less_nat_alt)
  then show ?thesis using assms by (intro exI [of _ "drop (length ps) (pd_buffer q)"])
    (simp add: payload_found_def stored_def avail_def splice_def)
qed

text \<open>The message that was decoded is the one that was encoded.\<close>

definition same_message :: "(addr \<Rightarrow> u8) \<Rightarrow> coap_pdu \<Rightarrow> (addr \<Rightarrow> u8) \<Rightarrow> coap_pdu \<Rightarrow> bool" where
  "same_message mem p mem' r \<longleftrightarrow> pd_version r = pd_version p \<and> pd_type r = pd_type p \<and> pd_code r = pd_code p \<and>
     pd_message_id r = pd_message_id p \<and> same_token r p \<and> pd_option_count r = pd_option_count p \<and>
     (\<forall>i < unat (pd_option_count p). same_option mem mem' (pd_options p i) (pd_options r i)) \<and>
     (pd_payload_length p > 0 \<longrightarrow> pd_payload_length r = pd_payload_length p \<and> payload_bytes mem' r = payload_bytes mem p)"

lemma coap_codec:
  assumes wf: "pdu_wf p" and enc: "coap_pdu_encode mem p cap = Some (Some bs)"
    and rcv: "stored mem' base COAP_MAX_PDU_SIZE 0 bs" and q: "length (pd_token q) = COAP_MAX_TOKEN_LEN" "length (pd_buffer q) = COAP_MAX_PDU_SIZE"
  shows "\<exists>r. coap_pdu_decode mem' base COAP_MAX_PDU_SIZE (length bs) q = Some (COAP_OK, r) \<and> same_message mem p mem' r \<and>
    (pd_payload_length p = 0 \<longrightarrow> pd_payload r = pd_payload q \<and> pd_payload_length r = pd_payload_length q)"
proof -
  let ?n = "unat (pd_token_length p)" and ?cap = COAP_MAX_PDU_SIZE and ?opts = "map (pd_options p) [0..<unat (pd_option_count p)]"
  let ?hd = "(push_bit 6 (pd_version p) OR push_bit 4 (pd_type p) OR pd_token_length p) # pd_code p # be16 (pd_message_id p) @
       take ?n (pd_token p)"
  have tl: "length (pd_token p) = COAP_MAX_TOKEN_LEN" "?n \<le> COAP_MAX_TOKEN_LEN" using wf by (simp_all add: pdu_wf_def)
  obtain tail where bs: "bs = ?hd @ options_bytes mem 0 ?opts @ tail"
    and tail: "if pd_payload_length p > 0 then \<exists>ps. payload_bytes mem p = Some ps \<and> tail = COAP_PAYLOAD_MARKER # ps else tail = []"
    by (rule encode_shape [OF enc tl(1)]) simp
  let ?ob = "options_bytes mem 0 ?opts" and ?q = "with_header p q"
  have hd: "length ?hd = 4 + ?n" using tl by (simp add: be16_def)
  have st: "stored mem' base ?cap 0 ?hd" "stored mem' base ?cap (4 + ?n) ?ob" "stored mem' base ?cap (4 + ?n + length ?ob) tail"
    using rcv hd unfolding bs stored_append by (simp_all only: add_0 simp_thms)
  have len: "length bs = 4 + ?n + length ?ob + length tail" using hd unfolding bs length_append by (simp only: add.assoc)
  have "unat (pd_option_count ?q) + length ?opts \<le> COAP_MAX_OPTION_COUNT" "4 + ?n + length ?ob \<le> length bs"
    using wf len by (simp_all add: pdu_wf_def with_header_def)
  from decode_all_options [OF st(2) this(2,1)] obtain f num where f:
    "decode_options mem' base ?cap (length bs) (4 + ?n) 0 ?q = decode_options mem' base ?cap (length bs) (4 + ?n + length ?ob) num
       (?q\<lparr>pd_options := f, pd_option_count := pd_option_count p\<rparr>)"
    "\<forall>i < unat (pd_option_count p). same_option mem mem' (pd_options p i) (f i)"
    by (auto simp: with_header_def)
  let ?r = "?q\<lparr>pd_options := f, pd_option_count := pd_option_count p\<rparr>"
  have dec: "coap_pdu_decode mem' base ?cap (length bs) q = decode_options mem' base ?cap (length bs) (4 + ?n + length ?ob) num ?r"
    using decode_header [OF wf st(1), of "length bs" q] len f(1) by simp
  have same: "same_token ?r p" using tl q(1) by (simp add: same_token_def with_header_def splice_def)
  show ?thesis
  proof (cases "pd_payload_length p > 0")
    case False
    then have "tail = []" "pd_payload_length p = 0" using tail by (auto simp: word_gt_0)
    then show ?thesis using dec len same f(2)
      by (simp add: decode_options.simps same_message_def) (simp add: with_header_def same_token_def)
  next
    case True
    then obtain ps where ps: "payload_bytes mem p = Some ps" "tail = COAP_PAYLOAD_MARKER # ps" using tail by auto
    let ?pos = "4 + ?n + length ?ob + 1"
    have lps: "length ps = unat (pd_payload_length p)" using ps(1) wf by (auto simp: payload_bytes_def pdu_wf_def split: payload_ref.splits)
    then have ne: "ps \<noteq> []" using True by (auto simp: word_less_nat_alt)
    have cp: "?pos + length ps \<le> ?cap" using st(3) ps(2) by (simp add: stored_def)
    have bt: "byte_at mem' base ?cap (4 + ?n + length ?ob) = Some COAP_PAYLOAD_MARKER" "stored mem' base ?cap ?pos ps"
      using st(3) ps(2) by (simp_all add: stored_Cons)
    have "length ps < 65536" "length ps \<le> length (pd_buffer ?r)"
      using lps cp q(2) unat_u16_less [of "pd_payload_length p"] by (simp_all add: with_header_def del: unat_u16_less)
    from payload_found_bytes [OF bt(2) this(1) ne this(2)] obtain buf where buf: "payload_found mem' base (?pos + length ps) ?pos ?r =
        Some (?r\<lparr>pd_payload_length := of_nat (length ps), pd_buffer := ps @ buf, pd_payload := Own_Buffer\<rparr>)" (is "_ = Some ?s") by blast
    have "length bs = ?pos + length ps" using len ps(2) by simp
    then have "coap_pdu_decode mem' base ?cap (length bs) q = Some (COAP_OK, ?s)"
      using dec bt(1) buf by (simp add: decode_options.simps)
    moreover have "same_message mem p mem' ?s"
      using same f(2) ps(1) lps by (simp add: same_message_def payload_bytes_def with_header_def same_token_def)
    ultimately show ?thesis using True by auto
  qed
qed

section \<open>The encoder and its buffer\<close>

lemma encode_option_exact:
  "length out \<le> cap \<Longrightarrow> encode_option mem cap prev opt out =
    (if length (out @ option_bytes mem prev opt) \<le> cap then Some (out @ option_bytes mem prev opt) else None)"
  by (auto simp: encode_option_def option_bytes_def emit_def split_beta Let_def)

lemma encode_options_exact:
  "length out \<le> cap \<Longrightarrow> encode_options mem cap prev opts out =
    (if length (out @ options_bytes mem prev opts) \<le> cap then Some (out @ options_bytes mem prev opts) else None)"
proof (induction opts arbitrary: prev out)
  case (Cons opt opts)
  show ?case
  proof (cases "length (out @ option_bytes mem prev opt) \<le> cap")
    case True
    then show ?thesis using Cons.IH [OF True] Cons.prems by (simp add: encode_option_exact add.assoc)
  next
    case False
    then show ?thesis using Cons.prems by (simp add: encode_option_exact)
  qed
qed simp

definition message_bytes :: "(addr \<Rightarrow> u8) \<Rightarrow> coap_pdu \<Rightarrow> u8 list" where
  "message_bytes mem p =
     (push_bit 6 (pd_version p) OR push_bit 4 (pd_type p) OR pd_token_length p) # pd_code p # be16 (pd_message_id p) @
     take (unat (pd_token_length p)) (pd_token p) @ options_bytes mem 0 (map (pd_options p) [0..<unat (pd_option_count p)]) @
     (if pd_payload_length p > 0 then COAP_PAYLOAD_MARKER # the (payload_bytes mem p) else [])"

lemma encode_exact:
  assumes wf: "pdu_wf p" and pl: "pd_payload_length p > 0 \<Longrightarrow> pd_payload p \<noteq> No_Payload"
  shows "coap_pdu_encode mem p cap = Some (if length (message_bytes mem p) \<le> cap then Some (message_bytes mem p) else None)"
proof -
  let ?tok = "take (unat (pd_token_length p)) (pd_token p)" and ?opts = "map (pd_options p) [0..<unat (pd_option_count p)]"
  let ?h = "(push_bit 6 (pd_version p) OR push_bit 4 (pd_type p) OR pd_token_length p) # pd_code p # be16 (pd_message_id p)"
  let ?m = "(?h @ ?tok) @ options_bytes mem 0 ?opts"
  have h: "length ?h = 4" by (simp add: be16_def)
  have av: "avail (unat (pd_token_length p)) (pd_token p) = Some ()" using wf by (simp add: pdu_wf_def avail_def)
  have tl: "length ?tok = unat (pd_token_length p)" using wf by (simp add: pdu_wf_def)
  have opts: "encode_options mem cap 0 ?opts (?h @ ?tok) = (if length ?m \<le> cap then Some ?m else None)"
    if "4 \<le> cap" "\<not> cap - 4 < unat (pd_token_length p)"
  proof -
    have "length (?h @ ?tok) \<le> cap" using that h tl unfolding length_append by linarith
    then show ?thesis by (rule encode_options_exact)
  qed
  have long: "\<not> length ?m \<le> cap" if "cap - 4 < unat (pd_token_length p)"
    using that h tl unfolding length_append by linarith
  have pb: "\<exists>ps. payload_bytes mem p = Some ps \<and> length ps = unat (pd_payload_length p)" if "pd_payload_length p > 0"
    using pl [OF that] wf by (cases "pd_payload p") (auto simp: payload_bytes_def pdu_wf_def)
  have mb: "message_bytes mem p = ?m @ (if pd_payload_length p > 0 then COAP_PAYLOAD_MARKER # the (payload_bytes mem p) else [])"
    by (simp add: message_bytes_def)
  have e: "coap_pdu_encode mem p cap = (if cap < 4 then Some None else if length ?m \<le> cap
      then if pd_payload_length p > 0
           then if cap - length ?m < 1 + unat (pd_payload_length p) then Some None
                else do { bs \<leftarrow> payload_bytes mem p; Some (Some (?m @ [COAP_PAYLOAD_MARKER] @ bs)) }
           else Some (Some ?m)
      else Some None)"
  proof (cases "cap < 4 \<or> cap - 4 < unat (pd_token_length p)")
    case True
    then show ?thesis using long by (auto simp: coap_pdu_encode_def COAP_HEADER_SIZE_def Let_def)
  next
    case False
    then show ?thesis using opts unfolding coap_pdu_encode_def Let_def by (simp add: COAP_HEADER_SIZE_def av)
  qed
  have "length ?m \<ge> 4" using h by simp
  then show ?thesis using pb unfolding e mb by (cases "pd_payload_length p > 0") auto
qed

section \<open>Paths\<close>

fun join_path :: "u8 list list \<Rightarrow> u8 list" where
  "join_path [] = []"
| "join_path [x] = x"
| "join_path (x # y # ys) = x @ 47 # join_path (y # ys)"

definition path_segment_ok :: "u8 list \<Rightarrow> bool" where
  "path_segment_ok x \<longleftrightarrow> x \<noteq> [] \<and> length x < PATH_SEGMENT_SIZE \<and> 47 \<notin> set x \<and> 0 \<notin> set x"

text \<open>The array \<^verbatim>\<open>path_segment\<close> after the last round.\<close>

definition last_segment :: "u8 list list \<Rightarrow> u8 list" where
  "last_segment segs = last segs @ replicate (PATH_SEGMENT_SIZE - length (last segs)) 0"

lemma takeWhile_stop: "z \<notin> set x \<Longrightarrow> takeWhile (\<lambda>c. c \<noteq> z) (x @ z # ys) = x"
  by (induction x) auto

lemma next_segment_last:
  assumes "path_segment_ok x"
  shows "next_segment x = (last_segment [x], [])" "c_string (last_segment [x]) = x"
proof -
  show "next_segment x = (last_segment [x], [])"
    using assms by (simp add: path_segment_ok_def next_segment_def strchr_def last_segment_def Let_def PATH_SEGMENT_SIZE_def)
  obtain k where "PATH_SEGMENT_SIZE - length x = Suc k" using assms by (metis path_segment_ok_def zero_less_diff gr0_conv_Suc)
  then show "c_string (last_segment [x]) = x"
    using assms by (simp add: last_segment_def c_string_def path_segment_ok_def takeWhile_stop)
qed

lemma next_segment_slash:
  "path_segment_ok x \<Longrightarrow> next_segment (x @ 47 # rest) = (x @ [0], rest)" "path_segment_ok x \<Longrightarrow> c_string (x @ [0]) = x"
  by (simp_all add: path_segment_ok_def next_segment_def strchr_def takeWhile_stop c_string_def)

lemma mem_bytes_store: "mem_bytes (mem_store a bs mem) a (length bs) = bs"
  by (rule nth_equalityI) (auto simp: mem_store_def)

lemma add_uri_option:
  assumes "path_segment_ok x" "unat (pd_option_count p) < COAP_MAX_OPTION_COUNT"
  shows "coap_pdu_add_option COAP_OPTION_URI_PATH a (of_nat (length x)) p = (COAP_OK,
    p\<lparr>pd_options := (pd_options p)(unat (pd_option_count p) := \<lparr>op_number = 11, op_length = of_nat (length x), op_value = a\<rparr>),
      pd_option_count := pd_option_count p + 1\<rparr>)"
  using assms by (simp add: coap_pdu_add_option_def COAP_OPTION_URI_PATH_def)

lemma add_path_last:
  assumes "path_segment_ok x" "unat (pd_option_count p) < COAP_MAX_OPTION_COUNT"
  shows "add_path a x (p, mem) = (snd (coap_pdu_add_option COAP_OPTION_URI_PATH a (of_nat (length x)) p), mem_store a (last_segment [x]) mem)"
  using assms next_segment_last [OF assms(1)] by (simp add: add_path.simps [of a x] add_path.simps [of a "[]"] path_segment_ok_def)

lemma add_path_slash:
  assumes "path_segment_ok x" "unat (pd_option_count p) < COAP_MAX_OPTION_COUNT"
  shows "add_path a (x @ 47 # rest) (p, mem) =
    add_path a rest (snd (coap_pdu_add_option COAP_OPTION_URI_PATH a (of_nat (length x)) p), mem_store a (x @ [0]) mem)"
  using assms next_segment_slash [OF assms(1)] by (simp add: add_path.simps [of a "x @ 47 # rest"] path_segment_ok_def)

definition uri_option :: "addr \<Rightarrow> u8 list \<Rightarrow> coap_option" where
  "uri_option a x = \<lparr>op_number = 11, op_length = of_nat (length x), op_value = a\<rparr>"

lemma add_path_segments:
  assumes "segs \<noteq> []" "list_all path_segment_ok segs" "unat (pd_option_count p) + length segs \<le> COAP_MAX_OPTION_COUNT"
  shows "\<exists>f mem'. add_path a (join_path segs) (p, mem) =
      (p\<lparr>pd_options := f, pd_option_count := pd_option_count p + of_nat (length segs)\<rparr>, mem') \<and>
    mem_bytes mem' a PATH_SEGMENT_SIZE = last_segment segs \<and> (\<forall>i < unat (pd_option_count p). f i = pd_options p i) \<and>
    (\<forall>i < length segs. f (unat (pd_option_count p) + i) = uri_option a (segs ! i))"
  using assms
proof (induction segs arbitrary: p mem rule: join_path.induct)
  case (2 x)
  have "length (last_segment [x]) = PATH_SEGMENT_SIZE" using 2 by (simp add: last_segment_def path_segment_ok_def)
  then have "mem_bytes (mem_store a (last_segment [x]) mem) a PATH_SEGMENT_SIZE = last_segment [x]" by (metis mem_bytes_store)
  then show ?case using 2 add_path_last [of x p a mem] add_uri_option [of x p a] by (auto simp: uri_option_def)
next
  case (3 x y ys)
  let ?c = "unat (pd_option_count p)"
  let ?p = "p\<lparr>pd_options := (pd_options p)(?c := uri_option a x), pd_option_count := pd_option_count p + 1\<rparr>"
  have x: "path_segment_ok x" "?c < COAP_MAX_OPTION_COUNT" using 3(3,4) by simp_all
  have c: "unat (pd_option_count ?p) = ?c + 1" using x(2) by (simp add: COAP_MAX_OPTION_COUNT_def unat_add_u8_small)
  have s: "add_path a (join_path (x # y # ys)) (p, mem) = add_path a (join_path (y # ys)) (?p, mem_store a (x @ [0]) mem)"
    using add_path_slash [OF x] add_uri_option [OF x] by (simp add: uri_option_def)
  have "list_all path_segment_ok (y # ys)" "unat (pd_option_count ?p) + length (y # ys) \<le> COAP_MAX_OPTION_COUNT"
    using 3(3,4) c by simp_all
  from 3(1) [OF list.distinct(2) this, of "mem_store a (x @ [0]) mem"] obtain f mem' where f: "add_path a (join_path (y # ys)) (?p, mem_store a (x @ [0]) mem) =
      (?p\<lparr>pd_options := f, pd_option_count := pd_option_count ?p + of_nat (length (y # ys))\<rparr>, mem')"
    "mem_bytes mem' a PATH_SEGMENT_SIZE = last_segment (y # ys)" "\<forall>i < ?c + 1. f i = ((pd_options p)(?c := uri_option a x)) i"
    "\<forall>i < length (y # ys). f (?c + 1 + i) = uri_option a ((y # ys) ! i)" unfolding c by auto
  have "f (?c + i) = uri_option a ((x # y # ys) ! i)" if "i < length (x # y # ys)" for i
    using that f(3,4) by (cases i) auto
  moreover have "\<forall>i < ?c. f i = pd_options p i" using f(3) by simp
  moreover have "last_segment (y # ys) = last_segment (x # y # ys)" by (simp add: last_segment_def)
  ultimately show ?case using s f(1,2) by (auto simp: add.assoc)
qed simp

lemma length_option_bytes: "length (option_bytes mem prev opt) \<le> 5 + unat (op_length opt)"
  by (simp add: option_bytes_def coap_encode_option_delta_length_def be16_def split_beta Let_def)

lemma length_options_bytes: "length (options_bytes mem prev opts) \<le> 5 * length opts + sum_list (map (\<lambda>opt. unat (op_length opt)) opts)"
proof (induction opts arbitrary: prev)
  case (Cons opt opts)
  show ?case using Cons [of "op_number opt"] length_option_bytes [of mem prev opt] by simp
qed simp

lemma fold_join_segment:
  assumes "\<forall>opt\<in>set opts. op_number opt = COAP_OPTION_URI_PATH"
    and "length u + length (concat (map (\<lambda>opt. mem_bytes mem (op_value opt) (unat (op_length opt)) @ [47]) opts)) < URI_PATH_SIZE"
  shows "fold (join_segment mem) opts u = u @ concat (map (\<lambda>opt. mem_bytes mem (op_value opt) (unat (op_length opt)) @ [47]) opts)"
  using assms by (induction opts arbitrary: u) (auto simp: join_segment_def)

lemma concat_slashes: "xs \<noteq> [] \<Longrightarrow> concat (map (\<lambda>x. x @ [47]) xs) = join_path xs @ [47]"
  by (induction xs rule: join_path.induct) auto

lemma length_join_path: "map length xs = map length ys \<Longrightarrow> length (join_path xs) = length (join_path ys)"
  by (induction xs arbitrary: ys rule: join_path.induct) (auto simp: map_eq_Cons_conv Cons_eq_map_conv)

lemma sum_join_path: "sum_list (map length xs) \<le> length (join_path xs)"
  by (induction xs rule: join_path.induct) auto

lemma request_path_joined:
  assumes "map (\<lambda>i. mem_bytes mem (op_value (pd_options r i)) (unat (op_length (pd_options r i)))) [0..<unat (pd_option_count r)] = xs"
    and "\<forall>i < unat (pd_option_count r). op_number (pd_options r i) = COAP_OPTION_URI_PATH" "xs \<noteq> []" "length (join_path xs) \<le> 125"
  shows "request_path mem r = c_string (47 # join_path xs)"
proof -
  let ?opts = "map (pd_options r) [0..<unat (pd_option_count r)]"
  have "concat (map (\<lambda>opt. mem_bytes mem (op_value opt) (unat (op_length opt)) @ [47]) ?opts) = concat (map (\<lambda>x. x @ [47]) xs)"
    unfolding assms(1) [symmetric] by (simp add: comp_def)
  then have c: "concat (map (\<lambda>opt. mem_bytes mem (op_value opt) (unat (op_length opt)) @ [47]) ?opts) = join_path xs @ [47]"
    using concat_slashes [OF assms(3)] by simp
  have "fold (join_segment mem) ?opts [47] = [47] @ join_path xs @ [47]"
    using fold_join_segment [of ?opts "[47]" mem] assms(2,4) unfolding c by (simp add: URI_PATH_SIZE_def)
  then show ?thesis by (simp add: request_path_def butlast_append)
qed

lemma build_get:
  assumes "segs \<noteq> []" "list_all path_segment_ok segs" "length segs \<le> COAP_MAX_OPTION_COUNT"
  shows "\<exists>req mem'. build_coap_request e COAP_METHOD_GET msg_id tick (47 # join_path segs) fmt payload 0 mem = Some (req, mem') \<and>
    pdu_wf req \<and> pd_payload_length req = 0 \<and> pd_code req = COAP_METHOD_GET \<and> pd_message_id req = msg_id \<and> pd_token_length req = 4 \<and>
    unat (pd_option_count req) = length segs \<and>
    (\<forall>i < length segs. pd_options req i = uri_option (ce_path_segment e) (segs ! i)) \<and>
    mem_bytes mem' (ce_path_segment e) PATH_SEGMENT_SIZE = last_segment segs"
proof -
  let ?i = "coap_pdu_init COAP_TYPE_CON COAP_METHOD_GET msg_id"
  let ?p = "?i\<lparr>pd_token := splice 0 (coap_generate_token tick 4) (pd_token ?i), pd_token_length := 4\<rparr>"
  have l: "length (coap_generate_token tick 4) = 4" by (simp add: coap_generate_token_def COAP_MAX_TOKEN_LEN_def)
  have t: "coap_pdu_set_token (Some (coap_generate_token tick 4)) 4 ?i = Some (COAP_OK, ?p)"
    using l by (simp add: coap_pdu_set_token_def avail_def splice_def COAP_MAX_TOKEN_LEN_def)
  have wf: "pdu_wf ?p" by (rule pdu_wf_set_token [OF t pdu_wf_init]) (simp add: COAP_TYPE_CON_def)
  have c: "unat (pd_option_count ?p) = 0" by (simp add: coap_pdu_init_def)
  obtain f mem' where f: "add_path (ce_path_segment e) (join_path segs) (?p, mem) =
      (?p\<lparr>pd_options := f, pd_option_count := pd_option_count ?p + of_nat (length segs)\<rparr>, mem')"
    "mem_bytes mem' (ce_path_segment e) PATH_SEGMENT_SIZE = last_segment segs"
    "\<forall>i < length segs. f i = uri_option (ce_path_segment e) (segs ! i)"
    using add_path_segments [OF assms(1,2), of ?p "ce_path_segment e" mem] assms(3) unfolding c by auto
  have n: "unat (of_nat (length segs) :: u8) = length segs" using assms(3)
    by (simp add: COAP_MAX_OPTION_COUNT_def unat_of_nat)
  let ?r = "?p\<lparr>pd_options := f, pd_option_count := pd_option_count ?p + of_nat (length segs)\<rparr>"
  have "build_coap_request e COAP_METHOD_GET msg_id tick (47 # join_path segs) fmt payload 0 mem = Some (?r, mem')"
    by (simp add: build_coap_request_def t skip_slash_def f(1))
  moreover have "pdu_wf ?r" using wf assms(3) n by (simp add: pdu_wf_def coap_pdu_init_def)
  moreover have "unat (pd_option_count ?r) = length segs" "pd_payload_length ?r = 0" "pd_code ?r = COAP_METHOD_GET"
    "pd_message_id ?r = msg_id" "pd_token_length ?r = 4" using n by (simp_all add: coap_pdu_init_def)
  moreover have "\<forall>i < length segs. pd_options ?r i = uri_option (ce_path_segment e) (segs ! i)" using f(3) by simp
  ultimately show ?thesis using f(2) by blast
qed

lemma mem_bytes_prefix: "n \<le> k \<Longrightarrow> mem_bytes mem a n = take n (mem_bytes mem a k)"
  by (rule nth_equalityI) auto

lemma received_path:
  assumes "unat (pd_option_count req) = length segs" "\<forall>i < length segs. pd_options req i = uri_option a (segs ! i)"
    and "mem_bytes mem a PATH_SEGMENT_SIZE = last_segment segs" "same_message mem req mem' r"
    and "\<And>x. x \<in> set segs \<Longrightarrow> length x < PATH_SEGMENT_SIZE" "segs \<noteq> []" "length (join_path segs) \<le> 125"
  shows "request_path mem' r = c_string (47 # join_path (map (\<lambda>x. take (length x) (last_segment segs)) segs))"
proof (rule request_path_joined)
  have c: "unat (pd_option_count r) = length segs" using assms(1,4) by (simp add: same_message_def)
  have so: "same_option mem mem' (uri_option a (segs ! i)) (pd_options r i)" if "i < length segs" for i
    using assms(1,2,4) that by (simp add: same_message_def)
  have le: "length (segs ! i) < PATH_SEGMENT_SIZE" if "i < length segs" for i using assms(5) that by simp
  have "mem_bytes mem' (op_value (pd_options r i)) (unat (op_length (pd_options r i))) = take (length (segs ! i)) (last_segment segs)"
    if "i < length segs" for i
    using so [OF that] le [OF that] mem_bytes_prefix [of "length (segs ! i)" PATH_SEGMENT_SIZE mem a] assms(3)
    by (auto simp: same_option_def uri_option_def unat_of_nat_u16 PATH_SEGMENT_SIZE_def)
  then show "map (\<lambda>i. mem_bytes mem' (op_value (pd_options r i)) (unat (op_length (pd_options r i)))) [0..<unat (pd_option_count r)] =
      map (\<lambda>x. take (length x) (last_segment segs)) segs" unfolding c by (intro nth_equalityI) simp_all
  show "\<forall>i < unat (pd_option_count r). op_number (pd_options r i) = COAP_OPTION_URI_PATH"
    using so unfolding c by (simp add: same_option_def uri_option_def COAP_OPTION_URI_PATH_def)
  show "map (\<lambda>x. take (length x) (last_segment segs)) segs \<noteq> []" using assms(6) by simp
  have "length (last_segment segs) = PATH_SEGMENT_SIZE" using assms(3) by (metis length_mem_bytes)
  then have "map length (map (\<lambda>x. take (length x) (last_segment segs)) segs) = map length segs" using assms(5) by (auto simp: less_imp_le)
  then show "length (join_path (map (\<lambda>x. take (length x) (last_segment segs)) segs)) \<le> 125" using length_join_path assms(7) by metis
qed

section \<open>Properties\<close>

text \<open>C39. A well-formed CoAP message of at most 1152 bytes is encoded, and decoding the bytes gives
  back its header, token, options in their order, whatever their numbers, and payload. Where the
  message has no payload, decoding keeps the payload that the structure has had before.\<close>

theorem coap_round_trip:
  assumes "pdu_wf p" "pd_payload_length p > 0 \<longrightarrow> pd_payload p \<noteq> No_Payload" "length (message_bytes mem p) \<le> COAP_MAX_PDU_SIZE"
    and "length (pd_token q) = COAP_MAX_TOKEN_LEN" "length (pd_buffer q) = COAP_MAX_PDU_SIZE"
  shows "\<exists>bs r. coap_pdu_encode mem p COAP_MAX_PDU_SIZE = Some (Some bs) \<and>
    coap_pdu_decode (mem_store base bs m) base COAP_MAX_PDU_SIZE (length bs) q = Some (COAP_OK, r) \<and>
    same_message mem p (mem_store base bs m) r \<and>
    (pd_payload_length p = 0 \<longrightarrow> pd_payload r = pd_payload q \<and> pd_payload_length r = pd_payload_length q)"
proof -
  let ?bs = "message_bytes mem p"
  have enc: "coap_pdu_encode mem p COAP_MAX_PDU_SIZE = Some (Some ?bs)" using encode_exact [OF assms(1)] assms(2,3) by simp
  have "stored (mem_store base ?bs m) base COAP_MAX_PDU_SIZE 0 ?bs" using assms(3) by (simp add: stored_def mem_bytes_store)
  from coap_codec [OF assms(1) enc this assms(4,5)] show ?thesis using enc by blast
qed

definition demo_stack :: coap_pdu where
  "demo_stack = (coap_pdu_init 0 0 0)\<lparr>pd_payload := Payload_At 7, pd_payload_length := 9\<rparr>"

definition demo_request :: coap_pdu where
  "demo_request = snd (coap_pdu_add_option 300 8 2 (snd (coap_pdu_add_option 11 5 3 (coap_pdu_init COAP_TYPE_NON COAP_METHOD_GET 4660))))"

theorem coap_round_trip_witness:
  "\<exists>bs r. coap_pdu_encode of_nat demo_request COAP_MAX_PDU_SIZE = Some (Some bs) \<and>
    coap_pdu_decode (mem_store 2000 bs (\<lambda>_. 0)) 2000 COAP_MAX_PDU_SIZE (length bs) demo_stack = Some (COAP_OK, r) \<and>
    same_message of_nat demo_request (mem_store 2000 bs (\<lambda>_. 0)) r \<and> pd_payload_length r = 9"
proof -
  have wf: "pdu_wf demo_request" unfolding demo_request_def by (intro pdu_wf_add_option pdu_wf_init) (simp add: COAP_TYPE_NON_def)
  have pl: "pd_payload_length demo_request = 0"
    by (simp add: demo_request_def coap_pdu_add_option_def coap_pdu_init_def COAP_MAX_OPTION_COUNT_def)
  have len: "length (message_bytes of_nat demo_request) \<le> COAP_MAX_PDU_SIZE"
    by (simp add: message_bytes_def demo_request_def coap_pdu_add_option_def coap_pdu_init_def COAP_MAX_OPTION_COUNT_def be16_def
        option_bytes_def coap_encode_option_delta_length_def COAP_MAX_PDU_SIZE_def upt_rec)
  have "\<exists>bs r. coap_pdu_encode of_nat demo_request COAP_MAX_PDU_SIZE = Some (Some bs) \<and>
    coap_pdu_decode (mem_store 2000 bs (\<lambda>_. 0)) 2000 COAP_MAX_PDU_SIZE (length bs) demo_stack = Some (COAP_OK, r) \<and>
    same_message of_nat demo_request (mem_store 2000 bs (\<lambda>_. 0)) r \<and>
    (pd_payload_length demo_request = 0 \<longrightarrow> pd_payload r = pd_payload demo_stack \<and> pd_payload_length r = pd_payload_length demo_stack)"
    by (rule coap_round_trip [OF wf _ len]) (simp_all add: pl demo_stack_def coap_pdu_init_def)
  then show ?thesis using pl by (auto simp: demo_stack_def)
qed

text \<open>C40. The options of a request all point to the one array for a segment of the path. The
  server gets the path of a GET request as it is when it has one segment; of a longer path it gets,
  for every segment, the first bytes of the last one.\<close>

theorem coap_get_path:
  assumes "segs \<noteq> []" "list_all path_segment_ok segs" "length segs \<le> COAP_MAX_OPTION_COUNT" "length (join_path segs) \<le> 125"
    and "length (pd_token q) = COAP_MAX_TOKEN_LEN" "length (pd_buffer q) = COAP_MAX_PDU_SIZE"
  shows "\<exists>req mem' bs r. build_coap_request e COAP_METHOD_GET msg_id tick (47 # join_path segs) 0 No_Payload 0 mem = Some (req, mem') \<and>
    coap_pdu_encode mem' req COAP_MAX_PDU_SIZE = Some (Some bs) \<and>
    coap_pdu_decode (mem_store base bs m) base COAP_MAX_PDU_SIZE (length bs) q = Some (COAP_OK, r) \<and>
    request_path (mem_store base bs m) r = c_string (47 # join_path (map (\<lambda>x. take (length x) (last_segment segs)) segs)) \<and>
    (length segs = 1 \<longrightarrow> request_path (mem_store base bs m) r = 47 # join_path segs)"
proof -
  let ?a = "ce_path_segment e" and ?xs = "map (\<lambda>x. take (length x) (last_segment segs)) segs"
  obtain req mem' where b: "build_coap_request e COAP_METHOD_GET msg_id tick (47 # join_path segs) 0 No_Payload 0 mem = Some (req, mem')"
    "pdu_wf req" "pd_payload_length req = 0" "pd_token_length req = 4" "unat (pd_option_count req) = length segs"
    "\<forall>i < length segs. pd_options req i = uri_option ?a (segs ! i)" "mem_bytes mem' ?a PATH_SEGMENT_SIZE = last_segment segs"
    using build_get [OF assms(1-3), of e msg_id tick 0 No_Payload mem] by blast
  let ?bs = "message_bytes mem' req"
  have ok: "length x < PATH_SEGMENT_SIZE" "unat (of_nat (length x) :: u16) = length x" if "x \<in> set segs" for x
    using that assms(2) by (auto simp: list_all_iff path_segment_ok_def unat_of_nat_u16 PATH_SEGMENT_SIZE_def)
  have opts: "map (pd_options req) [0..<length segs] = map (uri_option ?a) segs"
    using b(6) by (intro nth_equalityI) auto
  have "map (\<lambda>opt. unat (op_length opt)) (map (uri_option ?a) segs) = map length segs" using ok(2) by (simp add: uri_option_def)
  then have "length (options_bytes mem' 0 (map (uri_option ?a) segs)) \<le> 5 * length segs + sum_list (map length segs)"
    by (metis length_options_bytes length_map)
  then have "length (options_bytes mem' 0 (map (uri_option ?a) segs)) \<le> 205"
    using sum_join_path [of segs] assms(3,4) by (simp add: COAP_MAX_OPTION_COUNT_def)
  then have fits: "length ?bs \<le> COAP_MAX_PDU_SIZE"
    using b(3,4,5) opts by (simp add: message_bytes_def be16_def COAP_MAX_PDU_SIZE_def)
  have enc: "coap_pdu_encode mem' req COAP_MAX_PDU_SIZE = Some (Some ?bs)" using encode_exact [OF b(2)] b(3) fits by simp
  let ?m = "mem_store base ?bs m"
  have "stored ?m base COAP_MAX_PDU_SIZE 0 ?bs" using fits by (simp add: stored_def mem_bytes_store)
  from coap_codec [OF b(2) enc this assms(5,6)] obtain r where r:
    "coap_pdu_decode ?m base COAP_MAX_PDU_SIZE (length ?bs) q = Some (COAP_OK, r)" "same_message mem' req ?m r" by blast
  have path: "request_path ?m r = c_string (47 # join_path ?xs)"
    by (rule received_path [OF b(5-7) r(2) ok(1) assms(1,4)])
  show ?thesis
  proof (intro exI conjI impI)
    assume "length segs = 1"
    then obtain x where x: "segs = [x]" by (auto simp: length_Suc_conv)
    then have "0 \<notin> set x" using assms(2) by (simp add: path_segment_ok_def)
    then show "request_path ?m r = 47 # join_path segs" using path x by (auto simp: c_string_def last_segment_def takeWhile_eq_all_conv)
  qed (fact b(1) enc r(1) path)+
qed

definition demo_coap :: "(unit, unit) coap_env" where
  "demo_coap = \<lparr>ce_switch = (\<lambda>_ _ s. s), ce_ip = (\<lambda>_. IPV4 10 0 0 1), ce_path_segment = 500, ce_format = 600, ce_recv_buffer = 2000,
     ce_stack_pdu = demo_stack, ce_handler = (\<lambda>_ _ _ response _ s. Some (response, s))\<rparr>"

theorem coap_get_path_witness:
  "\<exists>req mem' bs r. build_coap_request demo_coap COAP_METHOD_GET 1 7 (47 # chars ''ab/cd'') 0 No_Payload 0 (\<lambda>_. 0) = Some (req, mem') \<and>
    coap_pdu_encode mem' req COAP_MAX_PDU_SIZE = Some (Some bs) \<and>
    coap_pdu_decode (mem_store 2000 bs (\<lambda>_. 0)) 2000 COAP_MAX_PDU_SIZE (length bs) demo_stack = Some (COAP_OK, r) \<and>
    request_path (mem_store 2000 bs (\<lambda>_. 0)) r = chars ''/cd/cd''"
proof -
  let ?segs = "[chars ''ab'', chars ''cd'']"
  have ok: "?segs \<noteq> []" "list_all path_segment_ok ?segs" "length ?segs \<le> COAP_MAX_OPTION_COUNT" "length (join_path ?segs) \<le> 125"
    "length (pd_token demo_stack) = COAP_MAX_TOKEN_LEN" "length (pd_buffer demo_stack) = COAP_MAX_PDU_SIZE"
    by (simp_all add: chars_def path_segment_ok_def PATH_SEGMENT_SIZE_def COAP_MAX_OPTION_COUNT_def demo_stack_def coap_pdu_init_def)
  have p: "join_path ?segs = chars ''ab/cd''"
    "c_string (47 # join_path (map (\<lambda>x. take (length x) (last_segment ?segs)) ?segs)) = chars ''/cd/cd''"
    by (simp_all add: chars_def last_segment_def c_string_def)
  show ?thesis using coap_get_path [OF ok, of demo_coap 1 7 "\<lambda>_. 0" 2000 "\<lambda>_. 0"] unfolding p by blast
qed

end
