(* ===== verification/Spec2Isabelle.thy ===== *)
theory Spec2Isabelle
  imports Kernel_Spec Sync_Spec Timer_Spec Memory_Spec Power_Mgmt Security Watchdog_Spec Statistics FS_Spec OTA_Spec Net_Spec Net_Checksum Http Mqtt_Spec Coap_Spec
begin

text \<open>
  TinyOS is a real-time operating system for 32-bit microcontrollers, written in C. This
  development models its kernel and services and proves what they promise. Paths below are
  relative to the root of the repository.

  \<^bold>\<open>The program and the theories.\<close>

  \<^item> Kernel, \<^verbatim>\<open>src/kernel.c\<close>: \<open>Kernel\<close> has the task control blocks, the ready queues with their
    bitmap, the tick and the scheduler, \<open>Tasks\<close> the operations on tasks, \<open>Statistics\<close> the statistics.
    Its state is the record \<open>kernel\<close>; control blocks are a heap from addresses to records, linked
    as in C. Every other service extends this record: \<open>sync\<close>, \<open>timers\<close>, \<open>memory\<close>, \<open>power\<close>, \<open>wdt\<close>
    directly, \<open>flash\<close> and \<open>ota\<close> through \<open>memory\<close>, the file system \<open>fsys\<close> and the network \<open>nets\<close> through
    \<open>sync\<close>, and the MQTT client \<open>mqtts\<close> and CoAP \<open>coaps\<close> through \<open>nets\<close>.
  \<^item> Synchronisation, \<^verbatim>\<open>src/sync.c\<close>: \<open>Sync\<close> models mutexes, semaphores, message queues, event
    groups and condition variables, \<open>Message_Queue\<close> the refinement of the ring buffer.
  \<^item> Software timers, \<^verbatim>\<open>src/timer.c\<close>: \<open>Timer\<close>. Heap allocator, \<^verbatim>\<open>src/memory.c\<close>: \<open>Memory\<close>. Power
    management, \<^verbatim>\<open>src/power.c\<close>: \<open>Power_Mgmt\<close>. Memory protection, \<^verbatim>\<open>src/security.c\<close>: \<open>Security\<close>.
    Watchdog, \<^verbatim>\<open>src/watchdog.c\<close>: \<open>Watchdog\<close>.
  \<^item> File system, \<^verbatim>\<open>src/filesystem.c\<close>, on \<^verbatim>\<open>drivers/ramdisk.c\<close>: \<open>Block_Device\<close> has the driver interface
    and the RAM disk, \<open>FS_Blocks\<close> the layout, cache, bitmap and inodes, \<open>FileSystem\<close> the operations.
  \<^item> Firmware updates: \<open>Flash\<close> is \<^verbatim>\<open>drivers/flash.c\<close>, \<open>OTA\<close> is \<^verbatim>\<open>src/ota.c\<close> and \<open>Bootloader\<close> is
    \<^verbatim>\<open>src/bootloader.c\<close>, which reads from the flash what \<open>OTA\<close> has written there.
  \<^item> Network, \<^verbatim>\<open>src/net/\<close>: \<open>Net\<close> (\<^verbatim>\<open>network.c\<close>), \<open>Ethernet\<close> (\<^verbatim>\<open>ethernet.c\<close>), \<open>IPv4\<close> (\<^verbatim>\<open>ip.c\<close>), \<open>Socket\<close>
    (\<^verbatim>\<open>socket.c\<close>), \<open>Network\<close> (the input path through these files), \<open>Loopback\<close>
    (\<^verbatim>\<open>drivers/loopback_net.c\<close>), \<open>Http\<close> (\<^verbatim>\<open>http_dns.c\<close>).
  \<^item> Protocols over the sockets: \<open>Mqtt\<close> is \<^verbatim>\<open>src/mqtt.c\<close>, \<open>Coap\<close> is \<^verbatim>\<open>src/coap.c\<close>.

  \<open>Prelude\<close> and \<open>Bytes\<close> have the machine integers, error codes, linked lists and byte orders that
  the theories share. A theory \<open>X_Lemmas\<close> holds facts on the component \<open>X\<close>, and \<open>X_Spec\<close> its properties
  with the concrete states to which they are applied; \<open>Scheduling\<close>, \<open>FS_Disk\<close>, \<open>FS_Inodes\<close>, \<open>FS_Files\<close>,
  \<open>FS_Work\<close>, \<open>Net_Checksum\<close> are further libraries of this kind.

  \<^bold>\<open>How C is represented.\<close> Definitions keep the names of the C functions. A definition for a part
  of a function, such as the body of a loop or the work between two locks, has a name of its own.
  Integers are words of their width, where the source
  wraps around so does the model; \<^verbatim>\<open>int\<close> results of which only the sign or a small value
  matters are \<open>int\<close>. Pointers are addresses or \<open>None\<close> for NULL; arrays on which nothing depends but
  their content are lists. Error codes are values of the enumerations of the source. The value
  \<open>None\<close> of an operation means that it does not complete: it dereferences NULL, leaves an array,
  or loops forever. Constants of the headers are definitions of the same name.

  \<^bold>\<open>Loops and termination.\<close> No definition has fuel. Loops over counters and buffers are recursive
  functions with a measure: bytes that remain, or segments of a path. Loops along linked lists,
  the polling loops and the loops that wait for packets may run forever; they are partial
  functions into options, and the properties that an operation returns prove that its value is
  not \<open>None\<close>, as for locking a mutex, delays, queues, sockets and timers. All bounds are those of the
  source: 8 tasks, 8 monitored tasks, 4096 bytes of heap, 512-byte blocks, 1152-byte CoAP messages,
  and so on.

  \<^bold>\<open>Parameters.\<close> Code outside of the repository is an argument. \<^verbatim>\<open>context_switch\<close> is \<open>cs\<close>: \<open>cs old new s\<close>
  is the state when the call returns to \<open>old\<close>. Where a property needs a hypothesis on it, it is
  named: \<open>resumes cs\<close> says that when the call returns, the task that gave up the processor is
  current again, the kernel is consistent, and fewer than \<open>2 ^ 30\<close> ticks have passed; \<open>obj_stable\<close>, \<open>leaves_net\<close>, \<open>leaves_fs\<close> and \<open>leaves_mqtt\<close> say that
  the tasks that ran in between left the objects in question alone. The instance \<open>cs_back\<close>, in which
  the task is resumed at once, satisfies all of them. Callbacks of timers, watchdog, OTA, MQTT
  and CoAP, the hooks of a board, storage and network drivers, and floating-point arithmetic are
  arguments as well; local variables that the source leaves uninitialised have arbitrary content.
  Which variables the linker places behind \<^verbatim>\<open>block_bitmap\<close> is not known either: the file system
  transfers 512 bytes from and to this array of 128, and what the others do is given by the fields
  \<open>behind_read\<close> and \<open>behind_write\<close> of its environment.

  \<^bold>\<open>Conditions.\<close> Some operations need a duty of their callers that the code does not check; it is
  part of the reachable states. \<open>kguard\<close>: \<^verbatim>\<open>os_task_create\<close> is not given a control block that is in a
  ready queue. \<open>tguard\<close>: an active timer is not created again, and \<^verbatim>\<open>os_timer_process\<close> does not meet a due
  auto-reload timer whose period is 0 or above half the range of the tick counter. A reset in the properties of the boot loader
  runs it again on the flash as it is, with the flash driver initialised (\<open>boots\<close>); the simulated
  flash of \<^verbatim>\<open>drivers/flash.c\<close> is an array in RAM, which \<^verbatim>\<open>flash_init\<close> would erase if the reset also cleared its
  flag.

  \<^bold>\<open>Interfaces.\<close> \<open>ready_queues\<close> is what the scheduler relies on, provided by the bitmap and the
  chains of \<^verbatim>\<open>src/kernel.c\<close>; \<open>polling\<close> is the contract of one round of a wait, provided by mutexes,
  semaphores and event groups; \<open>bounded_queue\<close> is provided by the ring buffer of message queues and
  by the loopback driver; \<open>block_storage\<close> and its extension \<open>fs_storage\<close>, a device whose blocks the bitmap
  covers, are provided by the RAM disk.

  \<^bold>\<open>What is shown.\<close>

  \<^item> Kernel: every sequence of operations keeps the ready queues, the bitmap and the states of
    tasks consistent; the scheduler refines a priority-ordered queue, takes the most urgent task
    and serves equals in turn; a delay ends after its ticks; a task that is alone at the most urgent
    priority is lost by yielding twice.
  \<^item> Synchronisation: locking with a timeout returns, with the mutex or after the timeout; the
    owner inherits the priority of who waits;
    only the owner unlocks; a message queue is a bounded first-in first-out queue and returns what
    was sent.
  \<^item> Timers are kept sorted by expiry over any operations and runs of the tick handler, and fire
    when they are due, within half the range of the tick counter. The allocator hands out consecutive
    blocks of an untouched pool; a released block joins the rest of the pool and is used again.
    Registration of tasks with the watchdog refines a list, every sequence of calls keeps its table
    consistent, and feeding detects exactly the late tasks. Regions of the protection unit get the registers of
    the architecture.
  \<^item> File system: the cache is transparent, allocation takes the first free block and, on a device of
    more than 1024 blocks, leaves the bitmap when the first 1024 are used; what is written to a
    file is read back; data written into a hole is lost.
  \<^item> Updates: the CRC by table is the serial one; an image that was received is stored and booted;
    the boot loader only jumps to a partition with the magic number and a fitting size of an image on the
    flash, which is its own only if the boot information says so, and rolls back an update that is not
    confirmed.
  \<^item> Network: a datagram sent over the loopback driver is received as it was sent; a
    receiver that follows RFC 1071 accepts the checksums; addresses are parsed as printed; the calls of the
    driver answer as a queue of three frames; a packet with a short
    total length is read beyond its end. HTTP requests up to 511 bytes are sent exactly.
  \<^item> MQTT: lengths and messages are decoded as encoded, which topics a filter matches is given exactly
    (never any with plain text after a single-level wildcard), and connecting always fails. CoAP: messages are decoded as encoded, the encoder stops exactly at the end of
    its buffer, and the path of a request arrives intact only if it has one segment.

  \<^bold>\<open>Not modelled.\<close> The programs under \<^verbatim>\<open>examples/\<close> are demonstrations that call the services and
  print; they promise nothing of their own. \<^verbatim>\<open>coap_pdu_print\<close> and the console output of other
  functions have no effect on the state. The context switch and the hardware itself are not part
  of the sources. Interrupts occur at the tick only; a critical section is
  the value of \<^verbatim>\<open>PRIMASK\<close>, since the model has a single thread of control, and other tasks run where
  the code gives up the processor.
\<close>

end
